(* ===== verification/Prelude.thy ===== *)
theory Prelude
  imports Main "HOL-Library.Word"
begin

text \<open>
  Shared vocabulary of the development: bytes and the little-endian layout of the
  integers that the program copies between structs and buffers with \<open>memcpy\<close>, the
  copy itself, \<open>size_t\<close> subtraction, faults (reads and writes outside a memory area),
  \<open>std::to_string\<close> of an unsigned number, and two interfaces used by several
  components: a fixed-width codec and a machine driven by events.
\<close>

unbundle bit_operations_syntax

named_theorems layout_simps \<open>positions and widths of the packed fields\<close>
named_theorems codec_simps \<open>reading back what was written\<close>

type_synonym byte = "8 word"
type_synonym port_t = "16 word"
type_synonym sequence_t = "16 word"
type_synonym secret_t = "32 word"
type_synonym stage_device_id_t = "8 word"
type_synonym epmode_t = "8 word"

section \<open>Faults\<close>

text \<open>
  C++ leaves an access outside a memory area undefined. The model makes it a value: an
  operation that would read or write outside the area it was given returns
  \<open>Inl Out_of_bounds\<close>.
\<close>

datatype fault = Out_of_bounds

type_synonym 'a res = "fault + 'a"

fun bind_res :: "'a res \<Rightarrow> ('a \<Rightarrow> 'b res) \<Rightarrow> 'b res" where
  "bind_res (Inl e) f = Inl e"
| "bind_res (Inr x) f = f x"

lemma bind_res_Inr_iff: "bind_res r f = Inr y \<longleftrightarrow> (\<exists>x. r = Inr x \<and> f x = Inr y)"
  by (cases r) auto

section \<open>Sizes\<close>

text \<open>
  A \<open>size_t\<close> is a natural number below \<open>2 ^ 64\<close>. Sums of buffer sizes stay far below
  that bound; subtractions wrap around and are written with \<open>size_sub\<close>.
\<close>

definition size_sub :: "nat \<Rightarrow> nat \<Rightarrow> nat" where
  "size_sub a b = (a + (2 ^ 64 - b)) mod 2 ^ 64"

lemma size_sub_eq [simp]: "b \<le> a \<Longrightarrow> a < 2 ^ 64 \<Longrightarrow> size_sub a b = a - b"
proof -
  assume "b \<le> a" and "a < 2 ^ 64"
  then have "a + (2 ^ 64 - b) = (a - b) + 2 ^ 64" by simp
  then have "size_sub a b = ((a - b) + 2 ^ 64) mod 2 ^ 64" by (simp only: size_sub_def)
  also have "\<dots> = (a - b) mod 2 ^ 64" by simp
  finally show ?thesis using \<open>a < 2 ^ 64\<close> by simp
qed

lemma size_sub_wrap: "a < b \<Longrightarrow> b \<le> 2 ^ 64 \<Longrightarrow> size_sub a b = 2 ^ 64 - (b - a)"
  by (simp add: size_sub_def)

section \<open>Memory areas\<close>

text \<open>
  A memory area is the list of its bytes. \<open>blit pos src dst\<close> is
  \<open>memcpy(&dst[pos], src, length src)\<close> for an area that is long enough.
\<close>

definition blit :: "nat \<Rightarrow> 'a list \<Rightarrow> 'a list \<Rightarrow> 'a list" where
  "blit pos src dst = take pos dst @ src @ drop (pos + length src) dst"

lemma length_blit [simp]: "pos + length src \<le> length dst \<Longrightarrow> length (blit pos src dst) = length dst"
  by (simp add: blit_def)

lemma blit_Nil [simp]: "blit pos [] dst = dst"
  by (simp add: blit_def)

text \<open>The bytes of the area read back at the position they were written to.\<close>

lemma read_blit [codec_simps]:
  "pos \<le> length dst \<Longrightarrow> n = length src \<Longrightarrow> take n (drop pos (blit pos src dst)) = src"
  by (simp add: blit_def)

lemma drop_blit: "pos \<le> length dst \<Longrightarrow> drop pos (blit pos src dst) = src @ drop (pos + length src) dst"
  by (simp add: blit_def)

lemma drop_blit_after:
  "pos + length src \<le> k \<Longrightarrow> pos \<le> length dst \<Longrightarrow> drop k (blit pos src dst) = drop k dst"
  by (simp add: blit_def min_def)

lemma nth_blit_other:
  "k < pos \<or> pos + length src \<le> k \<Longrightarrow> pos + length src \<le> length dst \<Longrightarrow> k < length dst \<Longrightarrow>
   blit pos src dst ! k = dst ! k"
  by (auto simp: blit_def nth_append)

lemma take_blit_before: "k \<le> pos \<Longrightarrow> pos \<le> length dst \<Longrightarrow> take k (blit pos src dst) = take k dst"
  by (simp add: blit_def min_def)

lemma take_blit_upto:
  "pos + length src \<le> length dst \<Longrightarrow> take (pos + length src) (blit pos src dst) = take pos dst @ src"
  by (cases src) (auto simp: blit_def min_def)

lemma blit_blit:
  "pos + length xs + length ys \<le> length dst \<Longrightarrow>
   blit (pos + length xs) ys (blit pos xs dst) = blit pos (xs @ ys) dst"
  by (cases xs) (auto simp: blit_def min_def ac_simps)

section \<open>Little-endian integers in memory\<close>

text \<open>
  The byte order of an integer in memory is that of the host; the model is the one of
  the x86 and ARM builds, least significant byte first.
\<close>

definition le_bytes :: "nat \<Rightarrow> 'a::len word \<Rightarrow> byte list" where
  "le_bytes n w = map (\<lambda>i. ucast (drop_bit (8 * i) w)) [0..<n]"

primrec le_word :: "byte list \<Rightarrow> 'a::len word" where
  "le_word [] = 0"
| "le_word (b # bs) = ucast b OR push_bit 8 (le_word bs)"

lemma length_le_bytes [simp, layout_simps]: "length (le_bytes n w) = n"
  by (simp add: le_bytes_def)

lemma bit_le_word:
  "bit (le_word bs :: 'a::len word) k \<longleftrightarrow>
     k < LENGTH('a) \<and> k div 8 < length bs \<and> bit (bs ! (k div 8)) (k mod 8)"
proof (induction bs arbitrary: k)
  case Nil
  then show ?case by simp
next
  case (Cons b bs)
  show ?case
  proof (cases "k < 8")
    case True
    then show ?thesis by (auto simp: bit_simps)
  next
    case False
    then obtain m where m: "k = m + 8" by (metis add.commute le_Suc_ex not_less)
    then have "k div 8 = Suc (m div 8)" and "k mod 8 = m mod 8" by simp_all
    moreover have "\<not> bit b k" using False by (auto dest: bit_imp_le_length)
    ultimately show ?thesis using m Cons.IH [of m] by (auto simp: bit_simps)
  qed
qed

lemma le_word_le_bytes [simp, codec_simps]:
  assumes "LENGTH('a) = 8 * n"
  shows "le_word (le_bytes n (w :: 'a::len word)) = w"
proof (rule bit_eqI)
  fix k assume "possible_bit TYPE('a word) k"
  then have k: "k < LENGTH('a)" by simp
  then have "k div 8 < n" using assms by (simp add: less_mult_imp_div_less mult.commute)
  with k show "bit (le_word (le_bytes n w) :: 'a word) k = bit w k"
    by (simp add: bit_le_word le_bytes_def bit_simps)
qed

lemma le_bytes_ucast:
  assumes "8 * n \<le> LENGTH('b)" and "LENGTH('b) \<le> LENGTH('a)"
  shows "le_bytes n (ucast (w :: 'a::len word) :: 'b::len word) = le_bytes n w"
proof -
  have "(ucast (drop_bit (8 * i) (ucast w :: 'b word)) :: byte) = ucast (drop_bit (8 * i) w)" if "i < n" for i
    using that assms by (intro bit_eqI) (auto simp: bit_simps)
  then show ?thesis by (simp add: le_bytes_def)
qed

text \<open>
  A fixed-width codec: what a field of a packed message or of a struct promises. A value
  blitted into an area and read back at the same position is the value.
\<close>

locale fixed_codec =
  fixes enc :: "'a \<Rightarrow> byte list" and dec :: "byte list \<Rightarrow> 'a" and width :: nat
  assumes enc_length: "length (enc v) = width"
    and dec_enc: "dec (enc v) = v"
begin

lemma dec_take: "n = width \<Longrightarrow> dec (take n (enc v @ rest)) = v"
  by (simp add: enc_length dec_enc)

lemma dec_blit: "pos \<le> length dst \<Longrightarrow> n = width \<Longrightarrow> dec (take n (drop pos (blit pos (enc v) dst))) = v"
  by (simp add: read_blit enc_length dec_enc)

lemma enc_inj: "enc v = enc w \<longleftrightarrow> v = w"
  by (metis dec_enc)

lemma length_blit_enc: "pos + width \<le> length dst \<Longrightarrow> length (blit pos (enc v) dst) = length dst"
  by (simp add: enc_length)

end

interpretation u8: fixed_codec "le_bytes 1 :: 8 word \<Rightarrow> byte list" le_word 1
  by unfold_locales simp_all

interpretation u16: fixed_codec "le_bytes 2 :: 16 word \<Rightarrow> byte list" le_word 2
  by unfold_locales simp_all

interpretation u32: fixed_codec "le_bytes 4 :: 32 word \<Rightarrow> byte list" le_word 4
  by unfold_locales simp_all

interpretation u64: fixed_codec "le_bytes 8 :: 64 word \<Rightarrow> byte list" le_word 8
  by unfold_locales simp_all

section \<open>Signed conversions\<close>

text \<open>
  Conversion of a signed 16-bit difference to \<open>size_t\<close> arithmetic: C++ converts the
  \<open>int\<close> to the 64-bit unsigned type modulo \<open>2 ^ 64\<close>.
\<close>

definition int_of_seq :: "sequence_t \<Rightarrow> int" where
  "int_of_seq s = sint s"

lemma int_of_seq_bounds: "- 32768 \<le> int_of_seq s" "int_of_seq s < 32768"
  using sint_range_size [of s] by (simp_all add: int_of_seq_def word_size)

lemma int_of_seq_of_int: "- 32768 \<le> i \<Longrightarrow> i < 32768 \<Longrightarrow> int_of_seq (word_of_int i) = i"
  by (simp add: int_of_seq_def sint_sbintrunc' signed_take_bit_int_eq_self)

lemma word_of_int_of_seq [simp]: "word_of_int (int_of_seq s) = s"
  by (simp add: int_of_seq_def)

lemma int_of_seq_0_iff [simp]: "int_of_seq s = 0 \<longleftrightarrow> s = 0"
  by (metis int_of_seq_def sint_0 word_of_int_of_seq word_of_int_0)

section \<open>Decimal output\<close>

definition digit_char :: "nat \<Rightarrow> char" where
  "digit_char d = char_of (48 + d)"

fun show_nat :: "nat \<Rightarrow> string" where
  "show_nat n = (if n < 10 then [digit_char n] else show_nat (n div 10) @ [digit_char (n mod 10)])"

declare show_nat.simps [simp del]

text \<open>Reading a decimal number back, for the injectivity of the output.\<close>

definition nat_of_digits :: "string \<Rightarrow> nat" where
  "nat_of_digits s = foldl (\<lambda>n c. 10 * n + (of_char c - 48)) 0 s"

lemma of_char_digit_char: "d < 10 \<Longrightarrow> (of_char (digit_char d) :: nat) = 48 + d"
  by (simp add: digit_char_def)

lemma nat_of_digits_show_nat [simp]: "nat_of_digits (show_nat n) = n"
proof (induction n rule: show_nat.induct)
  case (1 n)
  show ?case
  proof (cases "n < 10")
    case True
    then show ?thesis by (simp add: show_nat.simps [of n] nat_of_digits_def of_char_digit_char)
  next
    case False
    with "1.IH" have "nat_of_digits (show_nat (n div 10)) = n div 10" by simp
    then show ?thesis using False
      by (simp add: show_nat.simps [of n] nat_of_digits_def of_char_digit_char)
  qed
qed

lemma show_nat_inj [simp]: "show_nat m = show_nat n \<longleftrightarrow> m = n"
  by (metis nat_of_digits_show_nat)

lemma show_nat_digits: "c \<in> set (show_nat n) \<Longrightarrow> \<exists>d<10. c = digit_char d"
proof (induction n rule: show_nat.induct)
  case (1 n)
  then show ?case by (subst (asm) (2) show_nat.simps)
      (auto split: if_splits intro: exI [of _ "n mod 10"])
qed

lemma digit_char_neq: "d < 10 \<Longrightarrow> digit_char d \<noteq> CHR ''.''" "d < 10 \<Longrightarrow> digit_char d \<noteq> CHR ''/''"
  using of_char_digit_char [of d] by auto

lemma sep_notin_show_nat [simp]: "CHR ''.'' \<notin> set (show_nat n)" "CHR ''/'' \<notin> set (show_nat n)"
  using show_nat_digits digit_char_neq by metis+

text \<open>Two lists cut at the first separator agree piece by piece.\<close>

lemma split_at_sep:
  "c \<notin> set xs \<Longrightarrow> c \<notin> set xs' \<Longrightarrow> xs @ c # ys = xs' @ c # ys' \<longleftrightarrow> xs = xs' \<and> ys = ys'"
  by (auto simp: append_eq_append_conv2 Cons_eq_append_conv append_eq_Cons_conv)

section \<open>Machines driven by events\<close>

text \<open>
  A component whose operations are steps of a machine: an invariant kept by every step is
  kept by every run.
\<close>

locale event_machine =
  fixes step :: "'s \<Rightarrow> 'e \<Rightarrow> 's" and inv :: "'s \<Rightarrow> bool"
  assumes step_inv: "inv s \<Longrightarrow> inv (step s e)"
begin

lemma run_inv: "inv s \<Longrightarrow> inv (foldl step s es)"
  by (induction es arbitrary: s) (auto intro: step_inv)

lemma run_take_inv: "inv s \<Longrightarrow> inv (foldl step s (take n es))"
  by (rule run_inv)

end

end
