(* ===== verification/Std_Map.thy ===== *)
theory Std_Map
  imports Prelude
begin

text \<open>
  \<open>std::map\<close>: the standard library's ordered map. It is modelled by the list of its
  entries in the order in which an iterator visits them, by increasing key. The laws a
  client may use (what a lookup returns after an insertion or an erasure, which
  operations keep the order) are the locale \<open>ordered_dict\<close>, interpreted on the model.
\<close>

type_synonym ('k, 'v) omap = "('k \<times> 'v) list"

fun omap_put :: "'k::linorder \<Rightarrow> 'v \<Rightarrow> ('k, 'v) omap \<Rightarrow> ('k, 'v) omap" where
  "omap_put k v [] = [(k, v)]"
| "omap_put k v ((k', v') # m) =
     (if k < k' then (k, v) # (k', v') # m
      else if k = k' then (k, v) # m
      else (k', v') # omap_put k v m)"

fun omap_erase :: "'k::linorder \<Rightarrow> ('k, 'v) omap \<Rightarrow> ('k, 'v) omap" where
  "omap_erase k [] = []"
| "omap_erase k ((k', v') # m) = (if k = k' then m else (k', v') # omap_erase k m)"

definition omap_wf :: "('k::linorder, 'v) omap \<Rightarrow> bool" where
  "omap_wf m \<longleftrightarrow> sorted_wrt (<) (map fst m)"

text \<open>\<open>m[k]\<close>: the entry of \<open>k\<close>, inserted with the default value when there is none.\<close>

definition omap_index :: "'v \<Rightarrow> 'k::linorder \<Rightarrow> ('k, 'v) omap \<Rightarrow> 'v \<times> ('k, 'v) omap" where
  "omap_index d k m = (case map_of m k of Some v \<Rightarrow> (v, m) | None \<Rightarrow> (d, omap_put k d m))"

lemma entries_by_key:
  "distinct (map fst es) \<Longrightarrow> map ((\<lambda>k. (k, the (map_of es k))) \<circ> fst) es = es"
  by (rule map_idI) (auto simp: map_of_is_SomeI)

section \<open>The interface\<close>

locale ordered_dict =
  fixes put :: "'k::linorder \<Rightarrow> 'v \<Rightarrow> 'm \<Rightarrow> 'm"
    and erase :: "'k \<Rightarrow> 'm \<Rightarrow> 'm"
    and lookup :: "'m \<Rightarrow> 'k \<Rightarrow> 'v option"
    and entries :: "'m \<Rightarrow> ('k \<times> 'v) list"
    and wf :: "'m \<Rightarrow> bool"
  assumes lookup_put: "wf m \<Longrightarrow> lookup (put k v m) = (lookup m)(k \<mapsto> v)"
    and lookup_erase: "wf m \<Longrightarrow> lookup (erase k m) = (lookup m)(k := None)"
    and wf_put: "wf m \<Longrightarrow> wf (put k v m)"
    and wf_erase: "wf m \<Longrightarrow> wf (erase k m)"
    and lookup_entries: "lookup m = map_of (entries m)"
    and entries_sorted: "wf m \<Longrightarrow> sorted_wrt (<) (map fst (entries m))"
begin

lemma lookup_put_same: "wf m \<Longrightarrow> lookup (put k v m) k = Some v"
  by (simp add: lookup_put)

lemma lookup_put_other: "wf m \<Longrightarrow> k' \<noteq> k \<Longrightarrow> lookup (put k v m) k' = lookup m k'"
  by (simp add: lookup_put)

lemma lookup_put_put: "wf m \<Longrightarrow> lookup (put k v' (put k v m)) = lookup (put k v' m)"
  by (simp add: lookup_put wf_put)

lemma lookup_erase_put: "wf m \<Longrightarrow> lookup m k = None \<Longrightarrow> lookup (erase k (put k v m)) = lookup m"
  by (auto simp: lookup_put lookup_erase wf_put)

lemma entries_distinct: "wf m \<Longrightarrow> distinct (map fst (entries m))"
  using entries_sorted strict_sorted_iff by blast

lemma entry_iff: "wf m \<Longrightarrow> (k, v) \<in> set (entries m) \<longleftrightarrow> lookup m k = Some v"
  by (simp add: lookup_entries entries_distinct)

text \<open>Iterating over an ordered map visits a list that the lookups determine.\<close>

lemma entries_unique:
  assumes "wf m" and "wf m'" and eq: "lookup m = lookup m'"
  shows "entries m = entries m'"
proof -
  have keys: "map fst (entries m) = map fst (entries m')"
  proof (rule sorted_distinct_set_unique)
    show "set (map fst (entries m)) = set (map fst (entries m'))"
      using eq by (simp add: lookup_entries) (metis dom_map_of_conv_image_fst)
  qed (use assms entries_sorted strict_sorted_iff in blast)+
  have "entries m = map (\<lambda>k. (k, the (lookup m k))) (map fst (entries m))"
    using entries_distinct [OF assms(1)] by (simp add: lookup_entries entries_by_key)
  also have "\<dots> = map (\<lambda>k. (k, the (lookup m' k))) (map fst (entries m'))"
    using keys eq by simp
  also have "\<dots> = entries m'"
    using entries_distinct [OF assms(2)] by (simp add: lookup_entries entries_by_key)
  finally show ?thesis .
qed

end

section \<open>The interface holds of the entry list\<close>

lemma omap_wf_Cons: "omap_wf ((k, v) # m) \<longleftrightarrow> (\<forall>k'\<in>fst ` set m. k < k') \<and> omap_wf m"
  by (auto simp: omap_wf_def)

lemma omap_wf_Nil [simp, intro]: "omap_wf []"
  by (simp add: omap_wf_def)

lemma keys_omap_put: "fst ` set (omap_put k v m) = insert k (fst ` set m)"
  by (induction k v m rule: omap_put.induct) auto

lemma keys_omap_erase: "fst ` set (omap_erase k m) \<subseteq> fst ` set m"
  by (induction k m rule: omap_erase.induct) auto

lemma map_of_omap_put: "omap_wf m \<Longrightarrow> map_of (omap_put k v m) = (map_of m)(k \<mapsto> v)"
  by (induction k v m rule: omap_put.induct) (auto simp: omap_wf_Cons fun_eq_iff)

lemma map_of_omap_erase: "omap_wf m \<Longrightarrow> map_of (omap_erase k m) = (map_of m)(k := None)"
proof (induction k m rule: omap_erase.induct)
  case (2 k k' v' m)
  then have "k = k' \<Longrightarrow> map_of m k = None" by (force simp: omap_wf_Cons map_of_eq_None_iff)
  with 2 show ?case by (auto simp: omap_wf_Cons fun_eq_iff)
qed simp

lemma omap_wf_put [simp, intro]: "omap_wf m \<Longrightarrow> omap_wf (omap_put k v m)"
  by (induction k v m rule: omap_put.induct) (auto simp: omap_wf_Cons keys_omap_put)

lemma omap_wf_erase [simp, intro]: "omap_wf m \<Longrightarrow> omap_wf (omap_erase k m)"
  using keys_omap_erase by (induction k m rule: omap_erase.induct) (fastforce simp: omap_wf_Cons)+

interpretation omap: ordered_dict omap_put omap_erase map_of "\<lambda>m. m" omap_wf
  by unfold_locales (simp_all add: map_of_omap_put map_of_omap_erase omap_wf_def [symmetric])

lemma omap_index_value: "fst (omap_index d k m) = (case map_of m k of Some v \<Rightarrow> v | None \<Rightarrow> d)"
  by (simp add: omap_index_def split: option.split)

lemma omap_index_lookup:
  "omap_wf m \<Longrightarrow> map_of (snd (omap_index d k m)) = (map_of m)(k \<mapsto> fst (omap_index d k m))"
  by (auto simp: omap_index_def omap.lookup_put fun_eq_iff split: option.split)

lemma omap_wf_index [simp, intro]: "omap_wf m \<Longrightarrow> omap_wf (snd (omap_index d k m))"
  by (simp add: omap_index_def split: option.split)

end
