(* ===== verification/Ov_Types.thy ===== *)
theory Ov_Types
  imports Complex_Main Std_Map "HOL-Library.List_Lexorder" "HOL-Library.Char_ord"
begin

text \<open>
  The configuration data of a session (\<open>ov_types.h\<close>, \<open>ov_types.cc\<close>): devices, channels, plugins,
  rendering settings and the stage, their default values and the comparison operators that
  decide about restarts. A \<open>float\<close> is the real number that it holds (no NaN); a constant is the
  nearest single-precision number.
\<close>

section \<open>Positions\<close>

record pos =
  pos_x :: real
  pos_y :: real
  pos_z :: real

record zyx_euler =
  rot_z :: real
  rot_y :: real
  rot_x :: real

definition default_pos :: pos where "default_pos = \<lparr>pos_x = 0, pos_y = 0, pos_z = 0\<rparr>"

definition default_roomsize :: pos where "default_roomsize = \<lparr>pos_x = 15 / 2, pos_y = 13, pos_z = 5\<rparr>"

definition default_rot :: zyx_euler where "default_rot = \<lparr>rot_z = 0, rot_y = 0, rot_x = 0\<rparr>"

definition pos_neq :: "pos \<Rightarrow> pos \<Rightarrow> bool" where
  "pos_neq a b \<longleftrightarrow> pos_x a \<noteq> pos_x b \<or> pos_y a \<noteq> pos_y b \<or> pos_z a \<noteq> pos_z b"

definition euler_neq :: "zyx_euler \<Rightarrow> zyx_euler \<Rightarrow> bool" where
  "euler_neq a b \<longleftrightarrow> rot_x a \<noteq> rot_x b \<or> rot_y a \<noteq> rot_y b \<or> rot_z a \<noteq> rot_z b"

section \<open>Audio devices and channels\<close>

record audio_device =
  ad_drivername :: string
  ad_devicename :: string
  ad_srate :: real
  ad_periodsize :: "32 word"
  ad_numperiods :: "32 word"
  ad_priority :: "32 word"

definition audio_neq :: "audio_device \<Rightarrow> audio_device \<Rightarrow> bool" where
  "audio_neq a b \<longleftrightarrow> ad_drivername a \<noteq> ad_drivername b \<or> ad_devicename a \<noteq> ad_devicename b \<or>
     ad_srate a \<noteq> ad_srate b \<or> ad_periodsize a \<noteq> ad_periodsize b \<or>
     ad_numperiods a \<noteq> ad_numperiods b \<or> ad_priority a \<noteq> ad_priority b"

record channel_plugin =
  plug_name :: string
  plug_params :: "(string, string) omap"

definition plugin_eq :: "channel_plugin \<Rightarrow> channel_plugin \<Rightarrow> bool" where
  "plugin_eq a b \<longleftrightarrow> plug_name a = plug_name b \<and> plug_params a = plug_params b"

record device_channel =
  ch_id :: string
  ch_sourceport :: string
  ch_gain :: real
  ch_position :: pos
  ch_directivity :: string
  ch_plugins :: "channel_plugin list"
  ch_name :: string

definition device_channel_ctor :: "string \<Rightarrow> string \<Rightarrow> real \<Rightarrow> pos \<Rightarrow> string \<Rightarrow> device_channel" where
  "device_channel_ctor cid sourceport gain position directivity =
     \<lparr>ch_id = cid, ch_sourceport = sourceport, ch_gain = gain, ch_position = position,
      ch_directivity = directivity, ch_plugins = [], ch_name = []\<rparr>"

definition channel_neq :: "device_channel \<Rightarrow> device_channel \<Rightarrow> bool" where
  "channel_neq a b \<longleftrightarrow> ch_sourceport a \<noteq> ch_sourceport b \<or> ch_gain a \<noteq> ch_gain b \<or>
     pos_neq (ch_position a) (ch_position b) \<or> ch_directivity a \<noteq> ch_directivity b \<or>
     ch_name a \<noteq> ch_name b \<or> \<not> list_all2 plugin_eq (ch_plugins a) (ch_plugins b)"

text \<open>The loop over two vectors of the same size.\<close>

fun some_channel_neq :: "device_channel list \<Rightarrow> device_channel list \<Rightarrow> bool" where
  "some_channel_neq (a # as) (b # bs) = (if channel_neq a b then True else some_channel_neq as bs)"
| "some_channel_neq as bs = False"

definition channels_neq :: "device_channel list \<Rightarrow> device_channel list \<Rightarrow> bool" where
  "channels_neq as bs = (if length as \<noteq> length bs then True else some_channel_neq as bs)"

section \<open>Stage devices\<close>

record stage_device =
  sd_id :: stage_device_id_t
  sd_uid :: string
  sd_label :: string
  sd_channels :: "device_channel list"
  sd_position :: pos
  sd_orientation :: zyx_euler
  sd_gain :: real
  sd_mute :: bool
  sd_senderjitter :: real
  sd_receiverjitter :: real
  sd_sendlocal :: bool
  sd_receivedownmix :: bool
  sd_senddownmix :: bool
  sd_nozita :: bool
  sd_hiresping :: bool

definition default_device :: stage_device where
  "default_device =
     \<lparr>sd_id = 0, sd_uid = [], sd_label = [], sd_channels = [], sd_position = default_pos,
      sd_orientation = default_rot, sd_gain = 1, sd_mute = False, sd_senderjitter = 5, sd_receiverjitter = 5,
      sd_sendlocal = True, sd_receivedownmix = False, sd_senddownmix = False, sd_nozita = False,
      sd_hiresping = False\<rparr>"

text \<open>\<open>stage_device_t()\<close>, the entry that \<open>std::map::operator[]\<close> inserts.\<close>

definition zero_device :: stage_device where
  "zero_device =
     \<lparr>sd_id = 0, sd_uid = [], sd_label = [], sd_channels = [], sd_position = default_pos,
      sd_orientation = default_rot, sd_gain = 0, sd_mute = False, sd_senderjitter = 0, sd_receiverjitter = 0,
      sd_sendlocal = False, sd_receivedownmix = False, sd_senddownmix = False, sd_nozita = False,
      sd_hiresping = False\<rparr>"

definition device_neq :: "stage_device \<Rightarrow> stage_device \<Rightarrow> bool" where
  "device_neq a b \<longleftrightarrow> sd_id a \<noteq> sd_id b \<or> sd_uid a \<noteq> sd_uid b \<or> sd_label a \<noteq> sd_label b \<or>
     channels_neq (sd_channels a) (sd_channels b) \<or> pos_neq (sd_position a) (sd_position b) \<or>
     euler_neq (sd_orientation a) (sd_orientation b) \<or> sd_gain a \<noteq> sd_gain b \<or> sd_mute a \<noteq> sd_mute b \<or>
     sd_senderjitter a \<noteq> sd_senderjitter b \<or> sd_receiverjitter a \<noteq> sd_receiverjitter b \<or>
     sd_sendlocal a \<noteq> sd_sendlocal b \<or> sd_receivedownmix a \<noteq> sd_receivedownmix b \<or>
     sd_senddownmix a \<noteq> sd_senddownmix b \<or> sd_nozita a \<noteq> sd_nozita b \<or> sd_hiresping a \<noteq> sd_hiresping b"

type_synonym stage_map = "(stage_device_id_t, stage_device) omap"

fun some_device_neq :: "stage_map \<Rightarrow> stage_map \<Rightarrow> bool" where
  "some_device_neq ((i, a) # as) ((j, b) # bs) =
     (if i \<noteq> j then True else if device_neq a b then True else some_device_neq as bs)"
| "some_device_neq as bs = False"

definition stage_neq :: "stage_map \<Rightarrow> stage_map \<Rightarrow> bool" where
  "stage_neq a b = (if length a \<noteq> length b then True else some_device_neq a b)"

section \<open>Rendering settings\<close>

record render_settings =
  rs_id :: stage_device_id_t
  rs_roomsize :: pos
  rs_absorption :: real
  rs_damping :: real
  rs_reverbgain :: real
  rs_reverbgainroom :: real
  rs_reverbgaindev :: real
  rs_renderreverb :: bool
  rs_renderism :: bool
  rs_distancelaw :: bool
  rs_rawmode :: bool
  rs_receive :: bool
  rs_rectype :: string
  rs_egogain :: real
  rs_outputgain :: real
  rs_peer2peer :: bool
  rs_outputport1 :: string
  rs_outputport2 :: string
  rs_xports :: "(string, string) omap"
  rs_xrecport :: "port_t list"
  rs_secrec :: real
  rs_headtracking :: bool
  rs_headtrackingserial :: bool
  rs_headtrackingrotrec :: bool
  rs_headtrackingrotsrc :: bool
  rs_headtrackingport :: port_t
  rs_ambientsound :: string
  rs_ambientlevel :: real
  rs_lmetertc :: real
  rs_lmeterfw :: string
  rs_delaycomp :: real
  rs_decorr :: real
  rs_usetcptunnel :: bool
  rs_encryption :: bool

definition render_settings_ctor :: render_settings where
  "render_settings_ctor =
     \<lparr>rs_id = 0, rs_roomsize = default_roomsize, rs_absorption = 10066330 / 2 ^ 24, rs_damping = 11744051 / 2 ^ 24,
      rs_reverbgain = 1, rs_reverbgainroom = 1, rs_reverbgaindev = 1, rs_renderreverb = True,
      rs_renderism = False, rs_distancelaw = False, rs_rawmode = False, rs_receive = True,
      rs_rectype = ''hrtf'', rs_egogain = 1, rs_outputgain = 1, rs_peer2peer = True, rs_outputport1 = [],
      rs_outputport2 = [], rs_xports = [], rs_xrecport = [], rs_secrec = 0, rs_headtracking = False,
      rs_headtrackingserial = False, rs_headtrackingrotrec = True, rs_headtrackingrotsrc = True,
      rs_headtrackingport = 0, rs_ambientsound = [], rs_ambientlevel = 50, rs_lmetertc = 1 / 2,
      rs_lmeterfw = ''Z'', rs_delaycomp = 10066330 / 2 ^ 22, rs_decorr = 0, rs_usetcptunnel = False,
      rs_encryption = True\<rparr>"

definition settings_neq :: "render_settings \<Rightarrow> render_settings \<Rightarrow> bool" where
  "settings_neq a b \<longleftrightarrow> rs_id a \<noteq> rs_id b \<or> pos_neq (rs_roomsize a) (rs_roomsize b) \<or>
     rs_absorption a \<noteq> rs_absorption b \<or> rs_damping a \<noteq> rs_damping b \<or>
     rs_reverbgain a \<noteq> rs_reverbgain b \<or> rs_reverbgainroom a \<noteq> rs_reverbgainroom b \<or>
     rs_reverbgaindev a \<noteq> rs_reverbgaindev b \<or>
     rs_renderreverb a \<noteq> rs_renderreverb b \<or> rs_renderism a \<noteq> rs_renderism b \<or>
     rs_distancelaw a \<noteq> rs_distancelaw b \<or> rs_rawmode a \<noteq> rs_rawmode b \<or>
     rs_receive a \<noteq> rs_receive b \<or> rs_rectype a \<noteq> rs_rectype b \<or>
     rs_egogain a \<noteq> rs_egogain b \<or> rs_outputgain a \<noteq> rs_outputgain b \<or>
     rs_peer2peer a \<noteq> rs_peer2peer b \<or> rs_outputport1 a \<noteq> rs_outputport1 b \<or>
     rs_outputport2 a \<noteq> rs_outputport2 b \<or> rs_secrec a \<noteq> rs_secrec b \<or>
     rs_xports a \<noteq> rs_xports b \<or> rs_xrecport a \<noteq> rs_xrecport b \<or>
     rs_headtracking a \<noteq> rs_headtracking b \<or>
     rs_headtrackingserial a \<noteq> rs_headtrackingserial b \<or>
     rs_headtrackingrotrec a \<noteq> rs_headtrackingrotrec b \<or>
     rs_headtrackingrotsrc a \<noteq> rs_headtrackingrotsrc b \<or>
     rs_headtrackingport a \<noteq> rs_headtrackingport b \<or>
     rs_ambientsound a \<noteq> rs_ambientsound b \<or> rs_ambientlevel a \<noteq> rs_ambientlevel b \<or>
     rs_lmetertc a \<noteq> rs_lmetertc b \<or> rs_lmeterfw a \<noteq> rs_lmeterfw b \<or>
     rs_delaycomp a \<noteq> rs_delaycomp b \<or> rs_decorr a \<noteq> rs_decorr b \<or>
     rs_usetcptunnel a \<noteq> rs_usetcptunnel b \<or> rs_encryption a \<noteq> rs_encryption b"

section \<open>The stage\<close>

record stage =
  stg_host :: string
  stg_port :: port_t
  stg_pin :: secret_t
  stg_rendersettings :: render_settings
  stg_thisdeviceid :: string
  stg_thisstagedeviceid :: stage_device_id_t
  stg_stage :: stage_map
  stg_thisdevice :: stage_device

definition default_stage :: stage where
  "default_stage =
     \<lparr>stg_host = [], stg_port = 0, stg_pin = 0, stg_rendersettings = render_settings_ctor, stg_thisdeviceid = [],
      stg_thisstagedeviceid = 0, stg_stage = [], stg_thisdevice = default_device\<rparr>"

section \<open>What the comparisons compare\<close>

lemma pos_neq_iff [simp]: "pos_neq a b \<longleftrightarrow> a \<noteq> b"
  by (auto simp: pos_neq_def intro: pos.equality)

lemma euler_neq_iff [simp]: "euler_neq a b \<longleftrightarrow> a \<noteq> b"
  by (auto simp: euler_neq_def intro: zyx_euler.equality)

lemma audio_neq_iff [simp]: "audio_neq a b \<longleftrightarrow> a \<noteq> b"
  by (auto simp: audio_neq_def intro: audio_device.equality)

lemma plugin_eq_iff [simp]: "plugin_eq a b \<longleftrightarrow> a = b"
  by (auto simp: plugin_eq_def intro: channel_plugin.equality)

lemma plugins_eq_iff [simp]: "list_all2 plugin_eq ps qs \<longleftrightarrow> ps = qs"
proof -
  have "plugin_eq = (=)" by (simp add: fun_eq_iff)
  then show ?thesis by (simp add: list.rel_eq)
qed

lemma settings_neq_iff [simp]: "settings_neq a b \<longleftrightarrow> a \<noteq> b"
  by (cases a; cases b) (auto simp: settings_neq_def)

text \<open>Channels without their identifiers.\<close>

definition anonymous_channel :: "device_channel \<Rightarrow> device_channel" where
  "anonymous_channel c = c\<lparr>ch_id := []\<rparr>"

definition anonymous :: "stage_device \<Rightarrow> stage_device" where
  "anonymous d = d\<lparr>sd_channels := map anonymous_channel (sd_channels d)\<rparr>"

lemma channel_neq_iff: "channel_neq a b \<longleftrightarrow> anonymous_channel a \<noteq> anonymous_channel b"
  by (cases a; cases b) (auto simp: channel_neq_def anonymous_channel_def)

lemma channels_neq_iff: "channels_neq as bs \<longleftrightarrow> map anonymous_channel as \<noteq> map anonymous_channel bs"
proof -
  have "length as = length bs \<Longrightarrow> some_channel_neq as bs \<longleftrightarrow> map anonymous_channel as \<noteq> map anonymous_channel bs"
    by (induction as bs rule: list_induct2) (auto simp: channel_neq_iff)
  then show ?thesis by (auto simp: channels_neq_def dest: map_eq_imp_length_eq)
qed

lemma device_neq_iff: "device_neq a b \<longleftrightarrow> anonymous a \<noteq> anonymous b"
  by (cases a; cases b) (auto simp: device_neq_def anonymous_def channels_neq_iff)

lemma stage_neq_iff: "stage_neq a b \<longleftrightarrow> map (apsnd anonymous) a \<noteq> map (apsnd anonymous) b"
proof -
  have "length a = length b \<Longrightarrow> some_device_neq a b \<longleftrightarrow> map (apsnd anonymous) a \<noteq> map (apsnd anonymous) b"
    by (induction a b rule: list_induct2) (auto simp: device_neq_iff)
  then show ?thesis by (auto simp: stage_neq_def dest: map_eq_imp_length_eq)
qed

section \<open>Properties\<close>

text \<open>What the comparisons that decide about restarts see: rendering settings are compared in every
  field; two devices differ exactly when they differ in something other than the
  identifiers of their channels, and two stages when they differ in a device number or in
  such a difference of two devices.\<close>

theorem configuration_comparison:
  "(settings_neq s t \<longleftrightarrow> s \<noteq> t) \<and> (device_neq a b \<longleftrightarrow> anonymous a \<noteq> anonymous b) \<and>
   (stage_neq m n \<longleftrightarrow> map (apsnd anonymous) m \<noteq> map (apsnd anonymous) n)"
  by (simp add: device_neq_iff stage_neq_iff)

end
