(* ===== verification/Wire.thy ===== *)
theory Wire
  imports Prelude
begin

text \<open>
  \<open>src/common.h\<close> and \<open>src/common.cc\<close>: the header of a packed message, the special port
  numbers, the operation mode bits, packing and appending, and encryption of the user
  data. libsodium is not part of the repository: it is a parameter of type \<open>sodium\<close>.
\<close>

section \<open>Constants\<close>

definition BUFSIZE :: nat where "BUFSIZE = 8192"
definition MAX_STAGE_ID :: nat where "MAX_STAGE_ID = 32"
definition STAGE_ID_SERVER :: stage_device_id_t where "STAGE_ID_SERVER = 0xff"

text \<open>The enumeration of the ports reserved for control messages, in its order.\<close>

datatype special_port =
    PORT_REGISTER | PORT_LISTCID | PORT_PING | PORT_PONG | PORT_PEERLATREP | PORT_SEQREP
  | PORT_SETLOCALIP | PORT_PING_SRV | PORT_PONG_SRV | PORT_PING_LOCAL | PORT_PONG_LOCAL
  | PORT_PUBKEY

definition special_ports :: "special_port list" where
  "special_ports =
     [PORT_REGISTER, PORT_LISTCID, PORT_PING, PORT_PONG, PORT_PEERLATREP, PORT_SEQREP,
      PORT_SETLOCALIP, PORT_PING_SRV, PORT_PONG_SRV, PORT_PING_LOCAL, PORT_PONG_LOCAL,
      PORT_PUBKEY]"

fun port_code :: "special_port \<Rightarrow> port_t" where
  "port_code PORT_REGISTER = 0"
| "port_code PORT_LISTCID = 1"
| "port_code PORT_PING = 2"
| "port_code PORT_PONG = 3"
| "port_code PORT_PEERLATREP = 4"
| "port_code PORT_SEQREP = 5"
| "port_code PORT_SETLOCALIP = 6"
| "port_code PORT_PING_SRV = 7"
| "port_code PORT_PONG_SRV = 8"
| "port_code PORT_PING_LOCAL = 9"
| "port_code PORT_PONG_LOCAL = 10"
| "port_code PORT_PUBKEY = 11"

definition MAXSPECIALPORT :: port_t where "MAXSPECIALPORT = 12"

text \<open>The \<open>case\<close> label of a \<open>switch\<close> on a port number.\<close>

definition special_of_port :: "port_t \<Rightarrow> special_port option" where
  "special_of_port p = find (\<lambda>s. port_code s = p) special_ports"

lemma special_of_port_code [simp]: "special_of_port (port_code s) = Some s"
  by (cases s) (simp_all add: special_of_port_def special_ports_def)

lemma port_code_inj [simp]: "port_code s = port_code t \<longleftrightarrow> s = t"
  by (metis option.inject special_of_port_code)

lemma special_of_port_Some: "special_of_port p = Some s \<longleftrightarrow> p = port_code s"
proof
  assume "special_of_port p = Some s"
  then show "p = port_code s" by (auto simp: special_of_port_def find_Some_iff)
qed simp

lemma port_code_less [simp]: "port_code s < MAXSPECIALPORT"
  by (cases s) (simp_all add: MAXSPECIALPORT_def)

lemma port_code_le [simp]: "port_code s \<le> MAXSPECIALPORT"
  by (rule order.strict_implies_order) simp

lemma special_of_port_None: "MAXSPECIALPORT \<le> p \<Longrightarrow> special_of_port p = None"
  using special_of_port_Some port_code_less by (metis leD not_Some_eq)

instantiation special_port :: linorder
begin

definition less_eq_special_port :: "special_port \<Rightarrow> special_port \<Rightarrow> bool" where
  "less_eq_special_port s t \<longleftrightarrow> port_code s \<le> port_code t"

definition less_special_port :: "special_port \<Rightarrow> special_port \<Rightarrow> bool" where
  "less_special_port s t \<longleftrightarrow> port_code s < port_code t"

instance
  by standard (auto simp: less_eq_special_port_def less_special_port_def less_le)

end

section \<open>Operation modes\<close>

definition B_PEER2PEER :: epmode_t where "B_PEER2PEER = 0x01"
definition B_RECEIVEDOWNMIX_deprecated :: epmode_t where "B_RECEIVEDOWNMIX_deprecated = 0x02"
definition B_DONOTSEND :: epmode_t where "B_DONOTSEND = 0x04"
definition B_SENDDOWNMIX_deprecated :: epmode_t where "B_SENDDOWNMIX_deprecated = 0x08"
definition B_USINGPROXY :: epmode_t where "B_USINGPROXY = 0x10"
definition B_ENCRYPTION :: epmode_t where "B_ENCRYPTION = 0x20"

lemmas mode_bits =
  B_PEER2PEER_def B_RECEIVEDOWNMIX_deprecated_def B_DONOTSEND_def B_SENDDOWNMIX_deprecated_def
  B_USINGPROXY_def B_ENCRYPTION_def

definition has_mode :: "epmode_t \<Rightarrow> epmode_t \<Rightarrow> bool" where
  "has_mode mode flag \<longleftrightarrow> mode AND flag \<noteq> 0"

section \<open>The message header\<close>

definition POS_CALLERID :: nat where "POS_CALLERID = 4"
definition POS_PORT :: nat where "POS_PORT = POS_CALLERID + 1"
definition POS_SEQ :: nat where "POS_SEQ = POS_PORT + 2"
definition HEADERLEN :: nat where "HEADERLEN = POS_SEQ + 2"

lemmas header_layout [layout_simps] = POS_CALLERID_def POS_PORT_def POS_SEQ_def HEADERLEN_def

definition msg_secret :: "byte list \<Rightarrow> secret_t" where
  "msg_secret m = le_word (take 4 m)"

definition msg_callerid :: "byte list \<Rightarrow> stage_device_id_t" where
  "msg_callerid m = le_word (take 1 (drop POS_CALLERID m))"

definition msg_port :: "byte list \<Rightarrow> port_t" where
  "msg_port m = le_word (take 2 (drop POS_PORT m))"

definition msg_seq :: "byte list \<Rightarrow> sequence_t" where
  "msg_seq m = le_word (take 2 (drop POS_SEQ m))"

text \<open>The same accessors as the left side of an assignment.\<close>

definition set_msg_secret :: "secret_t \<Rightarrow> byte list \<Rightarrow> byte list" where
  "set_msg_secret v m = blit 0 (le_bytes 4 v) m"

definition set_msg_callerid :: "stage_device_id_t \<Rightarrow> byte list \<Rightarrow> byte list" where
  "set_msg_callerid v m = blit POS_CALLERID (le_bytes 1 v) m"

definition set_msg_port :: "port_t \<Rightarrow> byte list \<Rightarrow> byte list" where
  "set_msg_port v m = blit POS_PORT (le_bytes 2 v) m"

definition set_msg_seq :: "sequence_t \<Rightarrow> byte list \<Rightarrow> byte list" where
  "set_msg_seq v m = blit POS_SEQ (le_bytes 2 v) m"

lemmas header_access =
  msg_secret_def msg_callerid_def msg_port_def msg_seq_def
  set_msg_secret_def set_msg_callerid_def set_msg_port_def set_msg_seq_def

text \<open>The nine bytes of a header, in the order in which they lie in the buffer.\<close>

definition header_bytes ::
  "secret_t \<Rightarrow> stage_device_id_t \<Rightarrow> port_t \<Rightarrow> sequence_t \<Rightarrow> byte list" where
  "header_bytes sec cid p sq = le_bytes 4 sec @ le_bytes 1 cid @ le_bytes 2 p @ le_bytes 2 sq"

lemma length_header_bytes [simp, layout_simps]: "length (header_bytes sec cid p sq) = HEADERLEN"
  by (simp add: header_bytes_def header_layout)

lemma header_bytes_fields [simp]:
  "msg_secret (header_bytes sec cid p sq @ r) = sec"
  "msg_callerid (header_bytes sec cid p sq @ r) = cid"
  "msg_port (header_bytes sec cid p sq @ r) = p"
  "msg_seq (header_bytes sec cid p sq @ r) = sq"
  by (simp_all add: header_access header_bytes_def header_layout)

lemma set_header_fields:
  assumes "HEADERLEN \<le> length m"
  shows "set_msg_seq sq (set_msg_port p (set_msg_callerid cid (set_msg_secret sec m))) =
    header_bytes sec cid p sq @ drop HEADERLEN m"
  using assms by (simp add: header_access header_bytes_def header_layout blit_def)

section \<open>Packing and appending\<close>

definition packmsg ::
  "byte list \<Rightarrow> nat \<Rightarrow> secret_t \<Rightarrow> stage_device_id_t \<Rightarrow> port_t \<Rightarrow> sequence_t \<Rightarrow> byte list \<Rightarrow> nat
     \<Rightarrow> byte list \<times> nat" where
  "packmsg destbuf maxlen secret callerid destport seq msg msglen =
     (if maxlen < HEADERLEN + msglen then (destbuf, 0)
      else
        (let d1 = set_msg_secret secret destbuf;
             d2 = set_msg_callerid callerid d1;
             d3 = set_msg_port destport d2;
             d4 = set_msg_seq seq d3
         in (blit HEADERLEN (take msglen msg) d4, HEADERLEN + msglen)))"

definition addmsg :: "byte list \<Rightarrow> nat \<Rightarrow> nat \<Rightarrow> byte list \<Rightarrow> nat \<Rightarrow> byte list \<times> nat" where
  "addmsg destbuf maxlen currentlen msg msglen =
     (if maxlen < currentlen + msglen then (destbuf, 0)
      else (blit currentlen (take msglen msg) destbuf, currentlen + msglen))"

text \<open>
  What a successful pack leaves in the buffer: the header, the user data, and the rest of
  the buffer as it was.
\<close>

lemma packmsg_ok:
  assumes "HEADERLEN + msglen \<le> maxlen" and "maxlen \<le> length destbuf" and "msglen \<le> length msg"
  shows "packmsg destbuf maxlen sec cid p sq msg msglen =
    (header_bytes sec cid p sq @ take msglen msg @ drop (HEADERLEN + msglen) destbuf, HEADERLEN + msglen)"
proof -
  have "HEADERLEN \<le> length destbuf" using assms by linarith
  then show ?thesis using assms
    by (simp add: packmsg_def set_header_fields not_less blit_def min_def add.commute)
qed

lemma packmsg_fail: "maxlen < HEADERLEN + msglen \<Longrightarrow> packmsg d maxlen sec cid p sq msg msglen = (d, 0)"
  by (simp add: packmsg_def)

lemma length_packmsg:
  "maxlen \<le> length d \<Longrightarrow> msglen \<le> length msg \<Longrightarrow>
   length (fst (packmsg d maxlen sec cid p sq msg msglen)) = length d"
  by (cases "HEADERLEN + msglen \<le> maxlen") (simp_all add: packmsg_ok packmsg_fail)

lemma snd_packmsg_le: "snd (packmsg d maxlen sec cid p sq msg msglen) \<le> maxlen"
  by (simp add: packmsg_def Let_def)

lemma addmsg_ok:
  assumes "currentlen + msglen \<le> maxlen" and "maxlen \<le> length destbuf" and "msglen \<le> length msg"
  shows "addmsg destbuf maxlen currentlen msg msglen =
    (take currentlen destbuf @ take msglen msg @ drop (currentlen + msglen) destbuf, currentlen + msglen)"
  using assms by (simp add: addmsg_def blit_def min_def)

section \<open>Encryption\<close>

text \<open>
  The two libsodium functions the code calls, on the bytes they read and produce. Sealing
  uses a fresh ephemeral key; the parameter stands for one outcome of it. An opening that
  returns an error code is \<open>None\<close>.
\<close>

record sodium =
  crypto_box_seal :: "byte list \<Rightarrow> byte list \<Rightarrow> byte list"
  crypto_box_seal_open :: "byte list \<Rightarrow> byte list \<Rightarrow> byte list \<Rightarrow> byte list option"

text \<open>Two constants of libsodium's public header.\<close>

definition crypto_box_SEALBYTES :: nat where "crypto_box_SEALBYTES = 48"
definition crypto_box_PUBLICKEYBYTES :: nat where "crypto_box_PUBLICKEYBYTES = 32"

text \<open>
  The documented behaviour of sealed boxes: a ciphertext is longer than its message by
  \<open>crypto_box_SEALBYTES\<close>, an opening yields a message shorter by as much, and the holder
  of the key pair opens what was sealed for its public key.
\<close>

definition seal_length_ok :: "sodium \<Rightarrow> bool" where
  "seal_length_ok S \<longleftrightarrow>
     (\<forall>m pk. length (crypto_box_seal S m pk) = length m + crypto_box_SEALBYTES) \<and>
     (\<forall>c pk sk m. crypto_box_seal_open S c pk sk = Some m \<longrightarrow> length c = length m + crypto_box_SEALBYTES)"

definition key_pair_ok :: "sodium \<Rightarrow> byte list \<Rightarrow> byte list \<Rightarrow> bool" where
  "key_pair_ok S pk sk \<longleftrightarrow> (\<forall>m. crypto_box_seal_open S (crypto_box_seal S m pk) pk sk = Some m)"

definition encryptmsg ::
  "sodium \<Rightarrow> byte list \<Rightarrow> nat \<Rightarrow> byte list \<Rightarrow> nat \<Rightarrow> byte list \<Rightarrow> (byte list \<times> nat) res" where
  "encryptmsg S destmsg maxlen srcmsg msglen pubkey =
     (if maxlen < msglen + crypto_box_SEALBYTES then Inr (destmsg, 0)
      else
        let d1 = blit 0 (take HEADERLEN srcmsg) destmsg;
            mlen = size_sub msglen HEADERLEN
        in if length srcmsg < HEADERLEN + mlen then Inl Out_of_bounds
           else Inr (blit HEADERLEN (crypto_box_seal S (take mlen (drop HEADERLEN srcmsg)) pubkey) d1,
                     msglen + crypto_box_SEALBYTES))"

definition decryptmsg ::
  "sodium \<Rightarrow> byte list \<Rightarrow> byte list \<Rightarrow> nat \<Rightarrow> byte list \<Rightarrow> byte list \<Rightarrow> byte list \<times> nat" where
  "decryptmsg S destmsg srcmsg msglen pubkey seckey =
     (if msglen \<le> HEADERLEN then (blit 0 (take msglen srcmsg) destmsg, msglen)
      else
        let d1 = blit 0 (take HEADERLEN srcmsg) destmsg
        in case crypto_box_seal_open S (take (msglen - HEADERLEN) (drop HEADERLEN srcmsg)) pubkey seckey of
             None \<Rightarrow> (blit 0 (take msglen srcmsg) d1, msglen)
           | Some m \<Rightarrow> (blit HEADERLEN m d1, msglen - crypto_box_SEALBYTES))"

text \<open>
  Encryption of a message that holds a header: the header in clear, the sealed user data.
\<close>

lemma encryptmsg_ok:
  assumes S: "seal_length_ok S"
    and len: "HEADERLEN \<le> msglen" "msglen \<le> length src" "length src < 2 ^ 64"
    and fit: "msglen + crypto_box_SEALBYTES \<le> maxlen" "maxlen \<le> length dst"
  shows "\<exists>d. encryptmsg S dst maxlen src msglen pk = Inr (d, msglen + crypto_box_SEALBYTES) \<and>
    take (msglen + crypto_box_SEALBYTES) d =
      take HEADERLEN src @ crypto_box_seal S (take (msglen - HEADERLEN) (drop HEADERLEN src)) pk \<and>
    length d = length dst"
proof -
  let ?c = "crypto_box_seal S (take (msglen - HEADERLEN) (drop HEADERLEN src)) pk"
  let ?d1 = "blit 0 (take HEADERLEN src) dst"
  have mlen: "size_sub msglen HEADERLEN = msglen - HEADERLEN" using len by simp
  have c: "length ?c = msglen - HEADERLEN + crypto_box_SEALBYTES"
    using S len by (simp add: seal_length_ok_def)
  have d1: "length ?d1 = length dst" using len fit by (intro length_blit) simp
  have h: "take HEADERLEN ?d1 = take HEADERLEN src" using len fit by (simp add: blit_def)
  have "take (HEADERLEN + length ?c) (blit HEADERLEN ?c ?d1) = take HEADERLEN src @ ?c"
    using c d1 fit len h by (subst take_blit_upto) auto
  moreover have "HEADERLEN + length ?c = msglen + crypto_box_SEALBYTES" using c len by simp
  moreover have "length (blit HEADERLEN ?c ?d1) = length dst"
    using c d1 fit len by (subst length_blit) auto
  ultimately show ?thesis
    using len fit by (simp add: encryptmsg_def mlen Let_def not_less)
qed

text \<open>A length below the header length makes the size passed to libsodium wrap around.\<close>

lemma encryptmsg_short:
  assumes "msglen < HEADERLEN" and "msglen + crypto_box_SEALBYTES \<le> maxlen" and "length src < 2 ^ 63"
  shows "encryptmsg S dst maxlen src msglen pk = Inl Out_of_bounds"
proof -
  have "size_sub msglen HEADERLEN = 2 ^ 64 - (HEADERLEN - msglen)"
    using assms by (intro size_sub_wrap) (simp_all add: header_layout)
  then have "length src < HEADERLEN + size_sub msglen HEADERLEN"
    using assms by (simp add: header_layout)
  then show ?thesis using assms by (simp add: encryptmsg_def Let_def)
qed

section \<open>Properties\<close>

text \<open>C20. Packing and reading back: when header and user data fit into the destination,
  the returned length is that of both, every header accessor and the user data read back
  what was packed, and the bytes of the buffer behind the message are untouched.\<close>

theorem packmsg_roundtrip:
  assumes "HEADERLEN + msglen \<le> maxlen" and "maxlen \<le> length destbuf" and "msglen \<le> length msg"
    and "packmsg destbuf maxlen sec cid p sq msg msglen = (buf, n)"
  shows "n = HEADERLEN + msglen \<and> length buf = length destbuf \<and>
    msg_secret buf = sec \<and> msg_callerid buf = cid \<and> msg_port buf = p \<and> msg_seq buf = sq \<and>
    take msglen (drop HEADERLEN buf) = take msglen msg \<and> drop n buf = drop n destbuf"
proof -
  have b: "buf = header_bytes sec cid p sq @ take msglen msg @ drop (HEADERLEN + msglen) destbuf"
    and n: "n = HEADERLEN + msglen"
    using assms packmsg_ok [OF assms(1-3)] by auto
  show ?thesis using assms(1-3) by (simp add: b n)
qed

theorem packmsg_roundtrip_witness:
  "\<exists>buf n. packmsg (replicate 12 0) 12 12345678 13 9876 4321 [1, 2, 3] 3 = (buf, n) \<and>
    msg_secret buf = 12345678 \<and> msg_port buf = 9876 \<and> take 3 (drop HEADERLEN buf) = [1, 2, 3]"
proof -
  obtain buf n where p: "packmsg (replicate 12 0) 12 12345678 13 9876 4321 [1, 2, 3] 3 = (buf, n)"
    by (meson surj_pair)
  have "HEADERLEN + 3 \<le> 12" by (simp add: header_layout)
  from packmsg_roundtrip [OF this _ _ p] p show ?thesis by auto
qed

text \<open>C19. Encryption and decryption are inverse: a packed message with user data that fits
  the destination is encrypted without reading outside the source, and decrypting the
  result with the matching key pair restores header, user data and length.\<close>

theorem encrypt_decrypt_roundtrip:
  assumes S: "seal_length_ok S" "key_pair_ok S pk sk"
    and len: "HEADERLEN \<le> msglen" "msglen \<le> length src" "length src < 2 ^ 64"
    and fit: "msglen + crypto_box_SEALBYTES \<le> maxlen" "maxlen \<le> length dst"
    and out: "length dst \<le> length dst'"
  shows "\<exists>enc n. encryptmsg S dst maxlen src msglen pk = Inr (enc, n) \<and>
    snd (decryptmsg S dst' enc n pk sk) = msglen \<and>
    take msglen (fst (decryptmsg S dst' enc n pk sk)) = take msglen src"
proof -
  let ?m = "take (msglen - HEADERLEN) (drop HEADERLEN src)"
  obtain enc where e: "encryptmsg S dst maxlen src msglen pk = Inr (enc, msglen + crypto_box_SEALBYTES)"
    and t: "take (msglen + crypto_box_SEALBYTES) enc = take HEADERLEN src @ crypto_box_seal S ?m pk"
    and l: "length enc = length dst"
    using encryptmsg_ok [OF S(1) len fit] by blast
  let ?n = "msglen + crypto_box_SEALBYTES"
  have n: "HEADERLEN < ?n" using len by (simp add: crypto_box_SEALBYTES_def)
  have h: "take HEADERLEN enc = take HEADERLEN src"
  proof -
    have "take HEADERLEN enc = take HEADERLEN (take ?n enc)" using n by simp
    then show ?thesis using t len by simp
  qed
  have c: "take (?n - HEADERLEN) (drop HEADERLEN enc) = crypto_box_seal S ?m pk"
  proof -
    have "take (?n - HEADERLEN) (drop HEADERLEN enc) = drop HEADERLEN (take ?n enc)"
      by (simp add: drop_take)
    then show ?thesis using t len by simp
  qed
  let ?d = "blit HEADERLEN ?m (blit 0 (take HEADERLEN enc) dst')"
  have dec: "decryptmsg S dst' enc ?n pk sk = (?d, msglen)"
    using n S(2) by (simp add: decryptmsg_def Let_def c key_pair_ok_def)
  have m: "length ?m = msglen - HEADERLEN" using len by simp
  have "take msglen ?d = take (HEADERLEN + length ?m) ?d" using len m by simp
  also have "\<dots> = take HEADERLEN (blit 0 (take HEADERLEN enc) dst') @ ?m"
    using len m fit out l by (intro take_blit_upto) simp
  also have "\<dots> = take HEADERLEN src @ ?m" using h len by (simp add: blit_def)
  also have "\<dots> = take msglen src" using len by (simp flip: take_add)
  finally show ?thesis using e dec by auto
qed

text \<open>An instance of the parameter: the "ciphertext" is the message behind 48 zero bytes.\<close>

definition plain_sodium :: sodium where
  "plain_sodium =
     \<lparr>crypto_box_seal = (\<lambda>m pk. replicate 48 0 @ m),
      crypto_box_seal_open = (\<lambda>c pk sk. if length c < 48 then None else Some (drop 48 c))\<rparr>"

lemma plain_sodium_ok: "seal_length_ok plain_sodium" "key_pair_ok plain_sodium pk sk"
  by (auto simp: seal_length_ok_def key_pair_ok_def plain_sodium_def crypto_box_SEALBYTES_def)

theorem encrypt_decrypt_roundtrip_witness:
  "\<exists>enc n. encryptmsg plain_sodium (replicate 64 0) 64 [1, 2, 3, 4, 5, 6, 7, 8, 9, 10] 10 [] = Inr (enc, n) \<and>
    snd (decryptmsg plain_sodium (replicate 64 0) enc n [] []) = 10 \<and>
    take 10 (fst (decryptmsg plain_sodium (replicate 64 0) enc n [] [])) = [1, 2, 3, 4, 5, 6, 7, 8, 9, 10]"
  using encrypt_decrypt_roundtrip [OF plain_sodium_ok(1) plain_sodium_ok(2) [of "[]" "[]"],
      of 10 "[1, 2, 3, 4, 5, 6, 7, 8, 9, 10]" 64 "replicate 64 0" "replicate 64 0"]
  by (simp add: header_layout crypto_box_SEALBYTES_def)

end
