(* ===== verification/Udp.thy ===== *)
theory Udp
  imports Complex_Main Wire Std_Map
begin

text \<open>
  \<open>src/udpsocket.h\<close>, \<open>src/udpsocket.cc\<close> and \<open>src/errmsg.cc\<close>: socket addresses, the UDP
  socket with its byte counters, the message buffer, and the socket that packs and
  unpacks the messages of a session. System calls are parameters: the model takes their
  results as arguments and returns the datagrams that were handed to them.
\<close>

section \<open>Errors\<close>

datatype err = ErrMsg string

definition ErrMsg_errno :: "(int \<Rightarrow> string) \<Rightarrow> string \<Rightarrow> int \<Rightarrow> err" where
  "ErrMsg_errno strerror msg e = ErrMsg (msg @ strerror e)"

fun what :: "err \<Rightarrow> string" where
  "what (ErrMsg s) = s"

text \<open>A sequence of calls of which each may throw.\<close>

fun bind_err :: "err + 'a \<Rightarrow> ('a \<Rightarrow> err + 'b) \<Rightarrow> err + 'b" where
  "bind_err (Inl e) f = Inl e"
| "bind_err (Inr x) f = f x"

lemma bind_err_Inr_iff: "bind_err r f = Inr y \<longleftrightarrow> (\<exists>x. r = Inr x \<and> f x = Inr y)"
  by (cases r) auto

section \<open>Socket addresses\<close>

text \<open>\<open>struct sockaddr_in\<close>; port and address hold the values as they lie in memory.\<close>

record endpoint =
  sin_family :: "16 word"
  sin_port :: "16 word"
  s_addr :: "32 word"
  sin_zero :: "64 word"

definition AF_INET :: "16 word" where "AF_INET = 2"

definition zero_endpoint :: endpoint where
  "zero_endpoint = \<lparr>sin_family = 0, sin_port = 0, s_addr = 0, sin_zero = 0\<rparr>"

definition bytes_of_endpoint :: "endpoint \<Rightarrow> byte list" where
  "bytes_of_endpoint e =
     le_bytes 2 (sin_family e) @ le_bytes 2 (sin_port e) @ le_bytes 4 (s_addr e) @ le_bytes 8 (sin_zero e)"

definition endpoint_of_bytes :: "byte list \<Rightarrow> endpoint" where
  "endpoint_of_bytes bs =
     \<lparr>sin_family = le_word (take 2 bs), sin_port = le_word (take 2 (drop 2 bs)),
      s_addr = le_word (take 4 (drop 4 bs)), sin_zero = le_word (take 8 (drop 8 bs))\<rparr>"

definition sizeof_endpoint :: nat where "sizeof_endpoint = 16"

interpretation ep_codec: fixed_codec bytes_of_endpoint endpoint_of_bytes sizeof_endpoint
  by unfold_locales (simp_all add: bytes_of_endpoint_def endpoint_of_bytes_def sizeof_endpoint_def)

text \<open>Host to network byte order of a 16-bit value, on a little-endian host.\<close>

definition htons :: "16 word \<Rightarrow> 16 word" where
  "htons w = push_bit 8 w OR drop_bit 8 w"

definition ntohs :: "16 word \<Rightarrow> 16 word" where
  "ntohs w = htons w"

lemma ntohs_htons [simp]: "ntohs (htons w) = w"
  unfolding ntohs_def htons_def by (rule bit_eqI) (auto simp: bit_simps)

lemma htons_inj [simp]: "htons v = htons w \<longleftrightarrow> v = w"
  by (metis ntohs_htons)

definition is_same_network :: "endpoint \<Rightarrow> endpoint \<Rightarrow> bool" where
  "is_same_network a b \<longleftrightarrow>
     (s_addr a AND 0xffffff) = (s_addr b AND 0xffffff) \<and> s_addr a \<noteq> 0 \<and> s_addr b \<noteq> 0"

lemma is_same_network_sym: "is_same_network a b \<longleftrightarrow> is_same_network b a"
  by (auto simp: is_same_network_def)

lemma is_same_network_trans: "is_same_network a b \<Longrightarrow> is_same_network b c \<Longrightarrow> is_same_network a c"
  by (auto simp: is_same_network_def)

definition addr2str :: "32 word \<Rightarrow> string" where
  "addr2str a =
     show_nat (unat (a AND 0xff)) @ ''.'' @
     show_nat (unat (drop_bit 8 a AND 0xff)) @ ''.'' @
     show_nat (unat (drop_bit 16 a AND 0xff)) @ ''.'' @
     show_nat (unat (drop_bit 24 a AND 0xff))"

definition ep2str :: "endpoint \<Rightarrow> string" where
  "ep2str ep = addr2str (s_addr ep) @ ''/'' @ show_nat (unat (ntohs (sin_port ep)))"

definition ep2ipstr :: "endpoint \<Rightarrow> string" where
  "ep2ipstr ep = addr2str (s_addr ep)"

text \<open>The four octets determine an address, hence so does its printed form.\<close>

lemma octet_bit:
  fixes a b :: "32 word"
  assumes "drop_bit (8 * j) a AND 0xff = drop_bit (8 * j) b AND 0xff" and "k div 8 = j" and "k < 32"
  shows "bit a k = bit b k"
proof -
  have k: "8 * j + k mod 8 = k" using assms(2) by auto
  have m: "(0xff :: 32 word) = mask 8" by (simp add: mask_eq_exp_minus_1)
  have "bit (0xff :: 32 word) (k mod 8)" unfolding m by (simp only: bit_mask_iff) simp
  then have "bit (drop_bit (8 * j) x AND 0xff) (k mod 8) = bit x k" for x :: "32 word"
    using k by (simp add: bit_and_iff bit_drop_bit_eq)
  then show ?thesis using assms(1) by metis
qed

lemma octets_eq:
  fixes a b :: "32 word"
  assumes "a AND 0xff = b AND 0xff" and "drop_bit 8 a AND 0xff = drop_bit 8 b AND 0xff"
    and "drop_bit 16 a AND 0xff = drop_bit 16 b AND 0xff"
    and "drop_bit 24 a AND 0xff = drop_bit 24 b AND 0xff"
  shows "a = b"
proof (rule bit_eqI)
  fix k assume "possible_bit TYPE(32 word) k"
  then have k: "k < 32" by simp
  then have "k div 8 \<in> {0, 1, 2, 3}" by auto
  then show "bit a k = bit b k"
    using k octet_bit [of 0 a b k] octet_bit [of 1 a b k] octet_bit [of 2 a b k] octet_bit [of 3 a b k]
      assms by auto
qed

lemma addr2str_inj [simp]: "addr2str a = addr2str b \<longleftrightarrow> a = b"
proof -
  have "addr2str a = addr2str b \<Longrightarrow> a = b"
    by (rule octets_eq) (auto simp: addr2str_def split_at_sep simp flip: word_unat_eq_iff)
  then show ?thesis by blast
qed

lemma slash_notin_addr2str [simp]: "CHR ''/'' \<notin> set (addr2str a)"
  by (simp add: addr2str_def)

section \<open>The UDP socket\<close>

record udpsocket =
  sockfd :: int
  serv_addr :: endpoint
  isopen :: bool
  tx_bytes :: "64 word"
  rx_bytes :: "64 word"

text \<open>
  The kernel's answer to \<open>sendto\<close> (descriptor, bytes, destination). A datagram handed to
  the kernel is recorded with its destination.
\<close>

type_synonym kernel = "int \<Rightarrow> byte list \<Rightarrow> endpoint \<Rightarrow> int"

datatype dgram = Dgram (dg_dest: endpoint) (dg_data: "byte list")

text \<open>\<open>udpsocket_t()\<close>, given the result of \<open>socket\<close>.\<close>

definition udpsocket_ctor :: "(int \<Rightarrow> string) \<Rightarrow> int \<Rightarrow> int \<Rightarrow> err + udpsocket" where
  "udpsocket_ctor strerror errno fd =
     (if fd < 0 then Inl (ErrMsg_errno strerror ''Opening socket failed: '' errno)
      else Inr \<lparr>sockfd = fd, serv_addr = zero_endpoint, isopen = True, tx_bytes = 0, rx_bytes = 0\<rparr>)"

definition udp_close :: "'a udpsocket_scheme \<Rightarrow> 'a udpsocket_scheme" where
  "udp_close s = s\<lparr>isopen := False\<rparr>"

text \<open>\<open>gethostbyname\<close>: the error text or the address.\<close>

type_synonym resolver = "string \<Rightarrow> string + 32 word"

definition ovgethostbyname :: "resolver \<Rightarrow> string \<Rightarrow> err + endpoint" where
  "ovgethostbyname R host =
     (case R host of
        Inl e \<Rightarrow> Inl (ErrMsg (''No such host: '' @ e))
      | Inr a \<Rightarrow> Inr (zero_endpoint\<lparr>sin_family := AF_INET, s_addr := a\<rparr>))"

definition set_destination :: "resolver \<Rightarrow> string \<Rightarrow> 'a udpsocket_scheme \<Rightarrow> err + 'a udpsocket_scheme" where
  "set_destination R host s =
     (case R host of
        Inl e \<Rightarrow> Inl (ErrMsg (''No such host: '' @ e))
      | Inr a \<Rightarrow> Inr (s\<lparr>serv_addr := zero_endpoint\<lparr>sin_family := AF_INET, s_addr := a\<rparr>\<rparr>))"

text \<open>
  \<open>bind\<close>: the address handed to the system call, and the port reported back. The results
  of \<open>bind\<close> and \<open>getsockname\<close> are parameters.
\<close>

definition bind_addr :: "port_t \<Rightarrow> bool \<Rightarrow> endpoint" where
  "bind_addr port loopback =
     (let a = zero_endpoint\<lparr>sin_family := AF_INET, sin_port := htons port\<rparr>
      in if loopback then a\<lparr>s_addr := 0x0100007f\<rparr> else a)"

definition udp_bind ::
  "(int \<Rightarrow> string) \<Rightarrow> int \<Rightarrow> (endpoint \<Rightarrow> int) \<Rightarrow> (endpoint \<Rightarrow> endpoint) \<Rightarrow> port_t \<Rightarrow> bool \<Rightarrow> err + port_t" where
  "udp_bind strerror errno k_bind k_getsockname port loopback =
     (let my_addr = bind_addr port loopback
      in if k_bind my_addr = -1
         then Inl (ErrMsg_errno strerror
                    (''Binding the socket to port '' @ show_nat (unat port) @ '' failed: '') errno)
         else Inr (ntohs (sin_port (k_getsockname my_addr))))"

definition udp_count_tx :: "int \<Rightarrow> 'a udpsocket_scheme \<Rightarrow> 'a udpsocket_scheme" where
  "udp_count_tx tx s = (if tx > 0 then s\<lparr>tx_bytes := tx_bytes s + word_of_int tx\<rparr> else s)"

definition send_port ::
  "kernel \<Rightarrow> 'a udpsocket_scheme \<Rightarrow> byte list \<Rightarrow> nat \<Rightarrow> port_t \<Rightarrow> int \<times> 'a udpsocket_scheme \<times> dgram list" where
  "send_port K s buf len portno =
     (if portno = 0 then (int len, s, [])
      else
        let s1 = s\<lparr>serv_addr := (serv_addr s)\<lparr>sin_port := htons portno\<rparr>\<rparr>;
            tx = K (sockfd s1) (take len buf) (serv_addr s1)
        in (tx, udp_count_tx tx s1, [Dgram (serv_addr s1) (take len buf)]))"

definition send_ep ::
  "kernel \<Rightarrow> 'a udpsocket_scheme \<Rightarrow> byte list \<Rightarrow> nat \<Rightarrow> endpoint \<Rightarrow> int \<times> 'a udpsocket_scheme \<times> dgram list" where
  "send_ep K s buf len ep =
     (let tx = K (sockfd s) (take len buf) ep
      in (tx, udp_count_tx tx s, [Dgram ep (take len buf)]))"

text \<open>
  \<open>recvfrom\<close>: the parameter is the datagram that arrived with its sender, or \<open>None\<close> when
  the system call returned an error or timed out. A datagram longer than the buffer is
  cut off, as UDP does.
\<close>

definition recvfrom ::
  "'a udpsocket_scheme \<Rightarrow> byte list \<Rightarrow> nat \<Rightarrow> (byte list \<times> endpoint) option
     \<Rightarrow> int \<times> 'a udpsocket_scheme \<times> byte list \<times> endpoint" where
  "recvfrom s buf len inp =
     (case inp of
        None \<Rightarrow> (-1, s, buf, zero_endpoint\<lparr>sin_family := AF_INET\<rparr>)
      | Some (data, src) \<Rightarrow>
          let d = take len data; rx = int (length d)
          in (rx, if rx > 0 then s\<lparr>rx_bytes := rx_bytes s + word_of_int rx\<rparr> else s, blit 0 d buf, src))"

lemma udp_count_tx_frame [simp]:
  "sockfd (udp_count_tx tx s) = sockfd s" "serv_addr (udp_count_tx tx s) = serv_addr s"
  "isopen (udp_count_tx tx s) = isopen s" "rx_bytes (udp_count_tx tx s) = rx_bytes s"
  "udpsocket.more (udp_count_tx tx s) = udpsocket.more s"
  by (simp_all add: udp_count_tx_def)

lemma send_port_dgrams [simp]:
  "snd (snd (send_port K s buf len p)) =
     (if p = 0 then [] else [Dgram ((serv_addr s)\<lparr>sin_port := htons p\<rparr>) (take len buf)])"
  by (simp add: send_port_def Let_def)

lemma send_ep_dgrams [simp]: "snd (snd (send_ep K s buf len ep)) = [Dgram ep (take len buf)]"
  by (simp add: send_ep_def Let_def)

end
