(* ===== verification/Json.thy ===== *)
theory Json
  imports Udp
begin

text \<open>
  What the program uses of the JSON library, as a record of its documented functions, and
  \<open>my_js_value\<close> of \<open>src/ov_tools.h\<close>. The trees \<open>jval\<close> are the values that the program builds
  itself; they also instantiate the library in the examples.
\<close>

section \<open>Values\<close>

datatype jval =
    Jnull
  | Jbool bool
  | Jnum real
  | Jstr string
  | Jarr "jval list"
  | Jobj "(string \<times> jval) list"

section \<open>The library\<close>

text \<open>
  Parsing, the iteration over a value with what \<open>key()\<close> returns or throws, and the value as a
  string, number or boolean if it is one; \<open>js_is_object\<close>, \<open>js_member\<close> (\<open>find\<close>) and \<open>js_index\<close>
  (\<open>operator[]\<close> with a key, which throws for a value that is neither null nor an object, and
  yields null for a missing key); the elements of an array; the conversions \<open>get<T>\<close>, which
  throw for a value of another type; \<open>dump\<close> of a parsed value and of a built one.
  \<open>TASCAR::to_string\<close> prints a number.
\<close>

record 'j json_lib =
  js_parse :: "string \<Rightarrow> err + 'j"
  js_items :: "'j \<Rightarrow> ((err + string) \<times> 'j) list"
  js_string :: "'j \<Rightarrow> string option"
  js_number :: "'j \<Rightarrow> real option"
  js_boolean :: "'j \<Rightarrow> bool option"
  tsc_to_string :: "real \<Rightarrow> string"
  js_is_object :: "'j \<Rightarrow> bool"
  js_is_array :: "'j \<Rightarrow> bool"
  js_is_null :: "'j \<Rightarrow> bool"
  js_member :: "'j \<Rightarrow> string \<Rightarrow> 'j option"
  js_index :: "'j \<Rightarrow> string \<Rightarrow> err + 'j"
  js_elements :: "'j \<Rightarrow> 'j list"
  get_bool :: "'j \<Rightarrow> err + bool"
  get_string :: "'j \<Rightarrow> err + string"
  get_real :: "'j \<Rightarrow> err + real"
  get_i32 :: "'j \<Rightarrow> err + 32 word"
  get_u32 :: "'j \<Rightarrow> err + 32 word"
  get_u16 :: "'j \<Rightarrow> err + 16 word"
  get_u8 :: "'j \<Rightarrow> err + 8 word"
  get_u32s :: "'j \<Rightarrow> err + 32 word list"
  get_json :: "'j \<Rightarrow> err + 'j"
  js_dump :: "'j \<Rightarrow> string"
  js_dump_tree :: "jval \<Rightarrow> string"

section \<open>Robust access\<close>

abbreviation apos :: string where "apos \<equiv> [CHR 0x27]"

abbreviation dquote :: string where "dquote \<equiv> [CHR 0x22]"

definition my_js_value :: "'j json_lib \<Rightarrow> ('j \<Rightarrow> err + 'v) \<Rightarrow> 'j \<Rightarrow> string \<Rightarrow> 'v \<Rightarrow> err + 'v" where
  "my_js_value J get obj key defval =
     (if js_is_object J obj then
        case js_member J obj key of
          None \<Rightarrow> Inr defval
        | Some v \<Rightarrow>
            (case get v of
               Inr x \<Rightarrow> Inr x
             | Inl e \<Rightarrow> Inl (ErrMsg (what e @ '' ('' @ apos @ js_dump J obj @ apos @ '', key: '' @ apos @ key @ apos @ '')'')))
      else Inr defval)"

lemma my_js_value_absent:
  "\<not> js_is_object J obj \<or> js_member J obj key = None \<Longrightarrow> my_js_value J get obj key d = Inr d"
  by (auto simp: my_js_value_def)

lemma my_js_value_Inr_iff:
  "my_js_value J get obj key d = Inr v \<longleftrightarrow>
     (if js_is_object J obj then (case js_member J obj key of None \<Rightarrow> v = d | Some x \<Rightarrow> get x = Inr v) else v = d)"
  by (auto simp: my_js_value_def split: option.splits sum.splits)

text \<open>Reading again with the value read as the default gives the same value.\<close>

lemma my_js_value_stable: "my_js_value J get obj key d = Inr v \<Longrightarrow> my_js_value J get obj key v = Inr v"
  by (auto simp: my_js_value_Inr_iff split: if_splits option.splits)

section \<open>The library on trees\<close>

definition type_error :: err where "type_error = ErrMsg ''type_error''"

fun jval_member :: "jval \<Rightarrow> string \<Rightarrow> jval option" where
  "jval_member (Jobj kvs) k = map_of kvs k"
| "jval_member j k = None"

fun jval_index :: "jval \<Rightarrow> string \<Rightarrow> err + jval" where
  "jval_index (Jobj kvs) k = Inr (case map_of kvs k of None \<Rightarrow> Jnull | Some v \<Rightarrow> v)"
| "jval_index Jnull k = Inr Jnull"
| "jval_index j k = Inl type_error"

fun jval_items :: "jval \<Rightarrow> ((err + string) \<times> jval) list" where
  "jval_items (Jobj kvs) = map (\<lambda>(k, v). (Inr k, v)) kvs"
| "jval_items Jnull = []"
| "jval_items (Jarr vs) = map (Pair (Inl type_error)) vs"
| "jval_items j = [(Inl type_error, j)]"

fun jval_elements :: "jval \<Rightarrow> jval list" where
  "jval_elements (Jarr vs) = vs"
| "jval_elements (Jobj kvs) = map snd kvs"
| "jval_elements Jnull = []"
| "jval_elements j = [j]"

fun jval_bool :: "jval \<Rightarrow> bool option" where
  "jval_bool (Jbool b) = Some b"
| "jval_bool j = None"

fun jval_num :: "jval \<Rightarrow> real option" where
  "jval_num (Jnum x) = Some x"
| "jval_num j = None"

text \<open>Numbers of other types than the stored ones are also made from booleans, and cut towards zero.\<close>

fun jval_arith :: "jval \<Rightarrow> real option" where
  "jval_arith (Jnum x) = Some x"
| "jval_arith (Jbool b) = Some (if b then 1 else 0)"
| "jval_arith j = None"

definition cut :: "real \<Rightarrow> int" where
  "cut x = (if x \<ge> 0 then \<lfloor>x\<rfloor> else \<lceil>x\<rceil>)"

fun jval_str :: "jval \<Rightarrow> string option" where
  "jval_str (Jstr s) = Some s"
| "jval_str j = None"

fun or_throw :: "'v option \<Rightarrow> err + 'v" where
  "or_throw None = Inl type_error"
| "or_throw (Some v) = Inr v"

fun num_words :: "jval \<Rightarrow> 32 word list option" where
  "num_words (Jarr vs) = those (map (\<lambda>v. map_option (\<lambda>x. word_of_int (cut x)) (jval_arith v)) vs)"
| "num_words j = None"

definition jval_lib :: "(string \<Rightarrow> err + jval) \<Rightarrow> jval json_lib" where
  "jval_lib parse =
     \<lparr>js_parse = parse, js_items = jval_items, js_string = jval_str, js_number = jval_num, js_boolean = jval_bool,
      tsc_to_string = (\<lambda>x. show_nat (nat \<lfloor>x\<rfloor>)), js_is_object = (\<lambda>j. case j of Jobj _ \<Rightarrow> True | _ \<Rightarrow> False),
      js_is_array = (\<lambda>j. case j of Jarr _ \<Rightarrow> True | _ \<Rightarrow> False), js_is_null = (\<lambda>j. j = Jnull),
      js_member = jval_member, js_index = jval_index, js_elements = jval_elements,
      get_bool = (\<lambda>j. or_throw (jval_bool j)), get_string = (\<lambda>j. or_throw (jval_str j)),
      get_real = (\<lambda>j. or_throw (jval_arith j)), get_i32 = (\<lambda>j. or_throw (map_option (\<lambda>x. word_of_int (cut x)) (jval_arith j))),
      get_u32 = (\<lambda>j. or_throw (map_option (\<lambda>x. word_of_int (cut x)) (jval_arith j))),
      get_u16 = (\<lambda>j. or_throw (map_option (\<lambda>x. word_of_int (cut x)) (jval_arith j))),
      get_u8 = (\<lambda>j. or_throw (map_option (\<lambda>x. word_of_int (cut x)) (jval_arith j))),
      get_u32s = (\<lambda>j. or_throw (num_words j)), get_json = Inr, js_dump = (\<lambda>_. ''json''), js_dump_tree = (\<lambda>_. ''json'')\<rparr>"

end
