(* ===== verification/Render_Base.thy ===== *)
theory Render_Base
  imports Ov_Types Json
begin

text \<open>
  The base class of the renderers, \<open>ov_render_base_t\<close> (\<open>ov_types.h\<close>, \<open>ov_types.cc\<close>). The methods
  call virtual methods of the object; the table of these is a parameter, and what the base
  class relies on is the locale \<open>renderer\<close>, interpreted on the class's own methods. A method
  returns the new object and the exception that left it, if any.
\<close>

section \<open>Outcomes\<close>

type_synonym 's outcome = "'s \<times> err option"

fun and_then :: "'s outcome \<Rightarrow> ('s \<Rightarrow> 's outcome) \<Rightarrow> 's outcome" where
  "and_then (s, None) f = f s"
| "and_then (s, Some e) f = (s, Some e)"

lemma and_then_None_iff: "and_then o1 f = (s', None) \<longleftrightarrow> (\<exists>s. o1 = (s, None) \<and> f s = (s', None))"
  by (cases "(o1, f)" rule: and_then.cases) auto

section \<open>Plugin configuration\<close>

fun set_params ::
  "'j json_lib \<Rightarrow> ((err + string) \<times> 'j) list \<Rightarrow> (string, string) omap \<Rightarrow> (string, string) omap \<times> err option" where
  "set_params J [] ps = (ps, None)"
| "set_params J ((Inl e, val) # its) ps = (ps, Some e)"
| "set_params J ((Inr param, val) # its) ps =
     set_params J its
       (case js_string J val of
          Some s \<Rightarrow> omap_put param s ps
        | None \<Rightarrow>
            case js_number J val of
              Some v \<Rightarrow> omap_put param (tsc_to_string J v) ps
            | None \<Rightarrow>
                case js_boolean J val of
                  Some b \<Rightarrow> omap_put param (if b then ''true'' else ''false'') ps
                | None \<Rightarrow> ps)"

fun set_plugins ::
  "'j json_lib \<Rightarrow> nat \<Rightarrow> ((err + string) \<times> 'j) list \<Rightarrow> channel_plugin list \<Rightarrow> (channel_plugin list \<times> err option) res" where
  "set_plugins J pcnt [] plugins = Inr (plugins, None)"
| "set_plugins J pcnt ((Inl e, cfg) # its) plugins = Inr (plugins, Some e)"
| "set_plugins J pcnt ((Inr plug, cfg) # its) plugins =
     (let pname = (if pcnt < length plugins then plug_name (plugins ! pcnt) else [])
      in if plug = pname \<and> length plugins \<le> pcnt then Inl Out_of_bounds
         else
           let cplug0 = (if plug = pname then plugins ! pcnt else \<lparr>plug_name = [], plug_params = []\<rparr>);
               (params, ex) = set_params J (js_items J cfg) (plug_params cplug0);
               cplug = \<lparr>plug_name = plug, plug_params = params\<rparr>
           in case ex of
                Some e \<Rightarrow> Inr (plugins, Some e)
              | None \<Rightarrow>
                  set_plugins J (pcnt + 1) its
                    (if pcnt < length plugins then plugins[pcnt := cplug] else plugins @ [cplug]))"

definition update_plugin_cfg :: "'j json_lib \<Rightarrow> string \<Rightarrow> device_channel \<Rightarrow> (device_channel outcome) res" where
  "update_plugin_cfg J jscfg ch =
     (case js_parse J jscfg of
        Inl e \<Rightarrow> Inr (ch, Some e)
      | Inr js \<Rightarrow> bind_res (set_plugins J 0 (js_items J js) (ch_plugins ch)) (\<lambda>(ps, ex).
          Inr (ch\<lparr>ch_plugins := ps\<rparr>, ex)))"

section \<open>The object\<close>

record render_base =
  ovr_audiodevice :: audio_device
  ovr_stage :: stage
  ovr_folder :: string
  session_ready :: bool
  session_active :: bool
  audio_active :: bool
  restart_needed :: bool

definition render_base_ctor :: "string \<Rightarrow> render_base" where
  "render_base_ctor deviceid =
     \<lparr>ovr_audiodevice =
        \<lparr>ad_drivername = [], ad_devicename = [], ad_srate = 48000, ad_periodsize = 96, ad_numperiods = 2,
         ad_priority = 40\<rparr>,
      ovr_stage = default_stage\<lparr>stg_thisdeviceid := deviceid\<rparr>, ovr_folder = [], session_ready = False,
      session_active = False, audio_active = False, restart_needed = False\<rparr>"

record 's vtable =
  vt_start_session :: "'s \<Rightarrow> 's outcome"
  vt_end_session :: "'s \<Rightarrow> 's outcome"
  vt_start_audiobackend :: "'s \<Rightarrow> 's outcome"
  vt_stop_audiobackend :: "'s \<Rightarrow> 's outcome"
  vt_add_stage_device :: "stage_device \<Rightarrow> 's \<Rightarrow> 's outcome"
  vt_rm_stage_device :: "stage_device_id_t \<Rightarrow> 's \<Rightarrow> 's outcome"
  vt_clear_stage :: "'s \<Rightarrow> 's outcome"
  vt_set_stage :: "stage_map \<Rightarrow> 's \<Rightarrow> 's outcome"
  vt_set_stage_device_gain :: "stage_device_id_t \<Rightarrow> real \<Rightarrow> 's \<Rightarrow> 's outcome"
  vt_set_render_settings :: "render_settings \<Rightarrow> stage_device_id_t \<Rightarrow> 's \<Rightarrow> 's outcome"
  vt_set_extra_config :: "string \<Rightarrow> 's \<Rightarrow> 's outcome"

definition base_start_session :: "'a render_base_scheme \<Rightarrow> 'a render_base_scheme outcome" where
  "base_start_session r = (r\<lparr>session_active := True, restart_needed := False\<rparr>, None)"

definition base_end_session :: "'a render_base_scheme \<Rightarrow> 'a render_base_scheme outcome" where
  "base_end_session r = (r\<lparr>session_active := False\<rparr>, None)"

definition base_start_audiobackend :: "'a render_base_scheme \<Rightarrow> 'a render_base_scheme outcome" where
  "base_start_audiobackend r = (r\<lparr>audio_active := True\<rparr>, None)"

definition base_stop_audiobackend :: "'a render_base_scheme \<Rightarrow> 'a render_base_scheme outcome" where
  "base_stop_audiobackend r = (r\<lparr>audio_active := False\<rparr>, None)"

definition require_session_restart :: "'a render_base_scheme \<Rightarrow> 'a render_base_scheme" where
  "require_session_restart r = r\<lparr>restart_needed := True\<rparr>"

definition need_restart :: "'a render_base_scheme \<Rightarrow> bool" where "need_restart r = restart_needed r"

definition is_session_active :: "'a render_base_scheme \<Rightarrow> bool" where "is_session_active r = session_active r"

definition is_audio_active :: "'a render_base_scheme \<Rightarrow> bool" where "is_audio_active r = audio_active r"

definition get_deviceid :: "'a render_base_scheme \<Rightarrow> string" where
  "get_deviceid r = stg_thisdeviceid (ovr_stage r)"

definition in_room :: "'a render_base_scheme \<Rightarrow> bool" where
  "in_room r \<longleftrightarrow> stg_host (ovr_stage r) \<noteq> []"

definition get_num_inputs :: "'a render_base_scheme \<Rightarrow> nat" where
  "get_num_inputs r = length (sd_channels (stg_thisdevice (ovr_stage r)))"

definition restart_session_if_needed ::
  "'a render_base_scheme vtable \<Rightarrow> 'a render_base_scheme \<Rightarrow> 'a render_base_scheme outcome" where
  "restart_session_if_needed V r =
     (if restart_needed r
      then and_then (if session_active r then vt_end_session V r else (r, None)) (vt_start_session V)
      else if \<not> session_active r then vt_start_session V r
      else (r, None))"

definition configure_audio_backend ::
  "'a render_base_scheme vtable \<Rightarrow> audio_device \<Rightarrow> 'a render_base_scheme \<Rightarrow> 'a render_base_scheme outcome" where
  "configure_audio_backend V ad r =
     (if audio_neq (ovr_audiodevice r) ad \<or> \<not> audio_active r then
        let no_restart = (ad_devicename (ovr_audiodevice r) = ''manual'' \<and> ad_devicename ad = ''manual'');
            r1 = r\<lparr>ovr_audiodevice := ad\<rparr>
        in and_then
             (if \<not> no_restart \<and> audio_active r1
              then and_then (if session_active r1 then vt_end_session V (require_session_restart r1) else (r1, None))
                     (vt_stop_audiobackend V)
              else (r1, None))
             (\<lambda>r2. and_then (if \<not> no_restart then vt_start_audiobackend V r2 else (r2, None))
                (\<lambda>r3. (r3\<lparr>audio_active := True\<rparr>, None)))
      else (r, None))"

section \<open>The stage\<close>

definition upd_stage :: "(stage \<Rightarrow> stage) \<Rightarrow> 'a render_base_scheme \<Rightarrow> 'a render_base_scheme" where
  "upd_stage f r = r\<lparr>ovr_stage := f (ovr_stage r)\<rparr>"

definition set_thisdev :: "stage_device \<Rightarrow> 'a render_base_scheme \<Rightarrow> 'a render_base_scheme" where
  "set_thisdev d r =
     (let r1 = (if device_neq d (stg_thisdevice (ovr_stage r)) then require_session_restart r else r)
      in upd_stage (\<lambda>s. s\<lparr>stg_thisdevice := d\<rparr>) r1)"

definition add_stage_device :: "stage_device \<Rightarrow> 'a render_base_scheme \<Rightarrow> 'a render_base_scheme" where
  "add_stage_device d = upd_stage (\<lambda>s. s\<lparr>stg_stage := omap_put (sd_id d) d (stg_stage s)\<rparr>)"

definition set_stage :: "stage_map \<Rightarrow> 'a render_base_scheme \<Rightarrow> 'a render_base_scheme" where
  "set_stage m = upd_stage (\<lambda>s. s\<lparr>stg_stage := m\<rparr>)"

definition clear_stage :: "'a render_base_scheme \<Rightarrow> 'a render_base_scheme" where
  "clear_stage = upd_stage (\<lambda>s. s\<lparr>stg_stage := []\<rparr>)"

definition rm_stage_device :: "stage_device_id_t \<Rightarrow> 'a render_base_scheme \<Rightarrow> 'a render_base_scheme" where
  "rm_stage_device i = upd_stage (\<lambda>s. s\<lparr>stg_stage := omap_erase i (stg_stage s)\<rparr>)"

definition set_stage_device_gain ::
  "stage_device_id_t \<Rightarrow> real \<Rightarrow> 'a render_base_scheme \<Rightarrow> 'a render_base_scheme" where
  "set_stage_device_gain i gain = upd_stage (\<lambda>s.
     case map_of (stg_stage s) i of
       None \<Rightarrow> s
     | Some d \<Rightarrow> s\<lparr>stg_stage := omap_put i (d\<lparr>sd_gain := gain\<rparr>) (stg_stage s)\<rparr>)"

definition set_render_settings ::
  "render_settings \<Rightarrow> stage_device_id_t \<Rightarrow> 'a render_base_scheme \<Rightarrow> 'a render_base_scheme" where
  "set_render_settings rs i = upd_stage (\<lambda>s. s\<lparr>stg_rendersettings := rs, stg_thisstagedeviceid := i\<rparr>)"

definition set_relay_server ::
  "'a render_base_scheme vtable \<Rightarrow> string \<Rightarrow> port_t \<Rightarrow> secret_t \<Rightarrow> 'a render_base_scheme \<Rightarrow> 'a render_base_scheme outcome" where
  "set_relay_server V host port pin r =
     (let s = ovr_stage r;
          restart = (session_active r \<and> (stg_host s \<noteq> host \<or> stg_port s \<noteq> port \<or> stg_pin s \<noteq> pin));
          r1 = upd_stage (\<lambda>s. s\<lparr>stg_host := host, stg_port := port, stg_pin := pin\<rparr>) r
      in if restart then and_then (vt_end_session V r1) (\<lambda>r2. (require_session_restart r2, None)) else (r1, None))"

text \<open>\<open>None\<close> is the exception \<open>std::out_of_range\<close> of \<open>compare\<close> for the empty string.\<close>

definition set_runtime_folder :: "string \<Rightarrow> 'a render_base_scheme \<Rightarrow> 'a render_base_scheme option" where
  "set_runtime_folder v r =
     (if v = [] then None else Some (r\<lparr>ovr_folder := (if last v \<noteq> CHR ''/'' then v @ ''/'' else v)\<rparr>))"

text \<open>
  The plugins of an input channel, of this device and of its entry on the stage;
  \<open>stage.stage[...]\<close> inserts an entry when there is none.
\<close>

definition update_plugincfg ::
  "'j json_lib \<Rightarrow> string \<Rightarrow> nat \<Rightarrow> 'a render_base_scheme \<Rightarrow> ('a render_base_scheme outcome) res" where
  "update_plugincfg J cfg channel r =
     (if channel < get_num_inputs r then
        let chs = sd_channels (stg_thisdevice (ovr_stage r))
        in bind_res (update_plugin_cfg J cfg (chs ! channel)) (\<lambda>(ch, ex).
             let r1 = upd_stage (\<lambda>s. s\<lparr>stg_thisdevice := (stg_thisdevice s)\<lparr>sd_channels := chs[channel := ch]\<rparr>\<rparr>) r;
                 i = stg_thisstagedeviceid (ovr_stage r1)
             in if ex \<noteq> None then Inr (r1, ex)
                else if unat i < length (stg_stage (ovr_stage r1)) then
                  let (d, m) = omap_index zero_device i (stg_stage (ovr_stage r1))
                  in if length (sd_channels d) \<le> channel then Inl Out_of_bounds
                     else bind_res (update_plugin_cfg J cfg (sd_channels d ! channel)) (\<lambda>(ch2, ex2).
                       Inr (upd_stage (\<lambda>s. s\<lparr>stg_stage :=
                              omap_put i (d\<lparr>sd_channels := (sd_channels d)[channel := ch2]\<rparr>) m\<rparr>) r1, ex2))
                else Inr (r1, None))
      else Inr (r, None))"

section \<open>The table of virtual methods\<close>

text \<open>The base class ignores the additional configuration.\<close>

definition base_set_extra_config :: "string \<Rightarrow> 'a render_base_scheme \<Rightarrow> 'a render_base_scheme" where
  "base_set_extra_config js r = r"

definition base_vtable :: "'a render_base_scheme vtable" where
  "base_vtable =
     \<lparr>vt_start_session = base_start_session, vt_end_session = base_end_session,
      vt_start_audiobackend = base_start_audiobackend, vt_stop_audiobackend = base_stop_audiobackend,
      vt_add_stage_device = (\<lambda>d r. (add_stage_device d r, None)),
      vt_rm_stage_device = (\<lambda>i r. (rm_stage_device i r, None)),
      vt_clear_stage = (\<lambda>r. (clear_stage r, None)), vt_set_stage = (\<lambda>m r. (set_stage m r, None)),
      vt_set_stage_device_gain = (\<lambda>i g r. (set_stage_device_gain i g r, None)),
      vt_set_render_settings = (\<lambda>rs i r. (set_render_settings rs i r, None)),
      vt_set_extra_config = (\<lambda>js r. (base_set_extra_config js r, None))\<rparr>"

text \<open>
  The operations with which a configuration client controls a session, dispatched through the table. The update of
  plugin parameters (\<open>update_plugincfg\<close>) is not one of them: it takes the parameters of the running session over.
  The backend of the audio server is started and stopped through \<open>configure_audio_backend\<close>.
\<close>

datatype render_op =
    Start_session
  | End_session
  | Restart_if_needed
  | Require_restart
  | Configure_audio audio_device
  | Set_thisdev stage_device
  | Set_relay string port_t secret_t
  | Add_stage_device stage_device
  | Rm_stage_device stage_device_id_t
  | Clear_stage
  | Set_stage stage_map
  | Set_gain stage_device_id_t real
  | Set_settings render_settings stage_device_id_t
  | Set_extra string

fun apply_op :: "'a render_base_scheme vtable \<Rightarrow> render_op \<Rightarrow> 'a render_base_scheme \<Rightarrow> 'a render_base_scheme outcome" where
  "apply_op V Start_session r = vt_start_session V r"
| "apply_op V End_session r = vt_end_session V r"
| "apply_op V Restart_if_needed r = restart_session_if_needed V r"
| "apply_op V Require_restart r = (require_session_restart r, None)"
| "apply_op V (Configure_audio ad) r = configure_audio_backend V ad r"
| "apply_op V (Set_thisdev d) r = (set_thisdev d r, None)"
| "apply_op V (Set_relay host port pin) r = set_relay_server V host port pin r"
| "apply_op V (Add_stage_device d) r = vt_add_stage_device V d r"
| "apply_op V (Rm_stage_device i) r = vt_rm_stage_device V i r"
| "apply_op V Clear_stage r = vt_clear_stage V r"
| "apply_op V (Set_stage m) r = vt_set_stage V m r"
| "apply_op V (Set_gain i g) r = vt_set_stage_device_gain V i g r"
| "apply_op V (Set_settings rs i) r = vt_set_render_settings V rs i r"
| "apply_op V (Set_extra js) r = vt_set_extra_config V js r"

text \<open>
  Whether an operation starts a session, whether it is one of the setters, and the setters that
  a renderer may override.
\<close>

definition starts :: "render_op \<Rightarrow> 'a render_base_scheme \<Rightarrow> bool" where
  "starts op r \<longleftrightarrow> op = Start_session \<or> op = Restart_if_needed \<and> (restart_needed r \<or> \<not> session_active r)"

definition setter :: "render_op \<Rightarrow> bool" where
  "setter op \<longleftrightarrow> op \<notin> {Start_session, End_session, Restart_if_needed, Require_restart}"

fun stage_op :: "render_op \<Rightarrow> bool" where
  "stage_op (Add_stage_device d) = True"
| "stage_op (Rm_stage_device i) = True"
| "stage_op Clear_stage = True"
| "stage_op (Set_stage m) = True"
| "stage_op (Set_gain i g) = True"
| "stage_op (Set_settings rs i) = True"
| "stage_op (Set_extra js) = True"
| "stage_op op = False"

text \<open>
  A run of operations, each in the environment \<open>e\<close> that its library calls see; it goes on after
  an exception. Beside the state it keeps the key at the last attempt to start a session, and
  the exceptions.
\<close>

fun run_ops ::
  "('e \<Rightarrow> 'a render_base_scheme vtable) \<Rightarrow> ('a render_base_scheme \<Rightarrow> 'k) \<Rightarrow> ('e \<times> render_op) list \<Rightarrow>
     'a render_base_scheme \<times> 'k \<Rightarrow> ('a render_base_scheme \<times> 'k) \<times> err list" where
  "run_ops V key [] (r, k) = ((r, k), [])"
| "run_ops V key ((e, op) # ops) (r, k) =
     (let (r', ex) = apply_op (V e) op r;
          (rk, exs) = run_ops V key ops (r', if starts op r then key r' else k)
      in (rk, (case ex of None \<Rightarrow> exs | Some x \<Rightarrow> x # exs)))"

lemma run_ops_pair:
  "run_ops V key ops (r, k) = ((r', k'), exs) \<Longrightarrow> run_ops V (\<lambda>r. (key r, ())) ops (r, (k, ())) = ((r', (k', ())), exs)"
proof (induction V key ops "(r, k)" arbitrary: r k exs rule: run_ops.induct)
  case (2 V key e op ops r k)
  then show ?case by (cases "starts op r") (auto simp: Let_def split: prod.splits)
qed simp

section \<open>What the base class relies on\<close>

lemma upd_stage_frame [simp]:
  "session_active (upd_stage f r) = session_active r" "audio_active (upd_stage f r) = audio_active r"
  "restart_needed (upd_stage f r) = restart_needed r" "ovr_audiodevice (upd_stage f r) = ovr_audiodevice r"
  "ovr_stage (upd_stage f r) = f (ovr_stage r)"
  by (simp_all add: upd_stage_def)


text \<open>What a running session depends on: the relay server, this device and the audio device.\<close>

definition session_key ::
  "'a render_base_scheme \<Rightarrow> string \<times> port_t \<times> secret_t \<times> stage_device \<times> audio_device option" where
  "session_key r =
     (stg_host (ovr_stage r), stg_port (ovr_stage r), stg_pin (ovr_stage r), anonymous (stg_thisdevice (ovr_stage r)),
      if ad_devicename (ovr_audiodevice r) = ''manual'' then None else Some (ovr_audiodevice r))"

text \<open>
  A renderer adds to the key what else its sessions depend on (\<open>xkey\<close>). Its methods may throw
  where the laws say nothing about the exception; the setters that it overrides may change
  the key of a running session only if they require a restart. It may rely on an invariant of
  the stage and on well-formed arguments (\<open>ok\<close>).
\<close>

locale renderer =
  fixes V :: "'e \<Rightarrow> 'a render_base_scheme vtable"
    and xkey :: "'a render_base_scheme \<Rightarrow> 'k"
    and inv :: "'a render_base_scheme \<Rightarrow> bool"
    and ok :: "render_op \<Rightarrow> bool"
  assumes start_law: "inv r \<Longrightarrow> vt_start_session (V e) r = (r', ex) \<Longrightarrow>
      inv r' \<and> session_active r' \<and> \<not> restart_needed r' \<and> audio_active r' = audio_active r"
    and end_law: "inv r \<Longrightarrow> vt_end_session (V e) r = (r', ex) \<Longrightarrow>
      inv r' \<and> ex = None \<and> \<not> session_active r' \<and> restart_needed r' = restart_needed r \<and> audio_active r' = audio_active r"
    and audio_start_law: "inv r \<Longrightarrow> vt_start_audiobackend (V e) r = (r', ex) \<Longrightarrow>
      inv r' \<and> audio_active r' \<and> session_active r' = session_active r \<and> restart_needed r' = restart_needed r"
    and audio_stop_law: "inv r \<Longrightarrow> vt_stop_audiobackend (V e) r = (r', ex) \<Longrightarrow>
      inv r' \<and> ex = None \<and> \<not> audio_active r' \<and> session_active r' = session_active r \<and> restart_needed r' = restart_needed r"
    and stage_law: "inv r \<Longrightarrow> stage_op op \<Longrightarrow> ok op \<Longrightarrow> apply_op (V e) op r = (r', ex) \<Longrightarrow>
      inv r' \<and> audio_active r' = audio_active r \<and> (session_active r' \<longrightarrow> session_active r) \<and>
      (restart_needed r \<longrightarrow> restart_needed r') \<and>
      (session_active r' \<and> \<not> restart_needed r' \<longrightarrow> (session_key r', xkey r') = (session_key r, xkey r))"
    and inv_stage: "stg_stage (ovr_stage r') = stg_stage (ovr_stage r) \<Longrightarrow> inv r \<Longrightarrow> inv r'"
    and xkey_thisdev: "xkey (set_thisdev d r) = xkey r"
    and xkey_audio: "xkey (r\<lparr>ovr_audiodevice := ad\<rparr>) = xkey r" "xkey (r\<lparr>audio_active := b\<rparr>) = xkey r"
begin

lemmas laws = start_law end_law audio_start_law audio_stop_law

definition full_key where "full_key r = (session_key r, xkey r)"

lemma restart_law:
  assumes "restart_session_if_needed (V e) r = (r', ex)" and "inv r"
  shows "inv r' \<and> (session_active r' \<and> \<not> restart_needed r' \<and> audio_active r' = audio_active r)"
proof -
  obtain r1 x1 where e: "vt_end_session (V e) r = (r1, x1)" by fastforce
  obtain r2 x2 where s: "vt_start_session (V e) r1 = (r2, x2)" by fastforce
  obtain r3 x3 where t: "vt_start_session (V e) r = (r3, x3)" by fastforce
  show ?thesis
    using assms end_law [OF assms(2) e] start_law [OF _ s] start_law [OF assms(2) t] e s t
    by (auto simp: restart_session_if_needed_def split: if_splits)
qed

lemma relay_keeps:
  assumes "set_relay_server (V e) host port pin r = (r', ex)" and "inv r"
  shows "inv r' \<and> audio_active r' = audio_active r \<and> (session_active r' \<longrightarrow> session_active r) \<and>
    (restart_needed r \<longrightarrow> restart_needed r') \<and> (session_active r' \<and> \<not> restart_needed r' \<longrightarrow> r' = r)"
proof (cases "session_active r \<and> (stg_host (ovr_stage r) \<noteq> host \<or> stg_port (ovr_stage r) \<noteq> port \<or> stg_pin (ovr_stage r) \<noteq> pin)")
  case True
  let ?r = "upd_stage (\<lambda>s. s\<lparr>stg_host := host, stg_port := port, stg_pin := pin\<rparr>) r"
  have "inv ?r" by (rule inv_stage [OF _ assms(2)]) simp
  moreover obtain r1 x where "vt_end_session (V e) ?r = (r1, x)" by fastforce
  moreover have "inv r1 \<Longrightarrow> inv (require_session_restart r1)"
    by (erule inv_stage [rotated]) (simp add: require_session_restart_def)
  ultimately show ?thesis using end_law [of ?r e r1 x] True assms
    by (auto simp: set_relay_server_def require_session_restart_def)
next
  case False
  let ?r = "upd_stage (\<lambda>s. s\<lparr>stg_host := host, stg_port := port, stg_pin := pin\<rparr>) r"
  from False have "session_active r \<Longrightarrow> ?r = r" by (simp add: upd_stage_def)
  moreover have "inv ?r" by (rule inv_stage [OF _ assms(2)]) simp
  ultimately show ?thesis using False assms by (auto simp: set_relay_server_def Let_def)
qed

lemma audio_keeps:
  assumes "configure_audio_backend (V e) ad r = (r', ex)" and "audio_active r" and inv: "inv r"
  shows "inv r' \<and> audio_active r' \<and> (session_active r' \<longrightarrow> session_active r) \<and> (restart_needed r \<longrightarrow> restart_needed r') \<and>
    (session_active r' \<and> \<not> restart_needed r' \<longrightarrow> full_key r' = full_key r)"
proof -
  let ?r1 = "r\<lparr>ovr_audiodevice := ad\<rparr>"
  have inv1: "inv ?r1" "inv (require_session_restart ?r1)"
    by (rule inv_stage [OF _ inv]; simp add: require_session_restart_def)+
  consider "\<not> audio_neq (ovr_audiodevice r) ad"
    | "audio_neq (ovr_audiodevice r) ad" "ad_devicename (ovr_audiodevice r) = ''manual''" "ad_devicename ad = ''manual''"
    | "audio_neq (ovr_audiodevice r) ad" "\<not> (ad_devicename (ovr_audiodevice r) = ''manual'' \<and> ad_devicename ad = ''manual'')"
    by blast
  then show ?thesis
  proof cases
    case 2
    have "inv (?r1\<lparr>audio_active := True\<rparr>)" by (rule inv_stage [OF _ inv]) simp
    with 2 assms show ?thesis
      by (auto simp: configure_audio_backend_def full_key_def session_key_def xkey_audio Let_def)
  next
    case 3
    define r2 where "r2 = (if session_active r then fst (vt_end_session (V e) (require_session_restart ?r1)) else ?r1)"
    obtain y1 y2 where e: "vt_end_session (V e) (require_session_restart ?r1) = (y1, y2)" by fastforce
    obtain r3 x3 where s: "vt_stop_audiobackend (V e) r2 = (r3, x3)" by fastforce
    obtain r4 x4 where a: "vt_start_audiobackend (V e) r3 = (r4, x4)" by fastforce
    have r2: "inv r2 \<and> \<not> session_active r2 \<and> (restart_needed r \<longrightarrow> restart_needed r2)"
      using end_law [OF inv1(2) e] e inv1 by (auto simp: r2_def require_session_restart_def)
    have "r' = r4 \<or> r' = r4\<lparr>audio_active := True\<rparr>"
      using assms 3 end_law [OF inv1(2) e] audio_stop_law [OF _ s] s a e r2
      by (cases x4) (auto simp: configure_audio_backend_def Let_def r2_def split: if_splits)
    moreover have "inv r4 \<Longrightarrow> inv (r4\<lparr>audio_active := True\<rparr>)" by (erule inv_stage [rotated]) simp
    ultimately show ?thesis using r2 audio_stop_law [OF _ s] audio_start_law [OF _ a] by auto
  qed (use assms in \<open>auto simp: configure_audio_backend_def\<close>)
qed

lemma thisdev_keeps:
  "(inv r \<longrightarrow> inv (set_thisdev d r)) \<and> audio_active (set_thisdev d r) = audio_active r \<and> session_active (set_thisdev d r) = session_active r \<and>
   (restart_needed r \<longrightarrow> restart_needed (set_thisdev d r)) \<and>
   (\<not> restart_needed (set_thisdev d r) \<longrightarrow> full_key (set_thisdev d r) = full_key r)"
  using xkey_thisdev [of d r] inv_stage [of "set_thisdev d r" r]
  by (auto simp: set_thisdev_def require_session_restart_def full_key_def session_key_def device_neq_iff Let_def)

lemma setter_keeps:
  assumes "setter op" and "apply_op (V e) op r = (r', ex)" and "audio_active r" and "inv r" and "ok op"
  shows "inv r' \<and> audio_active r' \<and> (session_active r' \<longrightarrow> session_active r) \<and> (restart_needed r \<longrightarrow> restart_needed r') \<and>
    (session_active r' \<and> \<not> restart_needed r' \<longrightarrow> full_key r' = full_key r)"
proof (cases "stage_op op")
  case True
  then show ?thesis using stage_law [OF assms(4) True assms(5,2)] assms(3) by (simp add: full_key_def)
next
  case False
  with assms(1) consider d where "op = Set_thisdev d" | h p n where "op = Set_relay h p n" | ad where "op = Configure_audio ad"
    by (cases op) (auto simp: setter_def)
  then show ?thesis
  proof cases
    case 1 then show ?thesis using thisdev_keeps [of r d] assms by auto
  next
    case 2
    then have "set_relay_server (V e) h p n r = (r', ex)" using assms(2) by simp
    from relay_keeps [OF this assms(4)] show ?thesis using assms(3) by auto
  next
    case 3
    then have "configure_audio_backend (V e) ad r = (r', ex)" using assms(2) by simp
    from audio_keeps [OF this assms(3,4)] show ?thesis by blast
  qed
qed

lemma op_key:
  assumes "apply_op (V e) op r = (r', ex)" and "audio_active r" and "inv r" and "ok op"
  shows "inv r' \<and> audio_active r' \<and> (session_active r' \<and> \<not> restart_needed r' \<longrightarrow>
       starts op r \<or> session_active r \<and> \<not> restart_needed r \<and> full_key r' = full_key r)"
proof (cases "setter op")
  case True
  then show ?thesis using setter_keeps [OF True assms] by blast
next
  case False
  then consider "op = Start_session" | "op = End_session" | "op = Restart_if_needed" | "op = Require_restart"
    by (auto simp: setter_def)
  then show ?thesis
  proof cases
    case 1
    then show ?thesis using start_law [OF assms(3)] assms(1,2) by (auto simp: starts_def)
  next
    case 2
    then show ?thesis using end_law [OF assms(3)] assms(1,2) by auto
  next
    case 3
    show ?thesis
    proof (cases "starts op r")
      case True
      then show ?thesis using restart_law assms 3 by simp
    next
      case False
      then have "r' = r" using assms 3 by (auto simp: starts_def restart_session_if_needed_def)
      then show ?thesis using False assms 3 by (auto simp: starts_def)
    qed
  next
    case 4
    have "inv (require_session_restart r)" by (rule inv_stage [OF _ assms(3)]) (simp add: require_session_restart_def)
    with 4 show ?thesis using assms by (auto simp: require_session_restart_def)
  qed
qed

lemma run_key:
  assumes "run_ops V full_key ops (r, k) = ((r', k'), exs)" and "audio_active r"
    and "session_active r \<Longrightarrow> \<not> restart_needed r \<Longrightarrow> full_key r = k"
    and "inv r" and "\<And>e op. (e, op) \<in> set ops \<Longrightarrow> ok op"
  shows "inv r' \<and> (session_active r' \<and> \<not> restart_needed r' \<longrightarrow> full_key r' = k')"
  using assms
proof (induction ops arbitrary: r k exs)
  case (Cons eop ops)
  obtain e op where eop: "eop = (e, op)" by fastforce
  obtain r1 ex where step: "apply_op (V e) op r = (r1, ex)" by fastforce
  then obtain exs1 where rest: "run_ops V full_key ops (r1, if starts op r then full_key r1 else k) = ((r', k'), exs1)"
    using Cons.prems(1) by (auto simp: eop Let_def split: prod.splits)
  have "ok op" using Cons.prems(5) [of e op] by (simp add: eop)
  with op_key [OF step Cons.prems(2,4)] show ?case
    by (intro Cons.IH [OF rest]) (use Cons.prems(3,5) in auto)
qed simp

text \<open>A fresh session: the key need not hold before the audio device is configured.\<close>

lemma run_key_from_audio:
  assumes "run_ops V full_key ((e, Configure_audio ad) # ops) (r, k) = ((r', k'), exs)"
    and "\<not> audio_active r" and "\<not> session_active r" and inv: "inv r" and ok: "\<And>e op. (e, op) \<in> set ops \<Longrightarrow> ok op"
  shows "inv r' \<and> (session_active r' \<and> \<not> restart_needed r' \<longrightarrow> full_key r' = k')"
proof -
  obtain r1 ex where step: "configure_audio_backend (V e) ad r = (r1, ex)" by fastforce
  then obtain exs1 where rest: "run_ops V full_key ops (r1, k) = ((r', k'), exs1)"
    using assms(1) by (auto simp: starts_def Let_def split: prod.splits)
  let ?r1 = "r\<lparr>ovr_audiodevice := ad\<rparr>"
  have inv1: "inv (?r1\<lparr>audio_active := b\<rparr>)" "inv ?r1" for b by (rule inv_stage [OF _ inv]; simp)+
  obtain r2 ex2 where a: "vt_start_audiobackend (V e) ?r1 = (r2, ex2)" by fastforce
  have "inv r2 \<Longrightarrow> inv (r2\<lparr>audio_active := True\<rparr>)" by (erule inv_stage [rotated]) simp
  then have "inv r1 \<and> audio_active r1 \<and> \<not> session_active r1"
    using step a audio_start_law [OF inv1(2) a] inv1 assms(2,3)
    by (cases ex2) (auto simp: configure_audio_backend_def Let_def split: if_splits)
  then show ?thesis using ok by (intro run_key [OF rest]) auto
qed

text \<open>
  Between two starts a session that stays active without the need to restart keeps its key, and no
  session becomes active; an active session keeps its audio.
\<close>

definition tracked where
  "tracked r r' \<longleftrightarrow> (inv r \<and> (session_active r \<longrightarrow> audio_active r) \<longrightarrow> inv r' \<and> (session_active r' \<longrightarrow> audio_active r') \<and>
     (session_active r' \<and> \<not> restart_needed r' \<longrightarrow> session_active r \<and> \<not> restart_needed r \<and> full_key r' = full_key r))"

lemma tracked_refl: "tracked r r"
  by (simp add: tracked_def)

lemma tracked_trans: "tracked r r1 \<Longrightarrow> tracked r1 r2 \<Longrightarrow> tracked r r2"
  by (auto simp: tracked_def)

lemma configure_silent:
  assumes "configure_audio_backend (V e) ad r = (r', ex)" and "\<not> audio_active r" and "\<not> session_active r" and "inv r"
  shows "inv r' \<and> \<not> session_active r'"
proof -
  let ?r1 = "r\<lparr>ovr_audiodevice := ad\<rparr>"
  obtain r2 ex2 where a: "vt_start_audiobackend (V e) ?r1 = (r2, ex2)" by fastforce
  have inv1: "inv (?r1\<lparr>audio_active := b\<rparr>)" "inv ?r1" for b by (rule inv_stage [OF _ assms(4)]; simp)+
  moreover have "inv r2 \<Longrightarrow> inv (r2\<lparr>audio_active := True\<rparr>)" by (erule inv_stage [rotated]) simp
  ultimately show ?thesis using assms a audio_start_law [OF inv1(2) a]
    by (cases ex2) (auto simp: configure_audio_backend_def Let_def split: if_splits)
qed

lemma setter_tracked:
  assumes "setter op" and "apply_op (V e) op r = (r', ex)" and "ok op"
  shows "tracked r r'"
proof -
  have "inv r' \<and> \<not> session_active r'" if silent: "\<not> audio_active r" "\<not> session_active r" and inv: "inv r"
  proof (cases "stage_op op")
    case True
    then show ?thesis using stage_law [OF inv True assms(3,2)] silent by auto
  next
    case False
    with assms(1) consider d where "op = Set_thisdev d" | h p n where "op = Set_relay h p n" | ad where "op = Configure_audio ad"
      by (cases op) (auto simp: setter_def)
    then show ?thesis
      by cases (use assms(2) silent inv relay_keeps [OF _ inv] configure_silent thisdev_keeps in auto)
  qed
  with setter_keeps [OF assms(1,2) _ _ assms(3)] show ?thesis by (auto simp: tracked_def)
qed

lemma restart_tracked: "tracked r (require_session_restart r)"
  using inv_stage [of "require_session_restart r" r] by (auto simp: tracked_def require_session_restart_def)

lemma end_tracked: "vt_end_session (V e) r = (r', ex) \<Longrightarrow> tracked r r'"
  using end_law [of r e r' ex] by (auto simp: tracked_def)

lemma audio_tracked:
  "vt_start_audiobackend (V e) r = (r', ex) \<Longrightarrow> \<not> session_active r \<Longrightarrow> tracked r r'"
  "vt_stop_audiobackend (V e) r = (r', ex) \<Longrightarrow> \<not> session_active r \<Longrightarrow> tracked r r'"
  using audio_start_law [of r e r' ex] audio_stop_law [of r e r' ex] by (auto simp: tracked_def)

end

text \<open>
  A renderer whose sessions depend on nothing else, and whose methods leave the configuration
  alone.
\<close>

definition same_config :: "'a render_base_scheme \<Rightarrow> 'a render_base_scheme \<Rightarrow> bool" where
  "same_config r r' \<longleftrightarrow> ovr_stage r' = ovr_stage r \<and> ovr_audiodevice r' = ovr_audiodevice r"

locale plain_renderer = renderer V "\<lambda>_. ()" "\<lambda>_. True" "\<lambda>_. True" for V :: "'e \<Rightarrow> 'a render_base_scheme vtable" +
  assumes end_config: "vt_end_session (V e) r = (r', ex) \<Longrightarrow> same_config r r'"
    and audio_start_config: "vt_start_audiobackend (V e) r = (r', None) \<Longrightarrow> same_config r r'"
    and audio_stop_config: "vt_stop_audiobackend (V e) r = (r', ex) \<Longrightarrow> same_config r r'"
    and stage_config: "stage_op op \<Longrightarrow> apply_op (V e) op r = (r', None) \<Longrightarrow>
      restart_needed r' = restart_needed r \<and> session_key r' = session_key r"
begin

lemma end_both: "vt_end_session (V e) r = (r', ex) \<Longrightarrow> same_config r r' \<and> restart_needed r' = restart_needed r"
  using end_law [OF TrueI] end_config by blast

lemma audio_start_both: "vt_start_audiobackend (V e) r = (r', None) \<Longrightarrow> same_config r r' \<and> restart_needed r' = restart_needed r"
  using audio_start_law [OF TrueI] audio_start_config by blast

lemma audio_stop_both: "vt_stop_audiobackend (V e) r = (r', ex) \<Longrightarrow> same_config r r' \<and> restart_needed r' = restart_needed r"
  using audio_stop_law [OF TrueI] audio_stop_config by blast

lemmas configs = end_both audio_start_both audio_stop_both

lemma relay_law:
  assumes "set_relay_server (V e) host port pin r = (r', None)" and "session_active r" and "\<not> restart_needed r"
  shows "restart_needed r' \<longleftrightarrow> session_key r' \<noteq> session_key r"
  using assms
  by (auto simp: set_relay_server_def Let_def and_then_None_iff same_config_def session_key_def
      require_session_restart_def split: if_splits dest!: configs)

lemma audio_law:
  assumes "configure_audio_backend (V e) ad r = (r', None)" and "session_active r" and "\<not> restart_needed r" and "audio_active r"
  shows "restart_needed r' \<longleftrightarrow> session_key r' \<noteq> session_key r"
  using assms
  by (auto simp: configure_audio_backend_def Let_def and_then_None_iff same_config_def session_key_def
      require_session_restart_def split: if_splits dest!: configs)

lemma thisdev_law:
  "\<not> restart_needed r \<Longrightarrow> restart_needed (set_thisdev d r) \<longleftrightarrow> session_key (set_thisdev d r) \<noteq> session_key r"
  by (auto simp: set_thisdev_def require_session_restart_def session_key_def device_neq_iff Let_def)

lemma op_decision:
  assumes "setter op" and "apply_op (V e) op r = (r', None)" and "session_active r" and "\<not> restart_needed r" and "audio_active r"
  shows "restart_needed r' \<longleftrightarrow> session_key r' \<noteq> session_key r"
proof (cases op)
  case (Set_thisdev d)
  then show ?thesis using thisdev_law [of r d] assms(2,4) by auto
next
  case (Set_relay host port pin)
  then show ?thesis using relay_law assms by auto
next
  case (Configure_audio ad)
  then show ?thesis using audio_law assms by auto
qed (use assms stage_config [OF _ assms(2)] in \<open>auto simp: setter_def\<close>)

end

section \<open>The methods of the base class keep the laws\<close>

lemmas stage_setter_defs = add_stage_device_def rm_stage_device_def clear_stage_def set_stage_def
  set_stage_device_gain_def set_render_settings_def base_set_extra_config_def

lemmas base_method_defs = base_vtable_def base_start_session_def base_end_session_def base_start_audiobackend_def
  base_stop_audiobackend_def

lemma base_stage_op:
  assumes "stage_op op" and "apply_op base_vtable op r = (r', ex)"
  shows "audio_active r' = audio_active r \<and> session_active r' = session_active r \<and> restart_needed r' = restart_needed r \<and>
    session_key r' = session_key r"
  using assms by (cases op) (auto simp: base_vtable_def stage_setter_defs session_key_def split: option.splits)

interpretation base_renderer: plain_renderer "\<lambda>_. base_vtable"
proof unfold_locales
  fix op r r' ex
  assume "stage_op op" and "apply_op base_vtable op r = (r', ex)"
  from base_stage_op [OF this] show "True \<and> audio_active r' = audio_active r \<and> (session_active r' \<longrightarrow> session_active r) \<and>
      (restart_needed r \<longrightarrow> restart_needed r') \<and>
      (session_active r' \<and> \<not> restart_needed r' \<longrightarrow> (session_key r', ()) = (session_key r, ()))" by auto
qed (use base_stage_op in \<open>auto simp: base_method_defs same_config_def\<close>)

lemma base_never_throws: "snd (apply_op base_vtable op r) = None"
  by (cases op) (simp_all add: base_method_defs restart_session_if_needed_def configure_audio_backend_def set_relay_server_def Let_def)

lemma base_run: "snd (run_ops (\<lambda>_. base_vtable) key ops (r, k)) = []"
proof (induction ops arbitrary: r k)
  case (Cons eop ops)
  obtain e op r1 ex where s: "eop = (e, op)" "apply_op base_vtable op r = (r1, ex)" by (metis surj_pair)
  then have "ex = None" using base_never_throws [of op r] by simp
  then show ?case using Cons.IH [of r1] s by (simp add: Let_def split: prod.splits)
qed simp

section \<open>Properties\<close>

text \<open>A session runs with the current configuration: once an audio device is configured, whatever
  operations follow, none of them fails, and whenever a session is active and no restart is
  pending, the relay server, this device (up to channel identifiers) and the audio device
  (unless it is operated manually) are those with which the session was started.\<close>

theorem session_reflects_configuration:
  "\<exists>r k. run_ops (\<lambda>_. base_vtable) session_key ((e, Configure_audio ad) # ops) (render_base_ctor dev, k0) = ((r, k), []) \<and>
     (session_active r \<and> \<not> restart_needed r \<longrightarrow> session_key r = k)"
proof -
  obtain r k exs where run: "run_ops (\<lambda>_. base_vtable) session_key ((e, Configure_audio ad) # ops) (render_base_ctor dev, k0) = ((r, k), exs)"
    by (metis surj_pair)
  have none: "exs = []" using base_run [of session_key "(e, Configure_audio ad) # ops"] run by (metis snd_conv)
  have "run_ops (\<lambda>_. base_vtable) base_renderer.full_key ((e, Configure_audio ad) # ops) (render_base_ctor dev, (k0, ())) = ((r, (k, ())), exs)"
    using run_ops_pair [OF run] by (simp add: base_renderer.full_key_def [abs_def])
  from base_renderer.run_key_from_audio [OF this] have "session_active r \<and> \<not> restart_needed r \<longrightarrow> session_key r = k"
    by (simp add: render_base_ctor_def base_renderer.full_key_def)
  with run none show ?thesis by auto
qed

definition example_audio :: audio_device where
  "example_audio = \<lparr>ad_drivername = ''jack'', ad_devicename = ''hw:1'', ad_srate = 48000, ad_periodsize = 96,
     ad_numperiods = 2, ad_priority = 40\<rparr>"

theorem session_reflects_configuration_witness:
  "\<exists>r. run_ops (\<lambda>_. base_vtable) session_key
     (map (Pair ()) [Configure_audio example_audio, Set_relay ''host'' 1 2, Restart_if_needed, Set_relay ''other'' 1 2, Restart_if_needed])
     (render_base_ctor [], session_key (render_base_ctor [])) = ((r, session_key r), []) \<and>
     session_active r \<and> \<not> restart_needed r"
proof -
  let ?ops = "map (Pair ()) [Set_relay ''host'' 1 2, Restart_if_needed, Set_relay ''other'' 1 2, Restart_if_needed]"
  obtain r k where run: "run_ops (\<lambda>_. base_vtable) session_key (((), Configure_audio example_audio) # ?ops)
       (render_base_ctor [], session_key (render_base_ctor [])) = ((r, k), [])"
    and key: "session_active r \<and> \<not> restart_needed r \<longrightarrow> session_key r = k"
    using session_reflects_configuration [of "()" example_audio ?ops "[]" "session_key (render_base_ctor [])"] by blast
  have "session_active r \<and> \<not> restart_needed r"
    using run by (auto simp: configure_audio_backend_def render_base_ctor_def base_method_defs
        set_relay_server_def restart_session_if_needed_def require_session_restart_def starts_def Let_def)
  with run key show ?thesis by auto
qed

text \<open>Restarts are required exactly when needed: with a running session, a setter of the
  configuration requires a restart if and only if it changed something that the session
  depends on; sending the same values again, or changing other devices, gains or rendering
  settings, never does.\<close>

theorem restart_decision:
  assumes "setter op" and "session_active r" and "\<not> restart_needed r" and "audio_active r"
    and "apply_op base_vtable op r = (r', None)"
  shows "restart_needed r' \<longleftrightarrow> session_key r' \<noteq> session_key r"
  using base_renderer.op_decision assms by blast

theorem restart_decision_witness:
  "restart_needed (fst (apply_op base_vtable (Set_relay ''host'' 1 2)
       ((render_base_ctor [])\<lparr>session_active := True, audio_active := True\<rparr>)))"
proof -
  let ?r = "(render_base_ctor [])\<lparr>session_active := True, audio_active := True\<rparr>"
  obtain r' where a: "apply_op base_vtable (Set_relay ''host'' 1 2) ?r = (r', None)"
    using base_never_throws by (metis surjective_pairing)
  have "stg_host (ovr_stage r') = ''host''" using a
    by (auto simp: set_relay_server_def base_vtable_def base_end_session_def require_session_restart_def
        render_base_ctor_def default_stage_def Let_def)
  then have "session_key r' \<noteq> session_key ?r"
    by (simp add: session_key_def render_base_ctor_def default_stage_def)
  then show ?thesis using restart_decision [OF _ _ _ _ a] a by (simp add: setter_def render_base_ctor_def)
qed

text \<open>Where the plugin configuration leaves the vectors: when the stage has more entries than this
  device's number but none for this number, the inserted empty entry is accessed at the
  channel; and a plugin without a name, at a place where the channel has none yet, is
  compared equal to the missing one and read behind the end of the vector.\<close>

theorem update_plugincfg_faults:
  assumes "channel < get_num_inputs r" and "i = stg_thisstagedeviceid (ovr_stage r)" and "m = stg_stage (ovr_stage r)"
    and "chs = sd_channels (stg_thisdevice (ovr_stage r))"
    and "js_parse J cfg = Inr js"
    and "(\<exists>ch. update_plugin_cfg J cfg (chs ! channel) = Inr (ch, None)) \<and> unat i < length m \<and> map_of m i = None \<or>
      (\<exists>c its. js_items J js = (Inr [], c) # its) \<and> ch_plugins (chs ! channel) = []"
  shows "update_plugincfg J cfg channel r = Inl Out_of_bounds"
  using assms(6)
proof
  assume "(\<exists>ch. update_plugin_cfg J cfg (chs ! channel) = Inr (ch, None)) \<and> unat i < length m \<and> map_of m i = None"
  then obtain ch where ch: "update_plugin_cfg J cfg (chs ! channel) = Inr (ch, None)" "unat i < length m" "map_of m i = None"
    by blast
  have "sd_channels zero_device = []" by (simp add: zero_device_def)
  with ch assms(1-4) show ?thesis
    by (simp add: update_plugincfg_def upd_stage_def omap_index_def Let_def)
next
  assume *: "(\<exists>c its. js_items J js = (Inr [], c) # its) \<and> ch_plugins (chs ! channel) = []"
  then have "update_plugin_cfg J cfg (chs ! channel) = Inl Out_of_bounds"
    using assms(5) by (auto simp: update_plugin_cfg_def)
  with assms(1,4) show ?thesis by (simp add: update_plugincfg_def)
qed

definition example_json :: "jval json_lib" where
  "example_json = jval_lib (\<lambda>s. Inr (if s = [] then Jnull else Jobj [([], Jnull)]))"

definition example_mixer :: render_base where
  "example_mixer = (render_base_ctor [])\<lparr>ovr_stage := default_stage\<lparr>stg_stage := [(1, default_device)],
     stg_thisdevice := default_device\<lparr>sd_channels := [device_channel_ctor [] [] 1 default_pos []]\<rparr>\<rparr>\<rparr>"

theorem update_plugincfg_faults_witness:
  "update_plugincfg example_json [] 0 example_mixer = Inl Out_of_bounds \<and>
   update_plugincfg example_json ''x'' 0 example_mixer = Inl Out_of_bounds"
proof
  show "update_plugincfg example_json [] 0 example_mixer = Inl Out_of_bounds"
    by (rule update_plugincfg_faults [where js = Jnull, OF _ refl refl refl])
      (auto simp: example_json_def jval_lib_def example_mixer_def get_num_inputs_def default_stage_def update_plugin_cfg_def
        device_channel_ctor_def)
  show "update_plugincfg example_json ''x'' 0 example_mixer = Inl Out_of_bounds"
    by (rule update_plugincfg_faults [where js = "Jobj [([], Jnull)]", OF _ refl refl refl])
      (auto simp: example_json_def jval_lib_def example_mixer_def get_num_inputs_def default_stage_def device_channel_ctor_def)
qed

end
