(* ===== verification/Ovbox_Socket.thy ===== *)
theory Ovbox_Socket
  imports Udp
begin

text \<open>
  The rest of \<open>src/udpsocket.h\<close> and \<open>src/udpsocket.cc\<close>: the message buffer
  (\<open>msgbuf_t\<close>), the map of sequence numbers (\<open>sequence_map_t\<close>) and the socket that packs,
  sends and receives session messages (\<open>ovbox_udpsocket_t\<close>). Initial memory contents,
  clock readings and generated keys are parameters.
\<close>

section \<open>Message buffers\<close>

text \<open>
  The pointer \<open>msg\<close> of the code always points into \<open>rawbuffer\<close>; it is modelled by its
  offset there.
\<close>

record msgbuf =
  mb_valid :: bool
  mb_cid :: stage_device_id_t
  mb_destport :: port_t
  mb_seq :: sequence_t
  mb_size :: nat
  rawbuffer :: "byte list"
  mb_msg :: nat
  mb_sender :: endpoint
  mb_t :: int

text \<open>The constructor leaves \<open>sender\<close> and the clock reading uninitialised.\<close>

definition msgbuf_ctor :: "endpoint \<Rightarrow> int \<Rightarrow> msgbuf" where
  "msgbuf_ctor sender t =
     \<lparr>mb_valid = False, mb_cid = 0, mb_destport = 0, mb_seq = 0, mb_size = 0,
      rawbuffer = replicate BUFSIZE 0, mb_msg = 0, mb_sender = sender, mb_t = t\<rparr>"

definition msgbuf_copy :: "msgbuf \<Rightarrow> msgbuf \<Rightarrow> msgbuf" where
  "msgbuf_copy dst src =
     dst\<lparr>mb_valid := mb_valid src, mb_cid := mb_cid src, mb_destport := mb_destport src,
         mb_seq := mb_seq src, mb_size := mb_size src, rawbuffer := rawbuffer src,
         mb_msg := HEADERLEN\<rparr>"

definition msgbuf_unpack :: "nat \<Rightarrow> msgbuf \<Rightarrow> msgbuf" where
  "msgbuf_unpack msglen b =
     (let b1 = b\<lparr>mb_valid := False\<rparr>
      in if HEADERLEN \<le> msglen \<and> msglen \<le> BUFSIZE
         then b1\<lparr>mb_cid := msg_callerid (rawbuffer b), mb_destport := msg_port (rawbuffer b),
                 mb_seq := msg_seq (rawbuffer b), mb_size := msglen - HEADERLEN,
                 mb_msg := HEADERLEN, mb_valid := True\<rparr>
         else b1)"

definition msgbuf_pack ::
  "secret_t \<Rightarrow> stage_device_id_t \<Rightarrow> port_t \<Rightarrow> sequence_t \<Rightarrow> byte list \<Rightarrow> nat \<Rightarrow> msgbuf \<Rightarrow> msgbuf" where
  "msgbuf_pack secret callerid destport sq msg msglen b =
     (let (raw, len) = packmsg (rawbuffer b) BUFSIZE secret callerid destport sq msg msglen
      in msgbuf_unpack len (b\<lparr>rawbuffer := raw\<rparr>))"

definition set_tick :: "int \<Rightarrow> msgbuf \<Rightarrow> msgbuf" where
  "set_tick now b = b\<lparr>mb_t := now\<rparr>"

text \<open>The memory from \<open>msg\<close> on, and the user data of a buffer.\<close>

definition msg_mem :: "msgbuf \<Rightarrow> byte list" where
  "msg_mem b = drop (mb_msg b) (rawbuffer b)"

definition payload :: "msgbuf \<Rightarrow> byte list" where
  "payload b = take (mb_size b) (msg_mem b)"

text \<open>A buffer has its full size; a valid one holds a message inside it.\<close>

definition msgbuf_ok :: "msgbuf \<Rightarrow> bool" where
  "msgbuf_ok b \<longleftrightarrow> length (rawbuffer b) = BUFSIZE \<and> mb_msg b \<le> HEADERLEN \<and>
     mb_size b + HEADERLEN \<le> BUFSIZE \<and> (mb_valid b \<longrightarrow> mb_msg b = HEADERLEN)"

lemma buf_bounds: "HEADERLEN \<le> BUFSIZE" "HEADERLEN = 9" "BUFSIZE = 8192"
  by (simp_all add: header_layout BUFSIZE_def)

lemma msgbuf_ok_ctor [simp, intro]: "msgbuf_ok (msgbuf_ctor s t)"
  by (simp add: msgbuf_ok_def msgbuf_ctor_def buf_bounds)

lemma msgbuf_ok_copy [intro]: "msgbuf_ok dst \<Longrightarrow> msgbuf_ok src \<Longrightarrow> msgbuf_ok (msgbuf_copy dst src)"
  by (simp add: msgbuf_ok_def msgbuf_copy_def)

lemma msgbuf_ok_unpack [intro]: "msgbuf_ok b \<Longrightarrow> msgbuf_ok (msgbuf_unpack n b)"
  by (auto simp: msgbuf_ok_def msgbuf_unpack_def Let_def buf_bounds)

lemma msgbuf_ok_invalidate [intro]: "msgbuf_ok b \<Longrightarrow> msgbuf_ok (b\<lparr>mb_valid := False\<rparr>)"
  by (simp add: msgbuf_ok_def)

lemma msgbuf_ok_raw: "msgbuf_ok b \<Longrightarrow> length raw = BUFSIZE \<Longrightarrow> msgbuf_ok (b\<lparr>rawbuffer := raw\<rparr>)"
  by (simp add: msgbuf_ok_def)

lemma msgbuf_unpack_valid: "mb_valid (msgbuf_unpack n b) \<longleftrightarrow> HEADERLEN \<le> n \<and> n \<le> BUFSIZE"
  by (simp add: msgbuf_unpack_def Let_def)

text \<open>What a copy keeps, and the one field that it does not transport.\<close>

lemma msgbuf_copy_fields [simp]:
  "mb_valid (msgbuf_copy d s) = mb_valid s" "mb_cid (msgbuf_copy d s) = mb_cid s"
  "mb_destport (msgbuf_copy d s) = mb_destport s" "mb_seq (msgbuf_copy d s) = mb_seq s"
  "mb_size (msgbuf_copy d s) = mb_size s" "rawbuffer (msgbuf_copy d s) = rawbuffer s"
  "mb_sender (msgbuf_copy d s) = mb_sender d" "mb_t (msgbuf_copy d s) = mb_t d"
  by (simp_all add: msgbuf_copy_def)

lemma payload_copy: "mb_msg s = HEADERLEN \<Longrightarrow> payload (msgbuf_copy d s) = payload s"
  by (simp add: payload_def msg_mem_def msgbuf_copy_def)

lemma msgbuf_pack_ok:
  assumes "msgbuf_ok b" and "HEADERLEN + msglen \<le> BUFSIZE" and "msglen \<le> length msg"
  shows "msgbuf_pack sec cid p sq msg msglen b =
    b\<lparr>rawbuffer := header_bytes sec cid p sq @ take msglen msg @ drop (HEADERLEN + msglen) (rawbuffer b),
      mb_valid := True, mb_cid := cid, mb_destport := p, mb_seq := sq, mb_size := msglen,
      mb_msg := HEADERLEN\<rparr>"
  using assms by (simp add: msgbuf_pack_def packmsg_ok msgbuf_ok_def msgbuf_unpack_def Let_def)

section \<open>Sequence numbers\<close>

type_synonym sequence_map = "(port_t, sequence_t) omap"

text \<open>\<open>sequence_map_t::operator[]\<close>: a port that is not present is inserted with 0.\<close>

definition sequence_index :: "port_t \<Rightarrow> sequence_map \<Rightarrow> sequence_t \<times> sequence_map" where
  "sequence_index port m = omap_index 0 port m"

definition seq_get :: "sequence_map \<Rightarrow> port_t \<Rightarrow> sequence_t" where
  "seq_get m p = (case map_of m p of Some v \<Rightarrow> v | None \<Rightarrow> 0)"

lemma fst_sequence_index [simp]: "fst (sequence_index p m) = seq_get m p"
  by (simp add: sequence_index_def omap_index_value seq_get_def)

lemma seq_get_index [simp]: "omap_wf m \<Longrightarrow> seq_get (snd (sequence_index p m)) q = seq_get m q"
  by (auto simp: sequence_index_def omap_index_def seq_get_def omap.lookup_put split: option.splits)

lemma omap_wf_sequence_index [simp, intro]: "omap_wf m \<Longrightarrow> omap_wf (snd (sequence_index p m))"
  by (simp add: sequence_index_def)

lemma seq_get_put: "omap_wf m \<Longrightarrow> seq_get (omap_put p v m) q = (if q = p then v else seq_get m q)"
  by (simp add: seq_get_def omap.lookup_put)

section \<open>The session socket\<close>

record ovbox_udpsocket = udpsocket +
  ov_secret :: secret_t
  ov_callerid :: stage_device_id_t
  seqmap :: sequence_map
  t_start :: int
  recipient_public :: "byte list"
  recipient_secret :: "byte list"

text \<open>
  Floating-point numbers are reals; \<open>fl\<close> rounds the result of each double-precision
  operation, \<open>fl32\<close> that of a single-precision one, and \<open>dbl_bytes\<close> and \<open>bytes_dbl\<close> are
  the memory representation of a double. Rounding and representation are parameters.
\<close>

record fpu =
  fl :: "real \<Rightarrow> real"
  fl32 :: "real \<Rightarrow> real"
  dbl_bytes :: "real \<Rightarrow> byte list"
  bytes_dbl :: "byte list \<Rightarrow> real"

definition sizeof_double :: nat where "sizeof_double = 8"

text \<open>A value that the memory representation of a double can hold.\<close>

definition dbl_ok :: "fpu \<Rightarrow> real \<Rightarrow> bool" where
  "dbl_ok F x \<longleftrightarrow> length (dbl_bytes F x) = sizeof_double \<and> bytes_dbl F (dbl_bytes F x) = x"

definition ovbox_udpsocket_ctor ::
  "udpsocket \<Rightarrow> secret_t \<Rightarrow> stage_device_id_t \<Rightarrow> int \<Rightarrow> byte list \<times> byte list \<Rightarrow> ovbox_udpsocket" where
  "ovbox_udpsocket_ctor base secret cid now keys =
     udpsocket.extend base
       \<lparr>ov_secret = secret, ov_callerid = cid, seqmap = [], t_start = now,
        recipient_public = fst keys, recipient_secret = snd keys\<rparr>"

definition set_secret :: "secret_t \<Rightarrow> byte list \<times> byte list \<Rightarrow> ovbox_udpsocket \<Rightarrow> ovbox_udpsocket" where
  "set_secret sec keys s =
     s\<lparr>ov_secret := sec, recipient_public := fst keys, recipient_secret := snd keys\<rparr>"

text \<open>Seconds since the start of the socket; clock readings are nanosecond counts.\<close>

definition time_since_start :: "fpu \<Rightarrow> int \<Rightarrow> ovbox_udpsocket \<Rightarrow> real" where
  "time_since_start F now s = fl F (fl F (real_of_int (now - t_start s)) / 1000000000)"

text \<open>The age of a message in milliseconds.\<close>

definition get_age :: "fpu \<Rightarrow> int \<Rightarrow> msgbuf \<Rightarrow> real" where
  "get_age F now b = fl F (1000 * fl F (fl F (real_of_int (now - mb_t b)) / 1000000000))"

text \<open>The method \<open>packmsg\<close>: the session header, and the next sequence number of the port.\<close>

definition ov_packmsg ::
  "ovbox_udpsocket \<Rightarrow> byte list \<Rightarrow> nat \<Rightarrow> port_t \<Rightarrow> byte list \<Rightarrow> nat \<Rightarrow> byte list \<times> nat \<times> ovbox_udpsocket" where
  "ov_packmsg s destbuf maxlen destport msg msglen =
     (let (sq, m) = sequence_index destport (seqmap s);
          s1 = s\<lparr>seqmap := m\<rparr>
      in if MAXSPECIALPORT \<le> destport
         then
           let sq' = sq + 1;
               s2 = s1\<lparr>seqmap := omap_put destport sq' m\<rparr>;
               (buf, n) = packmsg destbuf maxlen (ov_secret s) (ov_callerid s) destport sq' msg msglen
           in (buf, n, s2)
         else
           let (buf, n) = packmsg destbuf maxlen (ov_secret s) (ov_callerid s) destport 0 msg msglen
           in (buf, n, s1))"

definition pack_and_send ::
  "kernel \<Rightarrow> ovbox_udpsocket \<Rightarrow> port_t \<Rightarrow> byte list \<Rightarrow> nat \<Rightarrow> port_t \<Rightarrow> bool \<times> ovbox_udpsocket \<times> dgram list" where
  "pack_and_send K s destport msg msglen remoteport =
     (let (buf, len, s1) = ov_packmsg s (replicate BUFSIZE 0) BUFSIZE destport msg msglen
      in if len = 0 then (False, s1, [])
         else
           let (sendlen, s2, out) = send_port K s1 buf len remoteport
           in if sendlen = -1 then (False, s2, out) else (True, s2, out))"

definition pingbufsize :: nat where
  "pingbufsize = HEADERLEN + 8 + 1 + sizeof_endpoint + 100"

definition send_ping ::
  "kernel \<Rightarrow> fpu \<Rightarrow> int \<Rightarrow> ovbox_udpsocket \<Rightarrow> endpoint \<Rightarrow> stage_device_id_t \<Rightarrow> special_port
     \<Rightarrow> ovbox_udpsocket \<times> dgram list" where
  "send_ping K F now s ep destid proto =
     (let (b0, n0, s1) = ov_packmsg s (replicate pingbufsize 0) pingbufsize (port_code proto) [] 0;
          (b1, n1) = (if proto = PORT_PING_SRV then addmsg b0 pingbufsize n0 (le_bytes 1 destid) 1 else (b0, n0));
          t1 = time_since_start F now s1;
          (b2, n2) = addmsg b1 pingbufsize n1 (dbl_bytes F t1) sizeof_double;
          (b3, n3) = addmsg b2 pingbufsize n2 (bytes_of_endpoint ep) sizeof_endpoint;
          (r, s2, out) = send_ep K s1 b3 n3 ep
      in (s2, out))"

text \<open>
  \<open>get_pingtime\<close> reads a double at the pointer it is given and moves the pointer; \<open>mem\<close>
  is the memory from the pointer to the end of its area.
\<close>

definition get_pingtime ::
  "fpu \<Rightarrow> int \<Rightarrow> ovbox_udpsocket \<Rightarrow> byte list \<Rightarrow> nat \<Rightarrow> (real \<times> byte list \<times> nat) res" where
  "get_pingtime F now s mem msglen =
     (if sizeof_double \<le> msglen then
        if length mem < sizeof_double then Inl Out_of_bounds
        else
          let t_send = bytes_dbl F (take sizeof_double mem);
              dt = fl F (time_since_start F now s - t_send)
          in Inr (fl F (1000 * dt), drop sizeof_double mem, msglen - sizeof_double)
      else Inr (-1, mem, msglen))"

definition send_pubkey_port :: "kernel \<Rightarrow> ovbox_udpsocket \<Rightarrow> port_t \<Rightarrow> ovbox_udpsocket \<times> dgram list" where
  "send_pubkey_port K s port =
     (let buflen = HEADERLEN + crypto_box_PUBLICKEYBYTES;
          (buf, n, s1) = ov_packmsg s (replicate buflen 0) buflen (port_code PORT_PUBKEY)
                           (recipient_public s) crypto_box_PUBLICKEYBYTES;
          (r, s2, out) = send_port K s1 buf n port
      in (s2, out))"

definition send_pubkey_ep :: "kernel \<Rightarrow> ovbox_udpsocket \<Rightarrow> endpoint \<Rightarrow> ovbox_udpsocket \<times> dgram list" where
  "send_pubkey_ep K s ep =
     (let buflen = HEADERLEN + crypto_box_PUBLICKEYBYTES;
          (buf, n, s1) = ov_packmsg s (replicate buflen 0) buflen (port_code PORT_PUBKEY)
                           (recipient_public s) crypto_box_PUBLICKEYBYTES;
          (r, s2, out) = send_ep K s1 buf n ep
      in (s2, out))"

text \<open>
  The three messages of a registration. The version string is set by the build and is a
  parameter; the first message is packed without the sequence map and carries the
  operation mode in place of a sequence number.
\<close>

definition send_registration ::
  "kernel \<Rightarrow> byte list \<Rightarrow> ovbox_udpsocket \<Rightarrow> epmode_t \<Rightarrow> port_t \<Rightarrow> endpoint \<Rightarrow> ovbox_udpsocket \<times> dgram list" where
  "send_registration K OVBOXVERSION s mode port localep =
     (let rver = OVBOXVERSION;
          buflen = HEADERLEN + length rver + 1;
          (buf, n) = packmsg (replicate buflen 0) buflen (ov_secret s) (ov_callerid s)
                       (port_code PORT_REGISTER) (ucast mode) (rver @ [0]) (length rver + 1);
          (r1, s1, out1) = send_port K s buf n port;
          buflen' = HEADERLEN + sizeof_endpoint;
          (buf', n', s2) = ov_packmsg s1 (replicate buflen' 0) buflen' (port_code PORT_SETLOCALIP)
                             (bytes_of_endpoint localep) sizeof_endpoint;
          (r2, s3, out2) = send_port K s2 buf' n' port;
          (s4, out3) = send_pubkey_port K s3 port
      in (s4, out1 @ out2 @ out3))"

section \<open>Receiving\<close>

text \<open>
  \<open>recv_sec_msg\<close> on a raw buffer: the number of received bytes and, on success, the header
  fields and the start and length of the user data.
\<close>

definition recv_sec_raw ::
  "ovbox_udpsocket \<Rightarrow> byte list \<Rightarrow> nat \<Rightarrow> (byte list \<times> endpoint) option \<Rightarrow>
     ovbox_udpsocket \<times> byte list \<times> nat \<times> endpoint \<times>
     (nat \<times> stage_device_id_t \<times> port_t \<times> sequence_t \<times> nat) option" where
  "recv_sec_raw s inputbuf ilen inp =
     (let (ilens, s1, buf, addr) = recvfrom s inputbuf ilen inp
      in if ilens < 0 then (s1, buf, 0, addr, None)
         else
           let ilen' = nat ilens
           in if ilen' < HEADERLEN then (s1, buf, ilen', addr, None)
              else if msg_secret buf \<noteq> ov_secret s then (s1, buf, ilen', addr, None)
              else (s1, buf, ilen', addr,
                    Some (HEADERLEN, msg_callerid buf, msg_port buf, msg_seq buf, ilen' - HEADERLEN)))"

definition recv_sec_msg ::
  "ovbox_udpsocket \<Rightarrow> msgbuf \<Rightarrow> (byte list \<times> endpoint) option \<Rightarrow> bool \<times> ovbox_udpsocket \<times> msgbuf" where
  "recv_sec_msg s b inp =
     (let b0 = b\<lparr>mb_valid := False\<rparr>;
          (ilens, s1, buf, addr) = recvfrom s (rawbuffer b0) BUFSIZE inp;
          b1 = b0\<lparr>rawbuffer := buf, mb_sender := addr\<rparr>
      in if ilens < 0 then (False, s1, b1)
         else
           let ilen = nat ilens
           in if ilen < HEADERLEN then (False, s1, b1)
              else if msg_secret (rawbuffer b1) \<noteq> ov_secret s then (False, s1, b1)
              else let b2 = msgbuf_unpack ilen b1 in (mb_valid b2, s1, b2))"

section \<open>Lemmas\<close>

text \<open>The number that a packed message carries, and the socket after packing.\<close>

definition next_seq :: "ovbox_udpsocket \<Rightarrow> port_t \<Rightarrow> sequence_t" where
  "next_seq s p = (if MAXSPECIALPORT \<le> p then seq_get (seqmap s) p + 1 else 0)"

definition bump_seq :: "port_t \<Rightarrow> ovbox_udpsocket \<Rightarrow> ovbox_udpsocket" where
  "bump_seq p s =
     (let m = snd (sequence_index p (seqmap s))
      in s\<lparr>seqmap := if MAXSPECIALPORT \<le> p then omap_put p (seq_get (seqmap s) p + 1) m else m\<rparr>)"

lemma ov_packmsg_eq:
  "ov_packmsg s d maxlen p msg msglen =
     (let (buf, n) = packmsg d maxlen (ov_secret s) (ov_callerid s) p (next_seq s p) msg msglen
      in (buf, n, bump_seq p s))"
proof -
  obtain v m where vm: "sequence_index p (seqmap s) = (v, m)" by fastforce
  then have "v = seq_get (seqmap s) p" using fst_sequence_index by (metis fst_conv)
  with vm show ?thesis
    by (auto simp: ov_packmsg_def next_seq_def bump_seq_def Let_def split: prod.splits)
qed

lemma ov_packmsg_ok:
  assumes "HEADERLEN + msglen \<le> maxlen" and "maxlen \<le> length d" and "msglen \<le> length msg"
  shows "ov_packmsg s d maxlen p msg msglen =
    (header_bytes (ov_secret s) (ov_callerid s) p (next_seq s p) @ take msglen msg @
       drop (HEADERLEN + msglen) d, HEADERLEN + msglen, bump_seq p s)"
  using packmsg_ok [OF assms] by (simp add: ov_packmsg_eq)

lemma bump_seq_frame [simp]:
  "ov_secret (bump_seq p s) = ov_secret s" "ov_callerid (bump_seq p s) = ov_callerid s"
  "t_start (bump_seq p s) = t_start s" "serv_addr (bump_seq p s) = serv_addr s"
  "recipient_public (bump_seq p s) = recipient_public s"
  "recipient_secret (bump_seq p s) = recipient_secret s" "sockfd (bump_seq p s) = sockfd s"
  by (simp_all add: bump_seq_def Let_def)

lemma bump_seq_wf [simp, intro]: "omap_wf (seqmap s) \<Longrightarrow> omap_wf (seqmap (bump_seq p s))"
  by (simp add: bump_seq_def Let_def)

lemma seq_get_bump [simp]:
  "omap_wf (seqmap s) \<Longrightarrow> seq_get (seqmap (bump_seq p s)) q =
     (if q = p \<and> MAXSPECIALPORT \<le> p then seq_get (seqmap s) p + 1 else seq_get (seqmap s) q)"
  by (auto simp: bump_seq_def Let_def seq_get_put)

text \<open>A socket is well formed when its sequence map is an ordered map.\<close>

definition socket_ok :: "ovbox_udpsocket \<Rightarrow> bool" where
  "socket_ok s \<longleftrightarrow> omap_wf (seqmap s)"

definition packed :: "ovbox_udpsocket \<Rightarrow> port_t \<times> byte list \<Rightarrow> ovbox_udpsocket" where
  "packed s m = snd (snd (ov_packmsg s (replicate BUFSIZE 0) BUFSIZE (fst m) (snd m) (length (snd m))))"

lemma packed_eq [simp]: "packed s m = bump_seq (fst m) s"
  by (simp add: packed_def ov_packmsg_eq Let_def split: prod.split)

interpretation packing: event_machine packed socket_ok
  by unfold_locales (simp add: socket_ok_def)

lemma seq_get_packed:
  "socket_ok s \<Longrightarrow> MAXSPECIALPORT \<le> p \<Longrightarrow>
   seq_get (seqmap (foldl packed s ms)) p = seq_get (seqmap s) p + of_nat (count_list (map fst ms) p)"
  by (induction ms arbitrary: s) (auto simp: socket_ok_def)

lemma packed_frame [simp]:
  "ov_secret (foldl packed s ms) = ov_secret s" "ov_callerid (foldl packed s ms) = ov_callerid s"
  by (induction ms arbitrary: s) simp_all

text \<open>Reception of a datagram.\<close>

definition count_rx :: "nat \<Rightarrow> ovbox_udpsocket \<Rightarrow> ovbox_udpsocket" where
  "count_rx n s = (if 0 < n then s\<lparr>rx_bytes := rx_bytes s + word_of_nat n\<rparr> else s)"

lemma count_rx_frame [simp]:
  "ov_secret (count_rx n s) = ov_secret s" "ov_callerid (count_rx n s) = ov_callerid s"
  "seqmap (count_rx n s) = seqmap s" "serv_addr (count_rx n s) = serv_addr s"
  "t_start (count_rx n s) = t_start s" "recipient_public (count_rx n s) = recipient_public s"
  "recipient_secret (count_rx n s) = recipient_secret s"
  by (simp_all add: count_rx_def)

lemma recv_sec_msg_None:
  "recv_sec_msg s b None =
     (False, s, b\<lparr>mb_valid := False, mb_sender := zero_endpoint\<lparr>sin_family := AF_INET\<rparr>\<rparr>)"
  by (simp add: recv_sec_msg_def recvfrom_def Let_def)

lemma recv_sec_msg_Some:
  "recv_sec_msg s b (Some (data, src)) =
     (let d = take BUFSIZE data; raw = blit 0 d (rawbuffer b); s1 = count_rx (length d) s;
          b1 = b\<lparr>mb_valid := False, rawbuffer := raw, mb_sender := src\<rparr>
      in if length d < HEADERLEN \<or> msg_secret raw \<noteq> ov_secret s then (False, s1, b1)
         else (True, s1, msgbuf_unpack (length d) b1))"
proof -
  define d where "d = take BUFSIZE data"
  have "length d \<le> BUFSIZE" by (simp add: d_def)
  moreover have "0 < HEADERLEN" by (simp add: buf_bounds)
  ultimately show ?thesis
    unfolding recv_sec_msg_def recvfrom_def Let_def option.case prod.case d_def [symmetric]
    by (simp add: count_rx_def msgbuf_unpack_valid del: length_greater_0_conv)
qed

lemma header_of_prefix:
  assumes "HEADERLEN \<le> length d"
  shows "msg_secret (d @ r) = msg_secret d" "msg_callerid (d @ r) = msg_callerid d"
    "msg_port (d @ r) = msg_port d" "msg_seq (d @ r) = msg_seq d"
  using assms by (simp_all add: header_access header_layout)

lemma header_of_take:
  assumes "HEADERLEN \<le> n" and "HEADERLEN \<le> length d"
  shows "msg_secret (take n d) = msg_secret d" "msg_callerid (take n d) = msg_callerid d"
    "msg_port (take n d) = msg_port d" "msg_seq (take n d) = msg_seq d"
  using header_of_prefix [of "take n d" "drop n d"] assms by simp_all

lemma recv_sec_msg_ok:
  assumes b: "msgbuf_ok b" and len: "HEADERLEN + length data \<le> BUFSIZE"
  shows "recv_sec_msg s b (Some (header_bytes (ov_secret s) cid p sq @ data, src)) =
    (True, count_rx (HEADERLEN + length data) s,
     b\<lparr>rawbuffer := header_bytes (ov_secret s) cid p sq @ data @ drop (HEADERLEN + length data) (rawbuffer b),
       mb_valid := True, mb_cid := cid, mb_destport := p, mb_seq := sq, mb_size := length data,
       mb_msg := HEADERLEN, mb_sender := src\<rparr>)"
  using assms by (simp add: recv_sec_msg_Some msgbuf_unpack_def Let_def blit_def msgbuf_ok_def)

lemma count_rx_0 [simp]: "count_rx 0 s = s"
  by (simp add: count_rx_def)

lemma recv_sec_msg_frame:
  assumes "recv_sec_msg s b inp = (r, s', b')"
  shows "\<exists>n. s' = count_rx n s"
proof (cases inp)
  case None
  then have "s' = count_rx 0 s" using assms by (simp add: recv_sec_msg_None)
  then show ?thesis ..
next
  case (Some a)
  then have "s' = count_rx (length (take BUFSIZE (fst a))) s"
    using assms by (cases a) (simp add: recv_sec_msg_Some Let_def del: length_take split: if_splits)
  then show ?thesis ..
qed

lemma recv_sec_msg_ok_inv:
  assumes b: "msgbuf_ok b" and r: "recv_sec_msg s b inp = (ok, s', b')"
  shows "msgbuf_ok b'"
proof (cases inp)
  case None
  then show ?thesis using assms by (auto simp: recv_sec_msg_None msgbuf_ok_def)
next
  case (Some a)
  obtain data src where a: "a = (data, src)" by fastforce
  let ?b1 = "b\<lparr>mb_valid := False, rawbuffer := blit 0 (take BUFSIZE data) (rawbuffer b), mb_sender := src\<rparr>"
  have "msgbuf_ok ?b1" using b by (simp add: msgbuf_ok_def)
  then have "msgbuf_ok ?b1" "msgbuf_ok (msgbuf_unpack n ?b1)" for n by auto
  then show ?thesis using r unfolding Some a recv_sec_msg_Some Let_def by (auto split: if_splits)
qed

lemma recv_sec_msg_rejects: "recv_sec_msg s b inp = (False, s', b') \<Longrightarrow> \<not> mb_valid b'"
  by (cases inp) (auto simp: recv_sec_msg_None recv_sec_msg_Some Let_def split: if_splits)

lemma recv_sec_msg_accepts:
  assumes b: "msgbuf_ok b" and r: "recv_sec_msg s b inp = (True, s', b')"
  shows "\<exists>data src. inp = Some (data, src) \<and> HEADERLEN \<le> length data \<and>
       msg_secret data = ov_secret s \<and> mb_valid b' \<and> mb_sender b' = src \<and>
       mb_cid b' = msg_callerid data \<and> mb_destport b' = msg_port data \<and> mb_seq b' = msg_seq data \<and>
       payload b' = drop HEADERLEN (take BUFSIZE data)"
proof -
  obtain data src where inp: "inp = Some (data, src)"
    using r by (cases inp) (auto simp: recv_sec_msg_None)
  define d where "d = take BUFSIZE data"
  let ?raw = "blit 0 d (rawbuffer b)"
  have len: "HEADERLEN \<le> length d" and sec: "msg_secret ?raw = ov_secret s"
    and b': "b' = msgbuf_unpack (length d) (b\<lparr>mb_valid := False, rawbuffer := ?raw, mb_sender := src\<rparr>)"
    using r by (auto simp: inp recv_sec_msg_Some Let_def d_def [symmetric] split: if_splits)
  have raw: "?raw = d @ drop (length d) (rawbuffer b)" by (simp add: blit_def)
  have hd: "HEADERLEN \<le> BUFSIZE" "HEADERLEN \<le> length data" using len by (simp_all add: buf_bounds d_def)
  note fields = header_of_prefix [OF len, of "drop (length d) (rawbuffer b)"]
    header_of_take [OF hd, folded d_def]
  have "length d \<le> BUFSIZE" by (simp add: d_def)
  then show ?thesis using b' len sec hd
    by (simp add: inp raw fields msgbuf_unpack_def Let_def payload_def msg_mem_def d_def [symmetric])
qed

section \<open>Properties\<close>

text \<open>A socket for the examples: the state after construction.\<close>

definition example_socket :: "secret_t \<Rightarrow> stage_device_id_t \<Rightarrow> ovbox_udpsocket" where
  "example_socket sec cid =
     ovbox_udpsocket_ctor
       \<lparr>sockfd = 3, serv_addr = zero_endpoint, isopen = True, tx_bytes = 0, rx_bytes = 0\<rparr>
       sec cid 0 (replicate 32 1, replicate 32 2)"

lemma example_socket_simps [simp]:
  "ov_secret (example_socket sec cid) = sec" "ov_callerid (example_socket sec cid) = cid"
  "seqmap (example_socket sec cid) = []" "socket_ok (example_socket sec cid)"
  by (simp_all add: example_socket_def ovbox_udpsocket_ctor_def udpsocket.extend_def socket_ok_def)

text \<open>C21. Sequence numbers on the wire: whatever was packed before, on any ports, the next
  message for a port above the special ones carries the number that follows those already
  sent on this port (modulo 2^16), and a message for a special port carries 0.\<close>

theorem wire_sequence_numbers:
  assumes "socket_ok s" and "HEADERLEN + length msg \<le> BUFSIZE"
    and "ov_packmsg (foldl packed s ms) (replicate BUFSIZE 0) BUFSIZE p msg (length msg) = (buf, n, s')"
  shows "msg_port buf = p \<and> msg_seq buf =
    (if MAXSPECIALPORT \<le> p
     then seq_get (seqmap s) p + of_nat (count_list (map fst ms) p) + 1 else 0)"
proof -
  have "buf = header_bytes (ov_secret s) (ov_callerid s) p (next_seq (foldl packed s ms) p) @ msg @
      drop (HEADERLEN + length msg) (replicate BUFSIZE 0)"
    using assms(2,3) by (auto simp: ov_packmsg_ok simp del: drop_replicate)
  then show ?thesis using assms(1) by (simp add: next_seq_def seq_get_packed)
qed

theorem wire_sequence_numbers_witness:
  "\<exists>buf n s'. ov_packmsg (foldl packed (example_socket 12345678 13) [(9876, []), (9876, []), (9877, [])])
      (replicate BUFSIZE 0) BUFSIZE 9876 [] 0 = (buf, n, s') \<and> msg_port buf = 9876 \<and> msg_seq buf = 3"
proof -
  let ?s = "example_socket 12345678 13" and ?ms = "[(9876, []), (9876, []), (9877, [])] :: (port_t \<times> byte list) list"
  obtain buf n s' where p: "ov_packmsg (foldl packed ?s ?ms) (replicate BUFSIZE 0) BUFSIZE 9876 [] (length ([] :: byte list)) = (buf, n, s')"
    by (metis surj_pair)
  have "msg_port buf = 9876 \<and> msg_seq buf = 3"
    using wire_sequence_numbers [OF _ _ p] by (simp add: buf_bounds seq_get_def MAXSPECIALPORT_def)
  then show ?thesis using p by auto
qed

text \<open>A message packed by one socket and received by another: with the same session
  secret the receiver accepts it and finds the sender's device ID, the port, the sequence
  number, the user data and the sender's address; with another secret it is rejected.\<close>

theorem socket_roundtrip:
  assumes "HEADERLEN + length msg \<le> BUFSIZE" and "msgbuf_ok b"
    and "ov_packmsg sA (replicate BUFSIZE 0) BUFSIZE p msg (length msg) = (buf, n, sA')"
    and "recv_sec_msg sB b (Some (take n buf, src)) = (ok, sB', b')"
  shows "(ok \<longleftrightarrow> ov_secret sA = ov_secret sB) \<and> mb_valid b' = ok \<and> mb_sender b' = src \<and>
    (ok \<longrightarrow> mb_cid b' = ov_callerid sA \<and> mb_destport b' = p \<and> mb_seq b' = next_seq sA p \<and>
      payload b' = msg)"
proof -
  let ?h = "header_bytes (ov_secret sA) (ov_callerid sA) p (next_seq sA p)"
  have n: "take n buf = ?h @ msg"
    using assms(1,3) by (auto simp: ov_packmsg_ok)
  show ?thesis
  proof (cases "ov_secret sA = ov_secret sB")
    case True
    then show ?thesis using assms(4) recv_sec_msg_ok [OF assms(2,1), of sB "ov_callerid sA" p "next_seq sA p" src]
      by (auto simp: n payload_def msg_mem_def)
  next
    case False
    have "length (?h @ msg) \<le> BUFSIZE" using assms(1) by simp
    then have t: "take BUFSIZE (?h @ msg) = ?h @ msg" by (rule take_all)
    show ?thesis using assms(4) False unfolding n recv_sec_msg_Some Let_def t
      by (auto simp: blit_def)
  qed
qed

theorem socket_roundtrip_witness:
  "\<exists>ok sB' b'. recv_sec_msg (example_socket 7 2) (msgbuf_ctor zero_endpoint 0)
      (Some (header_bytes 7 1 9876 1 @ [5, 6], zero_endpoint)) = (ok, sB', b') \<and>
    ok \<and> mb_cid b' = 1 \<and> mb_destport b' = 9876 \<and> mb_seq b' = 1 \<and> payload b' = [5, 6]"
proof -
  obtain buf n s' where p: "ov_packmsg (example_socket 7 1) (replicate BUFSIZE 0) BUFSIZE 9876 [5, 6] (length [5, 6 :: byte]) = (buf, n, s')"
    by (metis surj_pair)
  have t: "take n buf = header_bytes 7 1 9876 1 @ [5, 6]"
    using p by (auto simp: ov_packmsg_ok buf_bounds next_seq_def seq_get_def MAXSPECIALPORT_def)
  obtain ok sB' b' where r: "recv_sec_msg (example_socket 7 2) (msgbuf_ctor zero_endpoint 0)
      (Some (take n buf, zero_endpoint)) = (ok, sB', b')"
    by (metis surj_pair)
  have "ok \<and> mb_cid b' = 1 \<and> mb_destport b' = 9876 \<and> mb_seq b' = 1 \<and> payload b' = [5, 6]"
    using socket_roundtrip [OF _ _ p r]
    by (auto simp: buf_bounds next_seq_def seq_get_def MAXSPECIALPORT_def)
  then show ?thesis using r t by auto
qed

text \<open>Reception is safe for arbitrary datagrams: a buffer keeps its well-formedness, it
  is marked valid exactly when the socket reports success, and success means that a
  datagram with at least a header and with the session secret arrived, whose header fields
  and (possibly cut off) user data are those of the buffer.\<close>

theorem recv_sec_msg_safe:
  assumes "msgbuf_ok b" and "recv_sec_msg s b inp = (ok, s', b')"
  shows "msgbuf_ok b' \<and> mb_valid b' = ok \<and>
    (ok \<longrightarrow> (\<exists>data src. inp = Some (data, src) \<and> HEADERLEN \<le> length data \<and>
       msg_secret data = ov_secret s \<and> mb_sender b' = src \<and> mb_cid b' = msg_callerid data \<and>
       mb_destport b' = msg_port data \<and> mb_seq b' = msg_seq data \<and>
       payload b' = drop HEADERLEN (take BUFSIZE data)))"
proof (cases ok)
  case True
  then show ?thesis using recv_sec_msg_accepts [of b s inp s' b'] recv_sec_msg_ok_inv [OF assms] assms
    by fastforce
next
  case False
  then show ?thesis using recv_sec_msg_rejects [of s b inp s' b'] recv_sec_msg_ok_inv [OF assms] assms
    by auto
qed

theorem recv_sec_msg_safe_witness:
  "\<exists>ok s' b'. recv_sec_msg (example_socket 7 2) (msgbuf_ctor zero_endpoint 0) (Some ([1, 2, 3], zero_endpoint)) =
     (ok, s', b') \<and> msgbuf_ok b' \<and> mb_valid b' = ok"
proof -
  obtain ok s' b' where r: "recv_sec_msg (example_socket 7 2) (msgbuf_ctor zero_endpoint 0)
      (Some ([1, 2, 3], zero_endpoint)) = (ok, s', b')"
    by (metis surj_pair)
  from recv_sec_msg_safe [OF msgbuf_ok_ctor r] r show ?thesis by blast
qed

end
