(* ===== verification/Sorter.thy ===== *)
theory Sorter
  imports Ovbox_Socket "HOL-Library.Multiset"
begin

text \<open>
  \<open>message_stat_t\<close> of \<open>src/ov_types.h\<close> and \<open>src/ov_types.cc\<close>, and \<open>message_sorter_t\<close> of
  \<open>src/ovboxclient.h\<close> and \<open>src/ovboxclient.cc\<close>: packet statistics and the re-ordering of
  messages that arrive out of order.
\<close>

section \<open>Packet statistics\<close>

datatype message_stat =
  Message_stat (ms_received: "64 word") (ms_lost: "64 word") (ms_seqerr_in: "64 word")
    (ms_seqerr_out: "64 word")

definition message_stat_ctor :: message_stat where
  "message_stat_ctor = Message_stat 0 0 0 0"

fun message_stat_add :: "message_stat \<Rightarrow> message_stat \<Rightarrow> message_stat" where
  "message_stat_add (Message_stat r l i o1) (Message_stat r' l' i' o') =
     Message_stat (r + r') (l + l') (i + i') (o1 + o')"

fun message_stat_sub :: "message_stat \<Rightarrow> message_stat \<Rightarrow> message_stat" where
  "message_stat_sub (Message_stat r l i o1) (Message_stat r' l' i' o') =
     Message_stat (r - r') (l - l') (i - i') (o1 - o')"

instantiation message_stat :: ab_group_add
begin

definition zero_message_stat :: message_stat where
  "zero_message_stat = message_stat_ctor"

definition plus_message_stat :: "message_stat \<Rightarrow> message_stat \<Rightarrow> message_stat" where
  "plus_message_stat a b = message_stat_add a b"

definition minus_message_stat :: "message_stat \<Rightarrow> message_stat \<Rightarrow> message_stat" where
  "minus_message_stat a b = message_stat_sub a b"

definition uminus_message_stat :: "message_stat \<Rightarrow> message_stat" where
  "uminus_message_stat a = message_stat_sub message_stat_ctor a"

instance
proof
  fix a b c :: message_stat
  show "a + b + c = a + (b + c)"
    by (cases a; cases b; cases c) (simp add: plus_message_stat_def)
  show "a + b = b + a" by (cases a; cases b) (simp add: plus_message_stat_def)
  show "0 + a = a"
    by (cases a) (simp add: plus_message_stat_def zero_message_stat_def message_stat_ctor_def)
  show "- a + a = 0"
    by (cases a) (simp add: plus_message_stat_def uminus_message_stat_def zero_message_stat_def
        message_stat_ctor_def)
  show "a - b = a + - b"
    by (cases a; cases b) (simp add: plus_message_stat_def minus_message_stat_def
        uminus_message_stat_def message_stat_ctor_def)
qed

end

lemma message_stat_minus_sel [simp]:
  "ms_received (a - b) = ms_received a - ms_received b" "ms_lost (a - b) = ms_lost a - ms_lost b"
  "ms_seqerr_in (a - b) = ms_seqerr_in a - ms_seqerr_in b"
  "ms_seqerr_out (a - b) = ms_seqerr_out a - ms_seqerr_out b"
  by (cases a; cases b; simp add: minus_message_stat_def)+

definition set_lost :: "64 word \<Rightarrow> message_stat \<Rightarrow> message_stat" where
  "set_lost l s = Message_stat (ms_received s) l (ms_seqerr_in s) (ms_seqerr_out s)"

section \<open>The sorter\<close>

type_synonym device_seqs = "stage_device_id_t \<Rightarrow> sequence_map"

record sorter =
  seq_in :: device_seqs
  seq_out :: device_seqs
  buf1 :: msgbuf
  buf2 :: msgbuf
  stat :: "stage_device_id_t \<Rightarrow> message_stat"

text \<open>
  A fresh sorter: the maps of maps are total functions, an entry that is absent being the
  default that \<open>operator[]\<close> inserts.
\<close>

definition sorter_ctor :: "msgbuf \<Rightarrow> msgbuf \<Rightarrow> sorter" where
  "sorter_ctor b1 b2 =
     \<lparr>seq_in = (\<lambda>_. []), seq_out = (\<lambda>_. []), buf1 = b1, buf2 = b2, stat = (\<lambda>_. message_stat_ctor)\<rparr>"

definition get_stat :: "stage_device_id_t \<Rightarrow> sorter \<Rightarrow> message_stat" where
  "get_stat cid so = stat so cid"

definition deltaseq :: "device_seqs \<Rightarrow> msgbuf \<Rightarrow> sequence_t \<times> device_seqs" where
  "deltaseq sq msg =
     (let (v, m) = sequence_index (mb_destport msg) (sq (mb_cid msg))
      in (mb_seq msg - v, sq(mb_cid msg := omap_put (mb_destport msg) (mb_seq msg) m)))"

definition deltaseq_const :: "device_seqs \<Rightarrow> msgbuf \<Rightarrow> sequence_t \<times> device_seqs" where
  "deltaseq_const sq msg =
     (let (v, m) = sequence_index (mb_destport msg) (sq (mb_cid msg))
      in (mb_seq msg - v, sq(mb_cid msg := m)))"

text \<open>
  The message that the caller's pointer refers to: the caller's own buffer or one of the
  two buffers of the sorter.
\<close>

datatype bufref = Ext | Buf1 | Buf2

fun deref :: "sorter \<Rightarrow> msgbuf \<Rightarrow> bufref \<Rightarrow> msgbuf" where
  "deref so ext Ext = ext"
| "deref so ext Buf1 = buf1 so"
| "deref so ext Buf2 = buf2 so"

fun assign_ref :: "bufref \<Rightarrow> msgbuf \<Rightarrow> sorter \<Rightarrow> msgbuf \<Rightarrow> sorter \<times> msgbuf" where
  "assign_ref Ext m so ext = (so, m)"
| "assign_ref Buf1 m so ext = (so\<lparr>buf1 := m\<rparr>, ext)"
| "assign_ref Buf2 m so ext = (so\<lparr>buf2 := m\<rparr>, ext)"

definition invalidate :: "bufref \<Rightarrow> sorter \<Rightarrow> msgbuf \<Rightarrow> sorter \<times> msgbuf" where
  "invalidate r so ext = assign_ref r ((deref so ext r)\<lparr>mb_valid := False\<rparr>) so ext"

definition upd_stat :: "stage_device_id_t \<Rightarrow> message_stat \<Rightarrow> sorter \<Rightarrow> sorter" where
  "upd_stat cid d so = so\<lparr>stat := (stat so)(cid := stat so cid + d)\<rparr>"

definition one_if :: "bool \<Rightarrow> 64 word" where
  "one_if b = (if b then 1 else 0)"

text \<open>The update of the output order: \<open>deltaseq(seq_out, m)\<close> and the output error count.\<close>

definition note_out :: "msgbuf \<Rightarrow> sorter \<Rightarrow> sorter" where
  "note_out m so =
     (let (dseq_out, sq) = deltaseq (seq_out so) m
      in upd_stat (mb_cid m) (Message_stat 0 0 0 (one_if (int_of_seq dseq_out < 0))) (so\<lparr>seq_out := sq\<rparr>))"

definition sorter_process ::
  "sorter \<Rightarrow> msgbuf \<Rightarrow> bufref \<Rightarrow> bool \<times> sorter \<times> msgbuf \<times> bufref" where
  "sorter_process so ext r =
     (let pmsg = deref so ext r in
      if mb_valid pmsg then
        if mb_destport pmsg \<le> MAXSPECIALPORT then
          let (so', ext') = invalidate r so ext in (True, so', ext', r)
        else
          let cid = mb_cid pmsg;
              so1 = upd_stat cid (Message_stat 1 0 0 0) so;
              notfirst = (map_of (seq_in so1 cid) (mb_destport pmsg) \<noteq> None);
              (dseq_in, si) = deltaseq (seq_in so1) pmsg;
              (dseq_io, sq) = deltaseq_const (seq_out so1) pmsg;
              din = int_of_seq dseq_in;
              dio = int_of_seq dseq_io;
              so2 = so1\<lparr>seq_in := si, seq_out := sq\<rparr>;
              so3 = (if din \<noteq> 0 \<and> notfirst
                     then upd_stat cid (Message_stat 0 (word_of_int (din - 1)) 0 0) so2 else so2)
          in if din > 1 \<and> dio > 1 then
               let so4 = so3\<lparr>buf1 := msgbuf_copy (buf1 so3) pmsg\<rparr>;
                   (so5, ext5) = invalidate r so4 ext
               in (False, so5, ext5, r)
             else
               let so4 = upd_stat cid (Message_stat 0 0 (one_if (din < 0)) 0) so3
               in if (din < -1 \<or> (dio > 1 \<and> din > 0)) \<and>
                     (mb_valid (buf1 so4) \<and> mb_cid (buf1 so4) = cid \<and>
                      mb_destport (buf1 so4) = mb_destport pmsg \<and>
                      int_of_seq (mb_seq (buf1 so4)) < int_of_seq (mb_seq pmsg))
                  then
                    let so5 = so4\<lparr>buf2 := msgbuf_copy (buf2 so4) pmsg\<rparr>;
                        so6 = so5\<lparr>buf1 := (buf1 so5)\<lparr>mb_valid := False\<rparr>\<rparr>
                    in (True, note_out (buf1 so6) so6, ext, Buf1)
                  else
                    let (so5, ext5) = invalidate r (note_out pmsg so4) ext
                    in (True, so5, ext5, r)
      else if mb_valid (buf1 so) then
        let so1 = note_out (buf1 so) so
        in (True, so1\<lparr>buf1 := (buf1 so1)\<lparr>mb_valid := False\<rparr>\<rparr>, ext, Buf1)
      else if mb_valid (buf2 so) then
        let so1 = note_out (buf2 so) so
        in (True, so1\<lparr>buf2 := (buf2 so1)\<lparr>mb_valid := False\<rparr>\<rparr>, ext, Buf2)
      else (False, so, ext, r))"

section \<open>Draining the sorter\<close>

text \<open>
  The loop of \<open>ovboxclient_t::sendsrv\<close>, \<open>while(sorter.process(&pmsg)) process_msg(*pmsg)\<close>.
  The body is a parameter; it starts by clearing the message's \<open>valid\<close> flag.
\<close>

lemma upd_stat_frame [simp]:
  "buf1 (upd_stat c d so) = buf1 so" "buf2 (upd_stat c d so) = buf2 so"
  "seq_in (upd_stat c d so) = seq_in so" "seq_out (upd_stat c d so) = seq_out so"
  "stat (upd_stat c d so) = (stat so)(c := stat so c + d)"
  by (simp_all add: upd_stat_def)

definition pending_work :: "sorter \<Rightarrow> msgbuf \<Rightarrow> bufref \<Rightarrow> nat" where
  "pending_work so ext r =
     2 * (if mb_valid (deref so ext r) then 1 else 0) +
     (if mb_valid (buf1 so) then 1 else 0) + (if mb_valid (buf2 so) then 1 else 0)"

text \<open>
  The branches of \<open>process\<close>. A data message is held back in \<open>buf1\<close>, handed out after the
  message in \<open>buf1\<close>, or handed out at once.
\<close>

datatype judgement = Hold | Swap | Pass

definition step_in :: "sorter \<Rightarrow> msgbuf \<Rightarrow> int" where
  "step_in so m = int_of_seq (mb_seq m - seq_get (seq_in so (mb_cid m)) (mb_destport m))"

definition step_out :: "sorter \<Rightarrow> msgbuf \<Rightarrow> int" where
  "step_out so m = int_of_seq (mb_seq m - seq_get (seq_out so (mb_cid m)) (mb_destport m))"

definition overtakes :: "sorter \<Rightarrow> msgbuf \<Rightarrow> bool" where
  "overtakes so m \<longleftrightarrow> mb_valid (buf1 so) \<and> mb_cid (buf1 so) = mb_cid m \<and>
     mb_destport (buf1 so) = mb_destport m \<and> int_of_seq (mb_seq (buf1 so)) < int_of_seq (mb_seq m)"

definition verdict :: "sorter \<Rightarrow> msgbuf \<Rightarrow> judgement" where
  "verdict so m =
     (if step_in so m > 1 \<and> step_out so m > 1 then Hold
      else if (step_in so m < -1 \<or> step_out so m > 1 \<and> step_in so m > 0) \<and> overtakes so m then Swap
      else Pass)"

text \<open>The statistics and sequence maps after the arrival of a data message.\<close>

definition known :: "sorter \<Rightarrow> msgbuf \<Rightarrow> bool" where
  "known so m \<longleftrightarrow> map_of (seq_in so (mb_cid m)) (mb_destport m) \<noteq> None"

definition book :: "sorter \<Rightarrow> msgbuf \<Rightarrow> sorter" where
  "book so m =
     so\<lparr>seq_in := (seq_in so)(mb_cid m :=
          omap_put (mb_destport m) (mb_seq m) (snd (sequence_index (mb_destport m) (seq_in so (mb_cid m))))),
        seq_out := (seq_out so)(mb_cid m := snd (sequence_index (mb_destport m) (seq_out so (mb_cid m)))),
        stat := (stat so)(mb_cid m := stat so (mb_cid m) +
          Message_stat 1 (if step_in so m \<noteq> 0 \<and> known so m then word_of_int (step_in so m - 1) else 0)
            (one_if (step_in so m < 0)) 0)\<rparr>"

lemma message_stat_plus [simp]:
  "Message_stat r l i o1 + Message_stat r' l' i' o' = Message_stat (r + r') (l + l') (i + i') (o1 + o')"
  by (simp add: plus_message_stat_def)

lemma message_stat_add_0 [simp]: "s + Message_stat 0 0 0 0 = s"
  by (cases s) simp

lemma message_stat_merge:
  "s + Message_stat r l i o1 + Message_stat r' l' i' o' = s + Message_stat (r + r') (l + l') (i + i') (o1 + o')"
  by (simp add: add.assoc)

lemma deltaseq_eq:
  "deltaseq sq m =
     (mb_seq m - seq_get (sq (mb_cid m)) (mb_destport m),
      sq(mb_cid m := omap_put (mb_destport m) (mb_seq m) (snd (sequence_index (mb_destport m) (sq (mb_cid m))))))"
  by (simp add: deltaseq_def case_prod_beta)

lemma deltaseq_const_eq:
  "deltaseq_const sq m =
     (mb_seq m - seq_get (sq (mb_cid m)) (mb_destport m),
      sq(mb_cid m := snd (sequence_index (mb_destport m) (sq (mb_cid m)))))"
  by (simp add: deltaseq_const_def case_prod_beta)

lemma note_out_frame [simp]:
  "buf1 (note_out m so) = buf1 so" "buf2 (note_out m so) = buf2 so" "seq_in (note_out m so) = seq_in so"
  by (simp_all add: note_out_def upd_stat_def case_prod_beta)

lemma book_frame [simp]: "buf1 (book so m) = buf1 so" "buf2 (book so m) = buf2 so"
  by (simp_all add: book_def)

lemma note_out_valid [simp]: "note_out (m\<lparr>mb_valid := v\<rparr>) so = note_out m so"
  by (simp add: note_out_def deltaseq_eq)

lemma step_in_0 [simp]: "mb_seq m - seq_get (seq_in so (mb_cid m)) (mb_destport m) = 0 \<longleftrightarrow> step_in so m = 0"
  by (simp add: step_in_def)

text \<open>The bookkeeping of the code, up to the three branches.\<close>

lemma book_not_negative:
  assumes "\<not> step_in so m < 0"
  shows "(let so1 = upd_stat (mb_cid m) (Message_stat 1 0 0 0) so;
              so2 = so1\<lparr>seq_in := snd (deltaseq (seq_in so1) m), seq_out := snd (deltaseq_const (seq_out so1) m)\<rparr>
          in if step_in so m \<noteq> 0 \<and> known so m
             then upd_stat (mb_cid m) (Message_stat 0 (word_of_int (step_in so m - 1)) 0 0) so2 else so2) =
         book so m"
  using assms
  by (cases so) (simp add: book_def upd_stat_def deltaseq_eq deltaseq_const_eq message_stat_merge one_if_def)

lemma book_rest:
  "(let so1 = upd_stat (mb_cid m) (Message_stat 1 0 0 0) so;
        so2 = so1\<lparr>seq_in := snd (deltaseq (seq_in so1) m), seq_out := snd (deltaseq_const (seq_out so1) m)\<rparr>;
        so3 = (if step_in so m \<noteq> 0 \<and> known so m
               then upd_stat (mb_cid m) (Message_stat 0 (word_of_int (step_in so m - 1)) 0 0) so2 else so2)
    in upd_stat (mb_cid m) (Message_stat 0 0 (one_if (step_in so m < 0)) 0) so3) =
   book so m"
  by (cases so) (simp add: book_def upd_stat_def deltaseq_eq deltaseq_const_eq message_stat_merge)

lemma invalidate_simps [simp]:
  "invalidate Ext so ext = (so, ext\<lparr>mb_valid := False\<rparr>)"
  "invalidate Buf1 so ext = (so\<lparr>buf1 := (buf1 so)\<lparr>mb_valid := False\<rparr>\<rparr>, ext)"
  "invalidate Buf2 so ext = (so\<lparr>buf2 := (buf2 so)\<lparr>mb_valid := False\<rparr>\<rparr>, ext)"
  by (simp_all add: invalidate_def)

text \<open>What one call of \<open>process\<close> does with a message that was just received.\<close>

lemma sorter_process_special:
  "mb_valid m \<Longrightarrow> mb_destport m \<le> MAXSPECIALPORT \<Longrightarrow>
   sorter_process so m Ext = (True, so, m\<lparr>mb_valid := False\<rparr>, Ext)"
  by (simp add: sorter_process_def)

definition held :: "sorter \<Rightarrow> msgbuf \<Rightarrow> sorter" where
  "held so m = (book so m)\<lparr>buf1 := msgbuf_copy (buf1 so) m\<rparr>"

definition swapped :: "sorter \<Rightarrow> msgbuf \<Rightarrow> sorter" where
  "swapped so m =
     note_out (buf1 so)
       ((book so m)\<lparr>buf2 := msgbuf_copy (buf2 so) m, buf1 := (buf1 so)\<lparr>mb_valid := False\<rparr>\<rparr>)"

lemma sorter_process_data:
  assumes "mb_valid m" and "MAXSPECIALPORT < mb_destport m"
  shows "sorter_process so m Ext =
    (case verdict so m of
       Hold \<Rightarrow> (False, held so m, m\<lparr>mb_valid := False\<rparr>, Ext)
     | Swap \<Rightarrow> (True, swapped so m, m, Buf1)
     | Pass \<Rightarrow> (True, note_out m (book so m), m\<lparr>mb_valid := False\<rparr>, Ext))"
proof -
  note defs = sorter_process_def step_in_def [symmetric] step_out_def [symmetric]
  have step: "fst (deltaseq (seq_in so) m) = mb_seq m - seq_get (seq_in so (mb_cid m)) (mb_destport m)"
    "fst (deltaseq_const (seq_out so) m) = mb_seq m - seq_get (seq_out so (mb_cid m)) (mb_destport m)"
    by (simp_all add: deltaseq_eq deltaseq_const_eq)
  have nospecial: "\<not> mb_destport m \<le> MAXSPECIALPORT" using assms(2) by simp
  let ?so3 = "let so1 = upd_stat (mb_cid m) (Message_stat 1 0 0 0) so;
          so2 = so1\<lparr>seq_in := snd (deltaseq (seq_in so1) m), seq_out := snd (deltaseq_const (seq_out so1) m)\<rparr>
      in if step_in so m \<noteq> 0 \<and> known so m
         then upd_stat (mb_cid m) (Message_stat 0 (word_of_int (step_in so m - 1)) 0 0) so2 else so2"
  have "sorter_process so m Ext =
     (if step_in so m > 1 \<and> step_out so m > 1 then
        (False, ?so3\<lparr>buf1 := msgbuf_copy (buf1 ?so3) m\<rparr>, m\<lparr>mb_valid := False\<rparr>, Ext)
      else
        let so4 = upd_stat (mb_cid m) (Message_stat 0 0 (one_if (step_in so m < 0)) 0) ?so3
        in if (step_in so m < -1 \<or> step_out so m > 1 \<and> step_in so m > 0) \<and> overtakes so4 m then
             (True, note_out (buf1 so4) (so4\<lparr>buf2 := msgbuf_copy (buf2 so4) m,
                buf1 := (buf1 so4)\<lparr>mb_valid := False\<rparr>\<rparr>), m, Buf1)
           else (True, note_out m so4, m\<lparr>mb_valid := False\<rparr>, Ext))"
    using assms nospecial
    by (simp add: sorter_process_def step_in_def step_out_def known_def overtakes_def case_prod_beta step Let_def)
  moreover have "overtakes (book so m) m = overtakes so m" by (simp add: overtakes_def)
  ultimately show ?thesis
    using book_not_negative [of so m] book_rest [of m so]
    by (auto simp: verdict_def held_def swapped_def Let_def)
qed

text \<open>What it does when it is called again: a buffered message is handed out.\<close>

lemma sorter_process_again:
  assumes "\<not> mb_valid (deref so ext r)"
  shows "sorter_process so ext r =
    (if mb_valid (buf1 so) then (True, (note_out (buf1 so) so)\<lparr>buf1 := (buf1 so)\<lparr>mb_valid := False\<rparr>\<rparr>, ext, Buf1)
     else if mb_valid (buf2 so) then (True, (note_out (buf2 so) so)\<lparr>buf2 := (buf2 so)\<lparr>mb_valid := False\<rparr>\<rparr>, ext, Buf2)
     else (False, so, ext, r))"
  using assms by (simp add: sorter_process_def Let_def)

lemma valid_if_frame:
  "buf1 (if b then upd_stat c d so else so) = buf1 so" "buf2 (if b then upd_stat c d so else so) = buf2 so"
  by simp_all

lemma sorter_process_decreases_valid:
  assumes "mb_valid (deref so ext r)" and "fst (sorter_process so ext r)"
  shows "case snd (sorter_process so ext r) of (so', ext', r') \<Rightarrow> pending_work so' ext' r' < pending_work so ext r"
  using assms
  by (cases r; cases "mb_destport (deref so ext r) \<le> MAXSPECIALPORT")
    (simp_all add: sorter_process_def pending_work_def Let_def case_prod_beta valid_if_frame
       if_distrib [of "\<lambda>x. fst x"] if_distrib [of "\<lambda>x. snd x"] if_distrib [of buf1] if_distrib [of buf2]
       cong: if_cong, auto)

lemma sorter_process_decreases:
  assumes "sorter_process so ext r = (True, so', ext', r')"
  shows "pending_work so' ext' r' < pending_work so ext r"
proof (cases "mb_valid (deref so ext r)")
  case False
  then show ?thesis using assms
    by (auto simp: sorter_process_again pending_work_def split: if_splits)
next
  case True
  then show ?thesis using assms sorter_process_decreases_valid [of so ext r] by simp
qed

lemma pending_work_assign:
  "assign_ref r (m\<lparr>mb_valid := False\<rparr>) so ext = (so', ext') \<Longrightarrow> pending_work so' ext' r \<le> pending_work so ext r"
  by (cases r) (auto simp: pending_work_def)

text \<open>
  The consumer stands for \<open>process_msg\<close>; it gets the message with its flag cleared and may
  overwrite the bytes of the buffer (as the answer to a ping does), never the flag.
\<close>

function drain ::
  "('c \<Rightarrow> msgbuf \<Rightarrow> ('c \<times> msgbuf) res) \<Rightarrow> 'c \<Rightarrow> sorter \<Rightarrow> msgbuf \<Rightarrow> bufref \<Rightarrow> ('c \<times> sorter \<times> msgbuf) res" where
  "drain f c so ext r =
     (case sorter_process so ext r of
        (False, so1, ext1, r1) \<Rightarrow> Inr (c, so1, ext1)
      | (True, so1, ext1, r1) \<Rightarrow>
          (case f c ((deref so1 ext1 r1)\<lparr>mb_valid := False\<rparr>) of
             Inl e \<Rightarrow> Inl e
           | Inr (c', m) \<Rightarrow>
               let (so2, ext2) = assign_ref r1 (m\<lparr>mb_valid := False\<rparr>) so1 ext1
               in drain f c' so2 ext2 r1))"
  by pat_completeness auto

termination
  by (relation "measure (\<lambda>(f, c, so, ext, r). pending_work so ext r)")
    (auto dest!: pending_work_assign [OF sym] sorter_process_decreases [OF sym])

declare drain.simps [simp del]


text \<open>The messages handed out for one arrival, with the flag cleared, and what a consumer makes of them.\<close>

definition clear_msg :: "msgbuf \<Rightarrow> msgbuf" where
  "clear_msg m = m\<lparr>mb_valid := False\<rparr>"

definition flush :: "sorter \<Rightarrow> msgbuf list" where
  "flush so = (if mb_valid (buf1 so) then [clear_msg (buf1 so)] else [])"

definition deliveries :: "sorter \<Rightarrow> msgbuf \<Rightarrow> msgbuf list" where
  "deliveries so m =
     (if mb_destport m \<le> MAXSPECIALPORT then clear_msg m # flush so
      else case verdict so m of
             Hold \<Rightarrow> []
           | Swap \<Rightarrow> [clear_msg (buf1 so), clear_msg (msgbuf_copy (buf2 so) m)]
           | Pass \<Rightarrow> clear_msg m # flush so)"

primrec consume :: "('c \<Rightarrow> msgbuf \<Rightarrow> ('c \<times> msgbuf) res) \<Rightarrow> 'c \<Rightarrow> msgbuf list \<Rightarrow> 'c res" where
  "consume f c [] = Inr c"
| "consume f c (m # ms) = (case f c m of Inl e \<Rightarrow> Inl e | Inr (c', _) \<Rightarrow> consume f c' ms)"

text \<open>
  The sorter after an arrival, up to the buffers whose message has been handed out.
\<close>

definition noted :: "msgbuf list \<Rightarrow> sorter \<Rightarrow> sorter" where
  "noted ms so = fold note_out ms so"

definition sorter_after :: "sorter \<Rightarrow> msgbuf \<Rightarrow> sorter" where
  "sorter_after so m =
     (if mb_destport m \<le> MAXSPECIALPORT then noted (flush so) so
      else case verdict so m of
             Hold \<Rightarrow> held so m
           | _ \<Rightarrow> noted (deliveries so m) (book so m))"

definition quiet :: "sorter \<Rightarrow> bool" where
  "quiet so \<longleftrightarrow> \<not> mb_valid (buf2 so)"

lemma noted_simps [simp]: "noted [] so = so" "noted (m # ms) so = noted ms (note_out m so)"
  by (simp_all add: noted_def)

text \<open>Two sorters that differ at most in the buffers that hold no message.\<close>

definition same_books :: "sorter \<Rightarrow> sorter \<Rightarrow> bool" where
  "same_books s t \<longleftrightarrow> seq_in s = seq_in t \<and> seq_out s = seq_out t \<and> stat s = stat t"

lemma same_books_refl [simp]: "same_books s s"
  by (simp add: same_books_def)

lemma same_books_bufs [simp]:
  "same_books (s\<lparr>buf1 := b\<rparr>) t = same_books s t" "same_books (s\<lparr>buf2 := b\<rparr>) t = same_books s t"
  "same_books s (t\<lparr>buf1 := b\<rparr>) = same_books s t" "same_books s (t\<lparr>buf2 := b\<rparr>) = same_books s t"
  by (simp_all add: same_books_def)

lemma same_books_note_out [intro]: "same_books s t \<Longrightarrow> same_books (note_out m s) (note_out m t)"
  by (simp add: same_books_def note_out_def deltaseq_eq upd_stat_def)

lemma note_out_clear [simp]: "note_out (clear_msg m) so = note_out m so"
  by (simp add: clear_msg_def)

lemma note_out_copy [simp]: "note_out (msgbuf_copy d m) so = note_out m so"
  by (simp add: note_out_def deltaseq_eq)

lemma clear_msg_valid [simp]: "\<not> mb_valid (clear_msg m)"
  by (simp add: clear_msg_def)

text \<open>The loop as a composition of one call of the consumer per message.\<close>

definition drained :: "('c \<Rightarrow> msgbuf \<Rightarrow> ('c \<times> msgbuf) res) \<Rightarrow> 'c \<Rightarrow> sorter \<Rightarrow> msgbuf list \<Rightarrow>
    ('c \<times> sorter \<times> msgbuf) res \<Rightarrow> bool" where
  "drained f c so ms r \<longleftrightarrow>
     (case r of
        Inl e \<Rightarrow> consume f c ms = Inl e
      | Inr (c', so', ext') \<Rightarrow> consume f c ms = Inr c' \<and> same_books so' so \<and> quiet so' \<and> \<not> mb_valid (buf1 so'))"

lemma drained_Cons:
  assumes "\<And>c' m'. f c m = Inr (c', m') \<Longrightarrow> drained f c' so ms (g c' m')"
  shows "drained f c so (m # ms) (case f c m of Inl e \<Rightarrow> Inl e | Inr (c', m') \<Rightarrow> g c' m')"
  using assms by (auto simp: drained_def split: sum.splits)

lemma drain_stop:
  "\<not> mb_valid (deref so ext r) \<Longrightarrow> \<not> mb_valid (buf1 so) \<Longrightarrow> \<not> mb_valid (buf2 so) \<Longrightarrow>
   drain f c so ext r = Inr (c, so, ext)"
  by (subst drain.simps) (simp add: sorter_process_again)

lemma drain_buf2:
  assumes "\<not> mb_valid (deref so ext r)" and "\<not> mb_valid (buf1 so)" and "mb_valid (buf2 so)"
    and "same_books (note_out (buf2 so) so) t"
  shows "drained f c t [clear_msg (buf2 so)] (drain f c so ext r)"
  using assms
  by (subst drain.simps)
    (auto simp: sorter_process_again clear_msg_def drained_def drain_stop quiet_def split: sum.splits)

lemma drain_flush:
  assumes "\<not> mb_valid (deref so ext r)" and "quiet so" and "same_books (noted (flush so) so) t"
  shows "drained f c t (flush so) (drain f c so ext r)"
  using assms
  by (subst drain.simps)
    (auto simp: sorter_process_again clear_msg_def drained_def drain_stop quiet_def flush_def split: sum.splits)

lemma drain_special:
  assumes "mb_valid m" and "mb_destport m \<le> MAXSPECIALPORT" and "quiet so"
  shows "drained f c (noted (flush so) so) (clear_msg m # flush so) (drain f c so m Ext)"
proof -
  have d: "drain f c so m Ext =
      (case f c (clear_msg m) of Inl e \<Rightarrow> Inl e
       | Inr (c', m') \<Rightarrow> drain f c' so (clear_msg m') Ext)"
    using assms by (subst drain.simps) (simp add: sorter_process_special clear_msg_def split: sum.split)
  show ?thesis unfolding d
    by (rule drained_Cons) (use assms in \<open>auto intro!: drain_flush\<close>)
qed

lemma quiet_frames [simp]:
  "quiet (note_out m so) = quiet so" "quiet (book so m) = quiet so" "quiet (so\<lparr>buf1 := b\<rparr>) = quiet so"
  "quiet (held so m) = quiet so" "flush (note_out m so) = flush so" "flush (book so m) = flush so"
  by (simp_all add: quiet_def flush_def held_def)

lemma drain_pass:
  assumes "mb_valid m" and "MAXSPECIALPORT < mb_destport m" and "quiet so" and "verdict so m = Pass"
  shows "drained f c (noted (clear_msg m # flush so) (book so m)) (clear_msg m # flush so) (drain f c so m Ext)"
proof -
  let ?so1 = "note_out m (book so m)"
  have d: "drain f c so m Ext =
      (case f c (clear_msg m) of Inl e \<Rightarrow> Inl e
       | Inr (c', m') \<Rightarrow> drain f c' ?so1 (clear_msg m') Ext)"
    using assms by (subst drain.simps) (simp add: sorter_process_data clear_msg_def split: sum.split)
  have "drained f c' (noted (clear_msg m # flush so) (book so m)) (flush so) (drain f c' ?so1 (clear_msg m') Ext)"
    for c' m'
    using drain_flush [of ?so1 "clear_msg m'" Ext "noted (clear_msg m # flush so) (book so m)" f c'] assms
    by simp
  then show ?thesis unfolding d by (rule drained_Cons)
qed

lemma verdict_Swap_valid: "verdict so m = Swap \<Longrightarrow> mb_valid (buf1 so)"
  by (auto simp: verdict_def overtakes_def split: if_splits)

lemma swapped_bufs [simp]:
  "buf1 (swapped so m) = clear_msg (buf1 so)" "buf2 (swapped so m) = msgbuf_copy (buf2 so) m"
  by (simp_all add: swapped_def clear_msg_def)

lemma drain_swap:
  assumes "mb_valid m" and "MAXSPECIALPORT < mb_destport m" and "quiet so" and "verdict so m = Swap"
  shows "drained f c (noted (deliveries so m) (book so m)) (deliveries so m) (drain f c so m Ext)"
proof -
  let ?so1 = "swapped so m" and ?m2 = "msgbuf_copy (buf2 so) m"
  have dl: "deliveries so m = [clear_msg (buf1 so), clear_msg ?m2]"
    using assms by (auto simp: deliveries_def)
  have d: "drain f c so m Ext =
      (case f c (clear_msg (buf1 so)) of Inl e \<Rightarrow> Inl e
       | Inr (c', m') \<Rightarrow> drain f c' (?so1\<lparr>buf1 := clear_msg m'\<rparr>) m Buf1)"
    using assms by (subst drain.simps) (simp add: sorter_process_data clear_msg_def split: sum.split)
  have sb: "same_books (note_out ?m2 (?so1\<lparr>buf1 := b\<rparr>)) (noted (deliveries so m) (book so m))" for b
  proof -
    have "same_books (?so1\<lparr>buf1 := b\<rparr>) (note_out (buf1 so) (book so m))"
      by (simp add: swapped_def) (rule same_books_note_out, simp)
    then show ?thesis by (simp add: dl same_books_note_out)
  qed
  have "drained f c' (noted (deliveries so m) (book so m)) [clear_msg ?m2]
      (drain f c' (?so1\<lparr>buf1 := clear_msg m'\<rparr>) m Buf1)" for c' m'
    using drain_buf2 [of "?so1\<lparr>buf1 := clear_msg m'\<rparr>" m Buf1 "noted (deliveries so m) (book so m)" f c']
      assms sb by simp
  then show ?thesis unfolding d by (simp only: dl drained_Cons)
qed

lemma drain_hold:
  assumes "mb_valid m" and "MAXSPECIALPORT < mb_destport m" and "verdict so m = Hold"
  shows "drain f c so m Ext = Inr (c, held so m, clear_msg m)"
  using assms by (subst drain.simps) (simp add: sorter_process_data clear_msg_def split: sum.split)

text \<open>One arrival: the loop returns, and its effect is that of \<open>deliveries\<close> and \<open>sorter_after\<close>.\<close>

lemma drain_arrival:
  assumes "mb_valid m" and "quiet so"
  shows "(case drain f c so m Ext of
      Inl e \<Rightarrow> consume f c (deliveries so m) = Inl e
    | Inr (c', so', ext') \<Rightarrow> consume f c (deliveries so m) = Inr c' \<and>
        same_books so' (sorter_after so m) \<and> quiet so' \<and>
        (if MAXSPECIALPORT < mb_destport m \<and> verdict so m = Hold
         then buf1 so' = msgbuf_copy (buf1 so) m else \<not> mb_valid (buf1 so')))"
proof (cases "mb_destport m \<le> MAXSPECIALPORT")
  case True
  then show ?thesis using drain_special [OF assms(1) True assms(2), of f c]
    by (auto simp: drained_def deliveries_def sorter_after_def split: sum.splits)
next
  case False
  then have p: "MAXSPECIALPORT < mb_destport m" by simp
  show ?thesis
  proof (cases "verdict so m")
    case Hold
    then show ?thesis using drain_hold [OF assms(1) p Hold, of f c] assms(2) False p
      by (simp add: deliveries_def sorter_after_def) (simp add: held_def)
  next
    case Swap
    then show ?thesis using drain_swap [OF assms(1) p assms(2) Swap, of f c] False
      by (auto simp: drained_def sorter_after_def split: sum.splits)
  next
    case Pass
    then show ?thesis using drain_pass [OF assms(1) p assms(2) Pass, of f c] False
      by (auto simp: drained_def sorter_after_def deliveries_def split: sum.splits)
  qed
qed

section \<open>The specification of re-ordering\<close>

text \<open>
  What the sorter promises, without buffers, flags and pointers: per stream (device and
  port) the last number that arrived and the last that was handed out, at most one packet
  held back, and the statistics.
\<close>

datatype packet = Packet (pk_cid: stage_device_id_t) (pk_port: port_t) (pk_seq: sequence_t) (pk_data: "byte list")

definition content :: "msgbuf \<Rightarrow> packet" where
  "content m = Packet (mb_cid m) (mb_destport m) (mb_seq m) (payload m)"

record reorder =
  last_in :: "stage_device_id_t \<Rightarrow> port_t \<Rightarrow> sequence_t option"
  last_out :: "stage_device_id_t \<Rightarrow> port_t \<Rightarrow> sequence_t"
  held_back :: "packet option"
  counts :: "stage_device_id_t \<Rightarrow> message_stat"

definition count_in :: "stage_device_id_t \<Rightarrow> message_stat \<Rightarrow> reorder \<Rightarrow> reorder" where
  "count_in cid d R = R\<lparr>counts := (counts R)(cid := counts R cid + d)\<rparr>"

definition diff_in :: "reorder \<Rightarrow> packet \<Rightarrow> int" where
  "diff_in R k =
     int_of_seq (pk_seq k - (case last_in R (pk_cid k) (pk_port k) of Some n \<Rightarrow> n | None \<Rightarrow> 0))"

definition diff_out :: "reorder \<Rightarrow> packet \<Rightarrow> int" where
  "diff_out R k = int_of_seq (pk_seq k - last_out R (pk_cid k) (pk_port k))"

definition arrived :: "packet \<Rightarrow> reorder \<Rightarrow> reorder" where
  "arrived k R =
     count_in (pk_cid k)
       (Message_stat 1
          (if diff_in R k \<noteq> 0 \<and> last_in R (pk_cid k) (pk_port k) \<noteq> None then word_of_int (diff_in R k - 1) else 0)
          (one_if (diff_in R k < 0)) 0)
       (R\<lparr>last_in := (last_in R)(pk_cid k := (last_in R (pk_cid k))(pk_port k \<mapsto> pk_seq k))\<rparr>)"

definition emit :: "packet \<Rightarrow> reorder \<Rightarrow> reorder" where
  "emit k R =
     count_in (pk_cid k) (Message_stat 0 0 0 (one_if (diff_out R k < 0)))
       (R\<lparr>last_out := (last_out R)(pk_cid k := (last_out R (pk_cid k))(pk_port k := pk_seq k))\<rparr>)"

definition emit_all :: "packet list \<Rightarrow> reorder \<Rightarrow> reorder" where
  "emit_all ks R = fold emit ks R"

definition held_list :: "reorder \<Rightarrow> packet list" where
  "held_list R = (case held_back R of Some k \<Rightarrow> [k] | None \<Rightarrow> [])"

definition passes :: "reorder \<Rightarrow> packet \<Rightarrow> packet \<Rightarrow> bool" where
  "passes R k h \<longleftrightarrow> pk_cid h = pk_cid k \<and> pk_port h = pk_port k \<and> int_of_seq (pk_seq h) < int_of_seq (pk_seq k)"

definition reorder_step :: "reorder \<Rightarrow> packet \<Rightarrow> packet list \<times> reorder" where
  "reorder_step R k =
     (let release = (\<lambda>out S. (out, (emit_all out S)\<lparr>held_back := None\<rparr>))
      in if pk_port k \<le> MAXSPECIALPORT then (k # held_list R, (emit_all (held_list R) R)\<lparr>held_back := None\<rparr>)
         else if diff_in R k > 1 \<and> diff_out R k > 1 then ([], (arrived k R)\<lparr>held_back := Some k\<rparr>)
         else case held_back R of
                None \<Rightarrow> release [k] (arrived k R)
              | Some h \<Rightarrow>
                  if (diff_in R k < -1 \<or> diff_out R k > 1 \<and> diff_in R k > 0) \<and> passes R k h
                  then release [h, k] (arrived k R) else release [k, h] (arrived k R))"

fun reorder_run :: "reorder \<Rightarrow> packet list \<Rightarrow> packet list \<times> reorder" where
  "reorder_run R [] = ([], R)"
| "reorder_run R (k # ks) =
     (let (out, R1) = reorder_step R k; (outs, R2) = reorder_run R1 ks in (out @ outs, R2))"

text \<open>The abstraction of a sorter.\<close>

definition abs_sorter :: "sorter \<Rightarrow> reorder" where
  "abs_sorter so =
     \<lparr>last_in = (\<lambda>c p. map_of (seq_in so c) p), last_out = (\<lambda>c p. seq_get (seq_out so c) p),
      held_back = (if mb_valid (buf1 so) then Some (content (buf1 so)) else None), counts = stat so\<rparr>"

definition sorter_ok :: "sorter \<Rightarrow> bool" where
  "sorter_ok so \<longleftrightarrow> quiet so \<and> (\<forall>c. omap_wf (seq_in so c)) \<and> (\<forall>c. omap_wf (seq_out so c)) \<and>
     (mb_valid (buf1 so) \<longrightarrow> msgbuf_ok (buf1 so))"

lemma content_fields [simp]:
  "pk_cid (content m) = mb_cid m" "pk_port (content m) = mb_destport m" "pk_seq (content m) = mb_seq m"
  by (simp_all add: content_def)

lemma content_clear [simp]: "content (clear_msg m) = content m"
  by (simp add: content_def clear_msg_def payload_def msg_mem_def)

lemma content_copy: "mb_msg m = HEADERLEN \<Longrightarrow> content (msgbuf_copy d m) = content m"
  by (simp add: content_def payload_copy)

lemma diff_abs [simp]:
  "diff_in (abs_sorter so) (content m) = step_in so m" "diff_out (abs_sorter so) (content m) = step_out so m"
  by (simp_all add: diff_in_def diff_out_def step_in_def step_out_def abs_sorter_def seq_get_def)

lemma held_list_abs [simp]: "held_list (abs_sorter so) = map content (flush so)"
  by (simp add: held_list_def abs_sorter_def flush_def)

text \<open>The two bookkeeping functions commute with the abstraction, up to the packet held back.\<close>

definition books :: "sorter \<Rightarrow> reorder" where
  "books so = (abs_sorter so)\<lparr>held_back := None\<rparr>"

lemma books_same: "same_books s t \<Longrightarrow> books s = books t"
  by (simp add: books_def abs_sorter_def same_books_def)

definition maps_ok :: "sorter \<Rightarrow> bool" where
  "maps_ok so \<longleftrightarrow> (\<forall>c. omap_wf (seq_in so c)) \<and> (\<forall>c. omap_wf (seq_out so c))"

lemma maps_ok_steps [simp, intro]:
  "maps_ok so \<Longrightarrow> maps_ok (note_out m so)" "maps_ok so \<Longrightarrow> maps_ok (book so m)"
  by (simp_all add: maps_ok_def note_out_def deltaseq_eq upd_stat_def book_def)

lemma maps_ok_noted [simp, intro]: "maps_ok so \<Longrightarrow> maps_ok (noted ms so)"
  by (induction ms arbitrary: so) simp_all

lemma books_note_out: "maps_ok so \<Longrightarrow> books (note_out m so) = emit (content m) (books so)"
  by (simp add: books_def abs_sorter_def note_out_def deltaseq_eq upd_stat_def emit_def count_in_def
      diff_out_def maps_ok_def seq_get_put fun_eq_iff)

lemma books_noted: "maps_ok so \<Longrightarrow> books (noted ms so) = emit_all (map content ms) (books so)"
  by (induction ms arbitrary: so) (simp_all add: emit_all_def books_note_out)

lemma index_lookup_0:
  "omap_wf m \<Longrightarrow> map_of (omap_put p v (snd (sequence_index p m))) = (map_of m)(p \<mapsto> v)"
  by (auto simp: sequence_index_def omap_index_def omap.lookup_put omap_wf_put split: option.split)

lemma books_book: "maps_ok so \<Longrightarrow> books (book so m) = arrived (content m) (books so)"
  by (auto simp: books_def abs_sorter_def book_def arrived_def count_in_def maps_ok_def index_lookup_0
      diff_in_def step_in_def [unfolded seq_get_def] known_def fun_eq_iff)

lemma sorter_ok_maps: "sorter_ok so \<longleftrightarrow> quiet so \<and> maps_ok so \<and> (mb_valid (buf1 so) \<longrightarrow> msgbuf_ok (buf1 so))"
  by (simp add: sorter_ok_def maps_ok_def)

text \<open>The decision on the concrete state is the decision of the specification.\<close>

lemma diff_books [simp]: "diff_in (books so) k = diff_in (abs_sorter so) k" "diff_out (books so) k = diff_out (abs_sorter so) k"
  by (simp_all add: books_def diff_in_def diff_out_def)

lemma arrived_held [simp]: "(arrived k R)\<lparr>held_back := h\<rparr> = arrived k (R\<lparr>held_back := h\<rparr>)"
  by (simp add: arrived_def count_in_def diff_in_def)

lemma emit_held [simp]: "(emit k R)\<lparr>held_back := h\<rparr> = emit k (R\<lparr>held_back := h\<rparr>)"
  by (simp add: emit_def count_in_def diff_out_def)

lemma emit_all_held [simp]: "(emit_all ks R)\<lparr>held_back := h\<rparr> = emit_all ks (R\<lparr>held_back := h\<rparr>)"
  by (induction ks arbitrary: R) (simp_all add: emit_all_def)

lemma abs_sorter_books: "\<not> mb_valid (buf1 so) \<Longrightarrow> abs_sorter so = books so"
  "mb_valid (buf1 so) \<Longrightarrow> abs_sorter so = (books so)\<lparr>held_back := Some (content (buf1 so))\<rparr>"
  by (simp_all add: books_def abs_sorter_def)

lemma books_buf [simp]: "books (so\<lparr>buf1 := b\<rparr>) = books so" "books (so\<lparr>buf2 := b\<rparr>) = books so"
  by (simp_all add: books_def abs_sorter_def)

lemma books_held: "(abs_sorter so)\<lparr>held_back := h\<rparr> = (books so)\<lparr>held_back := h\<rparr>"
  by (simp add: books_def)

lemma books_None: "(books so)\<lparr>held_back := None\<rparr> = books so"
  by (simp add: books_def)

lemma verdict_Hold: "verdict so m = Hold \<longleftrightarrow> step_in so m > 1 \<and> step_out so m > 1"
  by (simp add: verdict_def)

lemma verdict_Swap: "verdict so m = Swap \<longleftrightarrow> \<not> (step_in so m > 1 \<and> step_out so m > 1) \<and>
    (step_in so m < -1 \<or> step_out so m > 1 \<and> step_in so m > 0) \<and> overtakes so m"
  by (simp add: verdict_def)

lemma held_back_abs: "held_back (abs_sorter so) = (if mb_valid (buf1 so) then Some (content (buf1 so)) else None)"
  by (simp add: abs_sorter_def)

lemma overtakes_passes: "overtakes so m \<longleftrightarrow> mb_valid (buf1 so) \<and> passes R (content m) (content (buf1 so))"
  by (auto simp: passes_def overtakes_def)

lemma reorder_step_abs:
  assumes "sorter_ok so" and "msgbuf_ok m" and "mb_valid m"
  shows "reorder_step (abs_sorter so) (content m) =
     (map content (deliveries so m),
      (books (sorter_after so m))\<lparr>held_back :=
         if MAXSPECIALPORT < mb_destport m \<and> verdict so m = Hold then Some (content m) else None\<rparr>)"
proof (cases "mb_destport m \<le> MAXSPECIALPORT")
  case True
  then show ?thesis using assms(1)
    by (auto simp: reorder_step_def deliveries_def sorter_after_def books_noted sorter_ok_maps books_held books_None Let_def)
next
  case p: False
  have H: "mb_msg m = HEADERLEN" using assms by (simp add: msgbuf_ok_def)
  have maps: "maps_ok so" using assms(1) by (simp add: sorter_ok_maps)
  note simps = reorder_step_def deliveries_def sorter_after_def books_noted books_book maps books_held books_None
    held_back_abs overtakes_passes [where R = "abs_sorter so"] content_copy H Let_def flush_def
  show ?thesis
  proof (cases "verdict so m")
    case Hold
    then have "step_in so m > 1 \<and> step_out so m > 1" by (simp add: verdict_Hold)
    with Hold p show ?thesis by (simp add: simps held_def not_le)
  next
    case Swap
    then have "\<not> (step_in so m > 1 \<and> step_out so m > 1)" "mb_valid (buf1 so)"
      "passes (abs_sorter so) (content m) (content (buf1 so))"
      "step_in so m < -1 \<or> step_out so m > 1 \<and> step_in so m > 0"
      using overtakes_passes [of so m "abs_sorter so"] by (simp_all add: verdict_Swap)
    with Swap p show ?thesis by (simp add: simps books_note_out emit_all_def)
  next
    case Pass
    then have "\<not> (step_in so m > 1 \<and> step_out so m > 1)"
      "\<not> ((step_in so m < -1 \<or> step_out so m > 1 \<and> step_in so m > 0) \<and> overtakes so m)"
      by (auto simp: verdict_def split: if_splits)
    with Pass p show ?thesis by (cases "mb_valid (buf1 so)") (auto simp: simps books_note_out emit_all_def)
  qed
qed

lemma maps_ok_same: "same_books s t \<Longrightarrow> maps_ok s = maps_ok t"
  by (simp add: same_books_def maps_ok_def)

lemma maps_ok_after: "maps_ok so \<Longrightarrow> maps_ok (sorter_after so m)"
  by (auto simp: sorter_after_def held_def maps_ok_def book_def split: judgement.split
      intro: maps_ok_noted [unfolded maps_ok_def, THEN conjunct1, rule_format]
        maps_ok_noted [unfolded maps_ok_def, THEN conjunct2, rule_format])

lemma drain_refines:
  assumes "sorter_ok so" and "msgbuf_ok m" and "mb_valid m"
  shows "case drain f c so m Ext of
      Inl e \<Rightarrow> consume f c (deliveries so m) = Inl e
    | Inr (c', so', ext') \<Rightarrow> consume f c (deliveries so m) = Inr c' \<and>
        abs_sorter so' = snd (reorder_step (abs_sorter so) (content m)) \<and> sorter_ok so'"
proof (cases "drain f c so m Ext")
  case (Inl e)
  then show ?thesis using drain_arrival [of m so f c] assms by (simp add: sorter_ok_maps)
next
  case (Inr r)
  obtain c' so' ext' where r: "r = (c', so', ext')" by (metis surj_pair)
  have *: "consume f c (deliveries so m) = Inr c'" "same_books so' (sorter_after so m)" "quiet so'"
    and b1: "if MAXSPECIALPORT < mb_destport m \<and> verdict so m = Hold
         then buf1 so' = msgbuf_copy (buf1 so) m else \<not> mb_valid (buf1 so')"
    using drain_arrival [of m so f c] assms by (simp_all add: sorter_ok_maps Inr r)
  have books: "books so' = books (sorter_after so m)" using *(2) by (rule books_same)
  have maps: "maps_ok so'"
    using maps_ok_same [OF *(2)] maps_ok_after [of so m] assms(1) by (simp add: sorter_ok_maps)
  have H: "mb_msg m = HEADERLEN" using assms by (simp add: msgbuf_ok_def)
  have ok: "mb_valid (buf1 so') \<longrightarrow> msgbuf_ok (buf1 so')"
    using b1 assms(2) by (auto simp: msgbuf_ok_def msgbuf_copy_def split: if_splits)
  have "abs_sorter so' = snd (reorder_step (abs_sorter so) (content m))"
    using b1 assms abs_sorter_books [of so'] books_None [of "sorter_after so m"]
    by (auto simp: reorder_step_abs books content_copy H split: if_splits)
  then show ?thesis using * maps ok by (simp add: Inr r sorter_ok_maps)
qed

section \<open>Streams of arrivals\<close>

text \<open>One received message after the other; each reception fills the same message buffer.\<close>

fun arrivals :: "('c \<Rightarrow> msgbuf \<Rightarrow> ('c \<times> msgbuf) res) \<Rightarrow> 'c \<Rightarrow> sorter \<Rightarrow> msgbuf list \<Rightarrow> ('c \<times> sorter) res" where
  "arrivals f c so [] = Inr (c, so)"
| "arrivals f c so (m # ms) =
     bind_res (drain f c so m Ext) (\<lambda>(c', so', ext'). arrivals f c' so' ms)"

definition log_content :: "packet list \<Rightarrow> msgbuf \<Rightarrow> (packet list \<times> msgbuf) res" where
  "log_content out m = Inr (out @ [content m], m)"

lemma consume_log: "consume log_content out ms = Inr (out @ map content ms)"
  by (induction ms arbitrary: out) (simp_all add: log_content_def)

lemma arrivals_refine:
  assumes "sorter_ok so" and "\<forall>m\<in>set ms. msgbuf_ok m \<and> mb_valid m"
  shows "\<exists>so'. arrivals log_content out so ms =
      Inr (out @ fst (reorder_run (abs_sorter so) (map content ms)), so') \<and>
    abs_sorter so' = snd (reorder_run (abs_sorter so) (map content ms)) \<and> sorter_ok so'"
  using assms
proof (induction ms arbitrary: so out)
  case (Cons m ms)
  have c: "consume log_content out (deliveries so m) =
      Inr (out @ fst (reorder_step (abs_sorter so) (content m)))"
    using Cons.prems by (simp add: consume_log reorder_step_abs)
  obtain c' so' ext' where d: "drain log_content out so m Ext = Inr (c', so', ext')"
    using drain_refines [of so m log_content out] Cons.prems c by (auto split: sum.splits)
  then have *: "c' = out @ fst (reorder_step (abs_sorter so) (content m))"
    "abs_sorter so' = snd (reorder_step (abs_sorter so) (content m))" "sorter_ok so'"
    using drain_refines [of so m log_content out] Cons.prems c by auto
  from Cons.IH [OF *(3), of c'] Cons.prems(2) show ?case
    by (simp add: d * case_prod_beta)
qed simp

text \<open>Accounting: a packet that is handed out was received, once for each reception.\<close>

definition overwritten :: "reorder \<Rightarrow> packet \<Rightarrow> packet list" where
  "overwritten R k =
     (if MAXSPECIALPORT < pk_port k \<and> diff_in R k > 1 \<and> diff_out R k > 1 then held_list R else [])"

fun overwritten_run :: "reorder \<Rightarrow> packet list \<Rightarrow> packet list" where
  "overwritten_run R [] = []"
| "overwritten_run R (k # ks) = overwritten R k @ overwritten_run (snd (reorder_step R k)) ks"

lemma held_back_frames [simp]:
  "held_back (arrived k R) = held_back R" "held_back (emit k R) = held_back R"
  "held_back (emit_all ks R) = held_back R"
proof -
  show "held_back (arrived k R) = held_back R" by (simp add: arrived_def count_in_def)
  have *: "held_back (emit k R) = held_back R" for k R by (simp add: emit_def count_in_def)
  show "held_back (emit k R) = held_back R" by (rule *)
  show "held_back (emit_all ks R) = held_back R" unfolding emit_all_def
    by (induction ks arbitrary: R) (simp_all add: *)
qed

lemma step_accounting:
  "mset (fst (reorder_step R k)) + mset (held_list (snd (reorder_step R k))) + mset (overwritten R k) =
     add_mset k (mset (held_list R))"
  by (auto simp: reorder_step_def overwritten_def held_list_def Let_def not_le split: option.split)

lemma run_accounting:
  "mset (fst (reorder_run R ks)) + mset (held_list (snd (reorder_run R ks))) + mset (overwritten_run R ks) =
     mset ks + mset (held_list R)"
proof (induction ks arbitrary: R)
  case (Cons k ks)
  show ?case using Cons.IH [of "snd (reorder_step R k)"] step_accounting [of R k]
    by (simp add: case_prod_beta ac_simps)
qed simp

text \<open>A stream that is in step: nothing is held back, and the last number in is the last out.\<close>

definition in_step :: "stage_device_id_t \<Rightarrow> port_t \<Rightarrow> sequence_t \<Rightarrow> reorder \<Rightarrow> bool" where
  "in_step c p n R \<longleftrightarrow> held_back R = None \<and> last_in R c p = Some n \<and> last_out R c p = n"

lemma arrived_last [simp]:
  "last_in (arrived k R) = (last_in R)(pk_cid k := (last_in R (pk_cid k))(pk_port k \<mapsto> pk_seq k))"
  "last_out (arrived k R) = last_out R"
  by (simp_all add: arrived_def count_in_def)

lemma emit_last [simp]:
  "last_in (emit k R) = last_in R"
  "last_out (emit k R) = (last_out R)(pk_cid k := (last_out R (pk_cid k))(pk_port k := pk_seq k))"
  by (simp_all add: emit_def count_in_def)

lemma update_last [simp]:
  "last_in (R\<lparr>held_back := h\<rparr>) = last_in R" "last_out (R\<lparr>held_back := h\<rparr>) = last_out R"
  by simp_all

lemma int_of_seq_small [simp]:
  "int_of_seq 1 = 1" "int_of_seq 2 = 2" "int_of_seq 3 = 3" "int_of_seq (- 1) = -1"
  using int_of_seq_of_int [of 1] int_of_seq_of_int [of 2] int_of_seq_of_int [of 3] int_of_seq_of_int [of "-1"]
  by simp_all

lemma emit_all_simps [simp]: "emit_all [] R = R" "emit_all (k # ks) R = emit_all ks (emit k R)"
  by (simp_all add: emit_all_def)

text \<open>The next number of a stream in step is handed out at once, and the stream is in step again.\<close>

lemma step_next:
  assumes "MAXSPECIALPORT < p" and "in_step c p n R"
  shows "fst (reorder_step R (Packet c p (n + 1) d)) = [Packet c p (n + 1) d]"
    and "in_step c p (n + 1) (snd (reorder_step R (Packet c p (n + 1) d)))"
    and "counts (snd (reorder_step R (Packet c p (n + 1) d))) = (counts R)(c := counts R c + Message_stat 1 0 0 0)"
  using assms
  by (auto simp: reorder_step_def in_step_def diff_in_def diff_out_def arrived_def emit_def count_in_def
      one_if_def fun_eq_iff Let_def)

fun consecutive :: "stage_device_id_t \<Rightarrow> port_t \<Rightarrow> sequence_t \<Rightarrow> byte list list \<Rightarrow> packet list" where
  "consecutive c p n [] = []"
| "consecutive c p n (d # ds) = Packet c p (n + 1) d # consecutive c p (n + 1) ds"

lemma run_consecutive:
  assumes "MAXSPECIALPORT < p" and "in_step c p n R"
  shows "fst (reorder_run R (consecutive c p n ds)) = consecutive c p n ds \<and>
    counts (snd (reorder_run R (consecutive c p n ds))) c = counts R c + Message_stat (of_nat (length ds)) 0 0 0"
  using assms
proof (induction ds arbitrary: n R)
  case (Cons d ds)
  note st = step_next [OF Cons.prems]
  show ?case using Cons.IH [OF Cons.prems(1) st(2)] st
    by (simp add: case_prod_beta message_stat_merge)
qed simp

lemma int_of_seq_less_Suc: "int_of_seq w < int_of_seq (w + 1) \<longleftrightarrow> w \<noteq> 0x7fff"
proof (cases "int_of_seq w = 32767")
  case True
  then have "w = 0x7fff" by (metis word_of_int_of_seq of_int_numeral word_of_int_numeral)
  then show ?thesis using True int_of_seq_bounds(2) [of "w + 1"] by simp
next
  case False
  then have "int_of_seq (word_of_int (int_of_seq w + 1)) = int_of_seq w + 1"
    using int_of_seq_bounds [of w] by (intro int_of_seq_of_int) simp_all
  moreover have "w \<noteq> 0x7fff" using False int_of_seq_of_int [of 32767] by auto
  ultimately show ?thesis by simp
qed

text \<open>
  Two packets after a gap of one number. The packet that follows the gap is held back; then
  either the missing one arrives and both are handed out in order, or its successor does.
\<close>

lemma run_reversed_pair:
  assumes "MAXSPECIALPORT < p" and "in_step c p n R"
  shows "fst (reorder_run R [Packet c p (n + 2) d2, Packet c p (n + 1) d1]) =
    [Packet c p (n + 1) d1, Packet c p (n + 2) d2]"
  using assms
  by (simp add: reorder_step_def in_step_def diff_in_def diff_out_def Let_def held_list_def leD algebra_simps)

lemma run_gap:
  assumes p: "MAXSPECIALPORT < p" and "in_step c p n R"
  shows "fst (reorder_run R [Packet c p (n + 2) d2, Packet c p (n + 3) d3]) =
    (if n = 0x7ffd then [Packet c p (n + 3) d3, Packet c p (n + 2) d2]
     else [Packet c p (n + 2) d2, Packet c p (n + 3) d3])"
proof -
  have p': "\<not> p \<le> MAXSPECIALPORT" using p by simp
  have "int_of_seq (n + 2) < int_of_seq (n + 3) \<longleftrightarrow> n \<noteq> 0x7ffd"
    using int_of_seq_less_Suc [of "n + 2"] by (simp add: add.assoc)
  then show ?thesis using assms(2) p'
    by (cases "n = 0x7ffd")
      (simp_all add: reorder_step_def in_step_def diff_in_def diff_out_def passes_def Let_def algebra_simps
         int_of_seq_def)
qed

text \<open>
  The loss counter. The numbers of a stream are given without wrap-around, as integers whose
  neighbours are less than half the range of the counter apart.
\<close>

fun steps_ok :: "int \<Rightarrow> int list \<Rightarrow> bool" where
  "steps_ok x [] \<longleftrightarrow> True"
| "steps_ok x (y # ys) \<longleftrightarrow> y \<noteq> x \<and> - 32768 \<le> y - x \<and> y - x < 32768 \<and> steps_ok y ys"

lemma lost_emit [simp]: "ms_lost (counts (emit k R) c) = ms_lost (counts R c)"
  by (cases "counts R c") (auto simp: emit_def count_in_def)

lemma lost_emit_all [simp]: "ms_lost (counts (emit_all ks R) c) = ms_lost (counts R c)"
  by (induction ks arbitrary: R) simp_all

lemma last_in_emit_all [simp]: "last_in (emit_all ks R) = last_in R"
  by (induction ks arbitrary: R) simp_all

lemma step_last_in:
  "MAXSPECIALPORT < pk_port k \<Longrightarrow> last_in (snd (reorder_step R k)) (pk_cid k) (pk_port k) = Some (pk_seq k)"
  by (auto simp: reorder_step_def Let_def split: option.split)

lemma lost_arrived:
  assumes "last_in R (pk_cid k) (pk_port k) = Some (word_of_int x)" and "pk_seq k = word_of_int y"
    and "y \<noteq> x" and "- 32768 \<le> y - x" and "y - x < 32768"
  shows "ms_lost (counts (arrived k R) (pk_cid k)) = ms_lost (counts R (pk_cid k)) + word_of_int (y - x - 1)"
proof -
  have "diff_in R k = y - x"
    using assms int_of_seq_of_int [of "y - x"] by (simp add: diff_in_def)
  then show ?thesis using assms by (cases "counts R (pk_cid k)") (simp add: arrived_def count_in_def)
qed

lemma counts_arrived_held [simp]: "counts (arrived k (R\<lparr>held_back := h\<rparr>)) = counts (arrived k R)"
  by (simp add: arrived_def count_in_def diff_in_def)

lemma lost_step:
  "MAXSPECIALPORT < pk_port k \<Longrightarrow>
   ms_lost (counts (snd (reorder_step R k)) c) = ms_lost (counts (arrived k R) c)"
  by (auto simp: reorder_step_def Let_def split: option.split)

lemma run_lost:
  assumes "MAXSPECIALPORT < p" and "last_in R c p = Some (word_of_int x)" and "steps_ok x xs"
    and "\<forall>k\<in>set ks. pk_cid k = c \<and> pk_port k = p" and "map pk_seq ks = map word_of_int xs"
  shows "ms_lost (counts (snd (reorder_run R ks)) c) =
    ms_lost (counts R c) + word_of_int (last (x # xs) - x - int (length xs))"
  using assms
proof (induction ks arbitrary: R x xs)
  case (Cons k ks)
  then obtain y ys where xs: "xs = y # ys" by (cases xs) auto
  let ?R = "snd (reorder_step R k)"
  have k: "pk_cid k = c" "pk_port k = p" "pk_seq k = word_of_int y" using Cons.prems(4,5) xs by simp_all
  have st: "y \<noteq> x" "- 32768 \<le> y - x" "y - x < 32768" "steps_ok y ys" using Cons.prems(3) xs by simp_all
  have "last_in ?R c p = Some (word_of_int y)" using step_last_in [of k R] Cons.prems(1) k by simp
  from Cons.IH [OF Cons.prems(1) this st(4)] Cons.prems(4,5)
  have "ms_lost (counts (snd (reorder_run ?R ks)) c) =
      ms_lost (counts ?R c) + word_of_int (last (y # ys) - y - int (length ys))"
    by (simp add: xs)
  also have "ms_lost (counts ?R c) = ms_lost (counts R c) + word_of_int (y - x - 1)"
    using lost_step [of k R c] lost_arrived [of R k x y] Cons.prems(1,2) k st by simp
  finally show ?case by (simp add: xs case_prod_beta algebra_simps flip: of_int_add of_int_diff)
qed simp

section \<open>Properties\<close>

text \<open>A received message, and a sorter that has handed out number \<open>n\<close> of one stream.\<close>

definition data_msg :: "stage_device_id_t \<Rightarrow> port_t \<Rightarrow> sequence_t \<Rightarrow> byte list \<Rightarrow> msgbuf" where
  "data_msg c p n d = msgbuf_pack 0 c p n d (length d) (msgbuf_ctor zero_endpoint 0)"

lemma data_msg_ok:
  assumes "HEADERLEN + length d \<le> BUFSIZE"
  shows "msgbuf_ok (data_msg c p n d)" "mb_valid (data_msg c p n d)"
    "content (data_msg c p n d) = Packet c p n d"
proof -
  have eq: "data_msg c p n d = (msgbuf_ctor zero_endpoint 0)\<lparr>rawbuffer := header_bytes 0 c p n @ d @
        drop (HEADERLEN + length d) (replicate BUFSIZE 0),
      mb_valid := True, mb_cid := c, mb_destport := p, mb_seq := n, mb_size := length d, mb_msg := HEADERLEN\<rparr>"
    using assms unfolding data_msg_def
    by (subst msgbuf_pack_ok) (simp_all add: msgbuf_ctor_def msgbuf_ok_def buf_bounds del: drop_replicate)
  show "msgbuf_ok (data_msg c p n d)" "mb_valid (data_msg c p n d)"
    "content (data_msg c p n d) = Packet c p n d"
    using assms by (simp_all add: eq msgbuf_ok_def content_def payload_def msg_mem_def)
qed

lemma data_msg_fields:
  assumes "HEADERLEN + length d \<le> BUFSIZE"
  shows "mb_cid (data_msg c p n d) = c" "mb_destport (data_msg c p n d) = p" "mb_seq (data_msg c p n d) = n"
  using data_msg_ok(3) [OF assms, of c p n] by (simp_all add: content_def)

definition synced_sorter :: "stage_device_id_t \<Rightarrow> port_t \<Rightarrow> sequence_t \<Rightarrow> sorter" where
  "synced_sorter c p n =
     (sorter_ctor (msgbuf_ctor zero_endpoint 0) (msgbuf_ctor zero_endpoint 0))
       \<lparr>seq_in := (\<lambda>_. [])(c := [(p, n)]), seq_out := (\<lambda>_. [])(c := [(p, n)])\<rparr>"

lemma synced_sorter_ok [simp]: "sorter_ok (synced_sorter c p n)" "in_step c p n (abs_sorter (synced_sorter c p n))"
  "stat (synced_sorter c p n) = (\<lambda>_. message_stat_ctor)" "seq_in (synced_sorter c p n) c = [(p, n)]"
  by (simp_all add: synced_sorter_def sorter_ctor_def sorter_ok_def quiet_def msgbuf_ctor_def in_step_def
      abs_sorter_def seq_get_def omap_wf_def)

text \<open>C4. The loop of \<open>sendsrv\<close> refines the specification of re-ordering: for every sequence of
  received messages it returns, hands out exactly the packets that the specification hands
  out, in this order, and ends in a state whose abstraction is the state of the
  specification.\<close>

theorem sorter_refines_reorder:
  assumes "sorter_ok so" and "\<forall>m\<in>set ms. msgbuf_ok m \<and> mb_valid m"
  shows "\<exists>so'. arrivals log_content [] so ms =
      Inr (fst (reorder_run (abs_sorter so) (map content ms)), so') \<and>
    abs_sorter so' = snd (reorder_run (abs_sorter so) (map content ms)) \<and> sorter_ok so'"
  using arrivals_refine [OF assms, of "[]"] by simp

theorem sorter_refines_reorder_witness:
  "\<exists>so'. arrivals log_content [] (synced_sorter 1 9876 5) [data_msg 1 9876 7 []] = Inr ([], so') \<and> sorter_ok so'"
  using sorter_refines_reorder [of "synced_sorter 1 9876 5" "[data_msg 1 9876 7 []]"]
    synced_sorter_ok(2) [of 1 9876 5]
  by (auto simp: data_msg_ok buf_bounds reorder_step_def diff_in_def diff_out_def in_step_def
      MAXSPECIALPORT_def Let_def simp del: arrivals.simps)

text \<open>C14. Nothing is duplicated and nothing is invented: the packets handed out, the packet still
  held back and the packets that were dropped (held back when a further gap opened) are
  together, with their multiplicities, the packets received and the one held back before.\<close>

theorem sorter_accounting:
  assumes "sorter_ok so" and "\<forall>m\<in>set ms. msgbuf_ok m \<and> mb_valid m"
    and "arrivals log_content [] so ms = Inr (out, so')"
  shows "mset out + mset (held_list (abs_sorter so')) + mset (overwritten_run (abs_sorter so) (map content ms)) =
    mset (map content ms) + mset (held_list (abs_sorter so))"
  using arrivals_refine [OF assms(1,2), of "[]"] assms(3) run_accounting [of "abs_sorter so" "map content ms"]
  by auto

theorem sorter_accounting_witness:
  "\<exists>out so'. arrivals log_content [] (synced_sorter 1 9876 5) [data_msg 1 9876 7 [], data_msg 1 9876 9 []] = Inr (out, so') \<and>
    mset out + mset (held_list (abs_sorter so')) + {#Packet 1 9876 7 []#} = {#Packet 1 9876 7 [], Packet 1 9876 9 []#}"
proof -
  let ?so = "synced_sorter 1 9876 5" and ?ms = "[data_msg 1 9876 7 [], data_msg 1 9876 9 []]"
  have ok: "\<forall>m\<in>set ?ms. msgbuf_ok m \<and> mb_valid m" by (simp add: data_msg_ok buf_bounds)
  obtain out so' where a: "arrivals log_content [] ?so ?ms = Inr (out, so')"
    using arrivals_refine [OF synced_sorter_ok(1) ok, of "[]"] by blast
  have "overwritten_run (abs_sorter ?so) (map content ?ms) = [Packet 1 9876 7 []]" "held_list (abs_sorter ?so) = []"
    using synced_sorter_ok(2) [of 1 9876 5]
    by (simp_all add: data_msg_ok buf_bounds reorder_step_def overwritten_def diff_in_def diff_out_def in_step_def
        held_list_def MAXSPECIALPORT_def Let_def int_of_seq_def)
  then show ?thesis using sorter_accounting [OF synced_sorter_ok(1) ok a] a
    by (auto simp: data_msg_ok buf_bounds add_mset_commute)
qed

text \<open>A stream without losses passes unchanged: every packet is handed out on its arrival, in
  order and across the wrap-around of the sequence number, and the statistics count the
  received packets and neither losses nor order errors.\<close>

theorem in_order_stream:
  assumes "sorter_ok so" and "\<forall>m\<in>set ms. msgbuf_ok m \<and> mb_valid m"
    and "MAXSPECIALPORT < p" and "in_step c p n (abs_sorter so)" and "map content ms = consecutive c p n ds"
  shows "\<exists>so'. arrivals log_content [] so ms = Inr (map content ms, so') \<and>
    get_stat c so' = get_stat c so + Message_stat (of_nat (length ds)) 0 0 0"
proof -
  obtain so' where a: "arrivals log_content [] so ms = Inr (map content ms, so')"
    and s: "abs_sorter so' = snd (reorder_run (abs_sorter so) (consecutive c p n ds))"
    using arrivals_refine [OF assms(1,2), of "[]"] run_consecutive [OF assms(3,4), of ds] assms(5) by auto
  have "counts (abs_sorter so') c = counts (abs_sorter so) c + Message_stat (of_nat (length ds)) 0 0 0"
    using run_consecutive [OF assms(3,4), of ds] by (simp add: s)
  then show ?thesis using a by (auto simp: get_stat_def abs_sorter_def)
qed

theorem in_order_stream_witness:
  "\<exists>so'. arrivals log_content [] (synced_sorter 1 9876 0x7fff) [data_msg 1 9876 0x8000 [1], data_msg 1 9876 0x8001 [2]] =
      Inr ([Packet 1 9876 0x8000 [1], Packet 1 9876 0x8001 [2]], so') \<and>
    get_stat 1 so' = Message_stat 2 0 0 0"
  using in_order_stream [where so = "synced_sorter 1 9876 0x7fff" and p = 9876 and c = 1 and n = "0x7fff" and ds = "[[1], [2]]"
      and ms = "[data_msg 1 9876 0x8000 [1], data_msg 1 9876 0x8001 [2]]"]
  by (simp del: arrivals.simps add: data_msg_ok buf_bounds MAXSPECIALPORT_def get_stat_def message_stat_ctor_def)

text \<open>Two swapped packets are put in order: when the packet after the next one arrives first,
  it is held back, and both are handed out in the order of their numbers, whatever the
  position of the stream.\<close>

theorem swapped_pair_sorted:
  assumes "sorter_ok so" and "\<forall>m\<in>{m1, m2}. msgbuf_ok m \<and> mb_valid m"
    and "MAXSPECIALPORT < p" and "in_step c p n (abs_sorter so)"
    and "content m1 = Packet c p (n + 1) d1" and "content m2 = Packet c p (n + 2) d2"
  shows "\<exists>so'. arrivals log_content [] so [m2, m1] = Inr ([content m1, content m2], so')"
proof -
  have "\<forall>m\<in>set [m2, m1]. msgbuf_ok m \<and> mb_valid m" using assms(2) by simp
  from arrivals_refine [OF assms(1) this, of "[]"] show ?thesis
    using run_reversed_pair [OF assms(3,4), of d2 d1] assms(5,6) by auto
qed

theorem swapped_pair_sorted_witness:
  "\<exists>so'. arrivals log_content [] (synced_sorter 1 9876 0x7ffe) [data_msg 1 9876 0x8000 [], data_msg 1 9876 0x7fff []] =
    Inr ([Packet 1 9876 0x7fff [], Packet 1 9876 0x8000 []], so')"
  using swapped_pair_sorted [where so = "synced_sorter 1 9876 0x7ffe" and p = 9876 and c = 1 and n = "0x7ffe"
      and ?m1.0 = "data_msg 1 9876 0x7fff []" and ?m2.0 = "data_msg 1 9876 0x8000 []" and ?d1.0 = "[]" and ?d2.0 = "[]"]
  by (simp del: arrivals.simps add: data_msg_ok buf_bounds MAXSPECIALPORT_def)

text \<open>C22. A lost packet: the two packets after it are handed out in order, except where the
  sequence number passes from its largest to its smallest value between them; there the
  comparison of the numbers as signed integers hands them out in reverse order.\<close>

theorem gap_order:
  assumes "sorter_ok so" and "\<forall>m\<in>{m2, m3}. msgbuf_ok m \<and> mb_valid m"
    and "MAXSPECIALPORT < p" and "in_step c p n (abs_sorter so)"
    and "content m2 = Packet c p (n + 2) d2" and "content m3 = Packet c p (n + 3) d3"
  shows "\<exists>so'. arrivals log_content [] so [m2, m3] =
    Inr (if n = 0x7ffd then [content m3, content m2] else [content m2, content m3], so')"
proof -
  have "\<forall>m\<in>set [m2, m3]. msgbuf_ok m \<and> mb_valid m" using assms(2) by simp
  from arrivals_refine [OF assms(1) this, of "[]"] show ?thesis
    using run_gap [OF assms(3,4), of d2 d3] assms(5,6) by auto
qed

theorem gap_order_witness:
  "(\<exists>so'. arrivals log_content [] (synced_sorter 1 9876 0x7ffd) [data_msg 1 9876 0x7fff [], data_msg 1 9876 0x8000 []] =
      Inr ([Packet 1 9876 0x8000 [], Packet 1 9876 0x7fff []], so')) \<and>
   (\<exists>so'. arrivals log_content [] (synced_sorter 1 9876 5) [data_msg 1 9876 7 [], data_msg 1 9876 8 []] =
      Inr ([Packet 1 9876 7 [], Packet 1 9876 8 []], so'))"
  using gap_order [where so = "synced_sorter 1 9876 0x7ffd" and p = 9876 and c = 1 and n = "0x7ffd"
      and ?m2.0 = "data_msg 1 9876 0x7fff []" and ?m3.0 = "data_msg 1 9876 0x8000 []" and ?d2.0 = "[]" and ?d3.0 = "[]"]
    gap_order [where so = "synced_sorter 1 9876 5" and p = 9876 and c = 1 and n = 5
      and ?m2.0 = "data_msg 1 9876 7 []" and ?m3.0 = "data_msg 1 9876 8 []" and ?d2.0 = "[]" and ?d3.0 = "[]"]
  by (simp del: arrivals.simps add: data_msg_ok buf_bounds MAXSPECIALPORT_def)

text \<open>The loss counter telescopes: while a stream advances from number \<open>x\<close> (counted without
  wrap-around) over the arrivals \<open>xs\<close>, in any order but in steps of less than half the
  range of the counter and without repetition of a number by its successor, the counter
  grows by the total advance less the number of arrivals; packets that arrive late are
  counted back, modulo 2^64.\<close>

theorem loss_counter:
  assumes "sorter_ok so" and "\<forall>m\<in>set ms. msgbuf_ok m \<and> mb_valid m"
    and "MAXSPECIALPORT < p" and "map_of (seq_in so c) p = Some (word_of_int x)" and "steps_ok x xs"
    and "\<forall>m\<in>set ms. mb_cid m = c \<and> mb_destport m = p" and "map mb_seq ms = map word_of_int xs"
  shows "\<exists>out so'. arrivals log_content [] so ms = Inr (out, so') \<and>
    ms_lost (get_stat c so') = ms_lost (get_stat c so) + word_of_int (last (x # xs) - x - int (length ms))"
proof -
  have "last_in (abs_sorter so) c p = Some (word_of_int x)" using assms(4) by (simp add: abs_sorter_def)
  moreover have "\<forall>k\<in>set (map content ms). pk_cid k = c \<and> pk_port k = p" using assms(6) by simp
  moreover have "map pk_seq (map content ms) = map word_of_int xs" using assms(7) by (simp add: comp_def)
  moreover have "length ms = length xs" using assms(7) map_eq_imp_length_eq by metis
  ultimately have l: "ms_lost (counts (snd (reorder_run (abs_sorter so) (map content ms))) c) =
      ms_lost (counts (abs_sorter so) c) + word_of_int (last (x # xs) - x - int (length ms))"
    using run_lost [OF assms(3) _ assms(5), of "abs_sorter so" c "map content ms"] by simp
  have st: "get_stat c s = counts (abs_sorter s) c" for s by (simp add: get_stat_def abs_sorter_def)
  obtain so' where a: "arrivals log_content [] so ms =
      Inr (fst (reorder_run (abs_sorter so) (map content ms)), so')"
    and s: "abs_sorter so' = snd (reorder_run (abs_sorter so) (map content ms))"
    using arrivals_refine [OF assms(1,2), of "[]"] by auto
  show ?thesis unfolding st using a l [folded s] by blast
qed

theorem loss_counter_witness:
  "\<exists>out so'. arrivals log_content [] (synced_sorter 1 9876 5)
      [data_msg 1 9876 7 [], data_msg 1 9876 6 [], data_msg 1 9876 10 []] = Inr (out, so') \<and>
    ms_lost (get_stat 1 so') = 2"
  using loss_counter [where so = "synced_sorter 1 9876 5" and p = 9876 and c = 1 and x = 5 and xs = "[7, 6, 10]"
      and ms = "[data_msg 1 9876 7 [], data_msg 1 9876 6 [], data_msg 1 9876 10 []]"]
  by (simp del: arrivals.simps add: data_msg_ok data_msg_fields buf_bounds MAXSPECIALPORT_def get_stat_def message_stat_ctor_def)

end
