(* ===== verification/Ping_Stats.thy ===== *)
theory Ping_Stats
  imports Sorter
begin

text \<open>
  \<open>ping_stat_t\<close> of \<open>src/ov_types.h\<close>, and \<open>ping_stat_collector_t\<close> and the two \<open>to_string\<close>
  functions of \<open>src/ovboxclient.cc\<close>: the window of the last ping times of a peer and the
  statistics that are reported from it. Times are reals; the rounding of
  single-precision operations is the parameter \<open>fl32\<close>.
\<close>

section \<open>The collector\<close>

record ping_stat =
  t_min :: real
  t_med :: real
  t_p99 :: real
  t_mean :: real
  ps_received :: "64 word"
  ps_lost :: "64 word"
  state_sent :: "64 word"
  state_received :: "64 word"

definition ping_stat_ctor :: ping_stat where
  "ping_stat_ctor =
     \<lparr>t_min = 0, t_med = 0, t_p99 = 0, t_mean = 0, ps_received = 0, ps_lost = 0, state_sent = 0, state_received = 0\<rparr>"

record collector =
  pc_sent :: "64 word"
  pc_received :: "64 word"
  pc_data :: "real list"
  pc_idx :: nat
  pc_filled :: nat
  pc_sum :: real

definition collector_ctor :: "nat \<Rightarrow> collector" where
  "collector_ctor N =
     \<lparr>pc_sent = 0, pc_received = 0, pc_data = replicate N 0, pc_idx = 0, pc_filled = 0, pc_sum = 0\<rparr>"

definition default_window :: nat where "default_window = 2048"

definition add_value :: "fpu \<Rightarrow> real \<Rightarrow> collector \<Rightarrow> collector" where
  "add_value F pt c =
     (let sum1 = fl32 F (pc_sum c - pc_data c ! pc_idx c);
          data' = (pc_data c)[pc_idx c := pt];
          sum2 = fl32 F (sum1 + pt);
          idx1 = pc_idx c + 1;
          idx' = (if length data' \<le> idx1 then 0 else idx1);
          filled' = (if pc_filled c < length data' then pc_filled c + 1 else pc_filled c)
      in c\<lparr>pc_received := pc_received c + 1, pc_data := data', pc_sum := sum2, pc_idx := idx', pc_filled := filled'\<rparr>)"

definition count_sent :: "collector \<Rightarrow> collector" where
  "count_sent c = c\<lparr>pc_sent := pc_sent c + 1\<rparr>"

text \<open>\<open>std::round\<close>: halfway cases away from zero.\<close>

definition std_round :: "real \<Rightarrow> int" where
  "std_round x = (if 0 \<le> x then \<lfloor>x + 1 / 2\<rfloor> else - \<lfloor>1 / 2 - x\<rfloor>)"

text \<open>
  The two indices. The products are computed in double precision and are exact; the
  constant \<open>0.99f\<close> is the single-precision number \<open>16609444 / 2 ^ 24\<close>.
\<close>

definition idx_med :: "nat \<Rightarrow> nat" where
  "idx_med filled = nat (std_round (1 / 2 * (real filled - 1)))"

definition idx_99 :: "nat \<Rightarrow> nat" where
  "idx_99 filled = nat (std_round (16609444 / 16777216 * (real filled - 1)))"

definition update_ping_stat :: "fpu \<Rightarrow> collector \<Rightarrow> ping_stat \<Rightarrow> ping_stat" where
  "update_ping_stat F c ps =
     (let rec = pc_received c - state_received ps;
          lost0 = pc_sent c - state_sent ps;
          lost1 = lost0 - min rec lost0;
          ps1 = ps\<lparr>t_min := -1, t_med := -1, t_p99 := -1, t_mean := -1, ps_received := rec, ps_lost := lost1,
                   state_sent := pc_sent c, state_received := pc_received c\<rparr>
      in if pc_filled c = 0 then ps1
         else
           let sb = sort (take (pc_filled c) (pc_data c));
               im = idx_med (pc_filled c);
               med0 = sb ! im;
               med = (if even (pc_filled c)
                      then fl32 F (fl32 F (med0 + (if im \<noteq> 0 then sb ! (im - 1) else sb ! (im + 1))) * (1 / 2))
                      else med0)
           in ps1\<lparr>t_med := med, t_min := sb ! 0, t_p99 := sb ! idx_99 (pc_filled c),
                  t_mean := fl32 F (pc_sum c / fl32 F (real (pc_filled c)))\<rparr>)"

text \<open>
  The printed forms. \<open>fmt2\<close> stands for the conversion \<open>%1.2f\<close> of \<open>snprintf\<close>, which cuts its
  output off behind 1022 characters.
\<close>

definition ping_stat_to_string :: "(real \<Rightarrow> string) \<Rightarrow> ping_stat \<Rightarrow> string" where
  "ping_stat_to_string fmt2 ps =
     take 1022 (''min='' @ fmt2 (t_min ps) @ ''ms median='' @ fmt2 (t_med ps) @ ''ms p99='' @ fmt2 (t_p99 ps) @
       ''ms mean='' @ fmt2 (t_mean ps) @ ''ms received='') @
     show_nat (unat (ps_received ps)) @ '' lost='' @ show_nat (unat (ps_lost ps))"

definition message_stat_to_string :: "(real \<Rightarrow> string) \<Rightarrow> fpu \<Rightarrow> message_stat \<Rightarrow> string" where
  "message_stat_to_string fmt2 F ms =
     ''received='' @ show_nat (unat (ms_received ms)) @ '' lost='' @ show_nat (unat (ms_lost ms)) @
     take 1022 ('' ('' @ fmt2 (fl F (fl F (100 * fl F (real (unat (ms_lost ms)))) /
        fl F (real (unat (max 1 (ms_received ms + ms_lost ms)))))) @ ''%) seqerr='') @
     show_nat (unat (ms_seqerr_in ms)) @ '' recovered='' @ show_nat (unat (ms_seqerr_in ms - ms_seqerr_out ms))"

section \<open>The window\<close>

text \<open>
  The invariant of the ring: after the values \<open>vs\<close> were added to a fresh collector of size
  \<open>N\<close>, position \<open>i\<close> holds the last value whose number is \<open>i\<close> modulo \<open>N\<close>.
\<close>

definition collector_ok :: "collector \<Rightarrow> bool" where
  "collector_ok c \<longleftrightarrow> pc_idx c < length (pc_data c) \<and> pc_filled c \<le> length (pc_data c) \<and>
     (pc_filled c < length (pc_data c) \<longrightarrow> pc_idx c = pc_filled c \<and>
        (\<forall>i<length (pc_data c). pc_filled c \<le> i \<longrightarrow> pc_data c ! i = 0))"

definition window :: "collector \<Rightarrow> real list" where
  "window c = take (pc_filled c) (pc_data c)"

text \<open>The values of the window, the oldest first.\<close>

definition history :: "collector \<Rightarrow> real list" where
  "history c = (if pc_filled c < length (pc_data c) then window c else rotate (pc_idx c) (pc_data c))"

lemma add_value_ok [simp, intro]: "collector_ok c \<Longrightarrow> collector_ok (add_value F v c)"
  by (auto simp: collector_ok_def add_value_def Let_def nth_list_update)

interpretation ping_window: event_machine "\<lambda>c v. add_value F v c" collector_ok
  by unfold_locales (rule add_value_ok)

lemma collector_ok_ctor [simp, intro]: "0 < N \<Longrightarrow> collector_ok (collector_ctor N)"
  by (simp add: collector_ok_def collector_ctor_def)

lemma add_value_sizes [simp]: "length (pc_data (add_value F v c)) = length (pc_data c)"
  "pc_sent (add_value F v c) = pc_sent c" "pc_received (add_value F v c) = pc_received c + 1"
  by (simp_all add: add_value_def Let_def)

lemma mset_rotated: "mset (rotate n xs) = mset xs"
  by (simp add: rotate_drop_take) (metis add.commute append_take_drop_id mset_append)

lemma mset_history: "collector_ok c \<Longrightarrow> mset (history c) = mset (window c)"
  by (auto simp: history_def window_def collector_ok_def mset_rotated)

text \<open>Adding a value appends it to the history, which forgets its oldest value when it is full.\<close>

lemma history_add_value:
  assumes "collector_ok c"
  shows "history (add_value F v c) =
    (if pc_filled c < length (pc_data c) then history c @ [v] else tl (history c) @ [v])"
proof (cases "pc_filled c < length (pc_data c)")
  case True
  then have i: "pc_idx c = pc_filled c" using assms by (simp add: collector_ok_def)
  have t: "take (Suc (pc_filled c)) ((pc_data c)[pc_filled c := v]) = take (pc_filled c) (pc_data c) @ [v]"
    using True by (simp add: take_Suc_conv_app_nth)
  show ?thesis
  proof (cases "Suc (pc_filled c) < length (pc_data c)")
    case True
    then show ?thesis using t i by (simp add: history_def window_def add_value_def Let_def)
  next
    case False
    then have "Suc (pc_filled c) = length (pc_data c)" using True by simp
    then show ?thesis using t i True by (simp add: history_def window_def add_value_def Let_def)
  qed
next
  case False
  define i where "i = pc_idx c"
  let ?d = "pc_data c"
  have i: "i < length ?d" "pc_filled c = length ?d" using assms False by (auto simp: collector_ok_def i_def)
  have h: "rotate i ?d = ?d ! i # drop (Suc i) ?d @ take i ?d"
    using i by (simp add: rotate_drop_take Cons_nth_drop_Suc flip: append_Cons)
  have u: "?d[i := v] = take i ?d @ v # drop (Suc i) ?d" using i by (simp add: upd_conv_take_nth_drop)
  have "rotate (if length ?d \<le> Suc i then 0 else Suc i) (?d[i := v]) = drop (Suc i) ?d @ take i ?d @ [v]"
    using i by (auto simp: u rotate_drop_take not_le)
  then show ?thesis using False i h
    by (auto simp: history_def add_value_def Let_def simp del: rotate_Suc simp flip: i_def split: if_splits)
qed

text \<open>The last \<open>n\<close> elements of a list.\<close>

definition lastn :: "nat \<Rightarrow> 'a list \<Rightarrow> 'a list" where
  "lastn n xs = drop (length xs - n) xs"

lemma lastn_append1: "0 < n \<Longrightarrow> lastn n (xs @ [x]) = (if length xs < n then xs @ [x] else tl (lastn n xs) @ [x])"
  by (auto simp: lastn_def tl_drop Suc_diff_le drop_Suc simp flip: drop_Suc)

lemma history_run:
  assumes "0 < N"
  shows "history (foldl (\<lambda>c v. add_value F v c) (collector_ctor N) vs) = lastn N vs \<and>
    pc_filled (foldl (\<lambda>c v. add_value F v c) (collector_ctor N) vs) = min N (length vs) \<and>
    length (pc_data (foldl (\<lambda>c v. add_value F v c) (collector_ctor N) vs)) = N \<and>
    pc_received (foldl (\<lambda>c v. add_value F v c) (collector_ctor N) vs) = of_nat (length vs)"
proof (induction vs rule: rev_induct)
  case Nil
  then show ?case using assms by (simp add: collector_ctor_def history_def window_def lastn_def)
next
  case (snoc v vs)
  let ?c = "foldl (\<lambda>c v. add_value F v c) (collector_ctor N) vs"
  have ok: "collector_ok ?c" using assms by (intro ping_window.run_inv) simp
  have "pc_filled (add_value F v ?c) = min N (Suc (length vs))"
    using snoc by (auto simp: add_value_def Let_def)
  moreover have "history (add_value F v ?c) = lastn N (vs @ [v])"
    using snoc assms by (auto simp: history_add_value [OF ok] lastn_append1 min_def) (auto simp: lastn_def)
  ultimately show ?case using snoc by simp
qed

section \<open>The indices\<close>

lemma idx_med_eq: "0 < n \<Longrightarrow> idx_med n = n div 2"
proof -
  assume n: "0 < n"
  have half: "1 / 2 * (real n - 1) + 1 / 2 = real n / 2" by (simp add: field_simps)
  have pos: "0 \<le> 1 / 2 * (real n - 1)" using n by simp
  have "\<lfloor>real n / 2\<rfloor> = int (n div 2)" by (metis floor_divide_of_nat_eq of_nat_numeral)
  then show ?thesis by (simp only: idx_med_def std_round_def if_P [OF pos] half nat_int)
qed

lemma idx_99_less: "0 < n \<Longrightarrow> idx_99 n < n"
proof -
  assume n: "0 < n"
  have "16609444 / 16777216 * (real n - 1) + 1 / 2 < real n" using n by (simp add: field_simps)
  then have "\<lfloor>16609444 / 16777216 * (real n - 1) + 1 / 2\<rfloor> < int n" by (simp add: floor_less_iff)
  then show ?thesis using n by (simp add: idx_99_def std_round_def)
qed

lemma idx_med_le_99: "0 < n \<Longrightarrow> idx_med n \<le> idx_99 n"
proof -
  assume n: "0 < n"
  show ?thesis
  proof (cases "n = 1")
    case True
    then show ?thesis by (simp add: idx_med_eq)
  next
    case False
    then have "1 / 2 * (real n - 1) \<le> 16609444 / 16777216 * (real n - 1)" using n by simp
    then show ?thesis using n unfolding idx_med_def idx_99_def std_round_def
      by (auto intro!: nat_mono floor_mono)
  qed
qed

text \<open>
  The rounding of single-precision operations, as far as the statistics rely on it: it is
  monotone, and it keeps the stored numbers and their doubles (no overflow).
\<close>

definition rounding_ok :: "fpu \<Rightarrow> real set \<Rightarrow> bool" where
  "rounding_ok F A \<longleftrightarrow> mono (fl32 F) \<and> (\<forall>x\<in>A. fl32 F x = x \<and> fl32 F (2 * x) = 2 * x)"

lemma rounded_mean_between:
  assumes F: "rounding_ok F A" and "x \<in> A" "y \<in> A" and "x \<le> y"
  shows "x \<le> fl32 F (fl32 F (y + x) * (1 / 2))" "fl32 F (fl32 F (y + x) * (1 / 2)) \<le> y"
proof -
  have m: "\<And>a b. a \<le> b \<Longrightarrow> fl32 F a \<le> fl32 F b" using F by (simp add: rounding_ok_def mono_def)
  have "2 * x \<le> fl32 F (y + x)" "fl32 F (y + x) \<le> 2 * y"
    using m [of "2 * x" "y + x"] m [of "y + x" "2 * y"] assms by (simp_all add: rounding_ok_def)
  then have "x \<le> fl32 F (y + x) * (1 / 2)" "fl32 F (y + x) * (1 / 2) \<le> y" by simp_all
  from m [OF this(1)] m [OF this(2)]
  show "x \<le> fl32 F (fl32 F (y + x) * (1 / 2))" "fl32 F (fl32 F (y + x) * (1 / 2)) \<le> y"
    using assms by (simp_all add: rounding_ok_def)
qed

text \<open>The median reported for a sorted list.\<close>

definition median_of :: "fpu \<Rightarrow> real list \<Rightarrow> real" where
  "median_of F sb =
     (let n = length sb
      in if even n then fl32 F (fl32 F (sb ! (n div 2) + sb ! (n div 2 - 1)) * (1 / 2)) else sb ! (n div 2))"

lemma median_between:
  assumes F: "rounding_ok F (set sb)" and "sorted sb" and "sb \<noteq> []"
  shows "sb ! 0 \<le> median_of F sb" "median_of F sb \<le> sb ! (length sb div 2)"
proof -
  let ?n = "length sb"
  have n: "0 < ?n" "?n div 2 < ?n" using assms(3) by auto
  have le: "i \<le> j \<Longrightarrow> j < ?n \<Longrightarrow> sb ! i \<le> sb ! j" for i j using assms(2) by (simp add: sorted_nth_mono)
  have in_set: "i < ?n \<Longrightarrow> sb ! i \<in> set sb" for i by simp
  have x: "?n div 2 - 1 < ?n" using n(2) by (rule le_less_trans [OF diff_le_self])
  have xy: "sb ! (?n div 2 - 1) \<le> sb ! (?n div 2)" using n by (auto intro: le)
  note between = rounded_mean_between [OF F in_set in_set, OF x n(2) xy]
  have "sb ! 0 \<le> sb ! (?n div 2 - 1)" "sb ! 0 \<le> sb ! (?n div 2)" using x n by (auto intro: le)
  then show "sb ! 0 \<le> median_of F sb" "median_of F sb \<le> sb ! (?n div 2)"
    using between by (auto simp: median_of_def Let_def)
qed

lemma length_window: "collector_ok c \<Longrightarrow> length (window c) = pc_filled c"
  by (simp add: window_def collector_ok_def)

lemma update_ping_stat_eq:
  assumes "collector_ok c" and "0 < pc_filled c"
  shows "t_min (update_ping_stat F c ps) = sort (window c) ! 0"
    "t_med (update_ping_stat F c ps) = median_of F (sort (window c))"
    "t_p99 (update_ping_stat F c ps) = sort (window c) ! idx_99 (pc_filled c)"
proof -
  note l = length_window [OF assms(1)]
  have "even (pc_filled c) \<Longrightarrow> idx_med (pc_filled c) \<noteq> 0" using assms(2) by (auto simp: idx_med_eq)
  with l assms(2) show "t_med (update_ping_stat F c ps) = median_of F (sort (window c))"
    by (auto simp: update_ping_stat_def median_of_def Let_def window_def idx_med_eq)
  show "t_min (update_ping_stat F c ps) = sort (window c) ! 0"
    "t_p99 (update_ping_stat F c ps) = sort (window c) ! idx_99 (pc_filled c)"
    using assms(2) by (simp_all add: update_ping_stat_def Let_def window_def)
qed

lemma update_ping_stat_counts [simp]:
  "ps_received (update_ping_stat F c ps) = pc_received c - state_received ps"
  "ps_lost (update_ping_stat F c ps) =
     (pc_sent c - state_sent ps) - min (pc_received c - state_received ps) (pc_sent c - state_sent ps)"
  "state_sent (update_ping_stat F c ps) = pc_sent c" "state_received (update_ping_stat F c ps) = pc_received c"
  by (simp_all add: update_ping_stat_def Let_def)

text \<open>Successive reports: the received counts add up to what was received in between.\<close>

fun reports :: "fpu \<Rightarrow> ping_stat \<Rightarrow> collector list \<Rightarrow> ping_stat list" where
  "reports F ps [] = []"
| "reports F ps (c # cs) = (let ps' = update_ping_stat F c ps in ps' # reports F ps' cs)"

lemma reports_received:
  "cs \<noteq> [] \<Longrightarrow> sum_list (map ps_received (reports F ps cs)) = pc_received (last cs) - state_received ps"
proof (induction cs arbitrary: ps)
  case (Cons c cs)
  then show ?case by (cases "cs = []") (simp_all add: Let_def)
qed simp

section \<open>Properties\<close>

text \<open>The window of a ping collector: after any sequence of ping times it holds exactly the
  last \<open>N\<close> of them, and all of them have been counted.\<close>

theorem ping_window_last:
  assumes "0 < N" and "c = foldl (\<lambda>c v. add_value F v c) (collector_ctor N) vs"
  shows "mset (window c) = mset (drop (length vs - N) vs) \<and> pc_filled c = min N (length vs) \<and>
    pc_received c = of_nat (length vs)"
  using history_run [OF assms(1), of F vs] ping_window.run_inv [OF collector_ok_ctor [OF assms(1)], of F vs]
  by (simp add: assms(2) lastn_def flip: mset_history)

definition exact_fpu :: fpu where
  "exact_fpu = \<lparr>fl = (\<lambda>x. x), fl32 = (\<lambda>x. x), dbl_bytes = (\<lambda>_. replicate 8 0), bytes_dbl = (\<lambda>_. 0)\<rparr>"

theorem ping_window_last_witness:
  "mset (window (foldl (\<lambda>c v. add_value exact_fpu v c) (collector_ctor 3) [5, 1, 2, 9])) = {#1, 2, 9#}"
  using ping_window_last [OF _ refl, of 3 exact_fpu "[5, 1, 2, 9]"] by simp

text \<open>C23. The reported statistics: for any non-empty history of ping times, with a rounding that
  is monotone and keeps the stored values, the reported minimum is the least time of the
  window, the median lies between the minimum and the 99th percentile, and this is one of the
  window's times; all indices used are inside the window.\<close>

theorem ping_stat_order:
  assumes "collector_ok c" and "0 < pc_filled c" and "rounding_ok F (set (window c))"
  shows "t_min (update_ping_stat F c ps) = Min (set (window c)) \<and>
    t_min (update_ping_stat F c ps) \<le> t_med (update_ping_stat F c ps) \<and>
    t_med (update_ping_stat F c ps) \<le> t_p99 (update_ping_stat F c ps) \<and>
    t_p99 (update_ping_stat F c ps) \<in> set (window c) \<and>
    idx_med (pc_filled c) < length (window c) \<and> idx_99 (pc_filled c) < length (window c)"
proof -
  let ?sb = "sort (window c)" and ?n = "pc_filled c"
  note eq = update_ping_stat_eq [OF assms(1,2), of F ps]
  have l: "length ?sb = ?n" "?sb \<noteq> []" using length_window [OF assms(1)] assms(2) by (auto simp flip: length_greater_0_conv)
  have idx: "idx_med ?n = ?n div 2" "idx_med ?n \<le> idx_99 ?n" "idx_99 ?n < ?n"
    using assms(2) by (simp_all add: idx_med_eq idx_99_less idx_med_le_99 flip: idx_med_eq)
  have F: "rounding_ok F (set ?sb)" using assms(3) by simp
  note m = median_between [OF F _ l(2)]
  have "?sb ! (?n div 2) \<le> ?sb ! idx_99 ?n" using idx l by (intro sorted_nth_mono) auto
  moreover have "?sb ! idx_99 ?n \<in> set (window c)" using idx(3) l(1) by (metis nth_mem set_sort)
  moreover have "Min (set ?sb) = ?sb ! 0"
  proof (rule Min_eqI)
    show "?sb ! 0 \<le> y" if "y \<in> set ?sb" for y
      using that by (metis in_set_conv_nth le0 sorted_nth_mono sorted_sort)
    show "?sb ! 0 \<in> set ?sb" using l(2) by (metis length_greater_0_conv nth_mem)
  qed simp
  ultimately show ?thesis using m eq idx l by simp
qed

lemma mono_id: "mono (\<lambda>x :: real. x)"
  by (simp add: mono_def)

theorem ping_stat_order_witness:
  "let c = foldl (\<lambda>c v. add_value exact_fpu v c) (collector_ctor 3) [5, 1, 2, 9]; ps = update_ping_stat exact_fpu c ping_stat_ctor
   in t_min ps = Min {1, 2, 9} \<and> t_min ps \<le> t_med ps \<and> t_med ps \<le> t_p99 ps"
proof -
  let ?c = "foldl (\<lambda>c v. add_value exact_fpu v c) (collector_ctor 3) [5, 1, 2, 9]"
  have "collector_ok ?c" by (rule ping_window.run_inv) simp
  moreover have "window ?c = [9, 1, 2]" "pc_filled ?c = 3"
    by (simp_all add: window_def collector_ctor_def add_value_def Let_def eval_nat_numeral)
  moreover have "rounding_ok exact_fpu A" for A by (simp add: rounding_ok_def exact_fpu_def mono_id)
  ultimately show ?thesis using ping_stat_order [of ?c exact_fpu ping_stat_ctor]
    by (simp add: Let_def insert_commute)
qed

text \<open>The accounting of successive reports: the numbers of received answers reported one after
  the other add up to the answers received since the first report's reference, and no report
  counts more lost pings than were sent since the previous one.\<close>

theorem ping_reports_accounting:
  assumes "cs \<noteq> []"
  shows "sum_list (map ps_received (reports F ps cs)) = pc_received (last cs) - state_received ps \<and>
    ps_lost (update_ping_stat F c ps) \<le> pc_sent c - state_sent ps"
  using reports_received [OF assms, of F ps] by (simp add: word_sub_le_iff)

theorem ping_reports_accounting_witness:
  "sum_list (map ps_received (reports exact_fpu ping_stat_ctor
      [add_value exact_fpu 7 (collector_ctor 3), add_value exact_fpu 8 (add_value exact_fpu 7 (collector_ctor 3))])) = 2"
  using ping_reports_accounting [of "[add_value exact_fpu 7 (collector_ctor 3), add_value exact_fpu 8 (add_value exact_fpu 7 (collector_ctor 3))]"
      exact_fpu ping_stat_ctor "collector_ctor 3"]
  by (simp add: ping_stat_ctor_def collector_ctor_def)

end
