(* ===== verification/Endpoints.thy ===== *)
theory Endpoints
  imports Ping_Stats
begin

text \<open>
  \<open>src/callerlist.h\<close> and \<open>src/callerlist.cc\<close>: the table of the peers of a session, its
  updates on received messages, and the periodic check that announces new and lost
  connections and reports ping statistics. The virtual methods that the check calls are
  modelled by the list of calls; a subclass handles them in this order.
\<close>

section \<open>The table\<close>

definition CALLERLIST_TIMEOUT :: "32 word" where "CALLERLIST_TIMEOUT = 120"

record ep_desc =
  ed_ep :: endpoint
  ed_localep :: endpoint
  ed_timeout :: "32 word"
  ed_announced :: bool
  ed_mode :: epmode_t
  pingt_min :: real
  pingt_max :: real
  pingt_sum :: real
  pingt_n :: "32 word"
  num_received :: "32 word"
  num_lost :: "32 word"
  ed_version :: "byte list"
  has_pubkey :: bool
  pubkey :: "byte list"

text \<open>The constructor does not initialise the public key; \<open>junk\<close> is what memory held before.\<close>

definition ep_desc_ctor :: "byte list \<Rightarrow> ep_desc" where
  "ep_desc_ctor junk =
     \<lparr>ed_ep = zero_endpoint, ed_localep = zero_endpoint, ed_timeout = 0, ed_announced = False,
      ed_mode = B_PEER2PEER, pingt_min = 10000, pingt_max = 0, pingt_sum = 0, pingt_n = 0,
      num_received = 0, num_lost = 0, ed_version = [], has_pubkey = False, pubkey = junk\<rparr>"

record endpoint_list =
  endpoints :: "ep_desc list"
  pingperiodms :: nat
  srv_has_pubkey :: bool
  srv_pubkey :: "byte list"

definition endpoint_list_ctor :: "byte list \<Rightarrow> endpoint_list" where
  "endpoint_list_ctor junk =
     \<lparr>endpoints = replicate MAX_STAGE_ID (ep_desc_ctor junk), pingperiodms = 2000,
      srv_has_pubkey = False, srv_pubkey = junk\<rparr>"

definition upd_ep :: "stage_device_id_t \<Rightarrow> (ep_desc \<Rightarrow> ep_desc) \<Rightarrow> 'a endpoint_list_scheme \<Rightarrow> 'a endpoint_list_scheme" where
  "upd_ep cid f L = L\<lparr>endpoints := (endpoints L)[unat cid := f (endpoints L ! unat cid)]\<rparr>"

text \<open>
  \<open>cid_register\<close> and \<open>cid_setpingtime\<close> try to take the lock that the check holds while it
  reports statistics; \<open>lock\<close> is the outcome. \<open>mem\<close> is the memory behind the pointer \<open>data\<close>.
\<close>

definition cid_register ::
  "bool \<Rightarrow> stage_device_id_t \<Rightarrow> byte list \<Rightarrow> epmode_t \<Rightarrow> byte list \<Rightarrow> 'a endpoint_list_scheme \<Rightarrow> 'a endpoint_list_scheme res" where
  "cid_register lock cid mem mode rver L =
     (if unat cid < MAX_STAGE_ID \<and> lock then
        if length mem < sizeof_endpoint then Inl Out_of_bounds
        else Inr (upd_ep cid (\<lambda>d.
               let d1 = d\<lparr>ed_ep := endpoint_of_bytes (take sizeof_endpoint mem)\<rparr>;
                   d2 = (if mode \<noteq> ed_mode d1 then d1\<lparr>ed_announced := False\<rparr> else d1)
               in d2\<lparr>ed_mode := mode, ed_timeout := CALLERLIST_TIMEOUT, ed_version := rver\<rparr>) L)
      else Inr L)"

definition cid_setlocalip ::
  "stage_device_id_t \<Rightarrow> byte list \<Rightarrow> 'a endpoint_list_scheme \<Rightarrow> 'a endpoint_list_scheme res" where
  "cid_setlocalip cid mem L =
     (if unat cid < MAX_STAGE_ID then
        if length mem < sizeof_endpoint then Inl Out_of_bounds
        else Inr (upd_ep cid (\<lambda>d.
               d\<lparr>ed_localep := (endpoint_of_bytes (take sizeof_endpoint mem))\<lparr>sin_family := AF_INET\<rparr>\<rparr>) L)
      else Inr L)"

definition cid_setpingtime ::
  "fpu \<Rightarrow> bool \<Rightarrow> stage_device_id_t \<Rightarrow> real \<Rightarrow> 'a endpoint_list_scheme \<Rightarrow> 'a endpoint_list_scheme" where
  "cid_setpingtime F lock cid pingtime L =
     (if unat cid < MAX_STAGE_ID then
        let L1 = upd_ep cid (\<lambda>d. d\<lparr>ed_timeout := CALLERLIST_TIMEOUT\<rparr>) L
        in if pingtime > 0 \<and> lock then
             upd_ep cid (\<lambda>d.
               d\<lparr>pingt_n := pingt_n d + 1, pingt_sum := fl F (pingt_sum d + pingtime),
                 pingt_max := max pingtime (pingt_max d), pingt_min := min pingtime (pingt_min d)\<rparr>) L1
           else L1
      else L)"

definition cid_set_pubkey ::
  "stage_device_id_t \<Rightarrow> byte list \<Rightarrow> nat \<Rightarrow> 'a endpoint_list_scheme \<Rightarrow> 'a endpoint_list_scheme res" where
  "cid_set_pubkey cid mem len L =
     (if len = crypto_box_PUBLICKEYBYTES then
        if unat cid < MAX_STAGE_ID then
          if length mem < len then Inl Out_of_bounds
          else Inr (upd_ep cid (\<lambda>d.
                 let d1 = (if take len mem \<noteq> pubkey d then d\<lparr>pubkey := take len mem\<rparr> else d)
                 in d1\<lparr>has_pubkey := True\<rparr>) L)
        else if cid = STAGE_ID_SERVER then
          if length mem < len then Inl Out_of_bounds
          else
            let L1 = (if take len mem \<noteq> srv_pubkey L then L\<lparr>srv_pubkey := take len mem\<rparr> else L)
            in Inr (L1\<lparr>srv_has_pubkey := True\<rparr>)
        else Inr L
      else Inr L)"

definition set_hiresping :: "bool \<Rightarrow> 'a endpoint_list_scheme \<Rightarrow> 'a endpoint_list_scheme" where
  "set_hiresping hr L = L\<lparr>pingperiodms := if hr then 50 else 500\<rparr>"

definition get_num_clients :: "'a endpoint_list_scheme \<Rightarrow> 32 word" where
  "get_num_clients L = foldl (\<lambda>c d. c + (if ed_timeout d > 0 then 1 else 0)) 0 (endpoints L)"

section \<open>The periodic check\<close>

datatype announcement =
    New_connection stage_device_id_t ep_desc
  | Connection_lost stage_device_id_t
  | Latency stage_device_id_t real real real "32 word" "32 word"

fun ann_cid :: "announcement \<Rightarrow> stage_device_id_t" where
  "ann_cid (New_connection c _) = c"
| "ann_cid (Connection_lost c) = c"
| "ann_cid (Latency c _ _ _ _ _) = c"

definition check_ep :: "byte list \<Rightarrow> stage_device_id_t \<Rightarrow> ep_desc \<Rightarrow> announcement list \<times> ep_desc" where
  "check_ep junk cid d =
     (if ed_timeout d \<noteq> 0 then
        let (evs, d1) = (if \<not> ed_announced d then ([New_connection cid d], d\<lparr>ed_announced := True\<rparr>) else ([], d))
        in (evs, d1\<lparr>ed_timeout := ed_timeout d1 - 1\<rparr>)
      else if ed_announced d then ([Connection_lost cid], ep_desc_ctor junk)
      else ([], d))"

definition report_ep :: "fpu \<Rightarrow> stage_device_id_t \<Rightarrow> ep_desc \<Rightarrow> announcement list \<times> ep_desc" where
  "report_ep F cid d =
     (if ed_timeout d \<noteq> 0 then
        ([Latency cid (pingt_min d) (fl F (pingt_sum d / real (unat (max 1 (pingt_n d))))) (pingt_max d)
            (num_received d) (num_lost d)],
         d\<lparr>pingt_n := 0, pingt_min := 1000, pingt_max := 0, pingt_sum := 0, num_received := 0, num_lost := 0\<rparr>)
      else ([], d))"

text \<open>The loops over the table: entry by entry, from device 0 on.\<close>

fun scan :: "(stage_device_id_t \<Rightarrow> ep_desc \<Rightarrow> announcement list \<times> ep_desc) \<Rightarrow> stage_device_id_t \<Rightarrow> ep_desc list
    \<Rightarrow> announcement list \<times> ep_desc list" where
  "scan f cid [] = ([], [])"
| "scan f cid (d # ds) =
     (let (ev, d') = f cid d; (evs, ds') = scan f (cid + 1) ds in (ev @ evs, d' # ds'))"

text \<open>One round of \<open>checkstatus\<close>; \<open>cnt\<close> is its local counter \<open>statlogcnt\<close>.\<close>

definition stat_rounds :: "nat \<Rightarrow> 32 word" where
  "stat_rounds period = of_nat (60000 div period)"

definition checkstatus_round ::
  "fpu \<Rightarrow> byte list \<Rightarrow> 32 word \<Rightarrow> 'a endpoint_list_scheme \<Rightarrow> announcement list \<times> 32 word \<times> 'a endpoint_list_scheme" where
  "checkstatus_round F junk cnt L =
     (let (ev1, ds1) = scan (check_ep junk) 0 (endpoints L);
          (ev2, cnt1, ds2) =
            (if cnt = 0 then
               let (ev, ds) = scan (report_ep F) 0 ds1 in (ev, stat_rounds (pingperiodms L), ds)
             else ([], cnt, ds1))
      in (ev1 @ ev2, cnt1 - 1, L\<lparr>endpoints := ds2\<rparr>))"

section \<open>Well-formed tables\<close>

definition table_ok :: "'a endpoint_list_scheme \<Rightarrow> bool" where
  "table_ok L \<longleftrightarrow> length (endpoints L) = MAX_STAGE_ID \<and>
     (\<forall>d\<in>set (endpoints L). length (pubkey d) = crypto_box_PUBLICKEYBYTES) \<and>
     length (srv_pubkey L) = crypto_box_PUBLICKEYBYTES"

definition keeps_key_size :: "(ep_desc \<Rightarrow> ep_desc) \<Rightarrow> bool" where
  "keeps_key_size f \<longleftrightarrow> (\<forall>d. length (pubkey d) = crypto_box_PUBLICKEYBYTES \<longrightarrow> length (pubkey (f d)) = crypto_box_PUBLICKEYBYTES)"

lemma table_ok_ctor [simp]: "length junk = crypto_box_PUBLICKEYBYTES \<Longrightarrow> table_ok (endpoint_list_ctor junk)"
  by (simp add: table_ok_def endpoint_list_ctor_def ep_desc_ctor_def)

lemma table_ok_upd: "table_ok L \<Longrightarrow> unat cid < MAX_STAGE_ID \<Longrightarrow> keeps_key_size f \<Longrightarrow> table_ok (upd_ep cid f L)"
  by (auto simp: table_ok_def upd_ep_def keeps_key_size_def dest!: set_update_subset_insert [THEN subsetD])

lemma table_ok_register: "table_ok L \<Longrightarrow> cid_register lock cid mem mode rver L = Inr L' \<Longrightarrow> table_ok L'"
  by (auto simp: cid_register_def keeps_key_size_def Let_def intro!: table_ok_upd split: if_splits)

lemma table_ok_setlocalip: "table_ok L \<Longrightarrow> cid_setlocalip cid mem L = Inr L' \<Longrightarrow> table_ok L'"
  by (auto simp: cid_setlocalip_def keeps_key_size_def intro!: table_ok_upd split: if_splits)

lemma table_ok_setpingtime: "table_ok L \<Longrightarrow> table_ok (cid_setpingtime F lock cid t L)"
  by (auto simp: cid_setpingtime_def keeps_key_size_def Let_def intro!: table_ok_upd)

lemma table_ok_set_pubkey: "table_ok L \<Longrightarrow> cid_set_pubkey cid mem len L = Inr L' \<Longrightarrow> table_ok L'"
  by (auto simp: cid_set_pubkey_def keeps_key_size_def Let_def intro!: table_ok_upd split: if_splits)
    (auto simp: table_ok_def)

lemma scan_length [simp]: "length (snd (scan f cid ds)) = length ds"
  by (induction ds arbitrary: cid) (simp_all add: case_prod_beta)

lemma scan_nth: "i < length ds \<Longrightarrow> snd (scan f cid ds) ! i = snd (f (cid + of_nat i) (ds ! i))"
  by (induction ds arbitrary: cid i) (auto simp: case_prod_beta nth_Cons algebra_simps split: nat.split)

lemma scan_set: "d \<in> set (snd (scan f cid ds)) \<Longrightarrow> \<exists>c. \<exists>e\<in>set ds. d = snd (f c e)"
  by (induction ds arbitrary: cid) (fastforce simp: case_prod_beta)+

lemma table_ok_round:
  assumes "table_ok L" and "length junk = crypto_box_PUBLICKEYBYTES"
  shows "table_ok (snd (snd (checkstatus_round F junk cnt L)))"
proof -
  have 1: "length (pubkey d) = crypto_box_PUBLICKEYBYTES \<Longrightarrow> length (pubkey (snd (check_ep junk c d))) = crypto_box_PUBLICKEYBYTES"
    for c d using assms(2) by (simp add: check_ep_def ep_desc_ctor_def)
  have 2: "pubkey (snd (report_ep F c d)) = pubkey d" for c d by (simp add: report_ep_def)
  have "\<forall>d\<in>set (snd (scan (check_ep junk) 0 (endpoints L))). length (pubkey d) = crypto_box_PUBLICKEYBYTES"
    using assms(1) 1 by (fastforce simp: table_ok_def dest!: scan_set)
  moreover from this have "\<forall>d\<in>set (snd (scan (report_ep F) 0 (snd (scan (check_ep junk) 0 (endpoints L))))).
      length (pubkey d) = crypto_box_PUBLICKEYBYTES"
    using 2 scan_set by metis
  ultimately show ?thesis using assms(1)
    by (auto simp: table_ok_def checkstatus_round_def case_prod_beta)
qed

section \<open>The announcements of one device\<close>

definition of_device :: "stage_device_id_t \<Rightarrow> announcement list \<Rightarrow> announcement list" where
  "of_device c evs = filter (\<lambda>e. ann_cid e = c) evs"

lemma of_device_append [simp]: "of_device c (xs @ ys) = of_device c xs @ of_device c ys"
  by (simp add: of_device_def)

lemma of_device_Nil [simp]: "of_device c [] = []"
  by (simp add: of_device_def)

text \<open>A table function emits announcements for its own device only.\<close>

definition local_events :: "(stage_device_id_t \<Rightarrow> ep_desc \<Rightarrow> announcement list \<times> ep_desc) \<Rightarrow> bool" where
  "local_events f \<longleftrightarrow> (\<forall>c d. \<forall>e\<in>set (fst (f c d)). ann_cid e = c)"

lemma local_events_check [simp]: "local_events (check_ep junk)" "local_events (report_ep F)"
  by (auto simp: local_events_def check_ep_def report_ep_def)

lemma of_device_local: "local_events f \<Longrightarrow> of_device c (fst (f c' d)) = (if c' = c then fst (f c' d) else [])"
  by (auto simp: of_device_def local_events_def filter_id_conv filter_empty_conv)

lemma scan_events:
  assumes "local_events f" and "length ds \<le> 256"
  shows "of_device c (fst (scan f cid ds)) =
    (if unat (c - cid) < length ds then fst (f c (ds ! unat (c - cid))) else [])"
  using assms(2)
proof (induction ds arbitrary: cid)
  case (Cons d ds)
  show ?case
  proof (cases "c = cid")
    case True
    have "c - (cid + 1) = - 1" using True by simp
    moreover have "unat (- 1 :: 8 word) = 255"
      by (simp add: unsigned_minus_1_eq_mask mask_eq_exp_minus_1)
    ultimately have "unat (c - (cid + 1)) = 255" by simp
    then show ?thesis using Cons.IH [of "cid + 1"] Cons.prems True
      by (simp add: case_prod_beta of_device_local [OF assms(1)])
  next
    case False
    then have "c - cid \<noteq> 0" by simp
    then have "unat (c - cid) = Suc (unat (c - (cid + 1)))"
      using unat_minus_one [of "c - cid"] by (simp add: diff_diff_eq unat_gt_0)
    then show ?thesis using Cons.IH [of "cid + 1"] Cons.prems False
      by (simp add: case_prod_beta of_device_local [OF assms(1)])
  qed
qed simp

lemma scan_table:
  assumes "local_events f" and "length ds = MAX_STAGE_ID" and "unat c < MAX_STAGE_ID"
  shows "of_device c (fst (scan f 0 ds)) = fst (f c (ds ! unat c))"
    and "snd (scan f 0 ds) ! unat c = snd (f c (ds ! unat c))"
  using scan_events [OF assms(1), of ds c 0] scan_nth [of "unat c" ds f 0] assms
  by (simp_all add: MAX_STAGE_ID_def)

text \<open>One round of the check, seen from one device.\<close>

definition round_ep ::
  "fpu \<Rightarrow> byte list \<Rightarrow> 32 word \<Rightarrow> stage_device_id_t \<Rightarrow> ep_desc \<Rightarrow> announcement list \<times> ep_desc" where
  "round_ep F junk cnt c d =
     (let (ev1, d1) = check_ep junk c d; (ev2, d2) = (if cnt = 0 then report_ep F c d1 else ([], d1))
      in (ev1 @ ev2, d2))"

lemma checkstatus_round_ep:
  assumes "table_ok L" and "unat c < MAX_STAGE_ID"
  shows "of_device c (fst (checkstatus_round F junk cnt L)) = fst (round_ep F junk cnt c (endpoints L ! unat c))"
    and "endpoints (snd (snd (checkstatus_round F junk cnt L))) ! unat c =
      snd (round_ep F junk cnt c (endpoints L ! unat c))"
  using assms scan_table [OF local_events_check(1) _ assms(2), of "endpoints L" junk]
    scan_table [OF local_events_check(2) _ assms(2), of "snd (scan (check_ep junk) 0 (endpoints L))" F]
  by (simp_all add: table_ok_def checkstatus_round_def round_ep_def case_prod_beta)

section \<open>Connections\<close>

text \<open>
  The life of a connection: the number of rounds until the timeout, and whether it has been
  announced. \<open>Up\<close> and \<open>Down\<close> are the announcements of a new and a lost connection.
\<close>

datatype link = Up | Down

fun link_of :: "announcement \<Rightarrow> link list" where
  "link_of (New_connection _ _) = [Up]"
| "link_of (Connection_lost _) = [Down]"
| "link_of (Latency _ _ _ _ _ _) = []"

definition links :: "stage_device_id_t \<Rightarrow> announcement list \<Rightarrow> link list" where
  "links c evs = concat (map link_of (of_device c evs))"

lemma links_append [simp]: "links c (xs @ ys) = links c xs @ links c ys"
  by (simp add: links_def)

lemma links_Nil [simp]: "links c [] = []"
  by (simp add: links_def)

fun life_tick :: "nat \<times> bool \<Rightarrow> link list \<times> nat \<times> bool" where
  "life_tick (0, up) = (if up then [Down] else [], 0, False)"
| "life_tick (Suc t, up) = (if up then [] else [Up], t, True)"

definition life :: "ep_desc \<Rightarrow> nat \<times> bool" where
  "life d = (unat (ed_timeout d), ed_announced d)"

lemma round_ep_life:
  "life_tick (life d) = (concat (map link_of (fst (round_ep F junk cnt c d))), life (snd (round_ep F junk cnt c d)))"
proof (cases "ed_timeout d = 0")
  case True
  then show ?thesis by (simp add: life_def round_ep_def check_ep_def report_ep_def ep_desc_ctor_def Let_def)
next
  case False
  then have "unat (ed_timeout d) = Suc (unat (ed_timeout d - 1))"
    by (simp add: unat_minus_one unat_gt_0)
  then show ?thesis using False
    by (simp add: life_def round_ep_def check_ep_def report_ep_def Let_def)
qed

fun check_rounds ::
  "fpu \<Rightarrow> byte list \<Rightarrow> nat \<Rightarrow> 32 word \<times> 'a endpoint_list_scheme \<Rightarrow> announcement list \<times> 32 word \<times> 'a endpoint_list_scheme" where
  "check_rounds F junk 0 s = ([], s)"
| "check_rounds F junk (Suc n) (cnt, L) =
     (let (ev, s1) = checkstatus_round F junk cnt L; (evs, s2) = check_rounds F junk n s1 in (ev @ evs, s2))"

fun life_ticks :: "nat \<Rightarrow> nat \<times> bool \<Rightarrow> link list \<times> nat \<times> bool" where
  "life_ticks 0 s = ([], s)"
| "life_ticks (Suc n) s = (let (ev, s1) = life_tick s; (evs, s2) = life_ticks n s1 in (ev @ evs, s2))"

lemma check_rounds_life:
  assumes "table_ok L" and "length junk = crypto_box_PUBLICKEYBYTES" and c: "unat c < MAX_STAGE_ID"
  shows "life_ticks n (life (endpoints L ! unat c)) =
    (links c (fst (check_rounds F junk n (cnt, L))),
     life (endpoints (snd (snd (check_rounds F junk n (cnt, L)))) ! unat c))"
  using assms(1)
proof (induction n arbitrary: cnt L)
  case (Suc n)
  obtain ev cnt1 L1 where r: "checkstatus_round F junk cnt L = (ev, cnt1, L1)" by (metis surj_pair)
  have ok: "table_ok L1" using table_ok_round [OF Suc.prems assms(2), of F cnt] r by simp
  have "life_tick (life (endpoints L ! unat c)) = (links c ev, life (endpoints L1 ! unat c))"
    using round_ep_life [of "endpoints L ! unat c" F junk cnt c] checkstatus_round_ep [OF Suc.prems c, of F junk cnt] r
    by (simp add: links_def)
  then show ?case using Suc.IH [OF ok, of cnt1] r by (simp add: case_prod_beta)
qed simp

text \<open>An entry that is neither alive nor announced is a freshly constructed one, and stays it.\<close>

definition unused_fresh :: "byte list \<Rightarrow> ep_desc \<Rightarrow> bool" where
  "unused_fresh junk d \<longleftrightarrow> (life d = (0, False) \<longrightarrow> d = ep_desc_ctor junk)"

lemma unused_fresh_round: "unused_fresh junk d \<Longrightarrow> unused_fresh junk (snd (round_ep F junk cnt c d))"
  by (auto simp: unused_fresh_def life_def round_ep_def check_ep_def report_ep_def ep_desc_ctor_def Let_def unat_eq_0)

lemma unused_fresh_rounds:
  fixes c :: stage_device_id_t
  assumes "table_ok L" and "length junk = crypto_box_PUBLICKEYBYTES" and c: "unat c < MAX_STAGE_ID"
    and "unused_fresh junk (endpoints L ! unat c)"
  shows "unused_fresh junk (endpoints (snd (snd (check_rounds F junk n (cnt, L)))) ! unat c)"
  using assms(1,4)
proof (induction n arbitrary: cnt L)
  case (Suc n)
  obtain ev cnt1 L1 where r: "checkstatus_round F junk cnt L = (ev, cnt1, L1)" by (metis surj_pair)
  have ok: "table_ok L1" using table_ok_round [OF Suc.prems(1) assms(2), of F cnt] r by simp
  have "unused_fresh junk (endpoints L1 ! unat c)"
    using unused_fresh_round [OF Suc.prems(2), of F cnt c] checkstatus_round_ep(2) [OF Suc.prems(1) c, of F junk cnt] r by simp
  from Suc.IH [OF ok this, of cnt1] r show ?case by (simp add: case_prod_beta)
qed simp

lemma life_ticks_expired: "life_ticks n (0, False) = ([], 0, False)"
  by (induction n) simp_all

lemma life_ticks_run:
  "life_ticks n (t, up) =
     (if n \<le> t then (if up \<or> n = 0 then [] else [Up], t - n, up \<or> 0 < n)
      else ((if up \<or> t = 0 then [] else [Up]) @ (if up \<or> 0 < t then [Down] else []), 0, False))"
proof (induction n arbitrary: t up)
  case (Suc n)
  then show ?case by (cases t) (auto simp: life_ticks_expired)
qed simp

section \<open>Runs of the table\<close>

text \<open>
  The steps of the table: the updates by the receiving thread, in any order, and rounds of
  the check. \<open>cnt\<close> is the local counter of the check.
\<close>

inductive table_step :: "fpu \<Rightarrow> 32 word \<times> endpoint_list \<Rightarrow> announcement list \<Rightarrow> 32 word \<times> endpoint_list \<Rightarrow> bool"
  for F where
  register: "cid_register lock cid mem mode rver L = Inr L' \<Longrightarrow> table_step F (cnt, L) [] (cnt, L')"
| localip: "cid_setlocalip cid mem L = Inr L' \<Longrightarrow> table_step F (cnt, L) [] (cnt, L')"
| pingtime: "table_step F (cnt, L) [] (cnt, cid_setpingtime F lock cid t L)"
| pubkey: "cid_set_pubkey cid mem len L = Inr L' \<Longrightarrow> table_step F (cnt, L) [] (cnt, L')"
| hiresping: "table_step F (cnt, L) [] (cnt, set_hiresping hr L)"
| check: "length junk = crypto_box_PUBLICKEYBYTES \<Longrightarrow> checkstatus_round F junk cnt L = (evs, cnt', L') \<Longrightarrow>
    table_step F (cnt, L) evs (cnt', L')"

inductive_cases table_stepE: "table_step F (cnt, L) evs (cnt', L')"

inductive table_run :: "fpu \<Rightarrow> 32 word \<times> endpoint_list \<Rightarrow> announcement list \<Rightarrow> 32 word \<times> endpoint_list \<Rightarrow> bool"
  for F where
  start: "table_run F s [] s"
| snoc: "table_run F s tr s1 \<Longrightarrow> table_step F s1 evs s2 \<Longrightarrow> table_run F s (tr @ evs) s2"

lemma table_ok_step: "table_step F s evs s' \<Longrightarrow> table_ok (snd s) \<Longrightarrow> table_ok (snd s')"
proof (induction rule: table_step.induct)
  case (hiresping cnt L hr)
  then show ?case by (simp add: table_ok_def set_hiresping_def)
next
  case (check junk cnt L evs cnt' L')
  then show ?case using table_ok_round [of L junk F cnt] by simp
qed (auto intro: table_ok_register table_ok_setlocalip table_ok_setpingtime table_ok_set_pubkey)

text \<open>What the updates do to the announcement flag of a device: they never set it.\<close>

lemma announced_upd:
  fixes c :: stage_device_id_t
  assumes "table_ok L" and "unat c < MAX_STAGE_ID" and "\<And>d. ed_announced (f d) \<Longrightarrow> ed_announced d"
    and "ed_announced (endpoints (upd_ep cid f L) ! unat c)"
  shows "ed_announced (endpoints L ! unat c)"
proof (cases "unat cid = unat c")
  case True
  then show ?thesis using assms by (auto simp: upd_ep_def table_ok_def)
next
  case False
  then show ?thesis using assms(4) by (simp add: upd_ep_def nth_list_update_neq)
qed

lemma announced_updates:
  fixes c :: stage_device_id_t
  assumes "table_ok L" and "unat c < MAX_STAGE_ID"
  shows "cid_register lock cid mem mode rver L = Inr L' \<Longrightarrow> ed_announced (endpoints L' ! unat c) \<Longrightarrow> ed_announced (endpoints L ! unat c)"
    and "cid_setlocalip cid mem L = Inr L' \<Longrightarrow> ed_announced (endpoints L' ! unat c) \<Longrightarrow> ed_announced (endpoints L ! unat c)"
    and "cid_set_pubkey cid mem len L = Inr L' \<Longrightarrow> ed_announced (endpoints L' ! unat c) \<Longrightarrow> ed_announced (endpoints L ! unat c)"
    and "ed_announced (endpoints (cid_setpingtime F lock cid t L) ! unat c) \<Longrightarrow> ed_announced (endpoints L ! unat c)"
proof -
  note upd = announced_upd [OF assms, rotated]
  show "cid_register lock cid mem mode rver L = Inr L' \<Longrightarrow> ed_announced (endpoints L' ! unat c) \<Longrightarrow> ed_announced (endpoints L ! unat c)"
    by (auto simp: cid_register_def Let_def dest!: upd split: if_splits)
  show "cid_setlocalip cid mem L = Inr L' \<Longrightarrow> ed_announced (endpoints L' ! unat c) \<Longrightarrow> ed_announced (endpoints L ! unat c)"
    by (auto simp: cid_setlocalip_def dest!: upd split: if_splits)
  show "cid_set_pubkey cid mem len L = Inr L' \<Longrightarrow> ed_announced (endpoints L' ! unat c) \<Longrightarrow> ed_announced (endpoints L ! unat c)"
    by (auto simp: cid_set_pubkey_def Let_def dest!: upd split: if_splits)
  have ok: "table_ok (upd_ep cid (\<lambda>d. d\<lparr>ed_timeout := CALLERLIST_TIMEOUT\<rparr>) L)" if "unat cid < MAX_STAGE_ID"
    using that assms(1) by (intro table_ok_upd) (simp_all add: keeps_key_size_def)
  show "ed_announced (endpoints (cid_setpingtime F lock cid t L) ! unat c) \<Longrightarrow> ed_announced (endpoints L ! unat c)"
    by (auto simp: cid_setpingtime_def Let_def dest!: upd announced_upd [OF ok assms(2), rotated 2] split: if_splits)
qed

text \<open>
  The order in which a device's announcements may come: a loss or a report needs a
  connection that has been announced and not been lost.
\<close>

fun conn :: "bool \<Rightarrow> announcement list \<Rightarrow> bool option" where
  "conn up [] = Some up"
| "conn up (New_connection _ _ # es) = conn True es"
| "conn up (Connection_lost _ # es) = (if up then conn False es else None)"
| "conn up (Latency _ _ _ _ _ _ # es) = (if up then conn up es else None)"

lemma conn_append: "conn up (xs @ ys) = Option.bind (conn up xs) (\<lambda>u. conn u ys)"
  by (induction up xs rule: conn.induct) auto

lemma conn_round:
  assumes "ed_announced d \<Longrightarrow> up"
  shows "\<exists>u. conn up (fst (round_ep F junk cnt c d)) = Some u \<and> (ed_announced (snd (round_ep F junk cnt c d)) \<longrightarrow> u)"
  using assms by (auto simp: round_ep_def check_ep_def report_ep_def ep_desc_ctor_def Let_def)

lemma conn_run:
  assumes "table_run F s tr s'" and "table_ok (snd s)" and c: "unat c < MAX_STAGE_ID"
    and "\<not> ed_announced (endpoints (snd s) ! unat c)"
  shows "table_ok (snd s') \<and> (\<exists>u. conn False (of_device c tr) = Some u \<and> (ed_announced (endpoints (snd s') ! unat c) \<longrightarrow> u))"
  using assms
proof (induction rule: table_run.induct)
  case (snoc s tr s1 evs s2)
  then obtain u where ok: "table_ok (snd s1)" and u: "conn False (of_device c tr) = Some u"
    "ed_announced (endpoints (snd s1) ! unat c) \<longrightarrow> u" by auto
  have "table_ok (snd s2)" using table_ok_step [OF snoc.hyps(2) ok] .
  moreover have "\<exists>u'. conn u (of_device c evs) = Some u' \<and> (ed_announced (endpoints (snd s2) ! unat c) \<longrightarrow> u')"
    using snoc.hyps(2)
  proof cases
    case (check junk cnt L cnt' L')
    then show ?thesis using conn_round [of "endpoints L ! unat c" u F junk cnt c]
        checkstatus_round_ep [of L c F junk cnt] ok c u by auto
  next
    case (register lock cid mem mode rver L L' cnt)
    then show ?thesis using ok u announced_updates(1) [of L c] c by auto
  next
    case (localip cid mem L L' cnt)
    then show ?thesis using ok u announced_updates(2) [of L c] c by auto
  next
    case (pingtime cnt L lock cid t)
    then show ?thesis using ok u announced_updates(4) [of L c] c by auto
  next
    case (pubkey cid mem len L L' cnt)
    then show ?thesis using ok u announced_updates(3) [of L c] c by auto
  next
    case (hiresping cnt L hr)
    then show ?thesis using u by (auto simp: set_hiresping_def)
  qed
  ultimately show ?case using u by (simp add: conn_append)
qed auto

section \<open>The period of the reports\<close>

definition rounds_left :: "nat \<Rightarrow> nat \<Rightarrow> nat" where
  "rounds_left k r = (if r = 0 then k else if r mod k = 0 then 0 else k - r mod k)"

lemma rounds_left_Suc: "0 < k \<Longrightarrow> rounds_left k (Suc r) = (if rounds_left k r = 0 then k else rounds_left k r) - 1"
proof -
  assume k: "0 < k"
  show ?thesis
  proof (cases "r = 0")
    case True
    then show ?thesis using k by (auto simp: rounds_left_def mod_Suc)
  next
    case False
    obtain m where m: "r mod k = m" "m < k" using k by simp
    show ?thesis using False m(2) by (simp only: rounds_left_def mod_Suc m(1)) auto
  qed
qed

lemma rounds_left_0: "0 < k \<Longrightarrow> rounds_left k r = 0 \<longleftrightarrow> 0 < r \<and> k dvd r"
  by (auto simp: rounds_left_def mod_eq_0_iff_dvd not_le dest: mod_less_divisor [of k r])

lemma rounds_left_le: "rounds_left k r \<le> k"
  by (simp add: rounds_left_def)

lemma round_cnt:
  "fst (snd (checkstatus_round F junk cnt L)) = (if cnt = 0 then stat_rounds (pingperiodms L) else cnt) - 1"
  "pingperiodms (snd (snd (checkstatus_round F junk cnt L))) = pingperiodms L"
  by (simp_all add: checkstatus_round_def case_prod_beta)

lemma check_rounds_cnt:
  assumes "0 < k" and "k < 2 ^ 32" and "stat_rounds (pingperiodms L) = of_nat k" and "cnt = of_nat (rounds_left k r)"
  shows "fst (snd (check_rounds F junk n (cnt, L))) = of_nat (rounds_left k (r + n))"
  using assms(3,4)
proof (induction n arbitrary: cnt L r)
  case (Suc n)
  obtain ev cnt1 L1 where c: "checkstatus_round F junk cnt L = (ev, cnt1, L1)" by (metis surj_pair)
  have "unat cnt = rounds_left k r"
    unfolding Suc.prems(2) using rounds_left_le [of k r] assms(2) by (subst unat_of_nat) (rule mod_less, simp)
  then have "cnt = 0 \<longleftrightarrow> rounds_left k r = 0" using unat_eq_0 [of cnt] by simp
  then have "cnt1 = of_nat (rounds_left k (Suc r))"
    using round_cnt(1) [of F junk cnt L] c Suc.prems assms(1) by (simp add: rounds_left_Suc of_nat_diff)
  from Suc.IH [OF _ this, of L1] show ?case
    using round_cnt(2) [of F junk cnt L] c Suc.prems(1) by (simp add: case_prod_beta)
qed simp

lemma round_reports:
  "(\<exists>mi me ma r l. Latency c mi me ma r l \<in> set (fst (round_ep F junk cnt c d))) \<longleftrightarrow> cnt = 0 \<and> 1 < unat (ed_timeout d)"
proof -
  have "1 < unat (ed_timeout d) \<longleftrightarrow> ed_timeout d \<noteq> 0 \<and> ed_timeout d - 1 \<noteq> 0"
  proof -
    have "1 < unat (ed_timeout d) \<longleftrightarrow> unat (ed_timeout d) \<noteq> 0 \<and> unat (ed_timeout d) \<noteq> 1" by linarith
    then show ?thesis using word_unat_eq_iff [of "ed_timeout d" 1] by (simp add: unat_eq_0)
  qed
  then show ?thesis by (auto simp: round_ep_def check_ep_def report_ep_def Let_def ep_desc_ctor_def split: if_splits)
qed

lemma check_rounds_ok:
  "table_ok L \<Longrightarrow> length junk = crypto_box_PUBLICKEYBYTES \<Longrightarrow> table_ok (snd (snd (check_rounds F junk n (cnt, L))))"
proof (induction n arbitrary: cnt L)
  case (Suc n)
  obtain ev cnt1 L1 where c: "checkstatus_round F junk cnt L = (ev, cnt1, L1)" by (metis surj_pair)
  have "table_ok L1" using table_ok_round [OF Suc.prems, of F cnt] c by simp
  from Suc.IH [OF this Suc.prems(2), of cnt1] show ?case using c by (simp add: case_prod_beta)
qed simp

section \<open>Properties\<close>

text \<open>C16. A peer that is registered and then stays silent is announced once, kept for 120 rounds of
  the check, and reported as lost exactly in round 121; from then on its entry is that of the constructor again:
  address, mode, key, version and statistics are cleared.\<close>

theorem silent_peer_lost:
  assumes "table_ok L" and "length junk = crypto_box_PUBLICKEYBYTES" and "unat c < MAX_STAGE_ID"
    and "length mem = sizeof_endpoint" and "\<not> ed_announced (endpoints L ! unat c)"
    and "cid_register True c mem mode rver L = Inr L'"
  shows "links c (fst (check_rounds F junk n (cnt, L'))) = (if n = 0 then [] else if n \<le> 120 then [Up] else [Up, Down]) \<and>
    ed_announced (endpoints (snd (snd (check_rounds F junk n (cnt, L')))) ! unat c) = (0 < n \<and> n \<le> 120) \<and>
    (120 < n \<longrightarrow> endpoints (snd (snd (check_rounds F junk n (cnt, L')))) ! unat c = ep_desc_ctor junk)"
proof -
  have ok: "table_ok L'" using assms(1,6) by (rule table_ok_register)
  have l: "life (endpoints L' ! unat c) = (120, False)"
    using assms by (auto simp: cid_register_def upd_ep_def table_ok_def life_def Let_def CALLERLIST_TIMEOUT_def split: if_splits)
  then have t: "(links c (fst (check_rounds F junk n (cnt, L'))),
       life (endpoints (snd (snd (check_rounds F junk n (cnt, L')))) ! unat c)) = life_ticks n (120, False)"
    using check_rounds_life [OF ok assms(2,3), of n F cnt] by simp
  have "unused_fresh junk (endpoints L' ! unat c)" using l by (simp add: unused_fresh_def)
  from unused_fresh_rounds [OF ok assms(2,3) this, of F n cnt] t show ?thesis
    by (auto simp: life_ticks_run unused_fresh_def split: if_splits) (auto simp: life_def)
qed

definition zero_key :: "byte list" where "zero_key = replicate 32 0"

lemma zero_key_length [simp]: "length zero_key = crypto_box_PUBLICKEYBYTES"
  by (simp add: zero_key_def crypto_box_PUBLICKEYBYTES_def)

theorem silent_peer_lost_witness:
  "\<exists>L'. cid_register True 3 (replicate 16 0) B_PEER2PEER [] (endpoint_list_ctor zero_key) = Inr L' \<and>
    links 3 (fst (check_rounds exact_fpu zero_key 121 (24, L'))) = [Up, Down] \<and>
    endpoints (snd (snd (check_rounds exact_fpu zero_key 121 (24, L')))) ! 3 = ep_desc_ctor zero_key"
proof -
  have a: "\<not> ed_announced (endpoints (endpoint_list_ctor zero_key) ! unat (3 :: stage_device_id_t))"
    by (simp add: endpoint_list_ctor_def MAX_STAGE_ID_def ep_desc_ctor_def)
  obtain L' where r: "cid_register True 3 (replicate 16 0) B_PEER2PEER [] (endpoint_list_ctor zero_key) = Inr L'"
    by (simp add: cid_register_def MAX_STAGE_ID_def sizeof_endpoint_def)
  from silent_peer_lost [OF table_ok_ctor [OF zero_key_length] zero_key_length _ _ a r, of exact_fpu 121 24] r
  show ?thesis by (simp add: MAX_STAGE_ID_def sizeof_endpoint_def)
qed

text \<open>C17. Announcements are consistent: whatever updates and checks happen in whatever order, for
  every device a loss is announced only for a connection that was announced before and not
  lost since, and statistics are reported only for such a connection.\<close>

theorem announcements_consistent:
  assumes "table_run F (cnt, endpoint_list_ctor junk) tr s'" and "length junk = crypto_box_PUBLICKEYBYTES"
    and "unat c < MAX_STAGE_ID"
  shows "table_ok (snd s') \<and> conn False (of_device c tr) \<noteq> None \<and>
    (ed_announced (endpoints (snd s') ! unat c) \<longrightarrow> conn False (of_device c tr) = Some True)"
proof -
  have "\<not> ed_announced (endpoints (endpoint_list_ctor junk) ! unat c)"
    using assms(3) by (simp add: endpoint_list_ctor_def ep_desc_ctor_def)
  then show ?thesis using conn_run [OF assms(1) _ assms(3)] table_ok_ctor [OF assms(2)] by auto
qed

theorem announcements_consistent_witness:
  "conn False (of_device 3 (fst (checkstatus_round exact_fpu zero_key 24 (endpoint_list_ctor zero_key)))) \<noteq> None"
proof -
  let ?r = "checkstatus_round exact_fpu zero_key 24 (endpoint_list_ctor zero_key)"
  have "table_step exact_fpu (24, endpoint_list_ctor zero_key) (fst ?r) (fst (snd ?r), snd (snd ?r))"
    by (rule check [OF zero_key_length]) simp
  from table_run.snoc [OF table_run.start this] announcements_consistent [OF _ zero_key_length, of exact_fpu 24 _ _ 3]
  show ?thesis by (simp add: MAX_STAGE_ID_def)
qed

text \<open>The period of the reports: with a ping period of \<open>p\<close> milliseconds that does not change, the
  check reports the statistics of a device that is connected exactly in the rounds whose
  number (counted from 0) is a positive multiple of \<open>60000 div p\<close>.\<close>

theorem report_period:
  assumes "table_ok L" and "length junk = crypto_box_PUBLICKEYBYTES" and "unat c < MAX_STAGE_ID"
    and "pingperiodms L = p" and "0 < p" and "p \<le> 60000"
    and "check_rounds F junk r (stat_rounds p, L) = (tr, cnt, L')"
  shows "(\<exists>mi me ma nr nl. Latency c mi me ma nr nl \<in> set (fst (checkstatus_round F junk cnt L'))) \<longleftrightarrow>
    0 < r \<and> (60000 div p) dvd r \<and> 1 < unat (ed_timeout (endpoints L' ! unat c))"
proof -
  let ?k = "60000 div p"
  have k: "0 < ?k" "?k \<le> 60000" using assms(5,6) by (simp_all add: div_greater_zero_iff)
  have "cnt = of_nat (rounds_left ?k r)"
    using check_rounds_cnt [of ?k L "stat_rounds p" 0 F junk r] assms(4,7) k
    by (simp add: stat_rounds_def rounds_left_def)
  moreover have "unat (of_nat (rounds_left ?k r) :: 32 word) = rounds_left ?k r"
    using le_trans [OF rounds_left_le k(2), of r] by (subst unat_of_nat) (rule mod_less, simp)
  ultimately have cnt: "cnt = 0 \<longleftrightarrow> 0 < r \<and> ?k dvd r"
    using rounds_left_0 [OF k(1), of r] unat_eq_0 [of cnt] by simp
  have ok: "table_ok L'" using check_rounds_ok [OF assms(1,2), of F r "stat_rounds p"] assms(7) by simp
  have "(\<exists>mi me ma nr nl. Latency c mi me ma nr nl \<in> set (fst (checkstatus_round F junk cnt L'))) \<longleftrightarrow>
      (\<exists>mi me ma nr nl. Latency c mi me ma nr nl \<in> set (of_device c (fst (checkstatus_round F junk cnt L'))))"
    by (simp add: of_device_def)
  then show ?thesis using round_reports [of c F junk cnt "endpoints L' ! unat c"] cnt
    by (simp add: checkstatus_round_ep(1) [OF ok assms(3)])
qed

theorem report_period_witness:
  "\<exists>L0 tr cnt L1. cid_register True 3 (replicate 16 0) B_PEER2PEER [] (endpoint_list_ctor zero_key) = Inr L0 \<and>
    check_rounds exact_fpu zero_key 30 (stat_rounds 2000, L0) = (tr, cnt, L1) \<and>
    (\<exists>mi me ma nr nl. Latency 3 mi me ma nr nl \<in> set (fst (checkstatus_round exact_fpu zero_key cnt L1)))"
proof -
  let ?L = "endpoint_list_ctor zero_key" and ?c = "3 :: stage_device_id_t"
  have c: "unat ?c < MAX_STAGE_ID" by (simp add: MAX_STAGE_ID_def)
  obtain L0 where r: "cid_register True ?c (replicate 16 0) B_PEER2PEER [] ?L = Inr L0"
    by (simp add: cid_register_def MAX_STAGE_ID_def sizeof_endpoint_def)
  have ok: "table_ok L0" using table_ok_ctor [OF zero_key_length] r by (rule table_ok_register)
  have p: "pingperiodms L0 = 2000" and l: "life (endpoints L0 ! unat ?c) = (120, False)"
    using r by (auto simp: cid_register_def upd_ep_def endpoint_list_ctor_def MAX_STAGE_ID_def sizeof_endpoint_def
        life_def ep_desc_ctor_def CALLERLIST_TIMEOUT_def Let_def)
  obtain tr cnt L1 where run: "check_rounds exact_fpu zero_key 30 (stat_rounds 2000, L0) = (tr, cnt, L1)"
    by (metis surj_pair)
  have "life (endpoints L1 ! unat ?c) = (90, True)"
    using check_rounds_life [OF ok zero_key_length c, of 30 exact_fpu "stat_rounds 2000"]
    unfolding l run by (simp add: life_ticks_run)
  then have "1 < unat (ed_timeout (endpoints L1 ! unat ?c))" by (simp add: life_def)
  then show ?thesis using report_period [OF ok zero_key_length c p _ _ run] r run by auto
qed

text \<open>Updates are confined: a registration, a local address, a ping time or a public key of one
  device changes no other device's entry, and a device number outside the table changes no
  entry at all.\<close>

theorem updates_confined:
  assumes "table_ok L" and "c \<noteq> cid \<or> MAX_STAGE_ID \<le> unat cid"
    and "cid_register lock cid mem mode rver L = Inr L' \<or> cid_setlocalip cid mem L = Inr L' \<or>
      cid_set_pubkey cid mem len L = Inr L' \<or> cid_setpingtime F lock cid t L = L'"
  shows "endpoints L' ! unat c = endpoints L ! unat c \<and> length (endpoints L') = MAX_STAGE_ID"
proof -
  have u: "unat cid < MAX_STAGE_ID \<Longrightarrow> endpoints (upd_ep cid f L) ! unat c = endpoints L ! unat c" for f and L :: "'a endpoint_list_scheme"
    using assms(2) word_unat_eq_iff [of c cid] by (auto simp: upd_ep_def nth_list_update_neq)
  have "endpoints L' ! unat c = endpoints L ! unat c"
    using assms(3) by (auto simp: cid_register_def cid_setlocalip_def cid_set_pubkey_def cid_setpingtime_def u Let_def
        split: if_splits)
  moreover have "table_ok L'"
    using assms(3) table_ok_register [OF assms(1)] table_ok_setlocalip [OF assms(1)] table_ok_set_pubkey [OF assms(1)]
      table_ok_setpingtime [OF assms(1)] by auto
  ultimately show ?thesis by (simp add: table_ok_def)
qed

theorem updates_confined_witness:
  "\<exists>L'. cid_register True 3 (replicate 16 0) B_PEER2PEER [] (endpoint_list_ctor zero_key) = Inr L' \<and>
    endpoints L' ! 4 = ep_desc_ctor zero_key"
proof -
  obtain L' where r: "cid_register True 3 (replicate 16 0) B_PEER2PEER [] (endpoint_list_ctor zero_key) = Inr L'"
    by (simp add: cid_register_def MAX_STAGE_ID_def sizeof_endpoint_def)
  have "endpoints L' ! unat (4 :: stage_device_id_t) = endpoints (endpoint_list_ctor zero_key) ! unat (4 :: stage_device_id_t)"
    using updates_confined [OF table_ok_ctor [OF zero_key_length] _ disjI1 [OF r], of 4] by simp
  then show ?thesis using r by (simp add: endpoint_list_ctor_def MAX_STAGE_ID_def)
qed

end
