(* ===== verification/Client.thy ===== *)
theory Client
  imports Endpoints
begin

text \<open>
  \<open>ovboxclient_t\<close> of \<open>src/ovboxclient.h\<close> and \<open>src/ovboxclient.cc\<close>: the state of a client and
  the bodies of its threads. One call of a step function is one iteration of a thread's
  loop; the datagrams, callbacks and log lines it produces are returned in order.
  System calls, libsodium, floating-point rounding, the clock and the outcome of a
  \<open>try_lock\<close> are parameters.
\<close>

section \<open>State\<close>

record client_stats =
  cs_ping_p2p :: ping_stat
  cs_ping_srv :: ping_stat
  cs_ping_loc :: ping_stat
  cs_packages :: message_stat
  cs_state_packages :: message_stat

definition client_stats_ctor :: client_stats where
  "client_stats_ctor =
     \<lparr>cs_ping_p2p = ping_stat_ctor, cs_ping_srv = ping_stat_ctor, cs_ping_loc = ping_stat_ctor,
      cs_packages = message_stat_ctor, cs_state_packages = message_stat_ctor\<rparr>"

text \<open>
  The maps of collectors and statistics are total: an absent entry is the default that
  \<open>operator[]\<close> inserts. \<open>has_cb_ping\<close> and \<open>has_cb_latreport\<close> tell whether a callback is set;
  \<open>xreceivers\<close> are the ports of the threads in \<open>xrecthread\<close>.
\<close>

record ovboxclient = endpoint_list +
  remote_server :: ovbox_udpsocket
  local_server :: udpsocket
  remote_timeout :: int
  xdest :: "port_t list"
  proxyclients :: "(stage_device_id_t, endpoint) omap"
  toport :: port_t
  recport :: port_t
  portoffset :: port_t
  callerid :: stage_device_id_t
  cl_mode :: epmode_t
  localep :: endpoint
  sendlocal :: bool
  last_tx :: "64 word"
  last_rx :: "64 word"
  t_bitrate :: int
  cl_sorter :: sorter
  coll_p2p :: "stage_device_id_t \<Rightarrow> collector"
  coll_srv :: "stage_device_id_t \<Rightarrow> collector"
  coll_local :: "stage_device_id_t \<Rightarrow> collector"
  stats_announce :: "stage_device_id_t \<Rightarrow> client_stats"
  decrypted_msg :: msgbuf
  has_cb_ping :: bool
  has_cb_latreport :: bool
  send_encrypt_any :: bool
  send_encrypt_all :: bool
  xreceivers :: "(port_t \<times> port_t) list"

text \<open>The platform: kernel, cryptography, floating-point unit; and what one call observes.\<close>

record platform =
  pl_kernel :: kernel
  pl_sodium :: sodium
  pl_fpu :: fpu
  pl_fmt2 :: "real \<Rightarrow> string"
  pl_version :: "byte list"

record env =
  env_now :: int
  env_lock :: bool

datatype client_output =
    To_remote dgram
  | To_local dgram
  | Cb_ping stage_device_id_t port_t real endpoint
  | Cb_latreport stage_device_id_t string ping_stat
  | Log_line port_t string

definition is_in_mode :: "ovboxclient \<Rightarrow> epmode_t \<Rightarrow> bool" where
  "is_in_mode c flag = has_mode (cl_mode c) flag"

section \<open>Settings\<close>

definition mode_of_flags :: "bool \<Rightarrow> bool \<Rightarrow> bool \<Rightarrow> bool \<Rightarrow> bool \<Rightarrow> bool \<Rightarrow> epmode_t" where
  "mode_of_flags peer2peer receivedownmix donotsend senddownmix usingproxy encryption =
     (let m0 = 0;
          m1 = (if peer2peer then m0 OR B_PEER2PEER else m0);
          m2 = (if receivedownmix then m1 OR B_RECEIVEDOWNMIX_deprecated else m1);
          m3 = (if donotsend then m2 OR B_DONOTSEND else m2);
          m4 = (if senddownmix then m3 OR B_SENDDOWNMIX_deprecated else m3);
          m5 = (if usingproxy then m4 OR B_USINGPROXY else m4)
      in if encryption then m5 OR B_ENCRYPTION else m5)"

text \<open>The receive timeout in microseconds; the conversion to \<open>int\<close> cuts off.\<close>

definition usec_of_ms :: "fpu \<Rightarrow> real \<Rightarrow> int" where
  "usec_of_ms F t = \<lfloor>fl F (1000 * min 1000 t)\<rfloor>"

definition set_reorder_deadline :: "fpu \<Rightarrow> real \<Rightarrow> ovboxclient \<Rightarrow> ovboxclient" where
  "set_reorder_deadline F t_ms c = (if t_ms > 0 then c\<lparr>remote_timeout := usec_of_ms F t_ms\<rparr> else c)"

definition getbitrate :: "fpu \<Rightarrow> int \<Rightarrow> ovboxclient \<Rightarrow> (real \<times> real) \<times> ovboxclient" where
  "getbitrate F now c =
     (let span = fl F (fl F (real_of_int (now - t_bitrate c)) / 1000000000);
          sc = fl F (8 / max (1 / 1000) span);
          tx = tx_bytes (remote_server c); rx = rx_bytes (remote_server c);
          txrate = fl F (sc * fl F (fl F (real (unat tx)) - fl F (real (unat (last_tx c)))));
          rxrate = fl F (sc * fl F (fl F (real (unat rx)) - fl F (real (unat (last_rx c)))))
      in ((txrate, rxrate), c\<lparr>t_bitrate := now, last_tx := tx, last_rx := rx\<rparr>))"

definition add_extraport :: "port_t \<Rightarrow> ovboxclient \<Rightarrow> ovboxclient" where
  "add_extraport dest c = c\<lparr>xdest := xdest c @ [dest]\<rparr>"

definition set_ping_callback :: "bool \<Rightarrow> ovboxclient \<Rightarrow> ovboxclient" where
  "set_ping_callback f c = c\<lparr>has_cb_ping := f\<rparr>"

definition set_latreport_callback :: "bool \<Rightarrow> ovboxclient \<Rightarrow> ovboxclient" where
  "set_latreport_callback f c = c\<lparr>has_cb_latreport := f\<rparr>"

text \<open>\<open>add_receiverport\<close> starts a thread that runs \<open>xrecsrv\<close> with these ports.\<close>

definition add_receiverport :: "port_t \<Rightarrow> port_t \<Rightarrow> ovboxclient \<Rightarrow> ovboxclient" where
  "add_receiverport srcxport destxport c = c\<lparr>xreceivers := xreceivers c @ [(srcxport, destxport)]\<rparr>"

definition add_proxy_client :: "resolver \<Rightarrow> stage_device_id_t \<Rightarrow> string \<Rightarrow> ovboxclient \<Rightarrow> err + ovboxclient" where
  "add_proxy_client R cid host c =
     (case R host of
        Inl e \<Rightarrow> Inl (ErrMsg (''No such host: '' @ e))
      | Inr a \<Rightarrow> Inr (c\<lparr>proxyclients := omap_put cid (zero_endpoint\<lparr>sin_family := AF_INET, s_addr := a\<rparr>) (proxyclients c)\<rparr>))"

definition get_encrypt_state :: "ovboxclient \<Rightarrow> nat" where
  "get_encrypt_state c = (if send_encrypt_any c then 1 else 0) + (if send_encrypt_all c then 1 else 0)"

section \<open>Statistics and announcements\<close>

definition update_client_stats :: "fpu \<Rightarrow> stage_device_id_t \<Rightarrow> ovboxclient \<Rightarrow> client_stats \<Rightarrow> client_stats" where
  "update_client_stats F cid c st =
     (let packages = get_stat cid (cl_sorter c);
          ostat = cs_state_packages st;
          delta = packages - ostat;
          delta' = (if ms_lost delta > 2 ^ 30 then set_lost 0 delta else delta)
      in st\<lparr>cs_packages := delta', cs_state_packages := packages,
            cs_ping_p2p := update_ping_stat F (coll_p2p c cid) (cs_ping_p2p st),
            cs_ping_srv := update_ping_stat F (coll_srv c cid) (cs_ping_srv st),
            cs_ping_loc := update_ping_stat F (coll_local c cid) (cs_ping_loc st)\<rparr>)"

definition show_cid :: "stage_device_id_t \<Rightarrow> string" where
  "show_cid cid = show_nat (unat cid)"

definition string_of_bytes :: "byte list \<Rightarrow> string" where
  "string_of_bytes bs = map (\<lambda>b. char_of (unat b)) bs"

definition announce_new_connection :: "ovboxclient \<Rightarrow> stage_device_id_t \<Rightarrow> ep_desc \<Rightarrow> client_output list" where
  "announce_new_connection c cid ep =
     (if cid = callerid c then []
      else [Log_line (recport c)
        (''new connection for '' @ show_cid cid @ '' from '' @ ep2str (ed_ep ep) @ '' ['' @ ep2str (ed_localep ep) @
         ''] in '' @ (if has_mode (ed_mode ep) B_PEER2PEER then ''p2p'' else ''srv'') @ ''-mode'' @
         (if has_mode (ed_mode ep) B_RECEIVEDOWNMIX_deprecated then '' receivedownmix'' else '''') @
         (if has_mode (ed_mode ep) B_DONOTSEND then '' donotsend'' else '''') @ '' v'' @ string_of_bytes (ed_version ep))])"

definition announce_connection_lost :: "ovboxclient \<Rightarrow> stage_device_id_t \<Rightarrow> client_output list" where
  "announce_connection_lost c cid =
     (if cid = callerid c then []
      else [Log_line (recport c) (''connection for '' @ show_cid cid @ '' lost.'')])"

definition latency_lines :: "platform \<Rightarrow> ovboxclient \<Rightarrow> stage_device_id_t \<Rightarrow> string \<Rightarrow> ping_stat \<Rightarrow> client_output list" where
  "latency_lines P c cid kind ps =
     (if ps_received ps \<noteq> 0
      then Log_line (recport c) (''lat-'' @ kind @ '' '' @ show_cid cid @ '' '' @ ping_stat_to_string (pl_fmt2 P) ps) #
        (if has_cb_latreport c then [Cb_latreport cid kind ps] else [])
      else [])"

definition announce_latency :: "platform \<Rightarrow> ovboxclient \<Rightarrow> stage_device_id_t \<Rightarrow> ovboxclient \<times> client_output list" where
  "announce_latency P c cid =
     (if cid = callerid c then (c, [])
      else
        let st = update_client_stats (pl_fpu P) cid c (stats_announce c cid);
            c1 = c\<lparr>stats_announce := (stats_announce c)(cid := st)\<rparr>;
            lines = Log_line (recport c) (''packages '' @ show_cid cid @ '' '' @
                      message_stat_to_string (pl_fmt2 P) (pl_fpu P) (cs_packages st)) #
              latency_lines P c1 cid ''p2p'' (cs_ping_p2p st) @ latency_lines P c1 cid ''srv'' (cs_ping_srv st) @
              latency_lines P c1 cid ''loc'' (cs_ping_loc st);
            ps = cs_ping_p2p st;
            data = concat (map (dbl_bytes (pl_fpu P))
              [real (unat cid), t_min ps, t_med ps, t_p99 ps, fl (pl_fpu P) (real (unat (ps_received ps))),
               fl (pl_fpu P) (real (unat (ps_lost ps)))]);
            (sent, rs, out) = pack_and_send (pl_kernel P) (remote_server c1) (port_code PORT_PEERLATREP) data
              (6 * sizeof_double) (toport c1)
        in (c1\<lparr>remote_server := rs\<rparr>, lines @ map To_remote out))"

text \<open>The check of the endpoint list, with its virtual calls handled by the client.\<close>

fun handle_announcement :: "platform \<Rightarrow> ovboxclient \<Rightarrow> announcement \<Rightarrow> ovboxclient \<times> client_output list" where
  "handle_announcement P c (New_connection cid ep) = (c, announce_new_connection c cid ep)"
| "handle_announcement P c (Connection_lost cid) = (c, announce_connection_lost c cid)"
| "handle_announcement P c (Latency cid _ _ _ _ _) = announce_latency P c cid"

fun handle_announcements :: "platform \<Rightarrow> ovboxclient \<Rightarrow> announcement list \<Rightarrow> ovboxclient \<times> client_output list" where
  "handle_announcements P c [] = (c, [])"
| "handle_announcements P c (a # as) =
     (let (c1, out1) = handle_announcement P c a; (c2, out2) = handle_announcements P c1 as in (c2, out1 @ out2))"

definition client_check :: "platform \<Rightarrow> byte list \<Rightarrow> 32 word \<Rightarrow> ovboxclient \<Rightarrow> ovboxclient \<times> 32 word \<times> client_output list" where
  "client_check P junk cnt c =
     (let (evs, cnt', c1) = checkstatus_round (pl_fpu P) junk cnt c;
          (c2, out) = handle_announcements P c1 evs
      in (c2, cnt', out))"

section \<open>Construction\<close>

text \<open>
  What the constructor gets from outside: the two sockets, name resolution, the outcomes of
  \<open>bind\<close>, the TCP tunnel, the addresses of the device, generated keys, the clock and the
  contents of uninitialised memory.
\<close>

record client_setup =
  su_remote :: "err + udpsocket"
  su_local :: "err + udpsocket"
  su_resolver :: resolver
  su_bind :: "udpsocket \<Rightarrow> port_t \<Rightarrow> bool \<Rightarrow> err + port_t"
  su_connect :: "endpoint \<Rightarrow> port_t \<Rightarrow> err + port_t"
  su_ipaddr :: endpoint
  su_sockep :: endpoint
  su_keys :: "byte list \<times> byte list"
  su_now :: int
  su_junk :: "byte list"

record client_config =
  cfg_desthost :: string
  cfg_destport :: port_t
  cfg_recport :: port_t
  cfg_portoffset :: port_t
  cfg_secret :: secret_t
  cfg_callerid :: stage_device_id_t
  cfg_peer2peer :: bool
  cfg_donotsend :: bool
  cfg_receivedownmix :: bool
  cfg_sendlocal :: bool
  cfg_deadline :: real
  cfg_senddownmix :: bool
  cfg_usingproxy :: bool
  cfg_use_tcp_tunnel :: bool
  cfg_encryption :: bool

definition ovboxclient_ctor :: "fpu \<Rightarrow> client_setup \<Rightarrow> client_config \<Rightarrow> err + ovboxclient" where
  "ovboxclient_ctor F U g =
     bind_err (su_remote U) (\<lambda>r0.
     bind_err (su_local U) (\<lambda>l0.
     let mode = mode_of_flags (cfg_peer2peer g) (cfg_receivedownmix g) (cfg_donotsend g) (cfg_senddownmix g)
                  (cfg_usingproxy g) (cfg_encryption g);
         remote0 = ovbox_udpsocket_ctor r0 (cfg_secret g) (cfg_callerid g) (su_now U) (su_keys U);
         tunnel = (cfg_use_tcp_tunnel g \<and> \<not> cfg_peer2peer g)
     in
     bind_err (set_destination (su_resolver U) ''localhost'' l0) (\<lambda>l1.
     bind_err (su_bind U l1 (cfg_recport g) True) (\<lambda>_.
     bind_err (ovgethostbyname (su_resolver U) (cfg_desthost g)) (\<lambda>ep0.
     let ep_tcptunnel = ep0\<lparr>sin_port := htons (cfg_destport g)\<rparr>;
         desthost = (if tunnel then ''127.0.0.1'' else cfg_desthost g)
     in
     bind_err (set_destination (su_resolver U) desthost remote0) (\<lambda>remote1.
     bind_err (su_bind U (udpsocket.truncate remote1) 0 False) (\<lambda>local_relay_port.
     bind_err (if tunnel then su_connect U ep_tcptunnel local_relay_port else Inr (cfg_destport g)) (\<lambda>toport.
     let msg = msgbuf_ctor zero_endpoint (su_now U) in
     Inr (endpoint_list.extend (endpoint_list_ctor (su_junk U))
       \<lparr>remote_server = remote1, local_server = l1,
        remote_timeout = (if cfg_deadline g > 0 then usec_of_ms F (cfg_deadline g) else 0),
        xdest = [], proxyclients = [], toport = toport, recport = cfg_recport g, portoffset = cfg_portoffset g,
        callerid = cfg_callerid g, cl_mode = mode,
        localep = (su_ipaddr U)\<lparr>sin_port := sin_port (su_sockep U)\<rparr>, sendlocal = cfg_sendlocal g,
        last_tx = 0, last_rx = 0, t_bitrate = su_now U, cl_sorter = sorter_ctor msg msg,
        coll_p2p = (\<lambda>_. collector_ctor default_window), coll_srv = (\<lambda>_. collector_ctor default_window),
        coll_local = (\<lambda>_. collector_ctor default_window), stats_announce = (\<lambda>_. client_stats_ctor),
        decrypted_msg = msg, has_cb_ping = False, has_cb_latreport = False,
        send_encrypt_any = False, send_encrypt_all = False, xreceivers = []\<rparr>)))))))))"

section \<open>The ping service\<close>

text \<open>\<open>pingservice\<close>: the pings to one peer; \<open>own\<close> is the table's entry of this device.\<close>

definition ping_peer ::
  "platform \<Rightarrow> env \<Rightarrow> ep_desc \<Rightarrow> stage_device_id_t \<Rightarrow> ep_desc \<Rightarrow> ovboxclient \<Rightarrow> ovboxclient \<times> dgram list" where
  "ping_peer P e own ocid ep c =
     (let (r1, out1) = send_ping (pl_kernel P) (pl_fpu P) (env_now e) (remote_server c) (ed_ep ep) ocid PORT_PING;
          c1 = c\<lparr>remote_server := r1, coll_p2p := (coll_p2p c)(ocid := count_sent (coll_p2p c ocid))\<rparr>;
          (r2, out2) = send_ping (pl_kernel P) (pl_fpu P) (env_now e) r1 (serv_addr r1) ocid PORT_PING_SRV;
          c2 = c1\<lparr>remote_server := r2, coll_srv := (coll_srv c1)(ocid := count_sent (coll_srv c1 ocid))\<rparr>
      in if s_addr (ed_ep own) = s_addr (ed_ep ep) \<and> s_addr (ed_localep ep) \<noteq> 0 then
           let (r3, out3) = send_ping (pl_kernel P) (pl_fpu P) (env_now e) r2 (ed_localep ep) ocid PORT_PING_LOCAL
           in (c2\<lparr>remote_server := r3, coll_local := (coll_local c2)(ocid := count_sent (coll_local c2 ocid))\<rparr>,
               out1 @ out2 @ out3)
         else (c2, out1 @ out2))"

fun ping_peers ::
  "platform \<Rightarrow> env \<Rightarrow> ep_desc \<Rightarrow> stage_device_id_t \<Rightarrow> ep_desc list \<Rightarrow> ovboxclient \<Rightarrow> ovboxclient \<times> dgram list" where
  "ping_peers P e own ocid [] c = (c, [])"
| "ping_peers P e own ocid (ep # eps) c =
     (let (c1, out1) = (if ed_timeout ep \<noteq> 0 \<and> ocid \<noteq> callerid c then ping_peer P e own ocid ep c else (c, []));
          (c2, out2) = ping_peers P e own (ocid + 1) eps c1
      in (c2, out1 @ out2))"

definition pingservice_step :: "platform \<Rightarrow> env \<Rightarrow> ovboxclient \<Rightarrow> (ovboxclient \<times> dgram list) res" where
  "pingservice_step P e c =
     (let (r1, out1) = send_registration (pl_kernel P) (pl_version P) (remote_server c) (cl_mode c) (toport c) (localep c);
          c1 = c\<lparr>remote_server := r1\<rparr>
      in if list_ex (\<lambda>ep. ed_timeout ep \<noteq> 0) (endpoints c) \<and> length (endpoints c) \<le> unat (callerid c) then Inl Out_of_bounds
         else
           let (c2, out2) = ping_peers P e (endpoints c ! unat (callerid c)) 0 (endpoints c) c1
           in Inr (c2, out1 @ out2))"

section \<open>Messages from the server and the peers\<close>

definition process_ping_msg :: "platform \<Rightarrow> ovboxclient \<Rightarrow> msgbuf \<Rightarrow> ovboxclient \<times> msgbuf \<times> client_output list" where
  "process_ping_msg P c msg =
     (let cid = mb_cid msg;
          raw1 = set_msg_callerid (callerid c) (rawbuffer msg);
          raw2 =
            (case special_of_port (mb_destport msg) of
               Some PORT_PING \<Rightarrow> set_msg_port (port_code PORT_PONG) raw1
             | Some PORT_PING_SRV \<Rightarrow> blit (mb_msg msg) (le_bytes 1 cid) (set_msg_port (port_code PORT_PONG_SRV) raw1)
             | Some PORT_PING_LOCAL \<Rightarrow> set_msg_port (port_code PORT_PONG_LOCAL) raw1
             | _ \<Rightarrow> raw1);
          (n, rs, out) = send_ep (pl_kernel P) (remote_server c) raw2 (mb_size msg + HEADERLEN) (mb_sender msg)
      in (c\<lparr>remote_server := rs\<rparr>, msg\<lparr>rawbuffer := raw2\<rparr>, map To_remote out))"

definition process_pong_msg :: "platform \<Rightarrow> env \<Rightarrow> ovboxclient \<Rightarrow> msgbuf \<Rightarrow> (ovboxclient \<times> client_output list) res" where
  "process_pong_msg P e c msg =
     (let srv = (special_of_port (mb_destport msg) = Some PORT_PONG_SRV);
          tbuf = (if srv then drop (mb_msg msg + 1) (rawbuffer msg) else msg_mem msg);
          tsize = (if srv then size_sub (mb_size msg) 1 else mb_size msg)
      in bind_res (get_pingtime (pl_fpu P) (env_now e) (remote_server c) tbuf tsize) (\<lambda>(tms, _, _).
         if tms > 0 then
           let out = (if has_cb_ping c then [Cb_ping (mb_cid msg) (mb_destport msg) tms (mb_sender msg)] else []);
               cid = mb_cid msg; t = fl32 (pl_fpu P) tms
           in Inr (case special_of_port (mb_destport msg) of
                Some PORT_PONG \<Rightarrow> c\<lparr>coll_p2p := (coll_p2p c)(cid := add_value (pl_fpu P) t (coll_p2p c cid))\<rparr>
              | Some PORT_PONG_SRV \<Rightarrow> c\<lparr>coll_srv := (coll_srv c)(cid := add_value (pl_fpu P) t (coll_srv c cid))\<rparr>
              | Some PORT_PONG_LOCAL \<Rightarrow> c\<lparr>coll_local := (coll_local c)(cid := add_value (pl_fpu P) t (coll_local c cid))\<rparr>
              | _ \<Rightarrow> c, out)
         else Inr (c, [])))"

text \<open>Data to the local receivers: the shifted port, unless it is our own input.\<close>

fun send_locally ::
  "platform \<Rightarrow> port_t \<Rightarrow> port_t list \<Rightarrow> port_t \<Rightarrow> byte list \<Rightarrow> nat \<Rightarrow> udpsocket \<Rightarrow> udpsocket \<times> dgram list" where
  "send_locally P rp [] destport buf len s = (s, [])"
| "send_locally P rp (off # offs) destport buf len s =
     (let (s1, out1) =
            (if unat destport + unat off \<noteq> unat rp
             then (let (n, s1, out) = send_port (pl_kernel P) s buf len (destport + off) in (s1, out))
             else (s, []));
          (s2, out2) = send_locally P rp offs destport buf len s1
      in (s2, out1 @ out2))"

text \<open>The loop over the proxy clients sets the port of each entry it sends to.\<close>

fun send_to_proxies ::
  "platform \<Rightarrow> stage_device_id_t \<Rightarrow> port_t \<Rightarrow> byte list \<Rightarrow> nat \<Rightarrow> (stage_device_id_t, endpoint) omap \<Rightarrow> ovbox_udpsocket \<Rightarrow>
     ovbox_udpsocket \<times> (stage_device_id_t, endpoint) omap \<times> dgram list" where
  "send_to_proxies P cid destport buf len [] s = (s, [], [])"
| "send_to_proxies P cid destport buf len ((pc, pep) # ps) s =
     (if cid \<noteq> pc then
        let pep' = pep\<lparr>sin_port := htons destport\<rparr>;
            (n, s1, out1) = send_ep (pl_kernel P) s buf len pep';
            (s2, ps', out2) = send_to_proxies P cid destport buf len ps s1
        in (s2, (pc, pep') # ps', out1 @ out2)
      else
        let (s2, ps', out2) = send_to_proxies P cid destport buf len ps s
        in (s2, (pc, pep) # ps', out2))"

definition process_data_msg :: "platform \<Rightarrow> ovboxclient \<Rightarrow> msgbuf \<Rightarrow> (ovboxclient \<times> client_output list) res" where
  "process_data_msg P c msg =
     (if unat (mb_cid msg) < MAX_STAGE_ID \<and> length (endpoints c) \<le> unat (mb_cid msg) then Inl Out_of_bounds
      else
        let try_open = (unat (mb_cid msg) < MAX_STAGE_ID \<and>
              has_mode (ed_mode (endpoints c ! unat (mb_cid msg))) B_ENCRYPTION \<and> has_mode (cl_mode c) B_ENCRYPTION);
            opened = (if try_open
              then crypto_box_seal_open (pl_sodium P) (payload msg) (recipient_public (remote_server c))
                     (recipient_secret (remote_server c))
              else None);
            (c1, send_msg, send_len) =
              (case opened of
                 None \<Rightarrow> (c, msg_mem msg, mb_size msg)
               | Some m \<Rightarrow>
                   let d = (decrypted_msg c)\<lparr>rawbuffer := blit (mb_msg (decrypted_msg c)) m (rawbuffer (decrypted_msg c))\<rparr>
                   in (c\<lparr>decrypted_msg := d\<rparr>, msg_mem d, size_sub (mb_size msg) crypto_box_SEALBYTES));
            (l1, out1) = send_locally P (recport c) (portoffset c # xdest c) (mb_destport msg) send_msg send_len (local_server c);
            (r1, ps1, out2) =
              (if \<not> is_same_network (mb_sender msg) (localep c)
               then send_to_proxies P (mb_cid msg) (mb_destport msg) send_msg send_len (proxyclients c) (remote_server c)
               else (remote_server c, proxyclients c, []))
        in Inr (c1\<lparr>local_server := l1, remote_server := r1, proxyclients := ps1\<rparr>, map To_local out1 @ map To_remote out2))"

definition process_msg :: "platform \<Rightarrow> env \<Rightarrow> ovboxclient \<Rightarrow> msgbuf \<Rightarrow> (ovboxclient \<times> msgbuf \<times> client_output list) res" where
  "process_msg P e c msg0 =
     (let msg = msg0\<lparr>mb_valid := False\<rparr>
      in if mb_cid msg = callerid c \<and> mb_destport msg \<noteq> port_code PORT_LISTCID \<and> mb_destport msg \<noteq> port_code PORT_PUBKEY
         then Inr (c, msg, [])
         else if mb_destport msg > MAXSPECIALPORT
         then bind_res (process_data_msg P c msg) (\<lambda>(c1, out). Inr (c1, msg, out))
         else case special_of_port (mb_destport msg) of
                Some p \<Rightarrow>
                  if p \<in> {PORT_PING, PORT_PING_SRV, PORT_PING_LOCAL} then Inr (process_ping_msg P c msg)
                  else if p \<in> {PORT_PONG, PORT_PONG_SRV, PORT_PONG_LOCAL}
                  then bind_res (process_pong_msg P e c msg) (\<lambda>(c1, out). Inr (c1, msg, out))
                  else if p = PORT_SETLOCALIP \<and> mb_size msg = sizeof_endpoint
                  then bind_res (cid_setlocalip (mb_cid msg) (msg_mem msg) c) (\<lambda>c1. Inr (c1, msg, []))
                  else if p = PORT_LISTCID \<and> mb_size msg = sizeof_endpoint \<and>
                    0 \<le> int_of_seq (mb_seq msg) \<and> int_of_seq (mb_seq msg) < 256
                  then bind_res (cid_register (env_lock e) (mb_cid msg) (msg_mem msg) (ucast (mb_seq msg)) [] c)
                         (\<lambda>c1. Inr (c1, msg, []))
                  else if p = PORT_PUBKEY
                  then bind_res (cid_set_pubkey (mb_cid msg) (msg_mem msg) (mb_size msg) c) (\<lambda>c1. Inr (c1, msg, []))
                  else Inr (c, msg, [])
              | None \<Rightarrow> Inr (c, msg, []))"

text \<open>
  One iteration of \<open>sendsrv\<close>: a received message goes through the sorter, and what the
  sorter hands out is processed.
\<close>

definition consume_msg ::
  "platform \<Rightarrow> env \<Rightarrow> ovboxclient \<times> client_output list \<Rightarrow> msgbuf \<Rightarrow> ((ovboxclient \<times> client_output list) \<times> msgbuf) res" where
  "consume_msg P e = (\<lambda>(c, out) msg.
     bind_res (process_msg P e c msg) (\<lambda>(c1, msg1, out1). Inr ((c1, out @ out1), msg1)))"

definition sendsrv_step ::
  "platform \<Rightarrow> env \<Rightarrow> ovboxclient \<Rightarrow> msgbuf \<Rightarrow> (byte list \<times> endpoint) option \<Rightarrow> (ovboxclient \<times> msgbuf \<times> client_output list) res" where
  "sendsrv_step P e c msg inp =
     (let (can_process, r1, msg1) = recv_sec_msg (remote_server c) msg inp;
          c1 = c\<lparr>remote_server := r1\<rparr>
      in if can_process then
           bind_res (drain (consume_msg P e) (c1, []) (cl_sorter c1) msg1 Ext) (\<lambda>((c2, out), so2, msg2).
             Inr (c2\<lparr>cl_sorter := so2\<rparr>, msg2, out))
         else Inr (c1, msg1, []))"

section \<open>Messages from local senders\<close>

text \<open>
  The loop over the endpoints in \<open>recsrv\<close>: its local variables, and one turn of it. The
  buffer \<open>cmsg\<close> holds an encrypted message; \<open>msg\<close> and \<open>len\<close> are the packed message.
\<close>

record fanout =
  fo_remote :: ovbox_udpsocket
  fo_cmsg :: "byte list"
  fo_out :: "dgram list"
  fo_total :: nat
  fo_encrypted :: nat
  fo_server :: bool

definition wants_encryption :: "ovboxclient \<Rightarrow> ep_desc \<Rightarrow> bool" where
  "wants_encryption c ep \<longleftrightarrow> has_mode (cl_mode c) B_ENCRYPTION \<and> has_mode (ed_mode ep) B_ENCRYPTION \<and> has_pubkey ep"

definition in_same_network :: "ovboxclient \<Rightarrow> ep_desc \<Rightarrow> bool" where
  "in_same_network c ep \<longleftrightarrow>
     s_addr (ed_ep (endpoints c ! unat (callerid c))) = s_addr (ed_ep ep) \<and> s_addr (ed_localep ep) \<noteq> 0"

definition fanout_send :: "platform \<Rightarrow> byte list \<Rightarrow> nat \<Rightarrow> endpoint \<Rightarrow> fanout \<Rightarrow> fanout" where
  "fanout_send P buf len dest f =
     (let (n, r, out) = send_ep (pl_kernel P) (fo_remote f) buf len dest
      in f\<lparr>fo_remote := r, fo_out := fo_out f @ out\<rparr>)"

definition recsrv_peer ::
  "platform \<Rightarrow> ovboxclient \<Rightarrow> byte list \<Rightarrow> nat \<Rightarrow> nat \<Rightarrow> ep_desc \<Rightarrow> fanout \<Rightarrow> fanout res" where
  "recsrv_peer P c msg len ocid ep f =
     (if ed_timeout ep \<noteq> 0 \<and> ocid \<noteq> unat (callerid c) then
        if has_mode (ed_mode ep) B_PEER2PEER then
          let f1 = f\<lparr>fo_total := fo_total f + 1\<rparr>
          in bind_res
               (if wants_encryption c ep
                then bind_res (encryptmsg (pl_sodium P) (fo_cmsg f1) BUFSIZE msg len (pubkey ep)) (\<lambda>(cmsg, clen).
                       Inr (f1\<lparr>fo_cmsg := cmsg, fo_encrypted := fo_encrypted f1 + 1\<rparr>, cmsg, clen))
                else Inr (f1, msg, len))
               (\<lambda>(f2, send_msg, send_len).
             if length (endpoints c) \<le> unat (callerid c) then Inl Out_of_bounds
             else if (\<not> has_mode (ed_mode ep) B_DONOTSEND \<or> has_mode (ed_mode ep) B_USINGPROXY \<and> in_same_network c ep) \<and>
                has_mode (ed_mode ep) B_RECEIVEDOWNMIX_deprecated = has_mode (cl_mode c) B_SENDDOWNMIX_deprecated
             then Inr (fanout_send P send_msg send_len
                    (if sendlocal c \<and> in_same_network c ep then ed_localep ep else ed_ep ep) f2)
             else Inr f2)
        else Inr (f\<lparr>fo_server := True\<rparr>)
      else Inr f)"

fun recsrv_peers ::
  "platform \<Rightarrow> ovboxclient \<Rightarrow> byte list \<Rightarrow> nat \<Rightarrow> nat \<Rightarrow> ep_desc list \<Rightarrow> fanout \<Rightarrow> fanout res" where
  "recsrv_peers P c msg len ocid [] f = Inr f"
| "recsrv_peers P c msg len ocid (ep # eps) f =
     bind_res (recsrv_peer P c msg len ocid ep f) (\<lambda>f1. recsrv_peers P c msg len (ocid + 1) eps f1)"

text \<open>The copy for the relay server.\<close>

definition recsrv_server :: "platform \<Rightarrow> ovboxclient \<Rightarrow> byte list \<Rightarrow> nat \<Rightarrow> fanout \<Rightarrow> fanout res" where
  "recsrv_server P c msg len f =
     (let f1 = f\<lparr>fo_total := fo_total f + 1\<rparr>
      in bind_res
           (if has_mode (cl_mode c) B_ENCRYPTION \<and> srv_has_pubkey c
            then bind_res (encryptmsg (pl_sodium P) (fo_cmsg f1) BUFSIZE msg len (srv_pubkey c)) (\<lambda>(cmsg, clen).
                   Inr (f1\<lparr>fo_cmsg := cmsg, fo_encrypted := fo_encrypted f1 + 1\<rparr>, cmsg, clen))
            else Inr (f1, msg, len))
           (\<lambda>(f2, send_msg, send_len).
         let (n, r, out) = send_port (pl_kernel P) (fo_remote f2) send_msg send_len (toport c)
         in Inr (f2\<lparr>fo_remote := r, fo_out := fo_out f2 @ out\<rparr>)))"

text \<open>
  One iteration of \<open>recsrv\<close>; the three stack buffers are passed in and out. A datagram of
  length 0 and a timeout leave everything as it is.
\<close>

record recbufs =
  rb_buffer :: "byte list"
  rb_msg :: "byte list"
  rb_cmsg :: "byte list"

definition recbufs_ok :: "recbufs \<Rightarrow> bool" where
  "recbufs_ok b \<longleftrightarrow> length (rb_buffer b) = BUFSIZE \<and> length (rb_msg b) = BUFSIZE \<and>
     length (rb_cmsg b) = BUFSIZE + crypto_box_SEALBYTES"

definition recsrv_step ::
  "platform \<Rightarrow> ovboxclient \<Rightarrow> recbufs \<Rightarrow> (byte list \<times> endpoint) option \<Rightarrow> (ovboxclient \<times> recbufs \<times> dgram list) res" where
  "recsrv_step P c b inp =
     (let (n, l1, buffer, src) = recvfrom (local_server c) (rb_buffer b) BUFSIZE inp;
          c1 = c\<lparr>local_server := l1\<rparr>; b1 = b\<lparr>rb_buffer := buffer\<rparr>
      in if n > 0 then
           let (msg, len, r1) = ov_packmsg (remote_server c1) (rb_msg b1) BUFSIZE (recport c1 - portoffset c1) buffer (nat n);
               p2p = has_mode (cl_mode c1) B_PEER2PEER;
               f0 = \<lparr>fo_remote = r1, fo_cmsg = rb_cmsg b1, fo_out = [], fo_total = 0, fo_encrypted = 0, fo_server = \<not> p2p\<rparr>
           in bind_res (if p2p then recsrv_peers P c1 msg len 0 (endpoints c1) f0 else Inr f0) (\<lambda>f1.
              bind_res (if fo_server f1 then recsrv_server P c1 msg len f1 else Inr f1) (\<lambda>f2.
                Inr (c1\<lparr>remote_server := fo_remote f2, send_encrypt_any := fo_encrypted f2 > 0,
                        send_encrypt_all := fo_encrypted f2 > 0 \<and> fo_encrypted f2 = fo_total f2\<rparr>,
                     b1\<lparr>rb_msg := msg, rb_cmsg := fo_cmsg f2\<rparr>, fo_out f2)))
         else Inr (c1, b1, []))"

text \<open>
  \<open>xrecsrv\<close>, the receiver of an additional port, with its own local socket: its loop has no
  downmix test, sends to the server when a peer does not want data, and does not encrypt
  the server's copy.
\<close>

definition xrecsrv_peer ::
  "platform \<Rightarrow> ovboxclient \<Rightarrow> byte list \<Rightarrow> nat \<Rightarrow> nat \<Rightarrow> ep_desc \<Rightarrow> fanout \<Rightarrow> fanout res" where
  "xrecsrv_peer P c msg len ocid ep f =
     (if ed_timeout ep \<noteq> 0 \<and> ocid \<noteq> unat (callerid c) \<and> has_mode (ed_mode ep) B_PEER2PEER then
        bind_res
          (if wants_encryption c ep
           then bind_res (encryptmsg (pl_sodium P) (fo_cmsg f) BUFSIZE msg len (pubkey ep)) (\<lambda>(cmsg, clen).
                  Inr (f\<lparr>fo_cmsg := cmsg\<rparr>, cmsg, clen))
           else Inr (f, msg, len))
          (\<lambda>(f2, send_msg, send_len).
        if length (endpoints c) \<le> unat (callerid c) then Inl Out_of_bounds
        else if \<not> has_mode (ed_mode ep) B_DONOTSEND \<or> has_mode (ed_mode ep) B_USINGPROXY \<and> in_same_network c ep
        then Inr (fanout_send P send_msg send_len
               (if sendlocal c \<and> in_same_network c ep then ed_localep ep else ed_ep ep) f2)
        else Inr (f2\<lparr>fo_server := True\<rparr>))
      else Inr f)"

fun xrecsrv_peers ::
  "platform \<Rightarrow> ovboxclient \<Rightarrow> byte list \<Rightarrow> nat \<Rightarrow> nat \<Rightarrow> ep_desc list \<Rightarrow> fanout \<Rightarrow> fanout res" where
  "xrecsrv_peers P c msg len ocid [] f = Inr f"
| "xrecsrv_peers P c msg len ocid (ep # eps) f =
     bind_res (xrecsrv_peer P c msg len ocid ep f) (\<lambda>f1. xrecsrv_peers P c msg len (ocid + 1) eps f1)"

definition xrecsrv_step ::
  "platform \<Rightarrow> port_t \<Rightarrow> ovboxclient \<Rightarrow> udpsocket \<Rightarrow> recbufs \<Rightarrow> (byte list \<times> endpoint) option \<Rightarrow>
     (ovboxclient \<times> udpsocket \<times> recbufs \<times> dgram list) res" where
  "xrecsrv_step P destport c xs b inp =
     (let (n, l1, buffer, src) = recvfrom xs (rb_buffer b) BUFSIZE inp; b1 = b\<lparr>rb_buffer := buffer\<rparr>
      in if n > 0 then
           let (msg, len, r1) = ov_packmsg (remote_server c) (rb_msg b1) BUFSIZE destport buffer (nat n);
               p2p = has_mode (cl_mode c) B_PEER2PEER;
               f0 = \<lparr>fo_remote = r1, fo_cmsg = rb_cmsg b1, fo_out = [], fo_total = 0, fo_encrypted = 0, fo_server = \<not> p2p\<rparr>
           in bind_res (if p2p then xrecsrv_peers P c msg len 0 (endpoints c) f0 else Inr f0) (\<lambda>f1.
                let (r2, out) =
                      (if fo_server f1
                       then (let (k, r2, out) = send_port (pl_kernel P) (fo_remote f1) msg len (toport c) in (r2, out))
                       else (fo_remote f1, []))
                in Inr (c\<lparr>remote_server := r2\<rparr>, l1, b1\<lparr>rb_msg := msg, rb_cmsg := fo_cmsg f1\<rparr>, fo_out f1 @ out))
         else Inr (c, l1, b1, []))"

end
