(* ===== verification/Tascar_Types.thy ===== *)
theory Tascar_Types
  imports Render_Base Client
begin

text \<open>
  The renderer \<open>ov_render_tascar_t\<close> (\<open>ov_render_tascar.h\<close>, \<open>ov_render_tascar.cc\<close>): its members,
  the metronome, names and ports, and the queries. The TASCAR library is the record
  \<open>tascar_lib\<close>; its running session is represented by the document it was created from.
  Arithmetic on \<open>float\<close> and \<open>double\<close> is exact.
\<close>

section \<open>Numbers as text\<close>

text \<open>A floating-point value: results of \<open>log10\<close>, \<open>sqrt\<close> and of divisions may not be finite.\<close>

datatype flt = Num real | Plus_inf | Minus_inf | Nan

definition decibel :: "real \<Rightarrow> flt" where
  "decibel g = (if g > 0 then Num (20 * log 10 g) else if g = 0 then Minus_inf else Nan)"

definition flt_sqrt :: "real \<Rightarrow> flt" where
  "flt_sqrt x = (if x \<ge> 0 then Num (sqrt x) else Nan)"

definition flt_div :: "real \<Rightarrow> real \<Rightarrow> flt" where
  "flt_div a b = (if b \<noteq> 0 then Num (a / b) else if a > 0 then Plus_inf else if a < 0 then Minus_inf else Nan)"

text \<open>\<open>std::to_string\<close> of a floating-point number: six decimals, ties to even.\<close>

definition round_half_even :: "real \<Rightarrow> int" where
  "round_half_even x =
     (let f = \<lfloor>x\<rfloor>; d = x - of_int f
      in if d < 1 / 2 \<or> d = 1 / 2 \<and> even f then f else f + 1)"

definition show_fixed6 :: "real \<Rightarrow> string" where
  "show_fixed6 x =
     (let n = nat (round_half_even (\<bar>x\<bar> * 10 ^ 6)); frac = show_nat (n mod 10 ^ 6)
      in (if x < 0 then ''-'' else []) @ show_nat (n div 10 ^ 6) @ ''.'' @ replicate (6 - length frac) (CHR ''0'') @ frac)"

text \<open>The overloads of \<open>TASCAR::to_string\<close> and \<open>TASCAR::vecstr2str\<close>.\<close>

record tascar_lib =
  tl_num :: "flt \<Rightarrow> string"
  tl_uint :: "nat \<Rightarrow> string"
  tl_pos :: "pos \<Rightarrow> string"
  tl_rot :: "zyx_euler \<Rightarrow> string"
  tl_bool :: "bool \<Rightarrow> string"
  tl_vecstr :: "string list \<Rightarrow> string"

definition show_bool :: "bool \<Rightarrow> string" where
  "show_bool b = (if b then ''true'' else ''false'')"

section \<open>Ports and names\<close>

definition get_zitaport :: "stage_device_id_t \<Rightarrow> port_t \<Rightarrow> port_t \<Rightarrow> port_t" where
  "get_zitaport deviceid offset xoffset = 4464 + 2 * ucast deviceid + offset + xoffset"

definition ends_with :: "string \<Rightarrow> string \<Rightarrow> bool" where
  "ends_with fullString ending =
     (if length fullString \<ge> length ending
      then drop (length fullString - length ending) fullString = ending else False)"

definition starts_with :: "string \<Rightarrow> string \<Rightarrow> bool" where
  "starts_with fullString beginning =
     (if length fullString \<ge> length beginning then take (length beginning) fullString = beginning else False)"

text \<open>The output ports of the audio server that are not made by the session itself.\<close>

definition get_jack_input_ports :: "string list \<Rightarrow> string \<Rightarrow> string list" where
  "get_jack_input_ports pp_ports deviceid =
     filter (\<lambda>port. \<not> (ends_with port '':sync_out'' \<or> starts_with port (deviceid @ ''.main'') \<or>
         starts_with port (''levelanalysis.'' @ deviceid) \<or> starts_with port (deviceid @ ''.metronome'') \<or>
         ends_with port (''.'' @ deviceid @ '':out_1'') \<or> ends_with port (''.'' @ deviceid @ '':out_2'') \<or>
         ends_with port (''.'' @ deviceid @ '':out_3'') \<or> ends_with port (''.'' @ deviceid @ '':out_4'') \<or>
         starts_with port ''bus.'' \<and> ends_with port '':out.0'' \<or> starts_with port ''system:midi_''))
       pp_ports"

definition get_channel_source :: "device_channel \<Rightarrow> string" where
  "get_channel_source ch = ''bus.'' @ ch_id ch @ '':out.0''"

section \<open>The metronome\<close>

record metronome =
  mt_bpb :: "32 word"
  mt_bpm :: real
  mt_bypass :: bool
  mt_delay :: real
  mt_level :: real

definition metronome_ctor :: metronome where
  "metronome_ctor = \<lparr>mt_bpb = 4, mt_bpm = 120, mt_bypass = True, mt_delay = 40, mt_level = 65\<rparr>"

definition metronome_of_json :: "'j json_lib \<Rightarrow> 'j \<Rightarrow> err + metronome" where
  "metronome_of_json J js =
     bind_err (my_js_value J (get_i32 J) js ''bpb'' 4) (\<lambda>bpb.
     bind_err (my_js_value J (get_real J) js ''bpm'' 120) (\<lambda>bpm.
     bind_err (my_js_value J (get_bool J) js ''active'' False) (\<lambda>active.
     bind_err (my_js_value J (get_real J) js ''delay'' 40) (\<lambda>delay.
     bind_err (my_js_value J (get_real J) js ''level'' 65) (\<lambda>level.
       Inr \<lparr>mt_bpb = bpb, mt_bpm = bpm, mt_bypass = (\<not> active), mt_delay = delay, mt_level = level\<rparr>)))))"

definition metronome_neq :: "metronome \<Rightarrow> metronome \<Rightarrow> bool" where
  "metronome_neq b a \<longleftrightarrow> mt_bpb a \<noteq> mt_bpb b \<or> mt_bpm a \<noteq> mt_bpm b \<or> mt_bypass a \<noteq> mt_bypass b \<or>
     mt_delay a \<noteq> mt_delay b \<or> mt_level a \<noteq> mt_level b"

text \<open>\<open>set_xmlattr\<close>: the attributes of the metronome and of the delay.\<close>

definition metronome_attrs :: "metronome \<Rightarrow> (string \<times> string) list \<times> (string \<times> string) list" where
  "metronome_attrs m =
     ([(''bpm'', show_fixed6 (mt_bpm m)), (''bpb'', show_nat (unat (mt_bpb m))), (''bypass'', show_bool (mt_bypass m)),
       (''a1'', show_fixed6 (mt_level m)), (''ao'', show_fixed6 (mt_level m))],
      [(''delay'', ''0 '' @ show_fixed6 (mt_delay m / 1000))])"

text \<open>\<open>update_osc\<close>: the messages that are dispatched to the running session.\<close>

definition metronome_osc :: "metronome \<Rightarrow> string \<Rightarrow> (string \<times> real) list" where
  "metronome_osc m dev =
     map (\<lambda>(var, x). (''/'' @ dev @ ''.metronome/ap*/metronome/'' @ var, x))
       [(''bpm'', mt_bpm m), (''bypass'', if mt_bypass m then 1 else 0), (''bpb'', real (unat (mt_bpb m))),
        (''a1'', mt_level m), (''ao'', mt_level m)]"

section \<open>The members that the additional configuration sets\<close>

record tascar_config =
  tc_headtrack_tauref :: real
  tc_headtrack_eogpath :: string
  tc_headtrack_autorefzonly :: bool
  tc_selfmonitor_delay :: real
  tc_selfmonitor_onlyreverb :: bool
  tc_selfmonitor_active :: bool
  tc_metronome :: metronome
  tc_proxyclients :: "(stage_device_id_t, string) omap"
  tc_is_proxy :: bool
  tc_use_proxy :: bool
  tc_proxyip :: string
  tc_sorter_deadline :: real
  tc_expedited_forwarding_PHB :: bool
  tc_render_soundscape :: bool
  tc_tscinclude :: string
  tc_jackrec_fileformat :: string
  tc_jackrec_sampleformat :: string
  tc_zitasampleformat :: string
  tc_useloudspeaker :: bool
  tc_fdnforwardstages :: "32 word"
  tc_fdnorder :: "32 word"
  tc_echoc_maxdist :: real
  tc_echoc_nrep :: "32 word"
  tc_echoc_level :: real
  tc_echoc_filterlen :: "32 word"
  tc_emptysessionismonitor :: bool
  tc_mhaconfig :: string
  tc_usebcf2000 :: bool
  tc_start_webmixer :: bool
  tc_tuner_tuning :: string
  tc_tuner_f0 :: real
  tc_tuner_active :: bool
  tc_spkcalib_use :: bool
  tc_spkcalib_firlen :: "32 word"
  tc_spkcalib_vfreq :: string
  tc_spkcalib_vgainl :: string
  tc_spkcalib_vgainr :: string
  tc_reclevelanalyser :: bool
  tc_getoscvars :: bool

text \<open>The multicast receiver and sender.\<close>

record mczita_config =
  mc_mczita :: bool
  mc_mczitasend :: bool
  mc_mczitasendch :: "32 word"
  mc_mczitaaddr :: string
  mc_mczitaport :: "32 word"
  mc_mczitadevice :: string
  mc_mczitabuffer :: "32 word"
  mc_mczitachannels :: "32 word list"
  mc_mczita_autoconnect_rec :: bool

definition tascar_config_ctor :: tascar_config where
  "tascar_config_ctor =
     \<lparr>tc_headtrack_tauref = 8733327 / 2 ^ 18, tc_headtrack_eogpath = [], tc_headtrack_autorefzonly = False,
      tc_selfmonitor_delay = 0, tc_selfmonitor_onlyreverb = False, tc_selfmonitor_active = True,
      tc_metronome = metronome_ctor, tc_proxyclients = [], tc_is_proxy = False, tc_use_proxy = False, tc_proxyip = [],
      tc_sorter_deadline = 5, tc_expedited_forwarding_PHB = False, tc_render_soundscape = True, tc_tscinclude = [],
      tc_jackrec_fileformat = ''WAV'', tc_jackrec_sampleformat = ''PCM_16'', tc_zitasampleformat = ''16bit'',
      tc_useloudspeaker = False, tc_fdnforwardstages = 0, tc_fdnorder = 5, tc_echoc_maxdist = 4, tc_echoc_nrep = 64,
      tc_echoc_level = 60, tc_echoc_filterlen = 65, tc_emptysessionismonitor = False, tc_mhaconfig = [],
      tc_usebcf2000 = False, tc_start_webmixer = True, tc_tuner_tuning = ''equal'', tc_tuner_f0 = 440,
      tc_tuner_active = False, tc_spkcalib_use = False, tc_spkcalib_firlen = 1025, tc_spkcalib_vfreq = [],
      tc_spkcalib_vgainl = [], tc_spkcalib_vgainr = [], tc_reclevelanalyser = False, tc_getoscvars = False\<rparr>"

definition mczita_config_ctor :: mczita_config where
  "mczita_config_ctor =
     \<lparr>mc_mczita = False, mc_mczitasend = False, mc_mczitasendch = 1, mc_mczitaaddr = [], mc_mczitaport = 10007,
      mc_mczitadevice = [], mc_mczitabuffer = 10, mc_mczitachannels = [1, 2], mc_mczita_autoconnect_rec = False\<rparr>"

section \<open>The object\<close>

text \<open>Documents: elements with attributes and children in order, and text.\<close>

datatype xnode =
    Xelem (xname: string) (xattrs: "(string \<times> string) list") (xchildren: "xnode list")
  | Xtext string

text \<open>
  \<open>ts_h_jack\<close> and \<open>ts_h_webmixer\<close> are the commands of the processes, \<open>ts_tascar\<close> is the document
  of the running session.
\<close>

record tascar = render_base +
  ts_h_jack :: "string option"
  ts_h_webmixer :: "string option"
  ts_tascar :: "xnode option"
  ts_ovboxclient :: "ovboxclient option"
  ts_pinglogport :: port_t
  ts_inputports :: "string list"
  ts_cfg :: tascar_config
  ts_mc :: mczita_config
  ts_zitapath :: string
  ts_localip :: string
  ts_cb_seqerr :: bool
  ts_client_stats :: "(stage_device_id_t, client_stats) omap"
  ts_allow_systemmods :: bool
  ts_ego_source_names :: "string list"
  ts_secondary :: bool
  ts_dist_to_other_tascarport :: port_t
  ts_my_tascarport :: port_t
  ts_other_tascarport :: port_t
  ts_portoffset :: port_t
  ts_level_peak :: "(int, real list) omap"
  ts_level_ms :: "(int, real list) omap"

definition tascar_ctor :: "string \<Rightarrow> endpoint \<Rightarrow> string \<Rightarrow> port_t \<Rightarrow> bool \<Rightarrow> tascar" where
  "tascar_ctor zitapath ipaddr deviceid pinglogport secondary =
     render_base.extend
       ((render_base_ctor deviceid)\<lparr>ovr_audiodevice :=
          \<lparr>ad_drivername = ''jack'', ad_devicename = ''hw:1'', ad_srate = 48000, ad_periodsize = 96, ad_numperiods = 2,
           ad_priority = 40\<rparr>\<rparr>)
       \<lparr>ts_h_jack = None, ts_h_webmixer = None, ts_tascar = None, ts_ovboxclient = None, ts_pinglogport = pinglogport,
        ts_inputports = [''system:capture_1'', ''system:capture_2''], ts_cfg = tascar_config_ctor,
        ts_mc = mczita_config_ctor, ts_zitapath = zitapath, ts_localip = ep2ipstr ipaddr, ts_cb_seqerr = False,
        ts_client_stats = [], ts_allow_systemmods = False, ts_ego_source_names = [], ts_secondary = secondary,
        ts_dist_to_other_tascarport = (if secondary then 9870 + 64 else 9870),
        ts_my_tascarport = (if secondary then 9871 + 64 else 9871), ts_other_tascarport = 9871,
        ts_portoffset = (if secondary then 64 else 0), ts_level_peak = [], ts_level_ms = []\<rparr>"

definition set_allow_systemmods :: "bool \<Rightarrow> 'a tascar_scheme \<Rightarrow> 'a tascar_scheme" where
  "set_allow_systemmods allow r = r\<lparr>ts_allow_systemmods := allow\<rparr>"

definition set_zita_path :: "string \<Rightarrow> 'a tascar_scheme \<Rightarrow> 'a tascar_scheme" where
  "set_zita_path path r = r\<lparr>ts_zitapath := path\<rparr>"

definition get_zita_path :: "'a tascar_scheme \<Rightarrow> string" where "get_zita_path r = ts_zitapath r"

definition get_input_channel_ids :: "'a tascar_scheme \<Rightarrow> string list" where "get_input_channel_ids r = ts_inputports r"

definition tascar_set_seqerr_callback :: "bool \<Rightarrow> 'a tascar_scheme \<Rightarrow> 'a tascar_scheme" where
  "tascar_set_seqerr_callback f r = r\<lparr>ts_cb_seqerr := f\<rparr>"

text \<open>The name of a device on the stage; the empty name for a number that is not there.\<close>

definition get_stagedev_name :: "tascar_lib \<Rightarrow> stage_device_id_t \<Rightarrow> 'a render_base_scheme \<Rightarrow> string" where
  "get_stagedev_name T i r =
     (case map_of (stg_stage (ovr_stage r)) i of
        None \<Rightarrow> []
      | Some d \<Rightarrow> sd_label d @ ''_'' @ tl_uint T (unat i))"

text \<open>\<open>stage.stage[i]\<close>: the entry, and the stage in which it is present.\<close>

definition stage_entry :: "stage_device_id_t \<Rightarrow> 'a render_base_scheme \<Rightarrow> stage_device" where
  "stage_entry i r = fst (omap_index zero_device i (stg_stage (ovr_stage r)))"

definition touch_stage :: "stage_device_id_t \<Rightarrow> 'a render_base_scheme \<Rightarrow> 'a render_base_scheme" where
  "touch_stage i = upd_stage (\<lambda>s. s\<lparr>stg_stage := snd (omap_index zero_device i (stg_stage s))\<rparr>)"

end
