(* ===== verification/Tascar_Network.thy ===== *)
theory Tascar_Network
  imports Tascar_Types
begin

text \<open>
  The network part of the session document (\<open>ov_render_tascar.cc\<close>): receivers and senders of
  audio, the connections between ports, and the document of a device in raw mode.
\<close>

section \<open>The document under construction\<close>

text \<open>
  The children that were appended so far to the \<open>modules\<close> element at hand and to the \<open>session\<close>
  element behind it, and the list \<open>waitports\<close>.
\<close>

record doc =
  d_mods :: "xnode list"
  d_sess :: "xnode list"
  d_wait :: "string list"

definition empty_doc :: doc where "empty_doc = \<lparr>d_mods = [], d_sess = [], d_wait = []\<rparr>"

definition add_mod :: "string \<Rightarrow> (string \<times> string) list \<Rightarrow> xnode list \<Rightarrow> doc \<Rightarrow> doc" where
  "add_mod name attrs cs d = d\<lparr>d_mods := d_mods d @ [Xelem name attrs cs]\<rparr>"

definition add_wait :: "string \<Rightarrow> doc \<Rightarrow> doc" where
  "add_wait p d = d\<lparr>d_wait := d_wait d @ [p]\<rparr>"

definition session_add_connect :: "string \<Rightarrow> string \<Rightarrow> doc \<Rightarrow> doc" where
  "session_add_connect src dest d = d\<lparr>d_sess := d_sess d @ [Xelem ''connect'' [(''src'', src), (''dest'', dest)] []]\<rparr>"

definition session_add_waitforjackports :: "string \<Rightarrow> string list \<Rightarrow> bool \<Rightarrow> doc \<Rightarrow> doc" where
  "session_add_waitforjackports name waitports sleep d =
     (let d1 = add_mod ''waitforjackport'' [(''timeout'', ''5''), (''name'', name)]
                 (map (\<lambda>p. Xelem ''port'' [] [Xtext p]) waitports) d
      in if sleep then add_mod ''sleep'' [] [] d1 else d1)"

text \<open>The frame of the emission steps.\<close>

lemma doc_simps [simp]:
  "d_mods (add_mod n a c d) = d_mods d @ [Xelem n a c]" "d_sess (add_mod n a c d) = d_sess d" "d_wait (add_mod n a c d) = d_wait d"
  "d_mods (add_wait p d) = d_mods d" "d_sess (add_wait p d) = d_sess d" "d_wait (add_wait p d) = d_wait d @ [p]"
  "d_mods (session_add_connect s t d) = d_mods d" "d_wait (session_add_connect s t d) = d_wait d"
  "d_sess (session_add_connect s t d) = d_sess d @ [Xelem ''connect'' [(''src'', s), (''dest'', t)] []]"
  "d_mods empty_doc = []" "d_sess empty_doc = []" "d_wait empty_doc = []"
  by (simp_all add: add_mod_def add_wait_def session_add_connect_def empty_doc_def)

section \<open>Receivers\<close>

definition own_id :: "'a tascar_scheme \<Rightarrow> stage_device_id_t" where
  "own_id r = stg_thisstagedeviceid (ovr_stage r)"

definition settings :: "'a tascar_scheme \<Rightarrow> render_settings" where
  "settings r = stg_rendersettings (ovr_stage r)"

definition dev_id :: "'a tascar_scheme \<Rightarrow> string" where
  "dev_id r = stg_thisdeviceid (ovr_stage r)"

text \<open>The command line of \<open>ovzita-n2j\<close>.\<close>

definition n2j_command :: "tascar_lib \<Rightarrow> string \<Rightarrow> string \<Rightarrow> string \<Rightarrow> real \<Rightarrow> port_t \<Rightarrow> string" where
  "n2j_command T path chanlist jname buff portno =
     path @ ''ovzita-n2j --chan '' @ chanlist @ '' --jname '' @ jname @ '' --buf '' @ tl_num T (Num buff) @
     '' 0.0.0.0 '' @ tl_uint T (unat portno)"

text \<open>The connections of the secondary receiver, from channel \<open>c\<close> on.\<close>

fun secondary_connects :: "string \<Rightarrow> string \<Rightarrow> nat \<Rightarrow> 'c list \<Rightarrow> doc \<Rightarrow> doc" where
  "secondary_connects srcname clientname c [] d = d"
| "secondary_connects srcname clientname c (ch # chs) d =
     (let srcport = srcname @ '':out_'' @ show_nat (c + 1);
          destport = clientname @ '':in.'' @ show_nat c
      in secondary_connects srcname clientname (c + 1) chs (session_add_connect srcport destport (add_wait srcport d)))"

definition add_secondary_bus :: "tascar_lib \<Rightarrow> 'a tascar_scheme \<Rightarrow> stage_device \<Rightarrow> string \<Rightarrow> doc \<Rightarrow> doc" where
  "add_secondary_bus T r mem chanlist d =
     (let thisdev = stage_entry (own_id r) r;
          clientname = get_stagedev_name T (sd_id mem) r @ ''_sec'';
          netclientname = ''n2j_'' @ show_nat (unat (sd_id mem)) @ ''_sec'';
          buff = sd_receiverjitter thisdev + sd_senderjitter mem;
          d1 = (if \<not> sd_nozita mem
                then add_mod ''system''
                       [(''noshell'', ''true''), (''sleep'', ''0.2''),
                        (''command'', n2j_command T (ts_zitapath r) chanlist (netclientname @ ''.'' @ dev_id r)
                           (rs_secrec (settings r) + buff) (get_zitaport (sd_id mem) (ts_portoffset r) 100))] [] d
                else d);
          d2 = add_mod ''route'' [(''name'', clientname), (''channels'', show_nat (length (sd_channels mem))),
                 (''gain'', tl_num T (decibel (sd_gain mem)))] [] d1
      in if \<not> sd_nozita mem \<and> own_id r \<noteq> sd_id mem
         then secondary_connects (netclientname @ ''.'' @ dev_id r) clientname 0 (sd_channels mem) d2 else d2)"

fun channel_list :: "nat \<Rightarrow> 'c list \<Rightarrow> string" where
  "channel_list k [] = []"
| "channel_list k (ch # chs) = (if k \<noteq> 0 then '','' else []) @ show_nat (k + 1) @ channel_list (k + 1) chs"

text \<open>Raw mode: the \<open>n\<close> channels from \<open>c\<close> on, alternating between the two outputs.\<close>

fun raw_connects :: "string \<Rightarrow> string \<Rightarrow> string \<Rightarrow> bool \<Rightarrow> bool \<Rightarrow> nat \<Rightarrow> nat \<Rightarrow> 32 word \<times> doc \<Rightarrow> 32 word \<times> doc" where
  "raw_connects devid clientname n2jname own nozita c 0 (chcnt, d) = (chcnt, d)"
| "raw_connects devid clientname n2jname own nozita c (Suc n) (chcnt, d) =
     (let chcnt1 = chcnt + 1;
          srcport = clientname @ ''.'' @ devid @ '':out.'' @ show_nat c;
          destport = (if chcnt1 AND 1 \<noteq> 0 then ''main.'' @ devid @ '':in.0'' else ''main.'' @ devid @ '':in.1'');
          d1 = (if own then d
                else
                  let d2 = (if destport \<noteq> [] then session_add_connect srcport destport (add_wait srcport d) else d)
                  in if \<not> nozita then add_wait (n2jname @ '':out_'' @ show_nat (c + 1)) d2 else d2)
      in raw_connects devid clientname n2jname own nozita (c + 1) n (chcnt1, d1))"

text \<open>Otherwise: the channels go to the receiver; the ones without a name are numbered.\<close>

fun scene_connects :: "string \<Rightarrow> string \<Rightarrow> string \<Rightarrow> bool \<Rightarrow> nat \<Rightarrow> nat \<Rightarrow> device_channel list \<Rightarrow> doc \<Rightarrow> doc" where
  "scene_connects devid clientname n2jname own portnamenumber c [] d = d"
| "scene_connects devid clientname n2jname own portnamenumber c (ch # chs) d =
     (if own then scene_connects devid clientname n2jname own portnamenumber (c + 1) chs d
      else
        let srcport = n2jname @ '':out_'' @ show_nat (c + 1);
            unnamed = (ch_name ch = []);
            destport = devid @ ''.main:'' @ clientname @ ''.'' @ (if unnamed then show_nat portnamenumber else ch_name ch) @ ''.0''
        in scene_connects devid clientname n2jname own (if unnamed then portnamenumber + 1 else portnamenumber) (c + 1) chs
             (session_add_connect srcport destport (add_wait srcport d)))"

definition add_network_receiver :: "tascar_lib \<Rightarrow> 'a tascar_scheme \<Rightarrow> stage_device \<Rightarrow> 32 word \<times> doc \<Rightarrow> 32 word \<times> doc" where
  "add_network_receiver T r mem = (\<lambda>(chcnt, d).
     if \<not> rs_receive (settings r) then (chcnt, d)
     else
       let thisdev = stage_entry (own_id r) r;
           chanlist = (if sd_senddownmix mem then ''1,2'' else channel_list 0 (sd_channels mem))
       in if own_id r \<noteq> sd_id mem \<and> sd_senddownmix mem = sd_receivedownmix thisdev then
            let clientname = get_stagedev_name T (sd_id mem) r;
                raw = (rs_rawmode (settings r) \<or> sd_receivedownmix (stg_thisdevice (ovr_stage r)));
                n2jclientname = (if raw then ''n2j_'' else []) @ get_stagedev_name T (sd_id mem) r @ ''.'' @ dev_id r;
                d1 = (if \<not> sd_nozita mem
                      then add_mod ''system''
                             [(''sleep'', ''0.2''), (''noshell'', ''true''),
                              (''command'', n2j_command T (ts_zitapath r) chanlist n2jclientname
                                 (sd_receiverjitter thisdev + sd_senderjitter mem)
                                 (get_zitaport (sd_id mem) (ts_portoffset r) 0))] [] d
                      else d);
                memchannels = (if sd_senddownmix mem then 2 else length (sd_channels mem));
                (chcnt2, d2) =
                  (if raw then
                     raw_connects (dev_id r) clientname n2jclientname (own_id r = sd_id mem) (sd_nozita mem) 0 memchannels
                       (chcnt,
                        add_mod ''route''
                          ([(''name'', clientname @ ''.'' @ dev_id r), (''channels'', show_nat memchannels),
                            (''gain'', tl_num T (decibel (sd_gain mem)))] @
                           (if \<not> sd_nozita mem then [(''connect'', n2jclientname @ '':out_.*'')] else [])) [] d1)
                   else
                     (chcnt,
                      if \<not> sd_nozita mem
                      then scene_connects (dev_id r) clientname n2jclientname (own_id r = sd_id mem) 0 0 (sd_channels mem) d1
                      else d1))
            in (chcnt2,
                if rs_secrec (settings r) > 0 \<and> own_id r \<noteq> sd_id mem
                then add_secondary_bus T r mem chanlist d2 else d2)
          else (chcnt, d))"

text \<open>The loops over the stage; with \<open>senders_only\<close>, members without channels are left out.\<close>

fun network_receivers :: "tascar_lib \<Rightarrow> 'a tascar_scheme \<Rightarrow> bool \<Rightarrow> stage_map \<Rightarrow> 32 word \<times> doc \<Rightarrow> 32 word \<times> doc" where
  "network_receivers T r senders_only [] cd = cd"
| "network_receivers T r senders_only ((i, mem) # mems) cd =
     network_receivers T r senders_only mems
       (if senders_only \<and> sd_channels mem = [] then cd else add_network_receiver T r mem cd)"

section \<open>Connections of this device\<close>

text \<open>The channels of this device to the ports \<open>dest 0\<close>, \<open>dest 1\<close> and so on.\<close>

fun connect_channels :: "(nat \<Rightarrow> string) \<Rightarrow> nat \<Rightarrow> device_channel list \<Rightarrow> doc \<Rightarrow> doc" where
  "connect_channels dest chn [] d = d"
| "connect_channels dest chn (ch # chs) d =
     connect_channels dest (chn + 1) chs (session_add_connect (get_channel_source ch) (dest chn) d)"

text \<open>The delayed self monitor beside secondary receivers.\<close>

definition secondary_monitor :: "tascar_lib \<Rightarrow> 'a tascar_scheme \<Rightarrow> stage_device \<Rightarrow> doc \<Rightarrow> doc" where
  "secondary_monitor T r thisdev d =
     (let clientname = get_stagedev_name T (sd_id thisdev) r @ ''_sec'';
          delay = (rs_secrec (settings r) + sd_receiverjitter thisdev + sd_senderjitter thisdev) / 1000;
          d1 = add_mod ''route''
                 [(''name'', clientname), (''channels'', show_nat (length (sd_channels thisdev))),
                  (''gain'', tl_num T (decibel (sd_gain thisdev)))]
                 [Xelem ''plugins'' [] [Xelem ''delay'' [(''delay'', tl_num T (Num delay))] []]] d
      in connect_channels (\<lambda>chn. clientname @ '':in.'' @ show_nat chn) 0 (sd_channels thisdev) d1)"

text \<open>The command line of \<open>ovzita-j2n\<close> for \<open>n\<close> channels.\<close>

definition j2n_command :: "'a tascar_scheme \<Rightarrow> nat \<Rightarrow> string" where
  "j2n_command r n =
     ts_zitapath r @ ''ovzita-j2n --chan '' @ show_nat n @ '' --jname '' @ dev_id r @ ''_sender --'' @
     tc_zitasampleformat (ts_cfg r) @ '' 127.0.0.1 '' @ show_nat (unat (get_zitaport (own_id r) (ts_portoffset r) 0))"

definition add_sender :: "'a tascar_scheme \<Rightarrow> nat \<Rightarrow> doc \<Rightarrow> doc" where
  "add_sender r n = add_mod ''system'' [(''sleep'', ''0.2''), (''noshell'', ''true''), (''command'', j2n_command r n)] []"

fun raw_sender_connects :: "string \<Rightarrow> nat \<Rightarrow> device_channel list \<Rightarrow> doc \<Rightarrow> doc" where
  "raw_sender_connects devid chn [] d = d"
| "raw_sender_connects devid chn (ch # chs) d =
     (let p = devid @ ''_sender:in_'' @ show_nat (chn + 1)
      in raw_sender_connects devid (chn + 1) chs (add_wait p (session_add_connect (get_channel_source ch) p d)))"

section \<open>Calibration filters\<close>

definition speaker_node :: "tascar_config \<Rightarrow> string \<Rightarrow> xnode" where
  "speaker_node g gain =
     Xelem ''speaker'' [(''eqfirlen'', show_nat (unat (tc_spkcalib_firlen g))), (''eqfreq'', tc_spkcalib_vfreq g), (''eqgain'', gain)] []"

text \<open>\<open>add_spkcalib\<close>: the children that are appended; \<open>spkcalib_firlen\<close> is a signed number.\<close>

definition spkcalib_on :: "tascar_config \<Rightarrow> bool" where
  "spkcalib_on g \<longleftrightarrow> tc_spkcalib_use g \<and> 0 < sint (tc_spkcalib_firlen g)"

definition add_spkcalib :: "'a tascar_scheme \<Rightarrow> xnode list" where
  "add_spkcalib r =
     (if rs_rectype (settings r) = ''itu51'' then []
      else if spkcalib_on (ts_cfg r) then
        [Xelem ''plugins'' [] [Xelem ''spkcalib'' [] [Xelem ''layout'' []
           (speaker_node (ts_cfg r) (tc_spkcalib_vgainl (ts_cfg r)) #
            (if rs_rectype (settings r) \<noteq> ''omni'' then [speaker_node (ts_cfg r) (tc_spkcalib_vgainr (ts_cfg r))] else []))]]]
      else [])"

section \<open>Raw mode\<close>

text \<open>
  \<open>create_raw_dev\<close>: what is appended to the session, the \<open>modules\<close> element first. The entry of
  this device is present on the stage.
\<close>

definition raw_doc :: "tascar_lib \<Rightarrow> 'a tascar_scheme \<Rightarrow> doc" where
  "raw_doc T r =
     (let s = settings r; thisdev = stage_entry (own_id r) r; clname = ''main.'' @ dev_id r;
          d1 = (if rs_receive s then
                  let d1 = add_mod ''route''
                        [(''name'', clname), (''channels'', ''2''), (''gain'', tl_num T (decibel (rs_outputgain s)))]
                        (if spkcalib_on (ts_cfg r) then add_spkcalib r else []) empty_doc;
                      d2 = (if rs_outputport1 s \<noteq> [] then session_add_connect (clname @ '':out.0'') (rs_outputport1 s) d1 else d1)
                  in if rs_outputport2 s \<noteq> [] then session_add_connect (clname @ '':out.1'') (rs_outputport2 s) d2 else d2
                else empty_doc);
          (chcnt, d2) = network_receivers T r False (stg_stage (ovr_stage r)) (0, d1);
          d3 = (if rs_secrec s > 0 then secondary_monitor T r thisdev d2 else d2);
          d4 = (if sd_channels thisdev \<noteq> []
                then raw_sender_connects (dev_id r) 0 (sd_channels thisdev) (add_sender r (length (sd_channels thisdev)) d3)
                else d3)
      in session_add_waitforjackports (dev_id r @ ''.waitforports'') (d_wait d4) True d4)"

definition create_raw_dev :: "tascar_lib \<Rightarrow> 'a tascar_scheme \<Rightarrow> xnode list \<times> 'a tascar_scheme" where
  "create_raw_dev T r0 =
     (let r = touch_stage (own_id r0) r0; d = raw_doc T r
      in (Xelem ''modules'' [] (d_mods d) # d_sess d, r))"

end
