(* ===== verification/Tools.thy ===== *)
theory Tools
  imports Ov_Types Udp "HOL-Library.Sublist"
begin

text \<open>
  Helpers: text replacement and file access (\<open>ov_tools.cc\<close>), local file names of sounds and the
  list of sound devices (\<open>soundcardtools.cc\<close>, the ALSA branch), and the addresses of this device
  (\<open>udpsocket.cc\<close>, \<open>MACAddressUtility.cc\<close>, the Linux branches). What the operating system and
  ALSA return are parameters.
\<close>

section \<open>Searching and replacing\<close>

text \<open>\<open>std::string::find\<close>; \<open>None\<close> is \<open>npos\<close>.\<close>

fun str_find :: "string \<Rightarrow> string \<Rightarrow> nat option" where
  "str_find pat [] = (if pat = [] then Some 0 else None)"
| "str_find pat (c # cs) = (if prefix pat (c # cs) then Some 0 else map_option Suc (str_find pat cs))"

text \<open>The loop of \<open>ovstrrep\<close>; \<open>None\<close> means that it never ends.\<close>

partial_function (option) ovstrrep_loop :: "string \<Rightarrow> string \<Rightarrow> string \<Rightarrow> string \<Rightarrow> (string \<times> string) option" where
  "ovstrrep_loop pat rep s out =
     (case str_find pat s of
        None \<Rightarrow> Some (s, out)
      | Some pos \<Rightarrow>
          if pos < length s
          then ovstrrep_loop pat rep (drop (pos + length pat) s) (out @ take pos s @ rep)
          else Some (s, out))"

definition ovstrrep :: "string \<Rightarrow> string \<Rightarrow> string \<Rightarrow> string option" where
  "ovstrrep s pat rep = map_option (\<lambda>(s', out). out @ s') (ovstrrep_loop pat rep s [])"

definition get_file_contents :: "(string \<Rightarrow> string option) \<Rightarrow> string \<Rightarrow> string" where
  "get_file_contents open_file fname = (case open_file fname of None \<Rightarrow> [] | Some t \<Rightarrow> t)"

section \<open>What a search finds\<close>

lemma str_find_Some:
  assumes "str_find pat s = Some n"
  shows "n \<le> length s" and "prefix pat (drop n s)" and "\<forall>k<n. \<not> prefix pat (drop k s)"
proof -
  have "n \<le> length s \<and> prefix pat (drop n s) \<and> (\<forall>k<n. \<not> prefix pat (drop k s))"
    using assms
    by (induction pat s arbitrary: n rule: str_find.induct)
      (auto split: if_splits simp: less_Suc_eq_0_disj)
  then show "n \<le> length s" and "prefix pat (drop n s)" and "\<forall>k<n. \<not> prefix pat (drop k s)" by auto
qed

lemma str_find_None: "str_find pat s = None \<longleftrightarrow> (\<forall>k<Suc (length s). \<not> prefix pat (drop k s))"
  by (induction pat s rule: str_find.induct) (auto simp: All_less_Suc2)

lemma str_find_empty [simp]: "str_find [] s = Some 0"
  by (cases s) simp_all

lemma str_find_char: "str_find [c] s = None \<longleftrightarrow> c \<notin> set s"
  by (induction s) auto

lemma str_find_char_Some:
  "str_find [c] s = Some n \<Longrightarrow> n < length s \<and> s ! n = c \<and> c \<notin> set (take n s)"
  by (induction s arbitrary: n) (auto split: if_splits)

section \<open>Local file names\<close>

text \<open>The loop that erases everything up to each dot.\<close>

function after_last_dot :: "string \<Rightarrow> string" where
  "after_last_dot s = (case str_find ''.'' s of None \<Rightarrow> s | Some pos \<Rightarrow> after_last_dot (drop (pos + 1) s))"
  by pat_completeness auto

termination
  by (relation "measure length") (auto dest: str_find_char_Some)

declare after_last_dot.simps [simp del]

definition url2localfilename :: "(string \<Rightarrow> nat) \<Rightarrow> string \<Rightarrow> string" where
  "url2localfilename hash url =
     (if url = [] then url
      else
        let base = (case str_find ''?'' url of None \<Rightarrow> url | Some pos \<Rightarrow> take pos url);
            extension =
              (case str_find ''.'' base of
                 None \<Rightarrow> []
               | Some _ \<Rightarrow> (let e = after_last_dot base in if e \<noteq> [] then ''.'' @ e else e))
        in show_nat (hash url) @ extension)"

section \<open>Sound devices\<close>

record snddevname =
  snd_dev :: string
  snd_desc :: string

text \<open>
  A hint of ALSA is its name and description, as far as present; a card is what the calls for
  its number and its name return. \<open>None\<close> for the hints is an error of the call.
\<close>

definition first_line :: "string \<Rightarrow> string" where
  "first_line s = (case str_find [CHR 0x0A] s of None \<Rightarrow> s | Some pos \<Rightarrow> take pos s)"

fun hint_devices :: "(string option \<times> string option) list \<Rightarrow> snddevname list" where
  "hint_devices [] = []"
| "hint_devices ((Some name, Some desc) # hs) =
     (if take 3 name = ''hw:'' then [\<lparr>snd_dev = name, snd_desc = first_line desc\<rparr>] else []) @ hint_devices hs"
| "hint_devices (_ # hs) = hint_devices hs"

fun card_devices :: "(int \<times> int \<times> string option) list \<Rightarrow> snddevname list" where
  "card_devices [] = []"
| "card_devices ((ret, num, cname) # cs) =
     (if ret \<noteq> 0 \<or> num = -1 then []
      else (case cname of
              Some d \<Rightarrow> [\<lparr>snd_dev = ''hw:'' @ show_nat (nat num), snd_desc = d\<rparr>]
            | None \<Rightarrow> []) @ card_devices cs)"

definition list_sound_devices ::
  "(string option \<times> string option) list option \<Rightarrow> (int \<times> int \<times> string option) list \<Rightarrow> snddevname list" where
  "list_sound_devices hints cards =
     (case hints of
        None \<Rightarrow> []
      | Some hs \<Rightarrow> (let retv = hint_devices hs in if retv = [] then card_devices cards else retv))"

section \<open>Addresses of this device\<close>

definition hex_digit :: "nat \<Rightarrow> char" where
  "hex_digit n = (if n < 10 then char_of (48 + n) else char_of (87 + n))"

definition hex2 :: "byte \<Rightarrow> string" where
  "hex2 b = [hex_digit (unat b div 16), hex_digit (unat b mod 16)]"

text \<open>
  An interface, with the answers of the calls for its flags (is it a loopback device?) and its
  hardware address.
\<close>

record iface =
  if_loopback :: "bool option"
  if_hwaddr :: "byte list option"

fun find_hwaddr :: "iface list \<Rightarrow> byte list option" where
  "find_hwaddr [] = None"
| "find_hwaddr (i # is) =
     (case if_loopback i of
        None \<Rightarrow> None
      | Some True \<Rightarrow> find_hwaddr is
      | Some False \<Rightarrow>
          (case if_hwaddr i of
             None \<Rightarrow> find_hwaddr is
           | Some a \<Rightarrow> if a ! 0 \<noteq> 0x02 \<or> a ! 1 \<noteq> 0x42 then Some a else find_hwaddr is))"

definition getmacaddr :: "bool \<Rightarrow> iface list option \<Rightarrow> string" where
  "getmacaddr socket_ok ifs =
     (if \<not> socket_ok then []
      else case ifs of
        None \<Rightarrow> []
      | Some is \<Rightarrow> (case find_hwaddr is of None \<Rightarrow> [] | Some a \<Rightarrow> concat (map hex2 (take 6 a))))"

text \<open>\<open>GetMACAddressLinux\<close>: the return value and the buffer of six bytes.\<close>

fun find_hwaddr_linux :: "iface list \<Rightarrow> byte list option" where
  "find_hwaddr_linux [] = None"
| "find_hwaddr_linux (i # is) =
     (if if_loopback i = Some False
      then (case if_hwaddr i of None \<Rightarrow> find_hwaddr_linux is | Some a \<Rightarrow> Some a)
      else find_hwaddr_linux is)"

definition GetMACAddressLinux :: "bool \<Rightarrow> iface list \<Rightarrow> byte list \<Rightarrow> int \<times> byte list" where
  "GetMACAddressLinux socket_ok is result =
     (if \<not> socket_ok then (-1, result)
      else case find_hwaddr_linux is of None \<Rightarrow> (-1, result) | Some a \<Rightarrow> (0, blit 0 (take 6 a) result))"

definition GetMACAddress :: "bool \<Rightarrow> iface list \<Rightarrow> byte list \<Rightarrow> int \<times> byte list" where
  "GetMACAddress socket_ok is result = GetMACAddressLinux socket_ok is (blit 0 (replicate 6 0) result)"

text \<open>An entry of \<open>getifaddrs\<close>: its name, its address if there is one, and the loopback flag.\<close>

record ifaddr =
  ifa_name :: string
  ifa_addr :: "endpoint option"
  ifa_loopback :: bool

fun getipaddr :: "ifaddr list \<Rightarrow> endpoint" where
  "getipaddr [] = zero_endpoint"
| "getipaddr (t # ts) =
     (case ifa_addr t of
        Some a \<Rightarrow> if sin_family a = AF_INET \<and> \<not> ifa_loopback t then a else getipaddr ts
      | None \<Rightarrow> getipaddr ts)"

fun getnetworkdevices :: "ifaddr list \<Rightarrow> string list" where
  "getnetworkdevices [] = []"
| "getnetworkdevices (t # ts) =
     (case ifa_addr t of
        Some a \<Rightarrow> (if sin_family a = AF_INET then [ifa_name t] else []) @ getnetworkdevices ts
      | None \<Rightarrow> getnetworkdevices ts)"

text \<open>
  \<open>bin2base64\<close>: libsodium's length counts the terminating zero, and the string keeps it.
\<close>

definition bin2base64 :: "(byte list \<Rightarrow> string) \<Rightarrow> byte list \<Rightarrow> nat \<Rightarrow> string" where
  "bin2base64 base64 data len = base64 (take len data) @ [CHR 0x00]"

section \<open>Replacing, as a function on the text\<close>

function replace_all :: "string \<Rightarrow> string \<Rightarrow> string \<Rightarrow> string" where
  "replace_all pat rep [] = []"
| "replace_all pat rep (c # cs) =
     (if pat \<noteq> [] \<and> prefix pat (c # cs) then rep @ replace_all pat rep (drop (length pat) (c # cs))
      else c # replace_all pat rep cs)"
  by pat_completeness auto

termination
  by (relation "measure (\<lambda>(pat, rep, s). length s)") (auto simp: neq_Nil_conv)

lemma replace_all_none: "str_find pat s = None \<Longrightarrow> replace_all pat rep s = s"
  by (induction pat s rule: str_find.induct) (auto split: if_splits)

lemma replace_all_some:
  "pat \<noteq> [] \<Longrightarrow> str_find pat s = Some n \<Longrightarrow>
   replace_all pat rep s = take n s @ rep @ replace_all pat rep (drop (n + length pat) s)"
  by (induction pat s arbitrary: n rule: str_find.induct) (auto split: if_splits)

lemma ovstrrep_loop_replaces:
  assumes "pat \<noteq> []"
  shows "map_option (\<lambda>(s', out). out @ s') (ovstrrep_loop pat rep s out) = Some (out @ replace_all pat rep s)"
proof (induction "length s" arbitrary: s out rule: less_induct)
  case less
  show ?case
  proof (cases "str_find pat s")
    case None
    then show ?thesis by (simp add: ovstrrep_loop.simps [of pat rep s] replace_all_none)
  next
    case (Some n)
    then have "prefix pat (drop n s)" by (rule str_find_Some)
    with assms have n: "n < length s" by (cases "n < length s") auto
    then have "length (drop (n + length pat) s) < length s" using assms by (cases pat) auto
    from less [OF this, of "out @ take n s @ rep"] show ?thesis using Some n assms
      by (simp add: ovstrrep_loop.simps [of pat rep s] replace_all_some)
  qed
qed

lemma ovstrrep_loop_empty_pattern:
  assumes "ovstrrep_loop pat rep s out = Some r"
  shows "\<not> (pat = [] \<and> s \<noteq> [])"
proof (rule ovstrrep_loop.raw_induct [where P = "\<lambda>pat rep s out r. \<not> (pat = [] \<and> s \<noteq> [])", OF _ assms])
  fix loop :: "string \<Rightarrow> string \<Rightarrow> string \<Rightarrow> string \<Rightarrow> (string \<times> string) option" and pat rep s out r
  assume IH: "\<And>pat rep s out r. loop pat rep s out = Some r \<Longrightarrow> \<not> (pat = [] \<and> s \<noteq> [])"
    and body: "(case str_find pat s of None \<Rightarrow> Some (s, out)
      | Some pos \<Rightarrow> if pos < length s then loop pat rep (drop (pos + length pat) s) (out @ take pos s @ rep)
          else Some (s, out)) = Some r"
  show "\<not> (pat = [] \<and> s \<noteq> [])"
  proof
    assume "pat = [] \<and> s \<noteq> []"
    with body have "loop [] rep s (out @ rep) = Some r" and "s \<noteq> []" by auto
    with IH show False by blast
  qed
qed

section \<open>File names\<close>

lemma after_last_dot_eq: "after_last_dot s = rev (takeWhile (\<lambda>c. c \<noteq> CHR ''.'') (rev s))"
proof (induction s rule: after_last_dot.induct)
  case (1 s)
  show ?case
  proof (cases "str_find ''.'' s")
    case None
    then have "CHR ''.'' \<notin> set (rev s)" by (simp add: str_find_char)
    then have "rev (takeWhile (\<lambda>c. c \<noteq> CHR ''.'') (rev s)) = s" by (subst takeWhile_eq_all_conv [THEN iffD2]) auto
    moreover have "after_last_dot s = s" using None by (simp add: after_last_dot.simps [of s])
    ultimately show ?thesis by simp
  next
    case (Some n)
    then have "n < length s" and "s ! n = CHR ''.''" using str_find_char_Some by auto
    then have s: "s = take n s @ CHR ''.'' # drop (n + 1) s" using id_take_nth_drop [of n s] by simp
    have "takeWhile (\<lambda>c. c \<noteq> CHR ''.'') (rev s) = takeWhile (\<lambda>c. c \<noteq> CHR ''.'') (rev (drop (n + 1) s))"
      by (subst s) (auto simp: takeWhile_append takeWhile_eq_all_conv [THEN iffD2])
    then show ?thesis using Some 1 by (simp add: after_last_dot.simps [of s])
  qed
qed

lemma cut_at_char: "(case str_find [c] s of None \<Rightarrow> s | Some n \<Rightarrow> take n s) = takeWhile (\<lambda>x. x \<noteq> c) s"
  by (induction s) (auto split: option.splits)

section \<open>Properties\<close>

text \<open>C32. Text replacement: the loop computes the replacement of all occurrences, from left to right and
  without overlap, for every pattern, text and replacement, except that it never ends for an
  empty pattern in a text that is not empty.\<close>

theorem ovstrrep_replaces:
  "ovstrrep s pat rep = (if pat = [] \<and> s \<noteq> [] then None else Some (replace_all pat rep s))"
proof (cases "pat = []")
  case True
  show ?thesis
  proof (cases s)
    case Nil
    then show ?thesis using True by (simp add: ovstrrep_def ovstrrep_loop.simps [of "[]" rep "[]"])
  next
    case (Cons c cs)
    then have "ovstrrep_loop pat rep s [] = None"
      using True ovstrrep_loop_empty_pattern [of pat rep s "[]"] by (cases "ovstrrep_loop pat rep s []") auto
    then show ?thesis using True Cons by (simp add: ovstrrep_def)
  qed
next
  case False
  then show ?thesis using ovstrrep_loop_replaces [of pat rep s "[]"] by (simp add: ovstrrep_def)
qed

text \<open>Local names of sounds: the name is the hash of the complete address, followed by a dot and what
  comes after the last dot of the address without its query, if there is such a dot and
  something comes after it.\<close>

theorem local_filename:
  "url2localfilename hash url =
     (if url = [] then []
      else
        let base = takeWhile (\<lambda>c. c \<noteq> CHR ''?'') url;
            ext = rev (takeWhile (\<lambda>c. c \<noteq> CHR ''.'') (rev base))
        in show_nat (hash url) @ (if CHR ''.'' \<in> set base \<and> ext \<noteq> [] then CHR ''.'' # ext else []))"
proof -
  let ?b = "takeWhile (\<lambda>c. c \<noteq> CHR ''?'') url"
  have "str_find ''.'' ?b = None \<longleftrightarrow> CHR ''.'' \<notin> set ?b" by (rule str_find_char)
  then show ?thesis
    by (cases "str_find ''.'' ?b") (simp_all add: url2localfilename_def after_last_dot_eq cut_at_char Let_def)
qed

text \<open>An address without a suffix keeps the rest of the host name and its path.\<close>

lemma local_filename_of_path:
  "url2localfilename hash ''http://host.org/a'' = show_nat (hash ''http://host.org/a'') @ ''.org/a''"
  unfolding url2localfilename_def by (simp add: after_last_dot.simps)

end
