(* ===== verification/Tascar_Scene.thy ===== *)
theory Tascar_Scene
  imports Tascar_Network Tools
begin

text \<open>
  The acoustic scene of a session (\<open>create_virtual_acoustics\<close> and its helpers in
  \<open>ov_render_tascar.cc\<close>): the receiver, a source for each sending device, the room, the
  ambient sound, and the modules and connections of the network.
\<close>

section \<open>Environment\<close>

text \<open>TASCAR's conversions, the test whether a file can be opened, and \<open>std::hash\<close>.\<close>

record scene_env =
  en_tsc :: tascar_lib
  en_good :: "string \<Rightarrow> bool"
  en_hash :: "string \<Rightarrow> nat"

section \<open>Reverberation and level meter\<close>

text \<open>\<open>configure_simplefdn\<close>; the caller may append attributes.\<close>

definition simplefdn_attrs :: "tascar_lib \<Rightarrow> 'a tascar_scheme \<Rightarrow> (string \<times> string) list" where
  "simplefdn_attrs T r =
     (let s = settings r in
      [(''name'', ''reverb''), (''id'', ''reverb''), (''type'', ''simplefdn''),
       (''volumetric'', tl_pos T (rs_roomsize s)), (''forwardstages'', tl_uint T (unat (tc_fdnforwardstages (ts_cfg r)))),
       (''gainmethod'', ''original''), (''image'', ''false''), (''fdnorder'', tl_uint T (unat (tc_fdnorder (ts_cfg r)))),
       (''lowcut'', ''125''), (''truncate_forward'', ''true''), (''dw'', ''60''),
       (''absorption'', tl_num T (Num (rs_absorption s))), (''damping'', tl_num T (Num (rs_damping s))),
       (''gain'', tl_num T (decibel (rs_reverbgain s)))])"

definition configure_simplefdn :: "tascar_lib \<Rightarrow> 'a tascar_scheme \<Rightarrow> bool \<Rightarrow> xnode" where
  "configure_simplefdn T r withdistance =
     Xelem ''reverb''
       (simplefdn_attrs T r @ (if withdistance then [(''volumetricgainwithdistance'', ''true'')] else [])) []"

fun meter_connects :: "string \<Rightarrow> nat \<Rightarrow> device_channel list \<Rightarrow> doc \<Rightarrow> doc" where
  "meter_connects clientname chn [] d = d"
| "meter_connects clientname chn (ch # chs) d =
     meter_connects clientname (chn + 1) chs
       (session_add_connect (ch_sourceport ch) (clientname @ '':in.'' @ show_nat chn) d)"

definition create_levelmeter_route :: "'a tascar_scheme \<Rightarrow> doc \<Rightarrow> doc" where
  "create_levelmeter_route r d =
     (let thisdev = stg_thisdevice (ovr_stage r); clientname = sd_uid thisdev @ ''.levelanalysis''
      in meter_connects clientname 0 (sd_channels thisdev)
           (add_mod ''route''
             [(''name'', clientname), (''channels'', show_nat (get_num_inputs r)), (''caliblevel_in'', ''93.9794001'')]
             [Xelem ''plugins'' [] [Xelem ''reclevelanalyzer''
                [(''triggered'', ''true''), (''tau_segment'', ''0.125''), (''tau_analysis'', ''25.0''),
                 (''path'', ''/reclevelanalyzer'')] []]] d))"

section \<open>Sound sources\<close>

text \<open>
  One channel of a source: \<open>ego\<close> tells whether it belongs to this device, \<open>k\<close> counts the
  channels. The second result is the name under which the source is connected to the metronome.
\<close>

definition f06 :: real where "f06 = 10066330 / 2 ^ 24"

definition sound_gain :: "'a tascar_scheme \<Rightarrow> bool \<Rightarrow> stage_device \<Rightarrow> device_channel \<Rightarrow> real" where
  "sound_gain r ego mem ch =
     (let gain = ch_gain ch * sd_gain mem
      in if ego then (if rs_egogain (settings r) = 0 then gain else gain * rs_egogain (settings r))
         else if \<not> rs_distancelaw (settings r) then gain * f06 else gain)"

definition directivity_attrs :: "device_channel \<Rightarrow> (string \<times> string) list" where
  "directivity_attrs ch =
     (if ch_directivity ch = ''omni'' then [(''type'', ''omni'')] else []) @
     (if ch_directivity ch = ''cardioid'' then [(''type'', ''cardioidmod'')] else [])"

definition scene_sound :: "tascar_lib \<Rightarrow> 'a tascar_scheme \<Rightarrow> bool \<Rightarrow> stage_device \<Rightarrow> device_channel \<Rightarrow> xnode" where
  "scene_sound T r ego mem ch =
     (let s = settings r; g = ts_cfg r in
      Xelem ''sound''
        ([(''maxdist'', ''50'')] @ (if \<not> rs_distancelaw s then [(''gainmodel'', ''1'')] else []) @ [(''id'', ch_id ch)] @
         (if ego \<and> tc_selfmonitor_active g \<and> \<not> tc_useloudspeaker g
          then [(''connect'', apos @ get_channel_source ch @ apos)] else []) @
         (if ego \<and> rs_egogain s = 0 then [(''mute'', ''true'')] else []) @
         [(''gain'', tl_num T (decibel (sound_gain r ego mem ch))), (''x'', tl_num T (Num (pos_x (ch_position ch)))),
          (''y'', tl_num T (Num (pos_y (ch_position ch)))), (''z'', tl_num T (Num (pos_z (ch_position ch))))] @
         (if ch_name ch \<noteq> [] then [(''name'', ch_name ch)] else []) @ directivity_attrs ch @
         (if ego \<and> tc_selfmonitor_onlyreverb g then [(''layers'', ''2'')] else []))
        (if ego \<and> tc_selfmonitor_delay g > 0
         then [Xelem ''plugins'' [] [Xelem ''delay'' [(''delay'', tl_num T (Num (tc_selfmonitor_delay g / 1000)))] []]]
         else []))"

definition ego_name :: "nat \<Rightarrow> device_channel \<Rightarrow> string" where
  "ego_name k ch = ''ego.'' @ (if ch_name ch \<noteq> [] then ch_name ch else show_nat k) @ ''.0''"

fun ego_names :: "nat \<Rightarrow> device_channel list \<Rightarrow> string list" where
  "ego_names k [] = []"
| "ego_names k (ch # chs) = ego_name k ch # ego_names (k + 1) chs"

text \<open>
  The loop over the stage: \<open>az\<close> is the direction of the last source of a device that only
  listens; \<open>daz\<close> is not used when such a device is alone on the stage.
\<close>

definition spread_step :: "bool \<Rightarrow> stage_map \<Rightarrow> real" where
  "spread_step b_sender m = 160 / (real (length m) - (if b_sender then 0 else 1)) * (pi / 180)"

definition shown_source :: "bool \<Rightarrow> stage_device \<Rightarrow> stage_device \<Rightarrow> bool" where
  "shown_source b_sender thisdev mem \<longleftrightarrow> sd_channels mem \<noteq> [] \<and> (b_sender \<or> sd_id mem \<noteq> sd_id thisdev) \<and>
     (\<not> sd_senddownmix mem \<or> sd_id mem = sd_id thisdev)"

fun scene_sources ::
  "tascar_lib \<Rightarrow> 'a tascar_scheme \<Rightarrow> bool \<Rightarrow> stage_device \<Rightarrow> real \<Rightarrow> real \<Rightarrow> stage_map \<Rightarrow> xnode list \<times> string list" where
  "scene_sources T r b_sender thisdev daz az [] = ([], [])"
| "scene_sources T r b_sender thisdev daz az ((i, mem) # mems) =
     (if shown_source b_sender thisdev mem then
        let az1 = (if b_sender then az else az + daz);
            p = (if b_sender then sd_position mem
                 else \<lparr>pos_x = 12 / 10 * cos az1, pos_y = - (12 / 10) * sin az1, pos_z = 0\<rparr>);
            rot = (if b_sender then sd_orientation mem else \<lparr>rot_z = 180 / pi * (- az1 + pi), rot_y = 0, rot_x = 0\<rparr>);
            ego = (sd_id mem = sd_id thisdev);
            src = Xelem ''source''
              [(''name'', if ego then ''ego'' else get_stagedev_name T (sd_id mem) r), (''dlocation'', tl_pos T p)]
              (Xelem ''orientation'' [] [Xtext (''0 '' @ tl_rot T rot)] # map (scene_sound T r ego mem) (sd_channels mem));
            (srcs, names) = scene_sources T r b_sender thisdev daz az1 mems
        in (src # srcs, (if ego then ego_names 0 (sd_channels mem) else []) @ names)
      else scene_sources T r b_sender thisdev daz az mems)"

definition scene_room :: "scene_env \<Rightarrow> 'a tascar_scheme \<Rightarrow> xnode list" where
  "scene_room E r =
     (let T = en_tsc E; s = settings r; hashname = url2localfilename (en_hash E) (rs_ambientsound s) in
      (if rs_renderism s
       then [Xelem ''facegroup''
               [(''name'', ''room''), (''shoebox'', tl_pos T (rs_roomsize s)),
                (''reflectivity'', tl_num T (flt_sqrt (1 - rs_absorption s))), (''damping'', tl_num T (Num (rs_damping s)))] []]
       else []) @
      (if rs_renderreverb s then [configure_simplefdn T r (sd_channels (stg_thisdevice (ovr_stage r)) = [])] else []) @
      (if rs_ambientsound s \<noteq> [] \<and> tc_render_soundscape (ts_cfg r) \<and> en_good E hashname
       then [Xelem ''diffuse'' [(''name'', ''ambient''), (''size'', tl_pos T (rs_roomsize s))]
               [Xelem ''plugins'' []
                  [Xelem ''sndfile''
                     [(''name'', hashname), (''level'', tl_num T (Num (rs_ambientlevel s))), (''loop'', ''0''),
                      (''transport'', ''false''), (''channelorder'', ''FuMa''), (''license'', ''CC0''),
                      (''resample'', ''true'')] [],
                   Xelem ''gain'' [] []]]]
       else []))"

section \<open>Modules of the scene\<close>

text \<open>The network sender of a device with channels, and its metronome.\<close>

fun sender_connects ::
  "'a tascar_scheme \<Rightarrow> string list \<Rightarrow> nat \<Rightarrow> device_channel list \<Rightarrow> doc \<Rightarrow> doc" where
  "sender_connects r names chn [] d = d"
| "sender_connects r names chn (ch # chs) d =
     (let zita = \<not> sd_nozita (stg_thisdevice (ovr_stage r));
          p = dev_id r @ ''_sender:in_'' @ show_nat (chn + 1); metro = dev_id r @ ''.metronome:out.'';
          d1 = (if zita then session_add_connect (metro @ ''0'') p (session_add_connect (get_channel_source ch) p d) else d);
          d2 = (if rs_receive (settings r) \<and> chn < length names
                then session_add_connect (metro @ ''1'') (dev_id r @ ''.main:'' @ names ! chn) d1 else d1);
          d3 = (if zita then add_wait p d2 else d2)
      in sender_connects r names (chn + 1) chs d3)"

definition metronome_route :: "'a tascar_scheme \<Rightarrow> doc \<Rightarrow> doc" where
  "metronome_route r =
     (let (em, ed) = metronome_attrs (tc_metronome (ts_cfg r))
      in add_mod ''route'' [(''name'', dev_id r @ ''.metronome''), (''channels'', ''2'')]
           [Xelem ''plugins'' [] [Xelem ''metronome'' em [], Xelem ''delay'' ed []]])"

definition scene_sender :: "'a tascar_scheme \<Rightarrow> stage_device \<Rightarrow> string list \<Rightarrow> doc \<Rightarrow> doc" where
  "scene_sender r thisdev names d =
     (let own = stg_thisdevice (ovr_stage r) in
      if sd_channels thisdev \<noteq> [] \<and> \<not> sd_senddownmix own then
        let d1 = metronome_route r d;
            d2 = (if \<not> sd_nozita own then add_sender r (length (sd_channels thisdev)) d1 else d1)
        in sender_connects r names 0 (sd_channels thisdev) d2
      else d)"

definition downmix_sender :: "'a tascar_scheme \<Rightarrow> doc \<Rightarrow> doc" where
  "downmix_sender r d =
     (let own = stg_thisdevice (ovr_stage r) in
      if sd_senddownmix own \<and> rs_receive (settings r) \<and> \<not> sd_nozita own then
        session_add_connect (dev_id r @ ''.main:main_r'') (dev_id r @ ''_sender:in_2'')
          (session_add_connect (dev_id r @ ''.main:main_l'') (dev_id r @ ''_sender:in_1'') (add_sender r 2 d))
      else d)"

definition headtracker :: "tascar_lib \<Rightarrow> 'a tascar_scheme \<Rightarrow> stage_device \<Rightarrow> doc \<Rightarrow> doc" where
  "headtracker T r thisdev d =
     (let s = settings r; g = ts_cfg r in
      if rs_headtracking s \<and> rs_receive s then
        add_mod (if rs_headtrackingserial s then ''serialheadtracker'' else ''oscheadtracker'')
          ((if rs_headtrackingport s > 0
            then [(''url'', ''osc.udp://localhost:'' @ show_nat (unat (rs_headtrackingport s)) @ ''/'')] else []) @
           (if rs_headtrackingrotsrc s
            then [(''roturl'', ''osc.udp://localhost:'' @ show_nat (unat (ts_dist_to_other_tascarport r)) @ ''/''),
                  (''rotpath'', ''/*/'' @ get_stagedev_name T (sd_id thisdev) r @ ''/zyxeuler'')] else []) @
           [(''actor'', tl_vecstr T
               ((if rs_headtrackingrotrec s then [''/main/main''] else []) @ (if rs_headtrackingrotsrc s then [''/main/ego''] else []))),
            (''autoref'', if tc_headtrack_tauref g > 0 then show_fixed6 (1 - exp (- 1 / (30 * tc_headtrack_tauref g))) else ''0''),
            (''autoref_zonly'', show_bool (tc_headtrack_autorefzonly g)), (''smooth'', ''0.01'')] @
           (if \<not> rs_headtrackingserial s then [(''eogpath'', tc_headtrack_eogpath g)] else []) @
           [(''name'', dev_id r), (''apply_rot'', show_bool (rs_headtrackingrotrec s \<or> rs_headtrackingrotsrc s)),
            (''apply_loc'', ''false'')]) [] d
      else d)"

fun mic_ports :: "device_channel list \<Rightarrow> string" where
  "mic_ports [] = []"
| "mic_ports (ch # chs) = ch_sourceport ch @ '' '' @ mic_ports chs"

definition echo_canceller :: "tascar_lib \<Rightarrow> 'a tascar_scheme \<Rightarrow> stage_device \<Rightarrow> doc \<Rightarrow> doc" where
  "echo_canceller T r thisdev d =
     (let s = settings r; g = ts_cfg r;
          spkports = rs_outputport1 s @ '' '' @ rs_outputport2 s;
          micports = butlast (mic_ports (sd_channels thisdev))
      in if tc_useloudspeaker g \<and> spkports \<noteq> [] \<and> micports \<noteq> [] then
           add_mod ''echoc''
             [(''autoreconnect'', ''true''), (''measureatstart'', ''true''), (''loudspeakerports'', spkports),
              (''micports'', micports), (''premax'', ''16''), (''level'', tl_num T (Num (tc_echoc_level g))),
              (''nrep'', show_nat (unat (tc_echoc_nrep g))), (''maxdist'', tl_num T (Num (tc_echoc_maxdist g))),
              (''filterlen'', show_nat (unat (tc_echoc_filterlen g)))] [] d
         else d)"

definition pos_sender :: "'a tascar_scheme \<Rightarrow> doc \<Rightarrow> doc" where
  "pos_sender r d =
     (if \<not> rs_rawmode (settings r) then
        add_mod ''pos2osc''
          [(''url'', ''osc.udp://localhost:9000''), (''mode'', ''2''), (''addparentname'', ''true''),
           (''sendsounds'', ''true''), (''taumin'', ''0.1''), (''transport'', ''false'')] [] d
      else d)"

text \<open>All modules and connections, for a stage on which this device is present.\<close>

definition scene_doc :: "tascar_lib \<Rightarrow> 'a tascar_scheme \<Rightarrow> doc" where
  "scene_doc T r =
     (let s = settings r; thisdev = stage_entry (own_id r) r;
          (chcnt, d1) = network_receivers T r True (stg_stage (ovr_stage r)) (0, empty_doc);
          d2 = (if rs_secrec s > 0 \<and> sd_channels thisdev \<noteq> [] then secondary_monitor T r thisdev d1 else d1);
          d3 = downmix_sender r (scene_sender r thisdev (ts_ego_source_names r) d2);
          d4 = session_add_waitforjackports (dev_id r @ ''.waitforports'') (d_wait d3) True d3
      in pos_sender r (echo_canceller T r thisdev (headtracker T r thisdev d4)))"

text \<open>
  \<open>create_virtual_acoustics\<close>: what is appended to the receiver, to the scene and to the session.
\<close>

definition b_sender_of :: "stage_device \<Rightarrow> bool" where
  "b_sender_of thisdev = (if sd_senddownmix thisdev then False else sd_channels thisdev \<noteq> [])"

definition create_virtual_acoustics ::
  "scene_env \<Rightarrow> 'a tascar_scheme \<Rightarrow> xnode list \<times> xnode list \<times> xnode list \<times> 'a tascar_scheme" where
  "create_virtual_acoustics E r0 =
     (let T = en_tsc E; r1 = touch_stage (own_id r0) r0; thisdev = stage_entry (own_id r1) r1;
          s = settings r1; b_sender = b_sender_of thisdev;
          r2 = (if rs_receive s \<and> b_sender then touch_stage (rs_id s) r1 else r1);
          recv = (if rs_receive s \<and> b_sender
                  then [Xelem ''position'' [] [Xtext (''0 '' @ tl_pos T (sd_position (stage_entry (rs_id s) r2)))],
                        Xelem ''orientation'' [] [Xtext (''0 '' @ tl_rot T (sd_orientation (stage_entry (rs_id s) r2)))]]
                  else []);
          m = stg_stage (ovr_stage r2); daz = spread_step b_sender m; az = - 80 * (pi / 180) - 1 / 2 * daz;
          (srcs, names) = scene_sources T r2 b_sender thisdev daz az m;
          r3 = (if rs_receive s then r2\<lparr>ts_ego_source_names := names\<rparr> else r2);
          d = scene_doc T r3
      in (recv, if rs_receive s then srcs @ scene_room E r3 else [], Xelem ''modules'' [] (d_mods d) # d_sess d, r3))"

end
