(* ===== verification/Tascar_Document.thy ===== *)
theory Tascar_Document
  imports Tascar_Scene
begin

text \<open>
  The parts of the session document that \<open>start_session\<close> (\<open>ov_render_tascar.cc\<close>) writes itself:
  analysis modules and effect buses, the receiver, the scene of a device that is not on a
  stage, multicast audio, recording, included files, hearing aid and MIDI controller.
\<close>

section \<open>Modules at the beginning\<close>

fun tuner_connects :: "device_channel list \<Rightarrow> doc \<Rightarrow> doc" where
  "tuner_connects [] d = d"
| "tuner_connects (ch # chs) d = tuner_connects chs (session_add_connect (ch_sourceport ch) ''tuner:in'' d)"

definition plugin_node :: "channel_plugin \<Rightarrow> xnode" where
  "plugin_node p = Xelem (plug_name p) (plug_params p) []"

fun effect_buses :: "device_channel list \<Rightarrow> doc \<Rightarrow> doc" where
  "effect_buses [] d = d"
| "effect_buses (ch # chs) d =
     effect_buses chs
       (session_add_connect (ch_sourceport ch) (''bus.'' @ ch_id ch @ '':in.0'')
         (add_mod ''route'' [(''name'', ''bus.'' @ ch_id ch), (''channels'', ''1'')]
           (if ch_plugins ch \<noteq> [] then [Xelem ''plugins'' [] (map plugin_node (ch_plugins ch))] else []) d))"

definition head_modules :: "tascar_lib \<Rightarrow> 'a tascar_scheme \<Rightarrow> doc" where
  "head_modules T r =
     (let g = ts_cfg r; chs = sd_channels (stg_thisdevice (ovr_stage r));
          d1 = (if tc_getoscvars g then add_mod ''lsllist'' [] [] (add_mod ''osclist'' [(''timeout'', ''120'')] [] empty_doc)
                else empty_doc);
          d2 = (if tc_reclevelanalyser g then create_levelmeter_route r d1 else d1);
          d3 = add_mod ''tuner''
                 [(''url'', ''osc.udp://localhost:9000/''), (''f0'', tl_num T (Num (tc_tuner_f0 g))),
                  (''tuning'', tc_tuner_tuning g), (''tau'', ''0.5''), (''strobebufferlen'', ''60''),
                  (''isactive'', tl_bool T (tc_tuner_active g))] [] d2;
          d4 = tuner_connects chs d3
      in if in_room r \<or> tc_emptysessionismonitor g then effect_buses chs d4 else d4)"

section \<open>The receiver and the scene\<close>

definition receiver_attrs :: "tascar_lib \<Rightarrow> 'a tascar_scheme \<Rightarrow> (string \<times> string) list" where
  "receiver_attrs T r =
     (let s = settings r in
      [(''type'', rs_rectype s), (''layers'', ''1'')] @
      (if rs_rectype s = ''ortf'' then [(''angle'', ''110''), (''broadband'', ''true'')] else []) @
      (if rs_rectype s = ''hrtf'' then [(''prewarpingmode'', ''2'')] else []) @
      (if rs_decorr s > 0 then [(''decorr'', ''true''), (''decorr_length'', tl_num T (Num (rs_decorr s / 1000)))] else []) @
      [(''name'', ''main''), (''gain'', tl_num T (decibel (rs_outputgain s))),
       (''delaycomp'', tl_num T (Num (rs_delaycomp s / 340)))])"

definition output_port :: "string \<Rightarrow> string \<Rightarrow> string \<Rightarrow> string" where
  "output_port rectype stereo itu51 =
     (if rectype = ''omni'' then ''main.0'' else if rectype = ''itu51'' then itu51 else stereo)"

definition output_connects :: "'a tascar_scheme \<Rightarrow> doc \<Rightarrow> doc" where
  "output_connects r d =
     (let s = settings r in
      if \<not> sd_senddownmix (stg_thisdevice (ovr_stage r)) then
        let d1 = (if rs_outputport1 s \<noteq> []
                  then session_add_connect (dev_id r @ ''.main:'' @ output_port (rs_rectype s) ''main_l'' ''main.0L'') (rs_outputport1 s) d
                  else d)
        in if rs_outputport2 s \<noteq> []
           then session_add_connect (dev_id r @ ''.main:'' @ output_port (rs_rectype s) ''main_r'' ''main.1R'') (rs_outputport2 s) d1
           else d1
      else d)"

text \<open>Not on a stage: the device hears itself, or an announcement.\<close>

definition monitor_sound :: "tascar_lib \<Rightarrow> 'a tascar_scheme \<Rightarrow> device_channel \<Rightarrow> xnode" where
  "monitor_sound T r ch =
     (let s = settings r;
          gain = (if rs_egogain s = 0 then ch_gain ch else ch_gain ch * rs_egogain s)
      in Xelem ''sound''
           ([(''maxdist'', ''50'')] @ (if \<not> rs_distancelaw s then [(''gainmodel'', ''1'')] else []) @
            [(''id'', ch_id ch), (''connect'', apos @ get_channel_source ch @ apos)] @
            (if rs_egogain s = 0 then [(''mute'', ''true'')] else []) @
            [(''gain'', tl_num T (decibel gain)), (''x'', tl_num T (Num (pos_x (ch_position ch)))),
             (''y'', tl_num T (Num (pos_y (ch_position ch)))), (''z'', tl_num T (Num (pos_z (ch_position ch))))] @
            (if ch_name ch \<noteq> [] then [(''name'', ch_name ch)] else []) @ directivity_attrs ch @
            (if tc_selfmonitor_onlyreverb (ts_cfg r) then [(''layers'', ''2'')] else [])) [])"

definition monitor_names :: "device_channel list \<Rightarrow> string list" where
  "monitor_names chs = map (\<lambda>ch. ''ego.'' @ ch_name ch @ ''.0'') (filter (\<lambda>ch. ch_name ch \<noteq> []) chs)"

definition monitor_scene :: "tascar_lib \<Rightarrow> 'a tascar_scheme \<Rightarrow> xnode list" where
  "monitor_scene T r =
     Xelem ''source'' [(''name'', ''ego'')] (map (monitor_sound T r) (sd_channels (stg_thisdevice (ovr_stage r)))) #
     (if rs_renderreverb (settings r) then [configure_simplefdn T r True] else [])"

definition announce_scene :: "'a tascar_scheme \<Rightarrow> xnode list" where
  "announce_scene r =
     [Xelem ''source'' [(''name'', ''announce'')]
        [Xelem ''sound'' [(''maxdist'', ''50''), (''gainmodel'', ''1''), (''x'', ''4'')]
           [Xelem ''plugins'' []
              [Xelem ''sndfile''
                 [(''name'', ovr_folder r @ ''announce.flac''), (''level'', ''57''), (''transport'', ''false''),
                  (''resample'', ''true''), (''loop'', ''0'')] []]]]]"

text \<open>
  The children of the scene and of the session (behind the first \<open>modules\<close> element), for each
  of the ways in which the device takes part.
\<close>

definition scene_part :: "scene_env \<Rightarrow> 'a tascar_scheme \<Rightarrow> doc \<Rightarrow> xnode list \<times> doc \<times> 'a tascar_scheme" where
  "scene_part E r d =
     (let T = en_tsc E; s = settings r in
      if \<not> (rs_rawmode s \<or> sd_receivedownmix (stg_thisdevice (ovr_stage r))) then
        let cal = (if spkcalib_on (ts_cfg r) then add_spkcalib r else []);
            d1 = (if rs_receive s then output_connects r d else d)
        in if in_room r then
             let (recv, scene, sess, r1) = create_virtual_acoustics E r
             in ((if rs_receive s then [Xelem ''receiver'' (receiver_attrs T r) (cal @ recv)] else []) @ scene,
                 d1\<lparr>d_sess := d_sess d1 @ sess\<rparr>, r1)
           else if rs_receive s then
             let recv = Xelem ''receiver'' (receiver_attrs T r) cal
             in if tc_emptysessionismonitor (ts_cfg r)
                then (recv # monitor_scene T r, d1,
                      r\<lparr>ts_ego_source_names := ts_ego_source_names r @
                          monitor_names (sd_channels (stg_thisdevice (ovr_stage r)))\<rparr>)
                else (recv # announce_scene r, d1, r)
           else ([], d1, r)
      else if in_room r then
        let (sess, r1) = create_raw_dev T r in ([], d\<lparr>d_sess := d_sess d @ sess\<rparr>, r1)
      else ([], d, r))"

fun extra_connects :: "(string \<times> string) list \<Rightarrow> doc \<Rightarrow> doc" where
  "extra_connects [] d = d"
| "extra_connects ((src, dest) # ps) d = extra_connects ps (session_add_connect src dest d)"

section \<open>Multicast audio\<close>

text \<open>\<open>chmap\<close>: every channel with the number of its last place in the list.\<close>

fun mcrec_map :: "32 word \<Rightarrow> 32 word list \<Rightarrow> (32 word, 32 word) omap \<Rightarrow> (32 word, 32 word) omap" where
  "mcrec_map och [] m = m"
| "mcrec_map och (ch # chs) m = mcrec_map (och + 1) chs (omap_put ch (och + 1) m)"

definition show_u32 :: "32 word \<Rightarrow> string" where "show_u32 w = show_nat (unat w)"

definition mczita_receiver :: "'a tascar_scheme \<Rightarrow> doc \<Rightarrow> doc" where
  "mczita_receiver r d =
     (let mc = ts_mc r; chmap = mcrec_map 0 (mc_mczitachannels mc) [];
          chlist = butlast (concat (map (\<lambda>(ch, n). show_u32 ch @ '','') chmap));
          conn_str = concat (map (\<lambda>(ch, n). if mc_mczita_autoconnect_rec mc
                                   then ''--conn system:playback_'' @ show_u32 n @ '' '' else []) chmap);
          cmd = ts_zitapath r @ ''ovzita-n2j --chan '' @ chlist @ '' --buff '' @ show_u32 (mc_mczitabuffer mc) @
            '' --jname mc '' @ conn_str @ mc_mczitaaddr mc @ '' '' @ show_u32 (mc_mczitaport mc) @ '' '' @ mc_mczitadevice mc
      in session_add_waitforjackports (dev_id r @ ''.waitforportsmcrec'') (map (\<lambda>(ch, n). ''mc:out_'' @ show_u32 ch) chmap) False
           (add_mod ''system'' [(''sleep'', ''0.2''), (''noshell'', ''true''), (''command'', cmd), (''relaunch'', ''true'')] [] d))"

definition mczita_sender :: "'a tascar_scheme \<Rightarrow> doc \<Rightarrow> doc" where
  "mczita_sender r d =
     (let mc = ts_mc r;
          cmd = ts_zitapath r @ ''ovzita-j2n --chan '' @ show_u32 (mc_mczitasendch mc) @ '' --jname j2n_'' @ dev_id r @
            ''_mc '' @ mc_mczitaaddr mc @ '' '' @ show_u32 (mc_mczitaport mc) @ '' '' @ mc_mczitadevice mc
      in session_add_waitforjackports (dev_id r @ ''.waitforportsmcsend'')
           (map (\<lambda>ch. ''j2n_'' @ dev_id r @ ''_mc:in_'' @ show_nat (ch + 1)) [0..<unat (mc_mczitasendch mc)]) False
           (add_mod ''system'' [(''sleep'', ''0.2''), (''noshell'', ''true''), (''command'', cmd), (''relaunch'', ''true'')] [] d))"

section \<open>Modules at the end\<close>

definition recording :: "'a tascar_scheme \<Rightarrow> doc \<Rightarrow> doc" where
  "recording r d =
     (if \<not> ts_secondary r then
        add_mod ''touchosc'' [] []
          (add_mod ''jackrec''
             [(''url'', ''osc.udp://localhost:9000/''), (''sampleformat'', tc_jackrec_sampleformat (ts_cfg r)),
              (''fileformat'', tc_jackrec_fileformat (ts_cfg r)), (''pattern'', ''rec*.*'')] [] d)
      else d)"

definition include_node :: "'a tascar_scheme \<Rightarrow> doc \<Rightarrow> doc" where
  "include_node r d = d\<lparr>d_sess := d_sess d @ [Xelem ''include'' [(''name'', dev_id r @ ''.itsc'')] []]\<rparr>"

text \<open>
  The file that is included: without permission, the \<open>system\<close> elements in the \<open>modules\<close> elements
  of the root are removed.
\<close>

fun is_elem :: "string \<Rightarrow> xnode \<Rightarrow> bool" where
  "is_elem name (Xelem n as cs) \<longleftrightarrow> n = name"
| "is_elem name (Xtext s) \<longleftrightarrow> False"

fun without_system :: "xnode \<Rightarrow> xnode" where
  "without_system (Xelem n as cs) = (if n = ''modules'' then Xelem n as (filter (\<lambda>c. \<not> is_elem ''system'' c) cs) else Xelem n as cs)"
| "without_system (Xtext s) = Xtext s"

fun included_file :: "bool \<Rightarrow> xnode \<Rightarrow> xnode" where
  "included_file allow_systemmods (Xelem n as cs) = Xelem n as (if allow_systemmods then cs else map without_system cs)"
| "included_file allow_systemmods (Xtext s) = Xtext s"

definition hearing_aid :: "'a tascar_scheme \<Rightarrow> doc \<Rightarrow> doc" where
  "hearing_aid r d =
     (if tc_mhaconfig (ts_cfg r) \<noteq> [] then add_mod ''system'' [(''command'', ''mha ?read:'' @ dev_id r @ ''.mhacfg'')] [] d else d)"

text \<open>The loop over the channels: seven faders for each MIDI channel.\<close>

fun bcf_channels ::
  "tascar_lib \<Rightarrow> device_channel list \<Rightarrow> 32 word \<Rightarrow> 32 word \<Rightarrow> 32 word \<Rightarrow> (string \<times> string \<times> string) list \<times> 32 word" where
  "bcf_channels T [] midi_channel k k_name = ([], midi_channel)"
| "bcf_channels T (ch # chs) midi_channel k k_name =
     (let (mc, k1) = (if k = 7 then (midi_channel + 1, 0) else (midi_channel, k));
          (name, k_name1) = (if ch_name ch = [] then (tl_uint T (unat k_name), k_name + 1) else (ch_name ch, k_name));
          u = (\<lambda>w. tl_uint T (unat w));
          (rest, last) = bcf_channels T chs mc (k1 + 1) k_name1
      in ((''/*/ego/'' @ name, u mc @ ''/'' @ u k1, u mc @ ''/'' @ u (k1 + 8)) # rest, last))"

definition midi_controller :: "tascar_lib \<Rightarrow> 'a tascar_scheme \<Rightarrow> doc \<Rightarrow> doc" where
  "midi_controller T r d =
     (if tc_usebcf2000 (ts_cfg r) then
        let (cs, last) = bcf_channels T (sd_channels (stg_thisdevice (ovr_stage r))) 0 0 0;
            mains = map (\<lambda>k. (''/*/main'', tl_uint T k @ ''/7'', tl_uint T k @ ''/15'')) [0..<unat last + 1];
            es = cs @ mains
        in add_mod ''midictl''
             [(''connect'', ''BCF2000:0''), (''min'', ''-30''), (''max'', ''10''), (''nonlinscale'', ''true''),
              (''controllers'', tl_vecstr T (map (\<lambda>(p, g, m). g) es) @ '' '' @ tl_vecstr T (map (\<lambda>(p, g, m). m) es)),
              (''pattern'', tl_vecstr T (map (\<lambda>(p, g, m). p) es))] [] d
      else d)"

section \<open>The document\<close>

text \<open>
  The two halves around the creation of the session client: \<open>begin_document\<close> (the scene and what
  the first \<open>modules\<close> element and the session contain so far) and \<open>end_document\<close>.
\<close>

definition begin_document ::
  "scene_env \<Rightarrow> (string \<times> string) list \<Rightarrow> 'a tascar_scheme \<Rightarrow> xnode list \<times> doc \<times> 'a tascar_scheme" where
  "begin_document E xports r =
     (let (scene, d, r1) = scene_part E r (head_modules (en_tsc E) r)
      in (scene, extra_connects xports d, r1))"

definition session_attrs :: "tascar_lib \<Rightarrow> 'a tascar_scheme \<Rightarrow> (string \<times> string) list" where
  "session_attrs T r =
     [(''srv_port'', show_nat (unat (ts_my_tascarport r))), (''duration'', ''36000''), (''name'', dev_id r),
      (''license'', ''CC0''), (''levelmeter_tc'', tl_num T (Num (rs_lmetertc (settings r)))),
      (''levelmeter_weight'', rs_lmeterfw (settings r))]"

definition multicast :: "'a tascar_scheme \<Rightarrow> doc \<Rightarrow> doc" where
  "multicast r d =
     (let d1 = (if mc_mczita (ts_mc r) then mczita_receiver r d else d)
      in if mc_mczitasend (ts_mc r) then mczita_sender r d1 else d1)"

definition end_document :: "tascar_lib \<Rightarrow> 'a tascar_scheme \<Rightarrow> xnode list \<Rightarrow> doc \<Rightarrow> xnode" where
  "end_document T r scene d0 =
     (let d1 = recording r (multicast r d0);
          d2 = (if tc_tscinclude (ts_cfg r) \<noteq> [] then include_node r d1 else d1);
          d = midi_controller T r (hearing_aid r d2)
      in Xelem ''session'' (session_attrs T r)
           (Xelem ''scene'' [(''name'', ''main'')] scene # Xelem ''modules'' [] (d_mods d) # d_sess d))"

end
