(* ===== verification/Tascar_Config.thy ===== *)
theory Tascar_Config
  imports Tascar_Types "HOL-Library.Sublist"
begin

text \<open>
  The additional configuration of the renderer (\<open>set_extra_config\<close> in \<open>ov_render_tascar.cc\<close>): a
  sequence of steps, each of which reads one value and assigns it to a member; most require a
  restart of the session when the value changed. An exception ends the sequence.
\<close>

section \<open>Steps\<close>

text \<open>The state is the local variable \<open>restart_session\<close> and the object.\<close>

type_synonym 'a cfg_state = "bool \<times> 'a tascar_scheme"

type_synonym 'a cfg_step = "'a cfg_state \<Rightarrow> 'a cfg_state outcome"

text \<open>
  One member: \<open>rd\<close> reads the new value, with the current one as the default; \<open>need\<close> tells
  whether the change from the old to the new value needs a restart.
\<close>

definition set_var ::
  "('v \<Rightarrow> 'v \<Rightarrow> bool) \<Rightarrow> ('v \<Rightarrow> err + 'v) \<Rightarrow> ('a tascar_scheme \<Rightarrow> 'v) \<Rightarrow> ('v \<Rightarrow> 'a tascar_scheme \<Rightarrow> 'a tascar_scheme) \<Rightarrow> 'a cfg_step" where
  "set_var need rd sel put = (\<lambda>(restart, r).
     case rd (sel r) of
       Inl e \<Rightarrow> ((restart, r), Some e)
     | Inr v \<Rightarrow> ((restart \<or> need (sel r) v, if v \<noteq> sel r then put v r else r), None))"

definition no_restart :: "'v \<Rightarrow> 'v \<Rightarrow> bool" where "no_restart a b = False"

fun run_steps :: "'a cfg_step list \<Rightarrow> 'a cfg_step" where
  "run_steps [] s = (s, None)"
| "run_steps (f # fs) s = and_then (f s) (run_steps fs)"

text \<open>\<open>my_js_value(xcfg[category], key, cur)\<close>.\<close>

definition js_var :: "'j json_lib \<Rightarrow> ('j \<Rightarrow> err + 'v) \<Rightarrow> 'j \<Rightarrow> string \<Rightarrow> string \<Rightarrow> 'v \<Rightarrow> err + 'v" where
  "js_var J get x category key cur = bind_err (js_index J x category) (\<lambda>sub. my_js_value J get sub key cur)"

definition throw_step :: "err \<Rightarrow> 'a cfg_step" where
  "throw_step e s = (s, Some e)"

text \<open>\<open>if(xcfg[category].is_object()) { ... }\<close>, and the same for a string.\<close>

definition object_section :: "'j json_lib \<Rightarrow> 'j \<Rightarrow> string \<Rightarrow> 'a cfg_step list \<Rightarrow> 'a cfg_step list" where
  "object_section J x category steps =
     (case js_index J x category of
        Inl e \<Rightarrow> [throw_step e]
      | Inr sub \<Rightarrow> if js_is_object J sub then steps else [])"

definition string_section :: "'j json_lib \<Rightarrow> 'j \<Rightarrow> string \<Rightarrow> string \<Rightarrow> 'a cfg_step list \<Rightarrow> 'a cfg_step list" where
  "string_section J x category key steps =
     (case bind_err (js_index J x category) (\<lambda>sub. js_index J sub key) of
        Inl e \<Rightarrow> [throw_step e]
      | Inr v \<Rightarrow> if js_string J v \<noteq> None then steps else [])"

section \<open>The sections of the configuration\<close>

definition top_steps :: "'j json_lib \<Rightarrow> 'j \<Rightarrow> 'a cfg_step list" where
  "top_steps J x =
     [set_var (\<noteq>) (js_var J (get_bool J) x ''reclevelanalyser'' ''reclevelanalyser'')
        (\<lambda>r. tc_reclevelanalyser (ts_cfg r)) (\<lambda>v r. r\<lparr>ts_cfg := (ts_cfg r)\<lparr>tc_reclevelanalyser := v\<rparr>\<rparr>),
      set_var (\<noteq>) (my_js_value J (get_bool J) x ''start_webmixer'')
        (\<lambda>r. tc_start_webmixer (ts_cfg r)) (\<lambda>v r. r\<lparr>ts_cfg := (ts_cfg r)\<lparr>tc_start_webmixer := v\<rparr>\<rparr>),
      set_var (\<noteq>) (my_js_value J (get_string J) x ''tscinclude'')
        (\<lambda>r. tc_tscinclude (ts_cfg r)) (\<lambda>v r. r\<lparr>ts_cfg := (ts_cfg r)\<lparr>tc_tscinclude := v\<rparr>\<rparr>),
      set_var (\<noteq>) (my_js_value J (get_string J) x ''mhaconfig'')
        (\<lambda>r. tc_mhaconfig (ts_cfg r)) (\<lambda>v r. r\<lparr>ts_cfg := (ts_cfg r)\<lparr>tc_mhaconfig := v\<rparr>\<rparr>),
      set_var (\<noteq>) (\<lambda>_. js_var J (get_bool J) x ''render'' ''usebcf2000'' False)
        (\<lambda>r. tc_usebcf2000 (ts_cfg r)) (\<lambda>v r. r\<lparr>ts_cfg := (ts_cfg r)\<lparr>tc_usebcf2000 := v\<rparr>\<rparr>)]"

definition scan_steps :: "'j json_lib \<Rightarrow> 'j \<Rightarrow> 'a cfg_step list" where
  "scan_steps J x =
     [set_var (\<noteq>) (js_var J (get_bool J) x ''scandatastreams'' ''getoscvars'')
        (\<lambda>r. tc_getoscvars (ts_cfg r)) (\<lambda>v r. r\<lparr>ts_cfg := (ts_cfg r)\<lparr>tc_getoscvars := v\<rparr>\<rparr>)]"

definition tuner_steps :: "'j json_lib \<Rightarrow> 'j \<Rightarrow> 'a cfg_step list" where
  "tuner_steps J x =
     [set_var (\<noteq>) (js_var J (get_string J) x ''tuner'' ''tuner_tuning'')
        (\<lambda>r. tc_tuner_tuning (ts_cfg r)) (\<lambda>v r. r\<lparr>ts_cfg := (ts_cfg r)\<lparr>tc_tuner_tuning := v\<rparr>\<rparr>),
      set_var (\<noteq>) (js_var J (get_real J) x ''tuner'' ''tuner_f0'')
        (\<lambda>r. tc_tuner_f0 (ts_cfg r)) (\<lambda>v r. r\<lparr>ts_cfg := (ts_cfg r)\<lparr>tc_tuner_f0 := v\<rparr>\<rparr>),
      set_var (\<noteq>) (js_var J (get_bool J) x ''tuner'' ''tuner_active'')
        (\<lambda>r. tc_tuner_active (ts_cfg r)) (\<lambda>v r. r\<lparr>ts_cfg := (ts_cfg r)\<lparr>tc_tuner_active := v\<rparr>\<rparr>)]"

definition spkcalib_steps :: "'j json_lib \<Rightarrow> 'j \<Rightarrow> 'a cfg_step list" where
  "spkcalib_steps J x =
     [set_var (\<noteq>) (js_var J (get_bool J) x ''spkcalib'' ''spkcalib_use'')
        (\<lambda>r. tc_spkcalib_use (ts_cfg r)) (\<lambda>v r. r\<lparr>ts_cfg := (ts_cfg r)\<lparr>tc_spkcalib_use := v\<rparr>\<rparr>),
      set_var (\<noteq>) (js_var J (get_i32 J) x ''spkcalib'' ''spkcalib_firlen'')
        (\<lambda>r. tc_spkcalib_firlen (ts_cfg r)) (\<lambda>v r. r\<lparr>ts_cfg := (ts_cfg r)\<lparr>tc_spkcalib_firlen := v\<rparr>\<rparr>)]"

definition spkcalib_vfreq_steps :: "'j json_lib \<Rightarrow> 'j \<Rightarrow> 'a cfg_step list" where
  "spkcalib_vfreq_steps J x = [set_var (\<noteq>) (js_var J (get_string J) x ''spkcalib'' ''spkcalib_vfreq'')
        (\<lambda>r. tc_spkcalib_vfreq (ts_cfg r)) (\<lambda>v r. r\<lparr>ts_cfg := (ts_cfg r)\<lparr>tc_spkcalib_vfreq := v\<rparr>\<rparr>)]"

definition spkcalib_vgainl_steps :: "'j json_lib \<Rightarrow> 'j \<Rightarrow> 'a cfg_step list" where
  "spkcalib_vgainl_steps J x = [set_var (\<noteq>) (js_var J (get_string J) x ''spkcalib'' ''spkcalib_vgainl'')
        (\<lambda>r. tc_spkcalib_vgainl (ts_cfg r)) (\<lambda>v r. r\<lparr>ts_cfg := (ts_cfg r)\<lparr>tc_spkcalib_vgainl := v\<rparr>\<rparr>)]"

definition spkcalib_vgainr_steps :: "'j json_lib \<Rightarrow> 'j \<Rightarrow> 'a cfg_step list" where
  "spkcalib_vgainr_steps J x = [set_var (\<noteq>) (js_var J (get_string J) x ''spkcalib'' ''spkcalib_vgainr'')
        (\<lambda>r. tc_spkcalib_vgainr (ts_cfg r)) (\<lambda>v r. r\<lparr>ts_cfg := (ts_cfg r)\<lparr>tc_spkcalib_vgainr := v\<rparr>\<rparr>)]"

text \<open>A new deadline is also given to the running session client.\<close>

definition put_deadline :: "fpu \<Rightarrow> real \<Rightarrow> 'a tascar_scheme \<Rightarrow> 'a tascar_scheme" where
  "put_deadline F v r =
     r\<lparr>ts_cfg := (ts_cfg r)\<lparr>tc_sorter_deadline := v\<rparr>,
       ts_ovboxclient := map_option (set_reorder_deadline F v) (ts_ovboxclient r)\<rparr>"

definition network_steps :: "fpu \<Rightarrow> 'j json_lib \<Rightarrow> 'j \<Rightarrow> 'a cfg_step list" where
  "network_steps F J x =
     [set_var no_restart (js_var J (get_real J) x ''network'' ''deadline'')
        (\<lambda>r. tc_sorter_deadline (ts_cfg r)) (put_deadline F),
      set_var no_restart (js_var J (get_bool J) x ''network'' ''expeditedforwarding'')
        (\<lambda>r. tc_expedited_forwarding_PHB (ts_cfg r)) (\<lambda>v r. r\<lparr>ts_cfg := (ts_cfg r)\<lparr>tc_expedited_forwarding_PHB := v\<rparr>\<rparr>)]"

definition headtrack_steps :: "'j json_lib \<Rightarrow> 'j \<Rightarrow> 'a cfg_step list" where
  "headtrack_steps J x =
     [set_var no_restart (\<lambda>_. js_var J (get_real J) x ''headtrack'' ''tauref'' (8733327 / 2 ^ 18))
        (\<lambda>r. tc_headtrack_tauref (ts_cfg r)) (\<lambda>v r. r\<lparr>ts_cfg := (ts_cfg r)\<lparr>tc_headtrack_tauref := v\<rparr>\<rparr>),
      set_var no_restart (\<lambda>_. js_var J (get_string J) x ''headtrack'' ''eogpath'' [])
        (\<lambda>r. tc_headtrack_eogpath (ts_cfg r)) (\<lambda>v r. r\<lparr>ts_cfg := (ts_cfg r)\<lparr>tc_headtrack_eogpath := v\<rparr>\<rparr>),
      set_var no_restart (\<lambda>_. js_var J (get_bool J) x ''headtrack'' ''autorefzonly'' True)
        (\<lambda>r. tc_headtrack_autorefzonly (ts_cfg r)) (\<lambda>v r. r\<lparr>ts_cfg := (ts_cfg r)\<lparr>tc_headtrack_autorefzonly := v\<rparr>\<rparr>)]"

definition monitor_steps :: "'j json_lib \<Rightarrow> 'j \<Rightarrow> 'a cfg_step list" where
  "monitor_steps J x =
     [set_var no_restart (\<lambda>_. js_var J (get_real J) x ''monitor'' ''delay'' 0)
        (\<lambda>r. tc_selfmonitor_delay (ts_cfg r)) (\<lambda>v r. r\<lparr>ts_cfg := (ts_cfg r)\<lparr>tc_selfmonitor_delay := v\<rparr>\<rparr>),
      set_var (\<noteq>) (\<lambda>_. js_var J (get_bool J) x ''monitor'' ''onlyreverb'' False)
        (\<lambda>r. tc_selfmonitor_onlyreverb (ts_cfg r)) (\<lambda>v r. r\<lparr>ts_cfg := (ts_cfg r)\<lparr>tc_selfmonitor_onlyreverb := v\<rparr>\<rparr>),
      set_var (\<noteq>) (\<lambda>_. js_var J (get_bool J) x ''monitor'' ''active'' True)
        (\<lambda>r. tc_selfmonitor_active (ts_cfg r)) (\<lambda>v r. r\<lparr>ts_cfg := (ts_cfg r)\<lparr>tc_selfmonitor_active := v\<rparr>\<rparr>)]"

definition render_steps :: "'j json_lib \<Rightarrow> 'j \<Rightarrow> 'a cfg_step list" where
  "render_steps J x =
     [set_var (\<noteq>) (\<lambda>_. js_var J (get_bool J) x ''render'' ''soundscape'' True)
        (\<lambda>r. tc_render_soundscape (ts_cfg r)) (\<lambda>v r. r\<lparr>ts_cfg := (ts_cfg r)\<lparr>tc_render_soundscape := v\<rparr>\<rparr>),
      set_var (\<noteq>) (js_var J (get_string J) x ''render'' ''zitasampleformat'')
        (\<lambda>r. tc_zitasampleformat (ts_cfg r)) (\<lambda>v r. r\<lparr>ts_cfg := (ts_cfg r)\<lparr>tc_zitasampleformat := v\<rparr>\<rparr>),
      set_var (\<noteq>) (js_var J (get_bool J) x ''render'' ''useloudspeaker'')
        (\<lambda>r. tc_useloudspeaker (ts_cfg r)) (\<lambda>v r. r\<lparr>ts_cfg := (ts_cfg r)\<lparr>tc_useloudspeaker := v\<rparr>\<rparr>),
      set_var (\<noteq>) (js_var J (get_u32 J) x ''render'' ''fdnforwardstages'')
        (\<lambda>r. tc_fdnforwardstages (ts_cfg r)) (\<lambda>v r. r\<lparr>ts_cfg := (ts_cfg r)\<lparr>tc_fdnforwardstages := v\<rparr>\<rparr>),
      set_var (\<noteq>) (js_var J (get_u32 J) x ''render'' ''fdnorder'')
        (\<lambda>r. tc_fdnorder (ts_cfg r)) (\<lambda>v r. r\<lparr>ts_cfg := (ts_cfg r)\<lparr>tc_fdnorder := v\<rparr>\<rparr>),
      set_var (\<noteq>) (js_var J (get_u32 J) x ''render'' ''echoc_nrep'')
        (\<lambda>r. tc_echoc_nrep (ts_cfg r)) (\<lambda>v r. r\<lparr>ts_cfg := (ts_cfg r)\<lparr>tc_echoc_nrep := v\<rparr>\<rparr>),
      set_var (\<noteq>) (js_var J (get_real J) x ''render'' ''echoc_maxdist'')
        (\<lambda>r. tc_echoc_maxdist (ts_cfg r)) (\<lambda>v r. r\<lparr>ts_cfg := (ts_cfg r)\<lparr>tc_echoc_maxdist := v\<rparr>\<rparr>),
      set_var (\<noteq>) (js_var J (get_real J) x ''render'' ''echoc_level'')
        (\<lambda>r. tc_echoc_level (ts_cfg r)) (\<lambda>v r. r\<lparr>ts_cfg := (ts_cfg r)\<lparr>tc_echoc_level := v\<rparr>\<rparr>),
      set_var (\<noteq>) (js_var J (get_u32 J) x ''render'' ''echoc_filterlen'')
        (\<lambda>r. tc_echoc_filterlen (ts_cfg r)) (\<lambda>v r. r\<lparr>ts_cfg := (ts_cfg r)\<lparr>tc_echoc_filterlen := v\<rparr>\<rparr>),
      set_var (\<noteq>) (js_var J (get_bool J) x ''render'' ''emptysessionismonitor'')
        (\<lambda>r. tc_emptysessionismonitor (ts_cfg r)) (\<lambda>v r. r\<lparr>ts_cfg := (ts_cfg r)\<lparr>tc_emptysessionismonitor := v\<rparr>\<rparr>)]"

text \<open>Of the metronome only a new delay needs a restart; the rest is sent to the running session.\<close>

definition metronome_steps :: "'j json_lib \<Rightarrow> 'j \<Rightarrow> 'a cfg_step list" where
  "metronome_steps J x =
     [set_var (\<lambda>old new. metronome_neq new old \<and> mt_delay old \<noteq> mt_delay new)
        (\<lambda>_. bind_err (js_index J x ''metronome'') (metronome_of_json J))
        (\<lambda>r. tc_metronome (ts_cfg r)) (\<lambda>v r. r\<lparr>ts_cfg := (ts_cfg r)\<lparr>tc_metronome := v\<rparr>\<rparr>)]"

definition metronome_update :: "'j json_lib \<Rightarrow> 'j \<Rightarrow> 'a tascar_scheme \<Rightarrow> (string \<times> real) list" where
  "metronome_update J x r =
     (case bind_err (js_index J x ''metronome'') (metronome_of_json J) of
        Inl e \<Rightarrow> []
      | Inr m \<Rightarrow>
          if metronome_neq m (tc_metronome (ts_cfg r)) \<and> session_active r \<and> ts_tascar r \<noteq> None
          then metronome_osc m (stg_thisdeviceid (ovr_stage r)) else [])"

definition jackrec_steps :: "'j json_lib \<Rightarrow> 'j \<Rightarrow> 'a cfg_step list" where
  "jackrec_steps J x =
     [set_var (\<noteq>) (\<lambda>_. js_var J (get_string J) x ''jackrec'' ''sampleformat'' ''PCM_16'')
        (\<lambda>r. tc_jackrec_sampleformat (ts_cfg r)) (\<lambda>v r. r\<lparr>ts_cfg := (ts_cfg r)\<lparr>tc_jackrec_sampleformat := v\<rparr>\<rparr>),
      set_var (\<noteq>) (\<lambda>_. js_var J (get_string J) x ''jackrec'' ''fileformat'' ''WAV'')
        (\<lambda>r. tc_jackrec_fileformat (ts_cfg r)) (\<lambda>v r. r\<lparr>ts_cfg := (ts_cfg r)\<lparr>tc_jackrec_fileformat := v\<rparr>\<rparr>)]"

text \<open>The proxy: all its values are read before the members change.\<close>

fun proxy_clients ::
  "'j json_lib \<Rightarrow> string \<Rightarrow> 'j list \<Rightarrow> (stage_device_id_t, string) omap \<Rightarrow> err + (stage_device_id_t, string) omap" where
  "proxy_clients J localip [] m = Inr m"
| "proxy_clients J localip (p # ps) m =
     bind_err (my_js_value J (get_i32 J) p ''id'' (- 1)) (\<lambda>i.
     bind_err (my_js_value J (get_string J) p ''ip'' []) (\<lambda>ip.
       proxy_clients J localip ps
         (if 0 \<le> sint i \<and> sint i < int MAX_STAGE_ID \<and> ip \<noteq> [] \<and> ip \<noteq> localip then omap_put (ucast i) ip m else m)))"

type_synonym proxy_settings = "bool \<times> bool \<times> (stage_device_id_t, string) omap \<times> string"

definition read_proxy :: "'j json_lib \<Rightarrow> string \<Rightarrow> 'j \<Rightarrow> err + proxy_settings" where
  "read_proxy J localip x =
     bind_err (js_index J x ''proxy'') (\<lambda>p.
     bind_err (my_js_value J (get_bool J) p ''isproxy'' False) (\<lambda>is_proxy.
     bind_err (my_js_value J (get_bool J) p ''useproxy'' False) (\<lambda>use_proxy.
     bind_err (if use_proxy then my_js_value J (get_string J) p ''proxyip'' [] else Inr []) (\<lambda>proxyip.
     bind_err (js_index J p ''clients'') (\<lambda>cl.
     bind_err (if is_proxy \<and> js_is_array J cl then proxy_clients J localip (js_elements J cl) [] else Inr []) (\<lambda>clients.
       Inr (is_proxy, use_proxy, clients, proxyip)))))))"

definition get_proxy :: "'a tascar_scheme \<Rightarrow> proxy_settings" where
  "get_proxy r = (tc_is_proxy (ts_cfg r), tc_use_proxy (ts_cfg r), tc_proxyclients (ts_cfg r), tc_proxyip (ts_cfg r))"

definition put_proxy :: "proxy_settings \<Rightarrow> 'a tascar_scheme \<Rightarrow> 'a tascar_scheme" where
  "put_proxy = (\<lambda>(is_proxy, use_proxy, clients, proxyip) r. r\<lparr>ts_cfg := (ts_cfg r)
     \<lparr>tc_is_proxy := is_proxy, tc_use_proxy := use_proxy, tc_proxyclients := clients, tc_proxyip := proxyip\<rparr>\<rparr>)"

definition proxy_steps :: "'j json_lib \<Rightarrow> string \<Rightarrow> 'j \<Rightarrow> 'a cfg_step list" where
  "proxy_steps J localip x = [set_var (\<noteq>) (\<lambda>_. read_proxy J localip x) get_proxy put_proxy]"

definition mcrec_steps :: "'j json_lib \<Rightarrow> 'j \<Rightarrow> 'a cfg_step list" where
  "mcrec_steps J x =
     [set_var (\<noteq>) (js_var J (get_bool J) x ''mcrec'' ''use'')
        (\<lambda>r. mc_mczita (ts_mc r)) (\<lambda>v r. r\<lparr>ts_mc := (ts_mc r)\<lparr>mc_mczita := v\<rparr>\<rparr>),
      set_var (\<noteq>) (js_var J (get_bool J) x ''mcrec'' ''usesender'')
        (\<lambda>r. mc_mczitasend (ts_mc r)) (\<lambda>v r. r\<lparr>ts_mc := (ts_mc r)\<lparr>mc_mczitasend := v\<rparr>\<rparr>),
      set_var (\<noteq>) (js_var J (get_u32 J) x ''mcrec'' ''sendchannels'')
        (\<lambda>r. mc_mczitasendch (ts_mc r)) (\<lambda>v r. r\<lparr>ts_mc := (ts_mc r)\<lparr>mc_mczitasendch := v\<rparr>\<rparr>),
      set_var (\<noteq>) (js_var J (get_string J) x ''mcrec'' ''addr'')
        (\<lambda>r. mc_mczitaaddr (ts_mc r)) (\<lambda>v r. r\<lparr>ts_mc := (ts_mc r)\<lparr>mc_mczitaaddr := v\<rparr>\<rparr>),
      set_var (\<noteq>) (js_var J (get_u32 J) x ''mcrec'' ''port'')
        (\<lambda>r. mc_mczitaport (ts_mc r)) (\<lambda>v r. r\<lparr>ts_mc := (ts_mc r)\<lparr>mc_mczitaport := v\<rparr>\<rparr>),
      set_var (\<noteq>) (js_var J (get_string J) x ''mcrec'' ''device'')
        (\<lambda>r. mc_mczitadevice (ts_mc r)) (\<lambda>v r. r\<lparr>ts_mc := (ts_mc r)\<lparr>mc_mczitadevice := v\<rparr>\<rparr>),
      set_var (\<noteq>) (js_var J (get_u32 J) x ''mcrec'' ''buffer'')
        (\<lambda>r. mc_mczitabuffer (ts_mc r)) (\<lambda>v r. r\<lparr>ts_mc := (ts_mc r)\<lparr>mc_mczitabuffer := v\<rparr>\<rparr>),
      set_var (\<noteq>) (js_var J (get_u32s J) x ''mcrec'' ''channels'')
        (\<lambda>r. mc_mczitachannels (ts_mc r)) (\<lambda>v r. r\<lparr>ts_mc := (ts_mc r)\<lparr>mc_mczitachannels := v\<rparr>\<rparr>),
      set_var (\<noteq>) (js_var J (get_bool J) x ''mcrec'' ''autoconnectrec'')
        (\<lambda>r. mc_mczita_autoconnect_rec (ts_mc r)) (\<lambda>v r. r\<lparr>ts_mc := (ts_mc r)\<lparr>mc_mczita_autoconnect_rec := v\<rparr>\<rparr>)]"

section \<open>The method\<close>

definition extra_steps :: "fpu \<Rightarrow> 'j json_lib \<Rightarrow> string \<Rightarrow> 'j \<Rightarrow> 'a cfg_step list" where
  "extra_steps F J localip x =
     top_steps J x @ object_section J x ''scandatastreams'' (scan_steps J x) @
     object_section J x ''tuner'' (tuner_steps J x) @
     object_section J x ''spkcalib''
       (spkcalib_steps J x @
        string_section J x ''spkcalib'' ''spkcalib_vfreq'' (spkcalib_vfreq_steps J x) @
        string_section J x ''spkcalib'' ''spkcalib_vgainl'' (spkcalib_vgainl_steps J x) @
        string_section J x ''spkcalib'' ''spkcalib_vgainr'' (spkcalib_vgainr_steps J x)) @
     object_section J x ''network'' (network_steps F J x) @ object_section J x ''headtrack'' (headtrack_steps J x) @
     object_section J x ''monitor'' (monitor_steps J x) @ object_section J x ''render'' (render_steps J x) @
     object_section J x ''metronome'' (metronome_steps J x) @ object_section J x ''jackrec'' (jackrec_steps J x) @
     object_section J x ''proxy'' (proxy_steps J localip x) @ object_section J x ''mcrec'' (mcrec_steps J x)"

definition set_extra_config :: "fpu \<Rightarrow> 'j json_lib \<Rightarrow> string \<Rightarrow> 'a tascar_scheme \<Rightarrow> 'a tascar_scheme outcome" where
  "set_extra_config F J js r =
     (if js = [] then (r, None)
      else
        case js_parse J js of
          Inl e \<Rightarrow> (r, Some (ErrMsg (''set_extra_config: '' @ what e)))
        | Inr x \<Rightarrow>
            case run_steps (extra_steps F J (ts_localip r) x) (False, r) of
              ((restart, r'), Some e) \<Rightarrow> (r', Some (ErrMsg (''set_extra_config: '' @ what e)))
            | ((restart, r'), None) \<Rightarrow>
                (if session_active r' \<and> restart then require_session_restart r' else r', None))"

section \<open>Sending a configuration again\<close>

text \<open>A step is settled in a state that it leaves alone.\<close>

definition settled :: "'a cfg_step \<Rightarrow> 'a tascar_scheme \<Rightarrow> bool" where
  "settled f r \<longleftrightarrow> (\<forall>b. f (b, r) = ((b, r), None))"

definition resettles :: "'a cfg_step \<Rightarrow> bool" where
  "resettles f \<longleftrightarrow> (\<forall>b r b' r'. f (b, r) = ((b', r'), None) \<longrightarrow> settled f r')"

definition keeps :: "'a cfg_step \<Rightarrow> 'a cfg_step \<Rightarrow> bool" where
  "keeps f g \<longleftrightarrow> (\<forall>b r b' r'. g (b, r) = ((b', r'), None) \<longrightarrow> settled f r \<longrightarrow> settled f r')"

definition own_config :: "'a cfg_step \<Rightarrow> bool" where
  "own_config f \<longleftrightarrow> (\<forall>r r'. ts_cfg r' = ts_cfg r \<longrightarrow> ts_mc r' = ts_mc r \<longrightarrow> settled f r \<longrightarrow> settled f r')"

named_theorems step_intros

lemma settled_set_var:
  assumes "\<And>v r. sel (put v r) = v"
  shows "settled (set_var need rd sel put) r \<longleftrightarrow> rd (sel r) = Inr (sel r) \<and> \<not> need (sel r) (sel r)"
proof (cases "rd (sel r)")
  case (Inr v)
  have "v \<noteq> sel r \<Longrightarrow> put v r \<noteq> r" using assms by metis
  with Inr show ?thesis by (auto simp: settled_def set_var_def)
qed (simp add: settled_def set_var_def)

lemma set_var_resettles [step_intros]:
  assumes "\<And>v r. sel (put v r) = v" and "\<And>c v. rd c = Inr v \<Longrightarrow> rd v = Inr v" and "\<And>v. \<not> need v v"
  shows "resettles (set_var need rd sel put)"
  unfolding resettles_def settled_set_var [OF assms(1)] using assms by (auto simp: set_var_def split: sum.splits if_splits)

lemma set_var_keeps [step_intros]:
  assumes "\<And>v r. sel (put v r) = v" and "\<And>v r. sel (put' v r) = sel r"
  shows "keeps (set_var need rd sel put) (set_var need' rd' sel' put')"
  unfolding keeps_def settled_set_var [OF assms(1)] using assms(2) by (auto simp: set_var_def split: sum.splits if_splits)

lemma set_var_own [step_intros]:
  fixes sel :: "'a tascar_scheme \<Rightarrow> 'v"
  assumes "\<And>v r. sel (put v r) = v" and "\<And>r r'. ts_cfg r' = ts_cfg r \<Longrightarrow> ts_mc r' = ts_mc r \<Longrightarrow> sel r' = sel r"
  shows "own_config (set_var need rd sel put)"
  unfolding own_config_def settled_set_var [OF assms(1)]
proof (intro allI impI)
  fix r r' :: "'a tascar_scheme" assume c: "ts_cfg r' = ts_cfg r" "ts_mc r' = ts_mc r" and "rd (sel r) = Inr (sel r) \<and> \<not> need (sel r) (sel r)"
  with assms(2) [OF c] show "rd (sel r') = Inr (sel r') \<and> \<not> need (sel r') (sel r')" by simp
qed

lemma no_restart_irrefl [simp]: "\<not> no_restart v v" by (simp add: no_restart_def)

lemma js_var_stable [simp]: "js_var J get x c k d = Inr v \<Longrightarrow> js_var J get x c k v = Inr v"
  by (auto simp: js_var_def bind_err_Inr_iff intro: my_js_value_stable)

lemma run_keeps:
  assumes "\<forall>g\<in>set fs. keeps f g" and "settled f r" and "run_steps fs (b, r) = ((b', r'), None)"
  shows "settled f r'"
  using assms
proof (induction fs arbitrary: b r)
  case (Cons g fs)
  obtain b1 r1 x where g: "g (b, r) = ((b1, r1), x)" by (metis surj_pair)
  then have x: "x = None" "run_steps fs (b1, r1) = ((b', r'), None)" using Cons.prems(3) by (cases x; simp)+
  then have "settled f r1" using Cons.prems(1,2) g by (auto simp: keeps_def)
  then show ?case using Cons.IH [OF _ _ x(2)] Cons.prems(1) by simp
qed simp

lemma run_settles:
  assumes "sorted_wrt keeps fs" and "\<forall>f\<in>set fs. resettles f" and "run_steps fs (b, r) = ((b', r'), None)" and "f \<in> set fs"
  shows "settled f r'"
  using assms
proof (induction fs arbitrary: b r)
  case (Cons g fs)
  obtain b1 r1 x where g: "g (b, r) = ((b1, r1), x)" by (metis surj_pair)
  then have x: "x = None" "run_steps fs (b1, r1) = ((b', r'), None)" using Cons.prems(3) by (cases x; simp)+
  then have "settled g r1" using Cons.prems(2) g by (auto simp: resettles_def)
  then have "settled g r'" using run_keeps [OF _ _ x(2)] Cons.prems(1) by simp
  then show ?case using Cons.IH [OF _ _ x(2)] Cons.prems(1,2,4) by auto
qed simp

lemma run_settled: "(\<And>f. f \<in> set fs \<Longrightarrow> settled f r) \<Longrightarrow> run_steps fs (b, r) = ((b, r), None)"
proof (induction fs)
  case (Cons f fs)
  have "f (b, r) = ((b, r), None)" using Cons.prems [of f] by (simp add: settled_def)
  with Cons show ?case by simp
qed simp

text \<open>Which sections are present depends on the configuration; they are always part of the full list.\<close>

definition full_steps :: "fpu \<Rightarrow> 'j json_lib \<Rightarrow> string \<Rightarrow> 'j \<Rightarrow> 'a cfg_step list" where
  "full_steps F J localip x =
     top_steps J x @ scan_steps J x @ tuner_steps J x @
     (spkcalib_steps J x @ spkcalib_vfreq_steps J x @ spkcalib_vgainl_steps J x @ spkcalib_vgainr_steps J x) @
     network_steps F J x @ headtrack_steps J x @ monitor_steps J x @ render_steps J x @ metronome_steps J x @
     jackrec_steps J x @ proxy_steps J localip x @ mcrec_steps J x"

lemmas all_steps_defs = full_steps_def top_steps_def scan_steps_def tuner_steps_def spkcalib_steps_def
  spkcalib_vfreq_steps_def spkcalib_vgainl_steps_def spkcalib_vgainr_steps_def network_steps_def headtrack_steps_def
  monitor_steps_def render_steps_def metronome_steps_def jackrec_steps_def proxy_steps_def mcrec_steps_def

lemma run_no_throw:
  "run_steps (fs @ throw_step e # gs) s \<noteq> (s', None)"
proof (induction fs arbitrary: s)
  case Nil
  then show ?case by (cases s) (simp add: throw_step_def)
next
  case (Cons f fs)
  obtain s1 x where "f s = (s1, x)" by fastforce
  with Cons show ?case by (cases x) simp_all
qed

definition no_throw :: "'a cfg_step list \<Rightarrow> bool" where
  "no_throw fs \<longleftrightarrow> (\<forall>e. throw_step e \<notin> set fs)"

lemma no_throw_append [simp]: "no_throw (xs @ ys) \<longleftrightarrow> no_throw xs \<and> no_throw ys"
  by (auto simp: no_throw_def)

lemma no_throw_single [simp]: "\<not> no_throw [throw_step e]"
  by (auto simp: no_throw_def)

lemma success_no_throw: "run_steps fs s = (s', None) \<Longrightarrow> no_throw fs"
  unfolding no_throw_def using run_no_throw by (metis split_list)

lemma object_section_subseq: "no_throw (object_section J x c steps) \<Longrightarrow> subseq (object_section J x c steps) steps"
  by (auto simp: object_section_def split: sum.splits)

lemma string_section_subseq: "no_throw (string_section J x c k steps) \<Longrightarrow> subseq (string_section J x c k steps) steps"
  by (auto simp: string_section_def split: sum.splits)

lemma object_section_no_throw:
  "no_throw (object_section J x c steps) \<Longrightarrow> object_section J x c steps = [] \<or> object_section J x c steps = steps \<and> no_throw steps"
  by (auto simp: object_section_def split: sum.splits)

lemma spkcalib_subseq:
  assumes "no_throw (object_section J x c (as @ string_section J x c k1 bs1 @ string_section J x c k2 bs2 @ string_section J x c k3 bs3))"
  shows "subseq (object_section J x c (as @ string_section J x c k1 bs1 @ string_section J x c k2 bs2 @ string_section J x c k3 bs3))
    (as @ bs1 @ bs2 @ bs3)"
  using object_section_no_throw [OF assms] by (auto intro!: list_emb_append_mono string_section_subseq)

lemma extra_steps_subseq:
  assumes "no_throw (extra_steps F J localip x :: 'a cfg_step list)"
  shows "subseq (extra_steps F J localip x :: 'a cfg_step list) (full_steps F J localip x)"
  using assms unfolding extra_steps_def full_steps_def no_throw_append
  by (elim conjE) (intro list_emb_append_mono subseq_order.refl object_section_subseq spkcalib_subseq; assumption)

lemma sorted_wrt_subseq: "subseq xs ys \<Longrightarrow> sorted_wrt P ys \<Longrightarrow> sorted_wrt P xs"
  by (induction rule: list_emb.induct) (auto dest: list_emb_set)

lemma list_all_subseq: "subseq xs ys \<Longrightarrow> list_all P ys \<Longrightarrow> list_all P xs"
  by (auto simp: list_all_iff dest: list_emb_set)

lemma full_steps_resettle: "list_all resettles (full_steps F J localip x)"
  unfolding all_steps_defs list_all_append
  by (intro conjI; simp only: list.pred_inject; intro conjI TrueI; rule set_var_resettles)
    (auto simp: put_deadline_def put_proxy_def get_proxy_def metronome_neq_def dest: my_js_value_stable)

lemma full_steps_own: "list_all own_config (full_steps F J localip x)"
  unfolding all_steps_defs list_all_append
  by (intro conjI; simp only: list.pred_inject; intro conjI TrueI; rule set_var_own)
    (auto simp: put_deadline_def put_proxy_def get_proxy_def)

lemma sorted_wrt_Cons_all: "sorted_wrt P (x # xs) \<longleftrightarrow> list_all (P x) xs \<and> sorted_wrt P xs"
  by (simp add: list_all_iff)

lemma full_steps_keep: "sorted_wrt keeps (full_steps F J localip x)"
  unfolding all_steps_defs append.simps sorted_wrt_Cons_all list.pred_inject sorted_wrt.simps(1)
  by (intro conjI TrueI list.pred_inject(1); rule set_var_keeps; simp add: put_deadline_def put_proxy_def get_proxy_def split_beta)


lemma extra_steps_settle:
  assumes "run_steps (extra_steps F J localip x) (b, r) = ((b', r'), None)" and "f \<in> set (extra_steps F J localip x)"
  shows "settled f r' \<and> own_config f"
proof -
  note sub = extra_steps_subseq [OF success_no_throw [OF assms(1)]]
  show ?thesis
    using list_all_subseq [OF sub full_steps_resettle] list_all_subseq [OF sub full_steps_own] assms(2)
      run_settles [OF sorted_wrt_subseq [OF sub full_steps_keep] _ assms] by (simp add: list_all_iff)
qed

section \<open>What the configuration leaves alone\<close>

definition only_config :: "'a tascar_scheme \<Rightarrow> 'a tascar_scheme \<Rightarrow> bool" where
  "only_config r r' \<longleftrightarrow> (\<exists>g m c. r' = r\<lparr>ts_cfg := g, ts_mc := m, ts_ovboxclient := c\<rparr>)"

definition config_step :: "'a cfg_step \<Rightarrow> bool" where
  "config_step f \<longleftrightarrow> (\<forall>b r. only_config r (snd (fst (f (b, r)))))"

lemma only_config_refl [simp]: "only_config r r"
  unfolding only_config_def by (rule exI [of _ "ts_cfg r"], rule exI [of _ "ts_mc r"], rule exI [of _ "ts_ovboxclient r"]) simp

lemma only_config_trans:
  assumes "only_config r r1" and "only_config r1 r2"
  shows "only_config r r2"
proof -
  obtain g m c g' m' c' where "r1 = r\<lparr>ts_cfg := g, ts_mc := m, ts_ovboxclient := c\<rparr>"
    and "r2 = r1\<lparr>ts_cfg := g', ts_mc := m', ts_ovboxclient := c'\<rparr>"
    using assms unfolding only_config_def by blast
  then have "r2 = r\<lparr>ts_cfg := g', ts_mc := m', ts_ovboxclient := c'\<rparr>" by simp
  then show ?thesis unfolding only_config_def by blast
qed

lemma only_config_intros [simp]:
  "only_config r (r\<lparr>ts_cfg := g\<rparr>)" "only_config r (r\<lparr>ts_mc := m\<rparr>)"
  "only_config r (r\<lparr>ts_cfg := g, ts_ovboxclient := c\<rparr>)"
  unfolding only_config_def
    apply (rule exI [of _ g], rule exI [of _ "ts_mc r"], rule exI [of _ "ts_ovboxclient r"], simp)
   apply (rule exI [of _ "ts_cfg r"], rule exI [of _ m], rule exI [of _ "ts_ovboxclient r"], simp)
  apply (rule exI [of _ g], rule exI [of _ "ts_mc r"], rule exI [of _ c], simp)
  done

lemma set_var_config: "(\<And>v r. only_config r (put v r)) \<Longrightarrow> config_step (set_var need rd sel put)"
  unfolding config_step_def set_var_def by (auto split: sum.split)

lemma throw_config: "config_step (throw_step e)"
  by (simp add: config_step_def throw_step_def)

lemma full_steps_config: "list_all config_step (full_steps F J localip x)"
  unfolding all_steps_defs list_all_append
  by (intro conjI; simp only: list.pred_inject; intro conjI TrueI; rule set_var_config)
    (auto simp: put_deadline_def put_proxy_def split_beta)

lemma section_in: "f \<in> set (object_section J x c steps) \<Longrightarrow> f \<in> set steps \<or> (\<exists>e. f = throw_step e)"
  "f \<in> set (string_section J x c k steps) \<Longrightarrow> f \<in> set steps \<or> (\<exists>e. f = throw_step e)"
  by (auto simp: object_section_def string_section_def split: sum.splits if_splits)

lemma extra_steps_in_full:
  "f \<in> set (extra_steps F J localip x) \<Longrightarrow> f \<in> set (full_steps F J localip x) \<or> (\<exists>e. f = throw_step e)"
  unfolding extra_steps_def full_steps_def set_append Un_iff by (elim disjE; (drule section_in(1) | simp); auto dest: section_in(2))

lemma extra_steps_config: "f \<in> set (extra_steps F J localip x) \<Longrightarrow> config_step f"
  using extra_steps_in_full full_steps_config throw_config by (fastforce simp: list_all_iff)

lemma run_steps_config: "(\<And>f. f \<in> set fs \<Longrightarrow> config_step f) \<Longrightarrow> run_steps fs (b, r) = ((b', r'), ex) \<Longrightarrow> only_config r r'"
proof (induction fs arbitrary: b r)
  case (Cons f fs)
  obtain b1 r1 x where f: "f (b, r) = ((b1, r1), x)" by (metis surj_pair)
  have "only_config r r1" using Cons.prems(1) [of f] f by (force simp: config_step_def dest: spec [of _ b] spec [of _ r])
  then show ?case using Cons.IH [of b1 r1] Cons.prems f by (cases x) (auto intro: only_config_trans)
qed simp

lemma extra_config_frame:
  assumes "set_extra_config F J js r = (r', ex)"
  shows "\<exists>r1. only_config r r1 \<and> (r' = r1 \<or> ex = None \<and> session_active r1 \<and> r' = require_session_restart r1)"
proof -
  have "only_config r r'" if "js = [] \<or> (\<exists>e. js_parse J js = Inl e)"
    using that assms by (auto simp: set_extra_config_def split: if_splits sum.splits)
  moreover have ?thesis if x: "js \<noteq> []" "js_parse J js = Inr x" for x
  proof -
    obtain b1 r1 y where run: "run_steps (extra_steps F J (ts_localip r) x) (False, r) = ((b1, r1), y)" by (metis surj_pair)
    have "only_config r r1" by (rule run_steps_config [OF extra_steps_config run])
    with run x assms show ?thesis by (cases y) (auto simp: set_extra_config_def split: if_splits)
  qed
  ultimately show ?thesis by (cases "js_parse J js") auto
qed

text \<open>A client stays a client: only its deadline may change.\<close>

lemma only_config_fields:
  assumes "only_config r r'"
  shows "ts_tascar r' = ts_tascar r" "session_ready r' = session_ready r" "session_active r' = session_active r"
    "ts_h_webmixer r' = ts_h_webmixer r" "ts_h_jack r' = ts_h_jack r" "audio_active r' = audio_active r"
  using assms unfolding only_config_def by auto

definition client_step :: "'a cfg_step \<Rightarrow> bool" where
  "client_step f \<longleftrightarrow> (\<forall>b r. ts_ovboxclient r = None \<longrightarrow> ts_ovboxclient (snd (fst (f (b, r)))) = None)"

lemma set_var_client:
  "(\<And>v r. ts_ovboxclient r = None \<Longrightarrow> ts_ovboxclient (put v r) = None) \<Longrightarrow> client_step (set_var need rd sel put)"
  unfolding client_step_def set_var_def by (auto split: sum.split)

lemma throw_client: "client_step (throw_step e)"
  by (simp add: client_step_def throw_step_def)

lemma full_steps_client: "list_all client_step (full_steps F J localip x)"
  unfolding all_steps_defs list_all_append
  by (intro conjI; simp only: list.pred_inject; intro conjI TrueI; rule set_var_client)
    (auto simp: put_deadline_def put_proxy_def split_beta)

lemma extra_steps_client: "f \<in> set (extra_steps F J localip x) \<Longrightarrow> client_step f"
  using extra_steps_in_full full_steps_client throw_client by (fastforce simp: list_all_iff)

lemma run_steps_client:
  "(\<And>f. f \<in> set fs \<Longrightarrow> client_step f) \<Longrightarrow> run_steps fs (b, r) = ((b', r'), ex) \<Longrightarrow> ts_ovboxclient r = None \<Longrightarrow> ts_ovboxclient r' = None"
proof (induction fs arbitrary: b r)
  case (Cons f fs)
  obtain b1 r1 x where f: "f (b, r) = ((b1, r1), x)" by (metis surj_pair)
  have "ts_ovboxclient r1 = None"
    using Cons.prems(1) [of f] Cons.prems(3) f by (force simp: client_step_def dest: spec [of _ b] spec [of _ r])
  then show ?case using Cons.IH [of b1 r1] Cons.prems f by (cases x) auto
qed simp

lemma extra_config_clients:
  assumes "set_extra_config F J js r = (r', ex)"
  shows "ts_tascar r' = ts_tascar r \<and> session_ready r' = session_ready r \<and> session_active r' = session_active r \<and>
    ts_h_webmixer r' = ts_h_webmixer r \<and> ts_h_jack r' = ts_h_jack r \<and> audio_active r' = audio_active r \<and>
    (ts_ovboxclient r = None \<longrightarrow> ts_ovboxclient r' = None)"
proof -
  obtain r1 where r1: "only_config r r1" "r' = r1 \<or> r' = require_session_restart r1" using extra_config_frame [OF assms] by blast
  have "ts_ovboxclient r' = None" if none: "ts_ovboxclient r = None"
  proof (cases "js = [] \<or> (\<exists>e. js_parse J js = Inl e)")
    case False
    then obtain x where x: "js \<noteq> []" "js_parse J js = Inr x" by (cases "js_parse J js") auto
    obtain b1 r2 y where run: "run_steps (extra_steps F J (ts_localip r) x) (False, r) = ((b1, r2), y)" by (metis surj_pair)
    have "ts_ovboxclient r2 = None" by (rule run_steps_client [OF extra_steps_client run none])
    with run x assms show ?thesis
      by (cases y) (auto simp: set_extra_config_def require_session_restart_def split: if_splits)
  qed (use assms none in \<open>auto simp: set_extra_config_def split: if_splits sum.splits\<close>)
  with only_config_fields [OF r1(1)] r1(2) show ?thesis by (auto simp: require_session_restart_def)
qed

text \<open>What was applied once is settled.\<close>

lemma extra_config_again:
  fixes r r1 r2 :: "'b tascar_scheme"
  assumes "set_extra_config F J js r = (r1, None)"
    and "ts_cfg r2 = ts_cfg r1" and "ts_mc r2 = ts_mc r1" and "ts_localip r2 = ts_localip r"
  shows "set_extra_config F J js r2 = (r2, None)"
proof (cases "js = []")
  case False
  then obtain x where x: "js_parse J js = Inr x"
    using assms(1) by (auto simp: set_extra_config_def split: sum.splits)
  obtain b r' ex where run: "run_steps (extra_steps F J (ts_localip r) x) (False, r) = ((b, r'), ex)" by (metis surj_pair)
  have ex: "ex = None" and r1: "r1 = r' \<or> r1 = require_session_restart r'"
    using assms(1) False x run by (auto simp: set_extra_config_def split: option.splits if_splits)
  have "settled f r2" if "f \<in> set (extra_steps F J (ts_localip r) x)" for f :: "'b cfg_step"
    using extra_steps_settle [OF run [unfolded ex] that] r1 assms(2,3) by (auto simp: own_config_def require_session_restart_def)
  from run_settled [OF this] show ?thesis using False x assms(4) by (simp add: set_extra_config_def)
qed (simp add: set_extra_config_def)

section \<open>Properties\<close>

text \<open>A configuration takes effect once: when it was applied without an exception, applying it again,
  at any later time at which the configured members are still the same, changes nothing and
  never requires a restart, whatever happened to the session in between.\<close>

theorem extra_config_idempotent:
  fixes r r1 r2 :: "'b tascar_scheme"
  assumes "set_extra_config F J js r = (r1, None)"
    and "ts_cfg r2 = ts_cfg r1" and "ts_mc r2 = ts_mc r1" and "ts_localip r2 = ts_localip r"
  shows "set_extra_config F J js r2 = (r2, None)"
  by (rule extra_config_again [OF assms])

definition example_fpu_json :: "jval json_lib" where
  "example_fpu_json = jval_lib (\<lambda>s. Inr (if s = ''bad'' then Jobj [(''tscinclude'', Jstr ''a''), (''mhaconfig'', Jbool True)]
     else Jobj [(''tscinclude'', Jstr ''a''), (''tuner'', Jobj [(''tuner_active'', Jbool True)])]))"

definition example_running :: tascar where
  "example_running = (tascar_ctor [] zero_endpoint ''dev'' 0 False)\<lparr>session_active := True\<rparr>"

lemmas example_config_simps = set_extra_config_def extra_steps_def example_fpu_json_def jval_lib_def object_section_def
  string_section_def top_steps_def tuner_steps_def set_var_def js_var_def my_js_value_def example_running_def
  tascar_ctor_def render_base.defs tascar_config_ctor_def require_session_restart_def no_restart_def

theorem extra_config_idempotent_witness:
  "\<exists>r. set_extra_config exact_fpu example_fpu_json ''good'' example_running = (r, None) \<and> restart_needed r \<and>
     set_extra_config exact_fpu example_fpu_json ''good'' (r\<lparr>restart_needed := False\<rparr>) = (r\<lparr>restart_needed := False\<rparr>, None)"
proof -
  obtain r where r: "set_extra_config exact_fpu example_fpu_json ''good'' example_running = (r, None)" and "restart_needed r"
    and "ts_localip r = ts_localip example_running"
    by (simp add: example_config_simps)
  then show ?thesis using extra_config_idempotent [OF r, of "r\<lparr>restart_needed := False\<rparr>"] by auto
qed

text \<open>An exception in the additional configuration loses restarts: it reports the error behind
  the name of the method and leaves the session, its flags and the stage as they were, although the
  members in front of the failing one have their new values; a restart that these need is
  not required.\<close>

theorem extra_config_exception:
  assumes "set_extra_config F J js r = (r1, Some e)"
  shows "restart_needed r1 = restart_needed r \<and> session_active r1 = session_active r \<and> ts_tascar r1 = ts_tascar r \<and>
    ovr_stage r1 = ovr_stage r \<and> ovr_audiodevice r1 = ovr_audiodevice r \<and> starts_with (what e) ''set_extra_config: '' \<and>
    (js_parse J js = Inr x \<longrightarrow> (\<exists>b e'. run_steps (extra_steps F J (ts_localip r) x) (False, r) = ((b, r1), Some e')))"
proof -
  have "only_config r r1" using extra_config_frame [OF assms] by auto
  then have "restart_needed r1 = restart_needed r \<and> session_active r1 = session_active r \<and> ts_tascar r1 = ts_tascar r \<and>
    ovr_stage r1 = ovr_stage r \<and> ovr_audiodevice r1 = ovr_audiodevice r"
    by (auto simp: only_config_def)
  moreover have "starts_with (what e) ''set_extra_config: '' \<and>
    (js_parse J js = Inr x \<longrightarrow> (\<exists>b e'. run_steps (extra_steps F J (ts_localip r) x) (False, r) = ((b, r1), Some e')))"
    using assms by (auto simp: set_extra_config_def starts_with_def split: if_splits sum.splits prod.splits option.splits)
  ultimately show ?thesis by blast
qed

theorem extra_config_exception_witness:
  "\<exists>r. set_extra_config exact_fpu example_fpu_json ''bad'' example_running = (r, Some (ErrMsg (''set_extra_config: type_error ('' @ apos @
       ''json'' @ apos @ '', key: '' @ apos @ ''mhaconfig'' @ apos @ '')''))) \<and>
     tc_tscinclude (ts_cfg example_running) \<noteq> ''a'' \<and> tc_tscinclude (ts_cfg r) = ''a'' \<and> session_active r \<and> \<not> restart_needed r"
proof -
  obtain r where r: "set_extra_config exact_fpu example_fpu_json ''bad'' example_running = (r, Some (ErrMsg (''set_extra_config: type_error ('' @ apos @
       ''json'' @ apos @ '', key: '' @ apos @ ''mhaconfig'' @ apos @ '')'')))" and "tc_tscinclude (ts_cfg r) = ''a''"
    by (simp add: example_config_simps type_error_def)
  with extra_config_exception [OF r] show ?thesis
    by (auto simp: example_running_def tascar_ctor_def render_base.defs render_base_ctor_def tascar_config_ctor_def)
qed

end
