(* ===== verification/Tascar_Session.thy ===== *)
theory Tascar_Session
  imports Tascar_Document Tascar_Config
begin

text \<open>
  The life of a session in the renderer (\<open>ov_render_tascar.cc\<close>): starting and ending it, the
  audio server, and the setters that the renderer overrides. What the TASCAR library, the
  audio server and the operating system answer is the environment of a call.
\<close>

section \<open>Environment\<close>

text \<open>
  Beside the fields of \<open>scene_env\<close>: floating-point unit, sockets of the session client, order of
  the hash table of connections, XML parser, the session's constructor, validation and start
  with what they throw, output ports, addresses and folders; for the audio server the sound
  devices, \<open>%g\<close>, the tests for the server with the clock, and the rate and period it reports.
\<close>

record session_env = scene_env +
  en_fpu :: fpu
  en_setup :: client_setup
  en_xports :: "(string, string) omap \<Rightarrow> (string \<times> string) list"
  en_parse_xml :: "string \<Rightarrow> err + xnode"
  en_session_new :: "xnode \<Rightarrow> err option"
  en_validate :: "xnode \<Rightarrow> err + string"
  en_start :: "xnode \<Rightarrow> err option"
  en_out_ports :: "string list"
  en_ipaddr :: endpoint
  en_bindir :: string
  en_homebrew :: string
  en_hints :: "(string option \<times> string option) list option"
  en_cards :: "(int \<times> int \<times> string option) list"
  en_show_g :: "real \<Rightarrow> string"
  en_jack_tests :: "nat \<Rightarrow> bool"
  en_toc :: "nat \<Rightarrow> real"
  en_jack :: "(real \<times> 32 word) option"

section \<open>The session client\<close>

definition client_config_of :: "'a tascar_scheme \<Rightarrow> client_config" where
  "client_config_of r =
     (let s = ovr_stage r; rs = stg_rendersettings s; own = stg_thisdevice s; g = ts_cfg r in
      \<lparr>cfg_desthost = stg_host s, cfg_destport = stg_port s,
       cfg_recport = get_zitaport (stg_thisstagedeviceid s) (ts_portoffset r) 0, cfg_portoffset = ts_portoffset r,
       cfg_secret = stg_pin s, cfg_callerid = stg_thisstagedeviceid s, cfg_peer2peer = rs_peer2peer rs,
       cfg_donotsend = (tc_use_proxy g \<or> \<not> rs_receive rs), cfg_receivedownmix = sd_receivedownmix own,
       cfg_sendlocal = sd_sendlocal (stage_entry (stg_thisstagedeviceid s) r), cfg_deadline = tc_sorter_deadline g,
       cfg_senddownmix = sd_senddownmix own, cfg_usingproxy = tc_use_proxy g,
       cfg_use_tcp_tunnel = rs_usetcptunnel rs, cfg_encryption = rs_encryption rs\<rparr>)"

fun add_proxy_clients ::
  "resolver \<Rightarrow> (stage_device_id_t \<times> string) list \<Rightarrow> ovboxclient \<Rightarrow> ovboxclient outcome" where
  "add_proxy_clients R [] c = (c, None)"
| "add_proxy_clients R ((i, host) # ps) c =
     (case add_proxy_client R i host c of
        Inl e \<Rightarrow> (c, Some e)
      | Inr c1 \<Rightarrow> add_proxy_clients R ps c1)"

fun add_receiverports :: "port_t list \<Rightarrow> ovboxclient \<Rightarrow> ovboxclient" where
  "add_receiverports [] c = c"
| "add_receiverports (p # ps) c = add_receiverports ps (add_receiverport p p c)"

definition configure_client :: "resolver \<Rightarrow> 'a tascar_scheme \<Rightarrow> ovboxclient \<Rightarrow> ovboxclient outcome" where
  "configure_client R r c =
     (let s = settings r;
          c1 = (if rs_secrec s > 0 then add_extraport 100 c else c);
          c2 = add_receiverport (ts_dist_to_other_tascarport r) (ts_other_tascarport r) (add_receiverports (rs_xrecport s) c1);
          c3 = (if ts_pinglogport r \<noteq> 0 then set_latreport_callback True (set_ping_callback True c2) else c2)
      in and_then (add_proxy_clients R (tc_proxyclients (ts_cfg r)) c3)
           (\<lambda>c4. (set_hiresping (sd_hiresping (stg_thisdevice (ovr_stage r))) c4, None)))"

definition open_client :: "session_env \<Rightarrow> 'a tascar_scheme \<Rightarrow> 'a tascar_scheme outcome" where
  "open_client E r0 =
     (if in_room r0 then
        let r = touch_stage (own_id r0) r0
        in case ovboxclient_ctor (en_fpu E) (en_setup E) (client_config_of r) of
             Inl e \<Rightarrow> (r, Some e)
           | Inr c \<Rightarrow>
               let (c', ex) = configure_client (su_resolver (en_setup E)) r c
               in (r\<lparr>ts_ovboxclient := Some c'\<rparr>, ex)
      else (r0, None))"

section \<open>The web mixer\<close>

definition webmixer_command :: "session_env \<Rightarrow> 'a tascar_scheme \<Rightarrow> string" where
  "webmixer_command E r =
     (let ipaddr = ep2ipstr (en_ipaddr E) @ '' '' @ apos @ dev_id r @ '' ('' @ sd_label (stg_thisdevice (ovr_stage r)) @ '')'' @ apos;
          c1 = (if en_good E ''/usr/share/ovclient/webmixer.js'' then ''node /usr/share/ovclient/webmixer.js '' @ ipaddr else []);
          c2 = (if en_good E (en_bindir E @ ''/webmixer.js'') then ''node '' @ en_bindir E @ ''/webmixer.js '' @ ipaddr else c1);
          c3 = (if en_good E ''webmixer.js'' then ''node webmixer.js '' @ ipaddr else c2)
      in if en_homebrew E \<noteq> [] \<and> en_good E (en_homebrew E @ ''/share/ovclient/webmixer.js'')
         then ''node '' @ en_homebrew E @ ''/share/ovclient/webmixer.js '' @ ipaddr else c3)"

definition start_webmixer :: "session_env \<Rightarrow> 'a tascar_scheme \<Rightarrow> 'a tascar_scheme" where
  "start_webmixer E r =
     (if tc_start_webmixer (ts_cfg r) \<and> \<not> ts_secondary r \<and> webmixer_command E r \<noteq> []
      then r\<lparr>ts_h_webmixer := Some (webmixer_command E r)\<rparr> else r)"

section \<open>Starting and ending a session\<close>

text \<open>
  The session object is validated and started; when one of these throws, session and client
  are deleted and the exception is thrown again.
\<close>

definition run_session :: "session_env \<Rightarrow> xnode \<Rightarrow> err option" where
  "run_session E d =
     (case en_validate E d of
        Inl e \<Rightarrow> Some e
      | Inr v \<Rightarrow> if v \<noteq> [] then Some (ErrMsg v) else en_start E d)"

definition include_throws :: "session_env \<Rightarrow> 'a tascar_scheme \<Rightarrow> err option" where
  "include_throws E r =
     (if tc_tscinclude (ts_cfg r) \<noteq> []
      then (case en_parse_xml E (tc_tscinclude (ts_cfg r)) of Inl e \<Rightarrow> Some e | Inr x \<Rightarrow> None) else None)"

definition launch_session :: "session_env \<Rightarrow> xnode list \<Rightarrow> doc \<Rightarrow> 'a tascar_scheme \<Rightarrow> 'a tascar_scheme outcome" where
  "launch_session E scene d r =
     (case include_throws E r of
        Some e \<Rightarrow> (r, Some e)
      | None \<Rightarrow>
          let tsc = end_document (en_tsc E) r scene d
          in case en_session_new E tsc of
               Some e \<Rightarrow> (r, Some e)
             | None \<Rightarrow>
                 (case run_session E tsc of
                    Some e \<Rightarrow> (r\<lparr>ts_tascar := None, ts_ovboxclient := None\<rparr>, Some (ErrMsg (what e)))
                  | None \<Rightarrow>
                      let r1 = r\<lparr>ts_tascar := Some tsc,
                                ts_inputports := get_jack_input_ports (en_out_ports E) (dev_id r)\<rparr>
                      in ((start_webmixer E r1)\<lparr>session_ready := True\<rparr>, None)))"

definition start_session :: "session_env \<Rightarrow> 'a tascar_scheme \<Rightarrow> 'a tascar_scheme outcome" where
  "start_session E r =
     and_then (base_start_session r) (\<lambda>r1.
       let (scene, d, r2) = begin_document (scene_env.truncate E) (en_xports E (rs_xports (settings r1))) r1
       in and_then (open_client E r2) (launch_session E scene d))"

definition end_session :: "'a tascar_scheme \<Rightarrow> 'a tascar_scheme outcome" where
  "end_session r =
     and_then (base_end_session (r\<lparr>session_ready := False\<rparr>)) (\<lambda>r1.
       (r1\<lparr>ts_h_webmixer := None, ts_tascar := None, ts_ovboxclient := None\<rparr>, None))"

section \<open>The audio server\<close>

definition show_i32 :: "32 word \<Rightarrow> string" where
  "show_i32 w = (if sint w < 0 then ''-'' else []) @ show_nat (nat \<bar>sint w\<bar>)"

text \<open>The device name for the server: the last device of the list for the two special names.\<close>

definition jack_devname :: "session_env \<Rightarrow> string \<Rightarrow> string" where
  "jack_devname E name =
     (let devs = list_sound_devices (en_hints E) (en_cards E) in
      if name = ''highest'' then (if devs \<noteq> [] then snd_dev (last devs) else [])
      else if name = ''plughighest'' then (if devs \<noteq> [] then ''plug'' @ snd_dev (last devs) else name)
      else name)"

text \<open>The command is printed into a buffer of 1024 characters; the model has no such limit.\<close>

definition jack_command :: "session_env \<Rightarrow> audio_device \<Rightarrow> string" where
  "jack_command E ad =
     (if ad_devicename ad \<noteq> ''dummy'' \<and> ad_devicename ad \<noteq> ''plugdummy'' then
        ''jackd --sync -P '' @ show_i32 (ad_priority ad) @ '' -d alsa -d '' @ apos @ jack_devname E (ad_devicename ad) @ apos @
        '' -r '' @ en_show_g E (ad_srate ad) @ '' -p '' @ show_i32 (ad_periodsize ad) @ '' -n '' @ show_i32 (ad_numperiods ad)
      else
        ''jackd --sync -P '' @ show_i32 (ad_priority ad) @ '' -d dummy -r '' @ en_show_g E (ad_srate ad) @
        '' -p '' @ show_i32 (ad_periodsize ad))"

text \<open>
  The loop that waits for the server: turn \<open>k\<close> tests for it and then reads the clock. The value
  is the number of the last turn, \<open>None\<close> when it does not end (which cannot happen with a clock
  that advances, see below).
\<close>

partial_function (option) wait_for_jack :: "(nat \<Rightarrow> bool) \<Rightarrow> (nat \<Rightarrow> real) \<Rightarrow> nat \<Rightarrow> nat option" where
  "wait_for_jack tests toc k = (if \<not> tests k \<and> toc k < 10 then wait_for_jack tests toc (k + 1) else Some k)"

text \<open>The server's own rate and period replace the configured ones.\<close>

definition query_jack :: "session_env \<Rightarrow> 'a tascar_scheme \<Rightarrow> 'a tascar_scheme" where
  "query_jack E r =
     (case en_jack E of
        Some (srate, periodsize) \<Rightarrow>
          r\<lparr>ovr_audiodevice := (ovr_audiodevice r)\<lparr>ad_srate := srate, ad_periodsize := periodsize\<rparr>,
            ts_inputports := get_jack_input_ports (en_out_ports E) (dev_id r)\<rparr>
      | None \<Rightarrow> r\<lparr>ts_inputports := [''system:capture_1'', ''system:capture_2'']\<rparr>)"

definition audio_error :: "string \<Rightarrow> err" where
  "audio_error cmd = ErrMsg (''Unable to start audio backend. You might need to select a different audio device. ('' @ cmd @ '')'')"

definition start_audiobackend :: "session_env \<Rightarrow> 'a tascar_scheme \<Rightarrow> 'a tascar_scheme outcome" where
  "start_audiobackend E r =
     and_then (base_start_audiobackend r) (\<lambda>r1.
       let ad = ovr_audiodevice r1 in
       if ad_drivername ad = ''jack'' \<and> ad_devicename ad \<noteq> ''manual'' then
         let cmd = jack_command E ad; r2 = r1\<lparr>ts_h_jack := Some cmd\<rparr>
         in case wait_for_jack (en_jack_tests E) (en_toc E) 0 of
              None \<Rightarrow> (r2, Some (audio_error cmd))
            | Some k \<Rightarrow> if \<not> en_jack_tests E (k + 1) then (r2, Some (audio_error cmd)) else (query_jack E r2, None)
       else (query_jack E r1, None))"

definition stop_audiobackend :: "'a tascar_scheme \<Rightarrow> 'a tascar_scheme outcome" where
  "stop_audiobackend r = and_then (base_stop_audiobackend r) (\<lambda>r1. (r1\<lparr>ts_h_jack := None\<rparr>, None))"

text \<open>The destructor.\<close>

definition tascar_dtor :: "'a tascar_scheme \<Rightarrow> 'a tascar_scheme outcome" where
  "tascar_dtor r =
     and_then (if session_active r then end_session r else (r, None))
       (\<lambda>r1. if audio_active r1 then stop_audiobackend r1 else (r1, None))"

section \<open>Setters\<close>

definition tascar_clear_stage :: "'a tascar_scheme \<Rightarrow> 'a tascar_scheme outcome" where
  "tascar_clear_stage r =
     (let r1 = clear_stage r in if session_active r1 then end_session r1 else (r1, None))"

definition restart_if_changed :: "'a tascar_scheme \<Rightarrow> 'a tascar_scheme \<Rightarrow> 'a tascar_scheme" where
  "restart_if_changed p r =
     (if stage_neq (stg_stage (ovr_stage p)) (stg_stage (ovr_stage r)) \<and> session_active r
      then require_session_restart r else r)"

definition tascar_add_stage_device :: "stage_device \<Rightarrow> 'a tascar_scheme \<Rightarrow> 'a tascar_scheme" where
  "tascar_add_stage_device d r = restart_if_changed r (add_stage_device d r)"

definition tascar_rm_stage_device :: "stage_device_id_t \<Rightarrow> 'a tascar_scheme \<Rightarrow> 'a tascar_scheme" where
  "tascar_rm_stage_device i r = restart_if_changed r (rm_stage_device i r)"

definition tascar_set_stage :: "stage_map \<Rightarrow> 'a tascar_scheme \<Rightarrow> 'a tascar_scheme" where
  "tascar_set_stage m r = restart_if_changed r (set_stage m r)"

text \<open>The gain of a device, and the gains that are sent to ports of a running session.\<close>

definition tascar_set_stage_device_gain :: "stage_device_id_t \<Rightarrow> real \<Rightarrow> 'a tascar_scheme \<Rightarrow> 'a tascar_scheme" where
  "tascar_set_stage_device_gain i gain r =
     (let r1 = set_stage_device_gain i gain r
      in if session_active r1 \<and> ts_tascar r1 \<noteq> None then touch_stage i r1 else r1)"

definition gain_messages :: "tascar_lib \<Rightarrow> stage_device_id_t \<Rightarrow> 'a tascar_scheme \<Rightarrow> (string \<times> real) list" where
  "gain_messages T i r =
     (let d = stage_entry i r
      in map (\<lambda>(k, ch). (''/'' @ dev_id r @ ''/'' @ get_stagedev_name T i r @ ''/'' @ tl_uint T k,
                ch_gain ch * sd_gain d * (if i = own_id r then rs_egogain (settings r) else f06)))
           (enumerate 0 (sd_channels d)))"

definition tascar_set_render_settings ::
  "render_settings \<Rightarrow> stage_device_id_t \<Rightarrow> 'a tascar_scheme \<Rightarrow> 'a tascar_scheme" where
  "tascar_set_render_settings rs i r =
     (if settings_neq rs (settings r) \<or> i \<noteq> own_id r
      then require_session_restart (set_render_settings rs i r) else r)"

definition tascar_vtable :: "'j json_lib \<Rightarrow> session_env \<Rightarrow> 'a tascar_scheme vtable" where
  "tascar_vtable J E =
     \<lparr>vt_start_session = start_session E, vt_end_session = end_session,
      vt_start_audiobackend = start_audiobackend E, vt_stop_audiobackend = stop_audiobackend,
      vt_add_stage_device = (\<lambda>d r. (tascar_add_stage_device d r, None)),
      vt_rm_stage_device = (\<lambda>i r. (tascar_rm_stage_device i r, None)),
      vt_clear_stage = tascar_clear_stage, vt_set_stage = (\<lambda>m r. (tascar_set_stage m r, None)),
      vt_set_stage_device_gain = (\<lambda>i g r. (tascar_set_stage_device_gain i g r, None)),
      vt_set_render_settings = (\<lambda>rs i r. (tascar_set_render_settings rs i r, None)),
      vt_set_extra_config = set_extra_config (en_fpu E) J\<rparr>"

section \<open>What the methods leave alone\<close>

definition stage_ok :: "'a render_base_scheme \<Rightarrow> bool" where
  "stage_ok r \<longleftrightarrow> omap_wf (stg_stage (ovr_stage r))"

text \<open>Writing the document inserts missing entries into the stage and changes the names of the own sources.\<close>

definition doc_frame :: "'a tascar_scheme \<Rightarrow> 'a tascar_scheme \<Rightarrow> bool" where
  "doc_frame r r' \<longleftrightarrow>
     r' = r\<lparr>ovr_stage := (ovr_stage r)\<lparr>stg_stage := stg_stage (ovr_stage r')\<rparr>, ts_ego_source_names := ts_ego_source_names r'\<rparr> \<and>
     (stage_ok r \<longrightarrow> stage_ok r' \<and> map_of (stg_stage (ovr_stage r)) \<subseteq>\<^sub>m map_of (stg_stage (ovr_stage r')))"

lemma doc_frame_refl [simp]: "doc_frame r r"
  by (simp add: doc_frame_def)

lemma doc_frame_trans:
  assumes "doc_frame r r1" and "doc_frame r1 r2"
  shows "doc_frame r r2"
proof -
  obtain m n where r1: "r1 = r\<lparr>ovr_stage := (ovr_stage r)\<lparr>stg_stage := m\<rparr>, ts_ego_source_names := n\<rparr>"
    using assms(1) unfolding doc_frame_def by blast
  show ?thesis using assms unfolding doc_frame_def r1 by (auto intro: map_le_trans)
qed

lemma touch_keeps: "omap_wf m \<Longrightarrow> map_of m \<subseteq>\<^sub>m map_of (snd (omap_index d i m))"
  by (auto simp: map_le_def omap_index_def omap.lookup_put split: option.split)

lemma touch_frame [simp]: "doc_frame r (touch_stage i r)"
  by (simp add: doc_frame_def touch_stage_def upd_stage_def stage_ok_def omap_wf_index touch_keeps)

lemma names_frame [simp]: "doc_frame r (r\<lparr>ts_ego_source_names := n\<rparr>)"
  by (simp add: doc_frame_def stage_ok_def)

lemma raw_frame: "create_raw_dev T r = (x, r') \<Longrightarrow> doc_frame r r'"
  by (auto simp: create_raw_dev_def Let_def)

lemma acoustics_state:
  fixes E r
  defines "r1 \<equiv> touch_stage (own_id r) r"
  defines "r2 \<equiv> (if rs_receive (settings r1) \<and> b_sender_of (stage_entry (own_id r1) r1) then touch_stage (rs_id (settings r1)) r1 else r1)"
  assumes "create_virtual_acoustics E r = (a, b, c, r')"
  shows "\<exists>names. r' = r2\<lparr>ts_ego_source_names := names\<rparr>"
proof -
  have "r' = (if rs_receive (settings r1)
      then r2\<lparr>ts_ego_source_names := snd (scene_sources (en_tsc E) r2 (b_sender_of (stage_entry (own_id r1) r1)) (stage_entry (own_id r1) r1)
        (spread_step (b_sender_of (stage_entry (own_id r1) r1)) (stg_stage (ovr_stage r2)))
        (- 80 * (pi / 180) - 1 / 2 * spread_step (b_sender_of (stage_entry (own_id r1) r1)) (stg_stage (ovr_stage r2)))
        (stg_stage (ovr_stage r2)))\<rparr> else r2)"
    using arg_cong [OF assms(3), of "\<lambda>x. snd (snd (snd x))"]
    by (simp only: create_virtual_acoustics_def Let_def split_beta r1_def r2_def fst_conv snd_conv)
  moreover have "r2 = r2\<lparr>ts_ego_source_names := ts_ego_source_names r2\<rparr>" by simp
  ultimately show ?thesis by metis
qed

lemma acoustics_frame:
  assumes "create_virtual_acoustics E r = (a, b, c, r')"
  shows "doc_frame r r'"
proof -
  have "doc_frame (touch_stage (own_id r) r) (if P then touch_stage i (touch_stage (own_id r) r) else touch_stage (own_id r) r)" for P i
    by simp
  with acoustics_state [OF assms] show ?thesis by (blast intro: doc_frame_trans touch_frame names_frame)
qed

lemma begin_frame:
  assumes "begin_document E x r = (scene, d, r')"
  shows "doc_frame r r'"
  using assms
  by (auto simp: begin_document_def scene_part_def Let_def dest: acoustics_frame raw_frame split: prod.splits if_splits)

text \<open>
  After that, the start changes only resources: the session, the client, the web mixer, the input
  ports and the flag \<open>session_ready\<close>.
\<close>

definition res_frame :: "'a tascar_scheme \<Rightarrow> 'a tascar_scheme \<Rightarrow> bool" where
  "res_frame r r' \<longleftrightarrow>
     r' = r\<lparr>session_ready := session_ready r', ts_h_webmixer := ts_h_webmixer r', ts_tascar := ts_tascar r',
            ts_ovboxclient := ts_ovboxclient r', ts_inputports := ts_inputports r'\<rparr>"

lemma res_frame_trans:
  assumes "res_frame r r1" and "res_frame r1 r2"
  shows "res_frame r r2"
proof -
  obtain a h t c p where r1: "r1 = r\<lparr>session_ready := a, ts_h_webmixer := h, ts_tascar := t, ts_ovboxclient := c, ts_inputports := p\<rparr>"
    using assms(1) unfolding res_frame_def by blast
  show ?thesis using assms(2) unfolding res_frame_def r1 by simp
qed

lemma launch_frame: "launch_session E scene d r = (r', ex) \<Longrightarrow> res_frame r r'"
  by (auto simp: launch_session_def start_webmixer_def res_frame_def Let_def split: option.splits if_splits)

lemma open_frame:
  assumes "open_client E r = (r', ex)"
  shows "\<exists>r1. doc_frame r r1 \<and> res_frame r1 r'"
proof (cases "in_room r")
  case True
  then have "res_frame (touch_stage (own_id r) r) r'"
    using assms by (auto simp: open_client_def res_frame_def Let_def split: sum.splits prod.splits)
  then show ?thesis using touch_frame by blast
next
  case False
  then show ?thesis using assms by (auto simp: open_client_def res_frame_def intro: exI [of _ r])
qed

lemma start_frame:
  assumes "start_session E r = (r', ex)"
  shows "\<exists>r1. doc_frame (r\<lparr>session_active := True, restart_needed := False\<rparr>) r1 \<and> res_frame r1 r'"
proof -
  let ?r = "r\<lparr>session_active := True, restart_needed := False\<rparr>"
  obtain scene d r2 where b: "begin_document (scene_env.truncate E) (en_xports E (rs_xports (settings ?r))) ?r = (scene, d, r2)"
    by (metis surj_pair)
  obtain r3 ex3 where o: "open_client E r2 = (r3, ex3)" by fastforce
  obtain r4 where r4: "doc_frame r2 r4" "res_frame r4 r3" using open_frame [OF o] by blast
  then have f: "doc_frame ?r r4" using begin_frame [OF b] doc_frame_trans by blast
  have start: "(r', ex) = and_then (r3, ex3) (launch_session E scene d)"
    using assms b o by (simp add: start_session_def base_start_session_def)
  show ?thesis
  proof (cases ex3)
    case None
    then have "res_frame r3 r'" using start launch_frame [of E scene d r3 r' ex] by simp
    then have "res_frame r4 r'" using r4(2) by (rule res_frame_trans [rotated])
    with f show ?thesis by blast
  qed (use start f r4(2) in auto)
qed

section \<open>What a session depends on\<close>

text \<open>The devices on the stage that send audio, without their gains, which change in the running session.\<close>

definition senders :: "stage_map \<Rightarrow> (stage_device_id_t \<times> stage_device) list" where
  "senders m = map (\<lambda>(i, d). (i, anonymous (d\<lparr>sd_gain := 0\<rparr>))) (filter (\<lambda>(i, d). sd_channels d \<noteq> []) m)"

lemma senders_simps [simp]:
  "senders [] = []"
  "senders ((i, d) # m) = (if sd_channels d \<noteq> [] then (i, anonymous (d\<lparr>sd_gain := 0\<rparr>)) # senders m else senders m)"
  by (simp_all add: senders_def)

lemma anonymous_gain: "anonymous a = anonymous b \<Longrightarrow> anonymous (a\<lparr>sd_gain := g\<rparr>) = anonymous (b\<lparr>sd_gain := g\<rparr>)"
  by (cases a; cases b) (simp add: anonymous_def)

lemma anonymous_silent: "anonymous a = anonymous b \<Longrightarrow> sd_channels a = [] \<longleftrightarrow> sd_channels b = []"
  by (cases a; cases b) (auto simp: anonymous_def)

lemma senders_cong: "map (apsnd anonymous) a = map (apsnd anonymous) b \<Longrightarrow> senders a = senders b"
proof (induction a arbitrary: b)
  case (Cons x a)
  then obtain y b' where b: "b = y # b'" by (cases b) auto
  obtain i d j d' where "x = (i, d)" "y = (j, d')" by fastforce
  with Cons b show ?case by (auto dest: anonymous_gain [where g = 0] anonymous_silent)
qed simp

lemma senders_put_silent: "map_of m i = None \<Longrightarrow> sd_channels d = [] \<Longrightarrow> senders (omap_put i d m) = senders m"
  by (induction i d m rule: omap_put.induct) auto

lemma senders_put_gain:
  "omap_wf m \<Longrightarrow> map_of m i = Some d \<Longrightarrow> senders (omap_put i (d\<lparr>sd_gain := g\<rparr>) m) = senders m"
proof (induction m)
  case (Cons x m)
  obtain k d' where x: "x = (k, d')" by fastforce
  have "i < k \<Longrightarrow> map_of m i = None"
    using Cons.prems(1) by (force simp: x omap_wf_Cons map_of_eq_None_iff)
  with Cons x show ?case by (auto simp: omap_wf_Cons split: if_splits)
qed simp

lemma zero_device_silent [simp]: "sd_channels zero_device = []"
  by (simp add: zero_device_def)

lemma senders_index [simp]: "senders (snd (omap_index zero_device i m)) = senders m"
  by (simp add: omap_index_def senders_put_silent split: option.split)

definition tascar_key :: "'a tascar_scheme \<Rightarrow> render_settings \<times> stage_device_id_t \<times> (stage_device_id_t \<times> stage_device) list" where
  "tascar_key r = (settings r, own_id r, senders (stg_stage (ovr_stage r)))"

fun op_ok :: "render_op \<Rightarrow> bool" where
  "op_ok (Set_stage m) = omap_wf m"
| "op_ok op = True"

section \<open>The renderer keeps the laws\<close>

lemma end_session_eq:
  "end_session r = (r\<lparr>session_ready := False, session_active := False, ts_h_webmixer := None, ts_tascar := None,
     ts_ovboxclient := None\<rparr>, None)"
  by (simp add: end_session_def base_end_session_def)

lemma query_frame [simp]:
  "session_active (query_jack E r) = session_active r" "restart_needed (query_jack E r) = restart_needed r"
  "audio_active (query_jack E r) = audio_active r" "ovr_stage (query_jack E r) = ovr_stage r"
  "ts_h_jack (query_jack E r) = ts_h_jack r" "session_ready (query_jack E r) = session_ready r"
  "ts_tascar (query_jack E r) = ts_tascar r" "ts_ovboxclient (query_jack E r) = ts_ovboxclient r"
  "ts_h_webmixer (query_jack E r) = ts_h_webmixer r"
  by (simp_all add: query_jack_def split: option.split)

lemma start_audio_frame:
  assumes "start_audiobackend E r = (r', ex)"
  shows "audio_active r' \<and> session_active r' = session_active r \<and> restart_needed r' = restart_needed r \<and>
    ovr_stage r' = ovr_stage r \<and> session_ready r' = session_ready r \<and> ts_tascar r' = ts_tascar r \<and>
    ts_ovboxclient r' = ts_ovboxclient r \<and> ts_h_webmixer r' = ts_h_webmixer r"
  using assms
  by (auto simp: start_audiobackend_def base_start_audiobackend_def Let_def split: if_splits option.splits)

lemma start_session_law:
  assumes "start_session E r = (r', ex)"
  shows "session_active r' \<and> \<not> restart_needed r' \<and> audio_active r' = audio_active r \<and> (stage_ok r \<longrightarrow> stage_ok r')"
proof -
  obtain r1 where "doc_frame (r\<lparr>session_active := True, restart_needed := False\<rparr>) r1" and r': "res_frame r1 r'"
    using start_frame [OF assms] by blast
  then obtain m n where r1: "r1 = r\<lparr>session_active := True, restart_needed := False,
      ovr_stage := (ovr_stage r)\<lparr>stg_stage := m\<rparr>, ts_ego_source_names := n\<rparr>" and ok: "stage_ok r \<longrightarrow> stage_ok r1"
    unfolding doc_frame_def by (auto simp: stage_ok_def)
  obtain a h t c p where "r' = r1\<lparr>session_ready := a, ts_h_webmixer := h, ts_tascar := t, ts_ovboxclient := c, ts_inputports := p\<rparr>"
    using r' unfolding res_frame_def by blast
  with r1 ok show ?thesis by (simp add: stage_ok_def)
qed

lemma stage_setter_law:
  assumes "stage_op op" and "op_ok op" and "apply_op (tascar_vtable J E) op r = (r', ex)" and "stage_ok r"
  shows "stage_ok r' \<and> audio_active r' = audio_active r \<and> (session_active r' \<longrightarrow> session_active r) \<and>
    (restart_needed r \<longrightarrow> restart_needed r') \<and>
    (session_active r' \<and> \<not> restart_needed r' \<longrightarrow> (session_key r', tascar_key r') = (session_key r, tascar_key r))"
proof (cases op)
  case (Set_gain i g)
  show ?thesis using assms(3,4)
    by (auto simp: Set_gain tascar_vtable_def tascar_set_stage_device_gain_def set_stage_device_gain_def touch_stage_def
        tascar_key_def session_key_def settings_def own_id_def stage_ok_def senders_put_gain Let_def split: option.splits if_splits)
next
  case (Set_settings rs i)
  show ?thesis using assms(3,4)
    by (auto simp: Set_settings tascar_vtable_def tascar_set_render_settings_def set_render_settings_def stage_ok_def
        require_session_restart_def split: if_splits)
next
  case Clear_stage
  show ?thesis using assms(3,4)
    by (auto simp: Clear_stage tascar_vtable_def tascar_clear_stage_def clear_stage_def end_session_eq stage_ok_def Let_def
        split: if_splits)
next
  case (Set_extra js)
  then have "set_extra_config (en_fpu E) J js r = (r', ex)" using assms(3) by (simp add: tascar_vtable_def)
  then obtain r1 where "only_config r r1" and r': "r' = r1 \<or> r' = require_session_restart r1"
    using extra_config_frame by blast
  then obtain g m c where r1: "r1 = r\<lparr>ts_cfg := g, ts_mc := m, ts_ovboxclient := c\<rparr>" unfolding only_config_def by blast
  show ?thesis using r' assms(4) unfolding r1
    by (auto simp: stage_ok_def tascar_key_def session_key_def settings_def own_id_def require_session_restart_def)
qed (use assms in \<open>auto simp: tascar_vtable_def tascar_add_stage_device_def tascar_rm_stage_device_def tascar_set_stage_def
    restart_if_changed_def stage_neq_iff add_stage_device_def rm_stage_device_def set_stage_def require_session_restart_def
    tascar_key_def session_key_def settings_def own_id_def stage_ok_def dest: senders_cong split: if_splits\<close>)

interpretation tascar_renderer: renderer "tascar_vtable J" tascar_key stage_ok op_ok for J :: "'j json_lib"
proof unfold_locales
  fix E r r' ex and op :: render_op
  show "stage_ok r \<Longrightarrow> vt_start_session (tascar_vtable J E) r = (r', ex) \<Longrightarrow>
      stage_ok r' \<and> session_active r' \<and> \<not> restart_needed r' \<and> audio_active r' = audio_active r"
    using start_session_law [of E r r' ex] by (simp add: tascar_vtable_def)
  show "stage_ok r \<Longrightarrow> vt_end_session (tascar_vtable J E) r = (r', ex) \<Longrightarrow>
      stage_ok r' \<and> ex = None \<and> \<not> session_active r' \<and> restart_needed r' = restart_needed r \<and> audio_active r' = audio_active r"
    by (auto simp: tascar_vtable_def end_session_eq stage_ok_def)
  show "stage_ok r \<Longrightarrow> vt_start_audiobackend (tascar_vtable J E) r = (r', ex) \<Longrightarrow>
      stage_ok r' \<and> audio_active r' \<and> session_active r' = session_active r \<and> restart_needed r' = restart_needed r"
    using start_audio_frame [of E r r' ex] by (simp add: tascar_vtable_def stage_ok_def)
  show "stage_ok r \<Longrightarrow> vt_stop_audiobackend (tascar_vtable J E) r = (r', ex) \<Longrightarrow>
      stage_ok r' \<and> ex = None \<and> \<not> audio_active r' \<and> session_active r' = session_active r \<and> restart_needed r' = restart_needed r"
    by (auto simp: tascar_vtable_def stop_audiobackend_def base_stop_audiobackend_def stage_ok_def)
  show "stage_ok r \<Longrightarrow> stage_op op \<Longrightarrow> op_ok op \<Longrightarrow> apply_op (tascar_vtable J E) op r = (r', ex) \<Longrightarrow>
      stage_ok r' \<and> audio_active r' = audio_active r \<and> (session_active r' \<longrightarrow> session_active r) \<and>
      (restart_needed r \<longrightarrow> restart_needed r') \<and>
      (session_active r' \<and> \<not> restart_needed r' \<longrightarrow> (session_key r', tascar_key r') = (session_key r, tascar_key r))"
    by (rule stage_setter_law)
qed (auto simp: stage_ok_def tascar_key_def settings_def own_id_def set_thisdev_def require_session_restart_def Let_def)

section \<open>Success and failure of a start\<close>

lemma open_resources:
  "open_client E r = (r', ex) \<Longrightarrow> ts_tascar r' = ts_tascar r \<and> session_ready r' = session_ready r"
  by (auto simp: open_client_def touch_stage_def upd_stage_def Let_def split: if_splits sum.splits prod.splits)

lemma launch_failure:
  "launch_session E scene d r = (r', Some e) \<Longrightarrow>
     (ts_tascar r' = ts_tascar r \<or> ts_tascar r' = None) \<and> session_ready r' = session_ready r"
  by (auto simp: launch_session_def Let_def split: option.splits)

text \<open>A start is the opening of the client and the launch, on the state after writing the document.\<close>

lemma start_session_eq:
  obtains scene d r1 where "doc_frame (r\<lparr>session_active := True, restart_needed := False\<rparr>) r1"
    and "start_session E r = and_then (open_client E r1) (launch_session E scene d)"
proof -
  let ?r = "r\<lparr>session_active := True, restart_needed := False\<rparr>"
  obtain scene d r1 where b: "begin_document (scene_env.truncate E) (en_xports E (rs_xports (settings ?r))) ?r = (scene, d, r1)"
    by (metis surj_pair)
  then have "start_session E r = and_then (open_client E r1) (launch_session E scene d)"
    by (simp add: start_session_def base_start_session_def)
  with begin_frame [OF b] that show thesis by blast
qed

lemma doc_frame_fields:
  assumes "doc_frame r r'"
  shows "ts_tascar r' = ts_tascar r" "session_ready r' = session_ready r" "in_room r' = in_room r" "own_id r' = own_id r"
    "settings r' = settings r" "ts_cfg r' = ts_cfg r" "ts_portoffset r' = ts_portoffset r"
    "ts_dist_to_other_tascarport r' = ts_dist_to_other_tascarport r" "ts_other_tascarport r' = ts_other_tascarport r"
proof -
  obtain m n where "r' = r\<lparr>ovr_stage := (ovr_stage r)\<lparr>stg_stage := m\<rparr>, ts_ego_source_names := n\<rparr>"
    using assms unfolding doc_frame_def by blast
  then show "ts_tascar r' = ts_tascar r" "session_ready r' = session_ready r" "in_room r' = in_room r" "own_id r' = own_id r"
    "settings r' = settings r" "ts_cfg r' = ts_cfg r" "ts_portoffset r' = ts_portoffset r"
    "ts_dist_to_other_tascarport r' = ts_dist_to_other_tascarport r" "ts_other_tascarport r' = ts_other_tascarport r"
    by (simp_all add: in_room_def own_id_def settings_def)
qed

lemma start_failure:
  assumes "start_session E r = (r', Some e)"
  shows "(ts_tascar r' = ts_tascar r \<or> ts_tascar r' = None) \<and> session_ready r' = session_ready r"
proof -
  obtain scene d r1 where f: "doc_frame (r\<lparr>session_active := True, restart_needed := False\<rparr>) r1"
    and s: "start_session E r = and_then (open_client E r1) (launch_session E scene d)" by (rule start_session_eq)
  obtain r2 ex where o: "open_client E r1 = (r2, ex)" by fastforce
  have "ts_tascar r1 = ts_tascar r \<and> session_ready r1 = session_ready r" using doc_frame_fields(1,2) [OF f] by simp
  then show ?thesis using open_resources [OF o] launch_failure [of E scene d r2 r' e] s o assms by (cases ex) auto
qed

lemma restart_active:
  assumes "restart_session_if_needed (tascar_vtable J E) r = (r', ex)"
  shows "session_active r' \<and> \<not> restart_needed r'"
proof -
  obtain r1 x1 where a: "start_session E r = (r1, x1)" by fastforce
  obtain r2 x2 where b: "start_session E (fst (end_session r)) = (r2, x2)" by fastforce
  show ?thesis using assms start_session_law [OF a] start_session_law [OF b] a b
    by (auto simp: restart_session_if_needed_def tascar_vtable_def end_session_eq split: if_splits)
qed

lemma ctor_fields:
  "ovboxclient_ctor F U g = Inr c \<Longrightarrow>
     recport c = cfg_recport g \<and> portoffset c = cfg_portoffset g \<and> callerid c = cfg_callerid g \<and> xdest c = [] \<and> xreceivers c = []"
  by (auto simp: ovboxclient_ctor_def bind_err_Inr_iff Let_def endpoint_list.extend_def)

lemma add_proxy_clients_frame:
  "add_proxy_clients R ps c = (c', ex) \<Longrightarrow>
     recport c' = recport c \<and> portoffset c' = portoffset c \<and> callerid c' = callerid c \<and> xdest c' = xdest c \<and> xreceivers c' = xreceivers c"
proof (induction R ps c rule: add_proxy_clients.induct)
  case (2 R i host ps c)
  then show ?case by (auto simp: add_proxy_client_def split: sum.splits)
qed simp

lemma add_receiverports_fields [simp]:
  "recport (add_receiverports ps c) = recport c" "portoffset (add_receiverports ps c) = portoffset c"
  "callerid (add_receiverports ps c) = callerid c" "xdest (add_receiverports ps c) = xdest c"
  "xreceivers (add_receiverports ps c) = xreceivers c @ map (\<lambda>p. (p, p)) ps"
  by (induction ps arbitrary: c) (simp_all add: add_receiverport_def)

lemma configure_client_fields:
  assumes "configure_client R r c = (c', None)"
  shows "recport c' = recport c \<and> portoffset c' = portoffset c \<and> callerid c' = callerid c \<and>
    xdest c' = xdest c @ (if rs_secrec (settings r) > 0 then [100] else []) \<and>
    xreceivers c' = xreceivers c @ map (\<lambda>p. (p, p)) (rs_xrecport (settings r)) @ [(ts_dist_to_other_tascarport r, ts_other_tascarport r)]"
  using assms
  by (auto simp: configure_client_def and_then_None_iff Let_def add_extraport_def add_receiverport_def set_ping_callback_def
      set_latreport_callback_def set_hiresping_def dest!: add_proxy_clients_frame)

lemma launch_success:
  "launch_session E scene d r = (r', None) \<Longrightarrow>
     ts_ovboxclient r' = ts_ovboxclient r \<and> ts_tascar r' = Some (end_document (en_tsc E) r scene d) \<and> session_ready r'"
  by (auto simp: launch_session_def start_webmixer_def Let_def split: option.splits if_splits)

lemma started_parts:
  fixes r r' :: "'a tascar_scheme"
  assumes "start_session E r = (r', None)" and "in_room r"
  shows "\<exists>(r1 :: 'a tascar_scheme) c0 c. own_id r1 = own_id r \<and> ts_cfg r1 = ts_cfg r \<and> settings r1 = settings r \<and> ts_portoffset r1 = ts_portoffset r \<and>
    ts_dist_to_other_tascarport r1 = ts_dist_to_other_tascarport r \<and> ts_other_tascarport r1 = ts_other_tascarport r \<and>
    ovboxclient_ctor (en_fpu E) (en_setup E) (client_config_of r1) = Inr c0 \<and>
    configure_client (su_resolver (en_setup E)) r1 c0 = (c, None) \<and> ts_ovboxclient r' = Some c"
proof -
  obtain scene d r1 where f: "doc_frame (r\<lparr>session_active := True, restart_needed := False\<rparr>) r1"
    and s: "start_session E r = and_then (open_client E r1) (launch_session E scene d)" by (rule start_session_eq)
  have fields: "in_room r1 = in_room r" "own_id r1 = own_id r" "ts_cfg r1 = ts_cfg r" "settings r1 = settings r" "ts_portoffset r1 = ts_portoffset r"
    "ts_dist_to_other_tascarport r1 = ts_dist_to_other_tascarport r" "ts_other_tascarport r1 = ts_other_tascarport r"
    using doc_frame_fields [OF f] by (simp_all add: in_room_def own_id_def settings_def)
  let ?r = "touch_stage (own_id r1) r1"
  have fields2: "own_id ?r = own_id r" "ts_cfg ?r = ts_cfg r" "settings ?r = settings r" "ts_portoffset ?r = ts_portoffset r"
    "ts_dist_to_other_tascarport ?r = ts_dist_to_other_tascarport r" "ts_other_tascarport ?r = ts_other_tascarport r"
    using doc_frame_fields [OF touch_frame [of r1 "own_id r1"]] fields by simp_all
  obtain r2 where o: "open_client E r1 = (r2, None)" and l: "launch_session E scene d r2 = (r', None)"
    using s assms(1) by (metis and_then_None_iff)
  then obtain c0 c where c: "ovboxclient_ctor (en_fpu E) (en_setup E) (client_config_of ?r) = Inr c0"
    "configure_client (su_resolver (en_setup E)) ?r c0 = (c, None)" "r2 = ?r\<lparr>ts_ovboxclient := Some c\<rparr>"
    using assms(2) fields(1) by (auto simp: open_client_def Let_def split: sum.splits prod.splits)
  have "ts_ovboxclient r' = Some c" using launch_success [OF l] c(3) by simp
  with fields2 c(1,2) show ?thesis by blast
qed

lemma started_client:
  fixes r r' :: "'a tascar_scheme"
  assumes "start_session E r = (r', None)" and "in_room r"
  shows "\<exists>c. ts_ovboxclient r' = Some c \<and> recport c = get_zitaport (own_id r) (ts_portoffset r) 0 \<and>
    portoffset c = ts_portoffset r \<and> callerid c = own_id r \<and> xdest c = (if rs_secrec (settings r) > 0 then [100] else []) \<and>
    xreceivers c = map (\<lambda>p. (p, p)) (rs_xrecport (settings r)) @ [(ts_dist_to_other_tascarport r, ts_other_tascarport r)]"
proof -
  obtain r1 :: "'a tascar_scheme" and c0 c where f: "own_id r1 = own_id r" "settings r1 = settings r" "ts_portoffset r1 = ts_portoffset r"
      "ts_dist_to_other_tascarport r1 = ts_dist_to_other_tascarport r" "ts_other_tascarport r1 = ts_other_tascarport r"
    and c: "ovboxclient_ctor (en_fpu E) (en_setup E) (client_config_of r1) = Inr c0"
      "configure_client (su_resolver (en_setup E)) r1 c0 = (c, None)" "ts_ovboxclient r' = Some c"
    using started_parts [OF assms] by blast
  have "cfg_recport (client_config_of r1) = get_zitaport (own_id r) (ts_portoffset r) 0"
    "cfg_portoffset (client_config_of r1) = ts_portoffset r" "cfg_callerid (client_config_of r1) = own_id r"
    using f by (simp_all add: client_config_of_def own_id_def Let_def)
  with ctor_fields [OF c(1)] configure_client_fields [OF c(2)] c(3) f show ?thesis by simp
qed

lemma configured_device:
  assumes "configure_audio_backend (tascar_vtable J E) ad r = (r1, None)" and "audio_neq (ovr_audiodevice r) ad \<or> \<not> audio_active r"
    and "ad_devicename ad \<noteq> ''manual''" and "en_jack E = Some (srate, period)"
  shows "ovr_audiodevice r1 = ad\<lparr>ad_srate := srate, ad_periodsize := period\<rparr>"
proof -
  obtain r2 where r2: "ovr_audiodevice r2 = ad"
    and "\<exists>r3. start_audiobackend E r2 = (r3, None) \<and> r1 = r3\<lparr>audio_active := True\<rparr>"
  proof -
    let ?r2 = "if audio_active r then (let r1 = (if session_active r then fst (end_session (require_session_restart (r\<lparr>ovr_audiodevice := ad\<rparr>)))
       else r\<lparr>ovr_audiodevice := ad\<rparr>) in fst (stop_audiobackend r1)) else r\<lparr>ovr_audiodevice := ad\<rparr>"
    have "ovr_audiodevice ?r2 = ad"
      by (simp add: end_session_eq stop_audiobackend_def base_stop_audiobackend_def require_session_restart_def Let_def)
    moreover have "\<exists>r3. start_audiobackend E ?r2 = (r3, None) \<and> r1 = r3\<lparr>audio_active := True\<rparr>"
      using assms(1-3)
      by (auto simp: configure_audio_backend_def tascar_vtable_def end_session_eq stop_audiobackend_def base_stop_audiobackend_def
          require_session_restart_def and_then_None_iff Let_def split: if_splits)
    ultimately show thesis using that by blast
  qed
  then obtain r3 where a: "start_audiobackend E r2 = (r3, None)" and r1: "r1 = r3\<lparr>audio_active := True\<rparr>" by blast
  have "ovr_audiodevice r3 = ad\<lparr>ad_srate := srate, ad_periodsize := period\<rparr>"
    using a r2 assms(4)
    by (auto simp: start_audiobackend_def base_start_audiobackend_def query_jack_def Let_def split: if_splits option.splits)
  with r1 show ?thesis by simp
qed

section \<open>Resources\<close>

definition resources_ok :: "'a tascar_scheme \<Rightarrow> bool" where
  "resources_ok r \<longleftrightarrow> (ts_tascar r \<noteq> None \<longleftrightarrow> session_ready r) \<and>
     (\<not> session_active r \<longrightarrow> ts_tascar r = None \<and> ts_ovboxclient r = None \<and> ts_h_webmixer r = None) \<and>
     (ts_h_jack r \<noteq> None \<longrightarrow> audio_active r)"

lemma end_resources: "resources_ok r \<Longrightarrow> resources_ok (fst (end_session r)) \<and> snd (end_session r) = None \<and> \<not> session_active (fst (end_session r))"
  by (simp add: end_session_eq resources_ok_def)

lemma res_frame_jack: "res_frame r r' \<Longrightarrow> ts_h_jack r' = ts_h_jack r"
  unfolding res_frame_def by (drule arg_cong [of _ _ ts_h_jack]) simp

lemma doc_frame_jack: "doc_frame r r' \<Longrightarrow> ts_h_jack r' = ts_h_jack r"
  unfolding doc_frame_def by (drule conjunct1, drule arg_cong [of _ _ ts_h_jack]) simp

lemma start_frame_jack: "start_session E r = (r', ex) \<Longrightarrow> ts_h_jack r' = ts_h_jack r"
  by (drule start_frame) (auto dest!: res_frame_jack doc_frame_jack)

lemma start_resources:
  assumes "start_session E r = (r', ex)" and "resources_ok r" and "\<not> session_active r"
  shows "resources_ok r'"
proof -
  have f: "session_active r'" "audio_active r' = audio_active r" "ts_h_jack r' = ts_h_jack r"
    using start_session_law [OF assms(1)] start_frame_jack [OF assms(1)] by auto
  show ?thesis
  proof (cases ex)
    case None
    obtain scene d r1 where s: "start_session E r = and_then (open_client E r1) (launch_session E scene d)" by (rule start_session_eq)
    then obtain r2 where "launch_session E scene d r2 = (r', None)" using assms(1) None by (metis and_then_None_iff)
    from launch_success [OF this] f assms(2) show ?thesis by (auto simp: resources_ok_def)
  next
    case (Some e)
    then have "start_session E r = (r', Some e)" using assms(1) by simp
    from start_failure [OF this] f assms(2,3) show ?thesis by (auto simp: resources_ok_def)
  qed
qed

lemma audio_resources:
  "start_audiobackend E r = (r', ex) \<Longrightarrow> resources_ok r \<Longrightarrow> resources_ok r'"
  using start_audio_frame [of E r r' ex] by (auto simp: resources_ok_def)

lemma stop_audio_resources: "resources_ok r \<Longrightarrow> \<exists>r'. stop_audiobackend r = (r', None) \<and> resources_ok r'"
  by (auto simp: stop_audiobackend_def base_stop_audiobackend_def resources_ok_def)

lemma resources_flags [simp]:
  "resources_ok (r\<lparr>ovr_audiodevice := ad\<rparr>) = resources_ok r" "resources_ok (require_session_restart r) = resources_ok r"
  "resources_ok (upd_stage f r) = resources_ok r" "resources_ok r \<Longrightarrow> resources_ok (r\<lparr>audio_active := True\<rparr>)"
  by (auto simp: resources_ok_def require_session_restart_def upd_stage_def)

lemma configure_resources:
  assumes "configure_audio_backend (tascar_vtable J E) ad r = (r', ex)" and "resources_ok r"
  shows "resources_ok r'"
proof (cases "(audio_neq (ovr_audiodevice r) ad \<or> \<not> audio_active r) \<and> \<not> (ad_devicename (ovr_audiodevice r) = ''manual'' \<and> ad_devicename ad = ''manual'')")
  case True
  let ?r1 = "r\<lparr>ovr_audiodevice := ad\<rparr>"
  define r2 where "r2 = (if audio_active r then
     fst (stop_audiobackend (if session_active r then fst (end_session (require_session_restart ?r1)) else ?r1)) else ?r1)"
  have "resources_ok r2"
    using assms(2) end_resources [of "require_session_restart ?r1"]
      stop_audio_resources [of "if session_active r then fst (end_session (require_session_restart ?r1)) else ?r1"]
    by (auto simp: r2_def)
  moreover obtain r3 x where a: "start_audiobackend E r2 = (r3, x)" by fastforce
  ultimately have ok: "resources_ok r3" using audio_resources by blast
  have "r' = r3 \<or> r' = r3\<lparr>audio_active := True\<rparr>"
    using assms(1) True a unfolding r2_def
    by (cases x) (auto simp: configure_audio_backend_def tascar_vtable_def end_session_eq stop_audiobackend_def
        base_stop_audiobackend_def require_session_restart_def Let_def split: if_splits)
  with ok show ?thesis by auto
next
  case False
  with assms show ?thesis by (auto simp: configure_audio_backend_def Let_def split: if_splits)
qed

lemma op_resources:
  assumes "apply_op (tascar_vtable J E) op r = (r', ex)" and "op \<noteq> Start_session" and "resources_ok r"
  shows "resources_ok r'"
proof (cases op)
  case End_session
  then show ?thesis using assms end_resources [of r] by (auto simp: tascar_vtable_def)
next
  case Restart_if_needed
  let ?r = "if session_active r then fst (end_session r) else r"
  obtain r2 x where s: "start_session E ?r = (r2, x)" by fastforce
  have "resources_ok r2" using start_resources [OF s] end_resources [OF assms(3)] assms(3) by auto
  moreover have "r' = r2 \<or> r' = r"
    using assms(1) s Restart_if_needed by (auto simp: restart_session_if_needed_def tascar_vtable_def end_session_eq split: if_splits)
  ultimately show ?thesis using assms(3) by auto
next
  case (Configure_audio ad)
  then show ?thesis using configure_resources assms(1,3) by simp
next
  case (Set_relay host port pin)
  then show ?thesis using assms end_resources [of "upd_stage (\<lambda>s. s\<lparr>stg_host := host, stg_port := port, stg_pin := pin\<rparr>) r"]
    by (auto simp: set_relay_server_def tascar_vtable_def end_session_eq Let_def split: if_splits)
next
  case Clear_stage
  then show ?thesis using assms end_resources [of "clear_stage r"]
    by (auto simp: tascar_vtable_def tascar_clear_stage_def clear_stage_def Let_def split: if_splits)
next
  case (Set_extra js)
  then have "set_extra_config (en_fpu E) J js r = (r', ex)" using assms(1) by (simp add: tascar_vtable_def)
  from extra_config_clients [OF this] assms(3) show ?thesis by (auto simp: resources_ok_def)
qed (use assms in \<open>auto simp: tascar_vtable_def tascar_add_stage_device_def tascar_rm_stage_device_def tascar_set_stage_def
    tascar_set_stage_device_gain_def tascar_set_render_settings_def restart_if_changed_def stage_setter_defs touch_stage_def
    set_thisdev_def Let_def split: if_splits option.splits\<close>)

lemma run_resources:
  assumes "run_ops (tascar_vtable J) key ops (r, k) = ((r', k'), exs)" and "resources_ok r"
    and "\<And>e op. (e, op) \<in> set ops \<Longrightarrow> op \<noteq> Start_session"
  shows "resources_ok r'"
  using assms
proof (induction ops arbitrary: r k exs)
  case (Cons eop ops)
  obtain e op where eop: "eop = (e, op)" by fastforce
  obtain r1 ex where step: "apply_op (tascar_vtable J e) op r = (r1, ex)" by fastforce
  obtain exs1 where rest: "run_ops (tascar_vtable J) key ops (r1, if starts op r then key r1 else k) = ((r', k'), exs1)"
    using Cons.prems(1) step by (auto simp: eop Let_def split: prod.splits)
  have "op \<noteq> Start_session" using Cons.prems(3) [of e op] by (simp add: eop)
  from Cons.IH [OF rest op_resources [OF step this Cons.prems(2)]] Cons.prems(3) show ?case by auto
qed simp

section \<open>An environment in which a session starts\<close>

definition example_setup :: client_setup where
  "example_setup =
     \<lparr>su_remote = Inr \<lparr>sockfd = 4, serv_addr = zero_endpoint, isopen = True, tx_bytes = 0, rx_bytes = 0\<rparr>,
      su_local = Inr \<lparr>sockfd = 5, serv_addr = zero_endpoint, isopen = True, tx_bytes = 0, rx_bytes = 0\<rparr>,
      su_resolver = (\<lambda>_. Inr 0x0100007f), su_bind = (\<lambda>s p l. Inr p), su_connect = (\<lambda>ep p. Inr p),
      su_ipaddr = zero_endpoint, su_sockep = zero_endpoint, su_keys = (zero_key, zero_key), su_now = 0, su_junk = zero_key\<rparr>"

definition example_tsc :: tascar_lib where
  "example_tsc = \<lparr>tl_num = (\<lambda>_. ''0''), tl_uint = show_nat, tl_pos = (\<lambda>_. ''0 0 0''), tl_rot = (\<lambda>_. ''0 0 0''),
     tl_bool = show_bool, tl_vecstr = concat\<rparr>"

definition example_senv :: "err option \<Rightarrow> session_env" where
  "example_senv failure =
     \<lparr>en_tsc = example_tsc, en_good = (\<lambda>_. False), en_hash = length, en_fpu = exact_fpu, en_setup = example_setup,
      en_xports = (\<lambda>m. m), en_parse_xml = (\<lambda>_. Inr (Xtext [])), en_session_new = (\<lambda>_. failure),
      en_validate = (\<lambda>_. Inr []), en_start = (\<lambda>_. None), en_out_ports = [], en_ipaddr = zero_endpoint, en_bindir = [],
      en_homebrew = [], en_hints = None, en_cards = [], en_show_g = (\<lambda>_. ''48000''), en_jack_tests = (\<lambda>k. 2 \<le> k),
      en_toc = (\<lambda>k. real k / 2), en_jack = Some (44100, 128)\<rparr>"

section \<open>Properties\<close>

text \<open>C6. The setters of the renderer never let a session run on with an outdated configuration. From its construction,
  once an audio device was configured, let any of these be called in any order, with any failures in between: start and end
  of a session, the restart check, the request of a restart, and the setters for the audio device, this device, the relay
  server, the devices on the stage (adding, removing, clearing, replacing, gain), the rendering settings and the additional
  configuration. Then the stage stays a proper map, and whenever a session is active and no restart is pending, the following
  is as at the last attempt to start a session: address, port and PIN of the relay server; this device with its channels
  up to the channels' ids; the audio device unless it is the manual one; the rendering settings; this device's number;
  and the devices on the stage that have channels, up to their gains and their channels' ids. Not among the calls are
  \<open>update_plugincfg\<close>, which takes plugin parameters of the running session over into the configuration on
  purpose without a restart, and direct calls of \<open>start_audiobackend\<close> (which stores the server's own rate and
  period) and \<open>stop_audiobackend\<close>.\<close>

theorem tascar_reflects_configuration:
  assumes "\<And>e op. (e, op) \<in> set ops \<Longrightarrow> op_ok op"
    and "run_ops (tascar_vtable J) (\<lambda>r. (session_key r, tascar_key r)) ((e, Configure_audio ad) # ops)
      (tascar_ctor zitapath ip dev pinglogport secondary, k0) = ((r, k), exs)"
  shows "stage_ok r \<and> (session_active r \<and> \<not> restart_needed r \<longrightarrow> (session_key r, tascar_key r) = k)"
proof -
  have "run_ops (tascar_vtable J) tascar_renderer.full_key ((e, Configure_audio ad) # ops)
      (tascar_ctor zitapath ip dev pinglogport secondary, k0) = ((r, k), exs)"
    using assms(2) by (simp add: tascar_renderer.full_key_def [abs_def])
  from tascar_renderer.run_key_from_audio [OF this _ _ _ assms(1)] show ?thesis
    by (simp add: tascar_ctor_def render_base.defs render_base_ctor_def stage_ok_def default_stage_def tascar_renderer.full_key_def)
qed

theorem tascar_reflects_configuration_witness:
  "\<exists>r k exs. run_ops (tascar_vtable example_json) (\<lambda>r. (session_key r, tascar_key r))
     (map (Pair (example_senv None)) [Configure_audio example_audio, Set_stage [(1, default_device)], Restart_if_needed,
        Set_settings (render_settings_ctor\<lparr>rs_egogain := 2\<rparr>) 1, Restart_if_needed])
     (tascar_ctor [] zero_endpoint ''dev'' 0 False, (session_key (render_base_ctor []), (render_settings_ctor, 0, []))) = ((r, k), exs) \<and>
     session_active r \<and> \<not> restart_needed r \<and> (session_key r, tascar_key r) = k"
proof -
  let ?ops = "map (Pair (example_senv None)) [Set_stage [(1, default_device)], Restart_if_needed,
        Set_settings (render_settings_ctor\<lparr>rs_egogain := 2\<rparr>) 1, Restart_if_needed]"
  let ?k0 = "(session_key (render_base_ctor []), (render_settings_ctor, 0, []))"
  let ?run = "run_ops (tascar_vtable example_json) (\<lambda>r. (session_key r, tascar_key r))
      ((example_senv None, Configure_audio example_audio) # ?ops) (tascar_ctor [] zero_endpoint ''dev'' 0 False, ?k0)"
  obtain r k exs where run: "?run = ((r, k), exs)" using that [of "fst (fst ?run)" "snd (fst ?run)" "snd ?run"]
    by (simp only: prod.collapse)
  have ok: "op_ok op" if "(e, op) \<in> set ?ops" for e op using that by (auto simp: omap_wf_def)
  have key: "stage_ok r \<and> (session_active r \<and> \<not> restart_needed r \<longrightarrow> (session_key r, tascar_key r) = k)"
    by (rule tascar_reflects_configuration [OF ok run])
  obtain r0 ex where r0: "restart_session_if_needed (tascar_vtable example_json (example_senv None)) r0 = (r, ex)"
    using run by (auto simp: Let_def split: prod.splits)
  have "session_active r \<and> \<not> restart_needed r"
    by (rule restart_active [OF r0])
  with run key show ?thesis by auto
qed

text \<open>C33. A failed start is not repeated: whatever makes the start of a session fail, the renderer counts it as
  active and not in need of a restart, without a session object of its own; the periodic
  \<open>restart_session_if_needed\<close> then does nothing, until a changed setting requires a restart.\<close>

theorem failed_start_not_retried:
  assumes "start_session E r = (r', Some e)" and "ts_tascar r = None" and "\<not> session_ready r"
  shows "is_session_active r' \<and> \<not> need_restart r' \<and> ts_tascar r' = None \<and> \<not> session_ready r' \<and>
    restart_session_if_needed (tascar_vtable J E') r' = (r', None)"
proof -
  have "session_active r' \<and> \<not> restart_needed r'" using start_session_law [OF assms(1)] by blast
  moreover have "ts_tascar r' = None \<and> \<not> session_ready r'" using start_failure [OF assms(1)] assms(2,3) by auto
  ultimately show ?thesis by (simp add: is_session_active_def need_restart_def restart_session_if_needed_def)
qed

theorem failed_start_not_retried_witness:
  "\<exists>r. start_session (example_senv (Some (ErrMsg ''invalid''))) (tascar_ctor [] zero_endpoint ''dev'' 0 False) = (r, Some (ErrMsg ''invalid'')) \<and>
     restart_session_if_needed (tascar_vtable example_json (example_senv None)) r = (r, None)"
proof -
  let ?r = "tascar_ctor [] zero_endpoint ''dev'' 0 False"
  have f: "ts_tascar ?r = None" "\<not> session_ready ?r" "\<not> in_room ?r" "tc_tscinclude (ts_cfg ?r) = []"
    by (simp_all add: tascar_ctor_def render_base.defs render_base_ctor_def in_room_def default_stage_def tascar_config_ctor_def)
  have "snd (start_session (example_senv (Some (ErrMsg ''invalid''))) ?r) = Some (ErrMsg ''invalid'')"
  proof -
    let ?E = "example_senv (Some (ErrMsg ''invalid''))"
    obtain scene d r1 where fr: "doc_frame (?r\<lparr>session_active := True, restart_needed := False\<rparr>) r1"
      and s: "start_session ?E ?r = and_then (open_client ?E r1) (launch_session ?E scene d)" by (rule start_session_eq)
    have "\<not> in_room r1" "tc_tscinclude (ts_cfg r1) = []"
      using doc_frame_fields(3,6) [OF fr] f(3,4) by (simp_all add: in_room_def)
    then show ?thesis
      by (simp add: s open_client_def launch_session_def include_throws_def) (simp add: example_senv_def Let_def)
  qed
  then obtain r where "start_session (example_senv (Some (ErrMsg ''invalid''))) ?r = (r, Some (ErrMsg ''invalid''))"
    by (metis prod.collapse)
  with failed_start_not_retried [OF this f(1,2)] show ?thesis by blast
qed

lemma jack_wait_bound:
  assumes "0 \<le> toc 0" and "\<And>k. toc k + 1 / 2 \<le> toc (k + 1)"
  shows "\<exists>k \<le> 20. wait_for_jack tests toc 0 = Some k \<and> (tests k \<or> 10 \<le> toc k) \<and> (\<forall>j < k. \<not> tests j \<and> toc j < 10)"
proof -
  have t: "real k / 2 \<le> toc k" for k
  proof (induction k)
    case (Suc k)
    then show ?case using assms(2) [of k] by simp
  qed (use assms(1) in simp)
  have "\<exists>k \<ge> i. k \<le> 20 \<and> wait_for_jack tests toc i = Some k \<and> (tests k \<or> 10 \<le> toc k) \<and> (\<forall>j \<ge> i. j < k \<longrightarrow> \<not> tests j \<and> toc j < 10)"
    if "i \<le> 20" for i
    using that
  proof (induction "20 - i" arbitrary: i rule: less_induct)
    case less
    show ?case
    proof (cases "\<not> tests i \<and> toc i < 10")
      case True
      then have "i < 20" using t [of i] less.prems by (cases "i = 20") auto
      then obtain k where "i + 1 \<le> k" "k \<le> 20" "wait_for_jack tests toc (i + 1) = Some k" "tests k \<or> 10 \<le> toc k"
        "\<forall>j \<ge> i + 1. j < k \<longrightarrow> \<not> tests j \<and> toc j < 10"
        using less.hyps [of "i + 1"] diff_less_mono2 [of i "i + 1" 20] by auto
      moreover from this True have "\<forall>j \<ge> i. j < k \<longrightarrow> \<not> tests j \<and> toc j < 10"
        by (metis Suc_eq_plus1 Suc_leI le_neq_implies_less)
      ultimately show ?thesis using True by (intro exI [of _ k]) (simp add: wait_for_jack.simps [of tests toc i])
    next
      case False
      then show ?thesis using less.prems by (intro exI [of _ i]) (auto simp: wait_for_jack.simps [of tests toc i])
    qed
  qed
  from this [of 0] show ?thesis by auto
qed

text \<open>C35. The start of the audio server ends: with a clock that advances by at least half a second in every turn (the
  pause), the loop that waits for it stops after at most 20 pauses, at the first turn that finds the server or whose
  time is up; the start of the audio backend then succeeds exactly when the next test finds the server, and throws the
  error with its command line otherwise; in both cases the process handle is kept.\<close>

theorem wait_for_jack_ends:
  assumes "0 \<le> en_toc E 0" and "\<And>k. en_toc E k + 1 / 2 \<le> en_toc E (k + 1)"
    and "ad_drivername (ovr_audiodevice r) = ''jack''" and "ad_devicename (ovr_audiodevice r) \<noteq> ''manual''"
  shows "\<exists>k \<le> 20. wait_for_jack (en_jack_tests E) (en_toc E) 0 = Some k \<and> (en_jack_tests E k \<or> 10 \<le> en_toc E k) \<and>
    (\<forall>j < k. \<not> en_jack_tests E j \<and> en_toc E j < 10) \<and>
    (\<exists>r'. start_audiobackend E r =
        (r', if en_jack_tests E (k + 1) then None else Some (audio_error (jack_command E (ovr_audiodevice r)))) \<and>
      audio_active r' \<and> ts_h_jack r' = Some (jack_command E (ovr_audiodevice r)))"
proof -
  obtain k where k: "k \<le> 20" "wait_for_jack (en_jack_tests E) (en_toc E) 0 = Some k" "en_jack_tests E k \<or> 10 \<le> en_toc E k"
    "\<forall>j < k. \<not> en_jack_tests E j \<and> en_toc E j < 10" using jack_wait_bound [of "en_toc E" "en_jack_tests E"] assms(1,2) by blast
  moreover have "\<exists>r'. start_audiobackend E r =
        (r', if en_jack_tests E (k + 1) then None else Some (audio_error (jack_command E (ovr_audiodevice r)))) \<and>
      audio_active r' \<and> ts_h_jack r' = Some (jack_command E (ovr_audiodevice r))"
    using k(2) assms(3,4) by (simp add: start_audiobackend_def base_start_audiobackend_def query_jack_def Let_def split: option.split)
  ultimately show ?thesis by blast
qed

definition example_member :: "bool \<Rightarrow> tascar" where
  "example_member secondary =
     (tascar_ctor [] zero_endpoint ''dev'' 0 secondary)\<lparr>ovr_stage := default_stage\<lparr>stg_host := ''relay'', stg_port := 4464,
        stg_thisstagedeviceid := 1, stg_rendersettings := render_settings_ctor\<lparr>rs_secrec := 10\<rparr>\<rparr>\<rparr>"

text \<open>The same with another device on the stage that sends one channel, and one that sends none.\<close>

definition example_channel :: device_channel where
  "example_channel = device_channel_ctor ''ch1'' ''system:capture_1'' 1 default_pos []"

definition example_peers :: "bool \<Rightarrow> tascar" where
  "example_peers secondary =
     (example_member secondary)\<lparr>ovr_stage := (ovr_stage (example_member secondary))\<lparr>stg_stage :=
        [(1, default_device\<lparr>sd_id := 1, sd_channels := [example_channel]\<rparr>), (2, default_device\<lparr>sd_id := 2, sd_channels := [example_channel]\<rparr>),
         (3, default_device\<lparr>sd_id := 3\<rparr>)]\<rparr>\<rparr>"

lemma example_starts:
  assumes "tc_tscinclude (ts_cfg r) = []" and "tc_proxyclients (ts_cfg r) = []"
  shows "\<exists>r'. start_session (example_senv None) r = (r', None)"
proof -
  let ?E = "example_senv None"
  obtain scene d r1 where fr: "doc_frame (r\<lparr>session_active := True, restart_needed := False\<rparr>) r1"
    and s: "start_session ?E r = and_then (open_client ?E r1) (launch_session ?E scene d)" by (rule start_session_eq)
  let ?r1 = "touch_stage (own_id r1) r1"
  have cfg: "ts_cfg ?r1 = ts_cfg r" "ts_cfg r1 = ts_cfg r"
    using doc_frame_fields(6) [OF fr] doc_frame_fields(6) [OF touch_frame [of r1 "own_id r1"]] by simp_all
  have "\<exists>c. ovboxclient_ctor (en_fpu ?E) (en_setup ?E) g = Inr c" for g
    by (simp add: ovboxclient_ctor_def example_senv_def example_setup_def set_destination_def ovgethostbyname_def Let_def)
  then obtain c where c: "ovboxclient_ctor (en_fpu ?E) (en_setup ?E) (client_config_of ?r1) = Inr c" by blast
  obtain c' where "configure_client (su_resolver (en_setup ?E)) ?r1 c = (c', None)"
    using cfg assms(2) by (simp add: configure_client_def Let_def)
  with c have "open_client ?E r1 = (if in_room r1 then ?r1\<lparr>ts_ovboxclient := Some c'\<rparr> else r1, None)" by (simp add: open_client_def Let_def)
  then show ?thesis using cfg assms(1)
    by (simp add: s launch_session_def include_throws_def) (simp add: example_senv_def run_session_def Let_def)
qed

lemma example_member_starts: "\<exists>r'. start_session (example_senv None) (example_member secondary) = (r', None)"
  by (rule example_starts) (simp_all add: example_member_def tascar_ctor_def render_base.defs tascar_config_ctor_def)

lemma example_peers_starts: "\<exists>r'. start_session (example_senv None) (example_peers secondary) = (r', None)"
  by (rule example_starts) (simp_all add: example_peers_def example_member_def tascar_ctor_def render_base.defs tascar_config_ctor_def)

theorem wait_for_jack_ends_witness:
  "\<exists>r'. start_audiobackend (example_senv None) ((example_member False)\<lparr>ovr_audiodevice := example_audio\<rparr>) = (r', None)"
proof -
  let ?E = "example_senv None" and ?r = "(example_member False)\<lparr>ovr_audiodevice := example_audio\<rparr>"
  have e: "en_toc ?E = (\<lambda>k. real k / 2)" "en_jack_tests ?E = (\<lambda>k. 2 \<le> k)" by (simp_all add: example_senv_def)
  have d: "ad_drivername (ovr_audiodevice ?r) = ''jack''" "ad_devicename (ovr_audiodevice ?r) \<noteq> ''manual''"
    by (simp_all add: example_audio_def)
  have t: "0 \<le> en_toc ?E 0" "\<And>k. en_toc ?E k + 1 / 2 \<le> en_toc ?E (k + 1)" by (simp_all add: e)
  obtain k where "2 \<le> k \<or> 10 \<le> real k / 2" and s: "\<exists>r'. start_audiobackend ?E ?r =
        (r', if 2 \<le> k + 1 then None else Some (audio_error (jack_command ?E (ovr_audiodevice ?r))))"
    using wait_for_jack_ends [OF t d] unfolding e by blast
  then have "2 \<le> k + 1" by auto
  with s show ?thesis by simp
qed

text \<open>A rate or period of the audio server other than the configured one is stored as if it were configured, so
  that every repetition of the same configuration finds a difference: it ends the running
  session, requires a restart and restarts the audio server.\<close>

theorem adapted_rate_restarts:
  assumes "configure_audio_backend (tascar_vtable J E) ad r = (r1, None)" and "audio_neq (ovr_audiodevice r) ad \<or> \<not> audio_active r"
    and "ad_devicename ad \<noteq> ''manual''" and "en_jack E = Some (srate, period)" and "(srate, period) \<noteq> (ad_srate ad, ad_periodsize ad)"
    and "ovr_audiodevice r2 = ovr_audiodevice r1" and "audio_active r2" and "session_active r2"
    and "configure_audio_backend (tascar_vtable J E') ad r2 = (r3, ex)"
  shows "ovr_audiodevice r1 = ad\<lparr>ad_srate := srate, ad_periodsize := period\<rparr> \<and> \<not> session_active r3 \<and> restart_needed r3"
proof -
  have dev: "ovr_audiodevice r1 = ad\<lparr>ad_srate := srate, ad_periodsize := period\<rparr>"
    using configured_device [OF assms(1-4)] .
  then have neq: "ovr_audiodevice r2 \<noteq> ad" using assms(5,6) by (cases ad) auto
  let ?r = "r2\<lparr>ovr_audiodevice := ad, restart_needed := True, session_ready := False, session_active := False, ts_h_webmixer := None,
    ts_tascar := None, ts_ovboxclient := None, audio_active := False, ts_h_jack := None\<rparr>"
  obtain r4 x where a: "start_audiobackend E' ?r = (r4, x)" by fastforce
  have "r3 = r4 \<or> r3 = r4\<lparr>audio_active := True\<rparr>"
    using assms(3,7-9) neq a
    by (cases x) (auto simp: configure_audio_backend_def tascar_vtable_def require_session_restart_def end_session_eq
        stop_audiobackend_def base_stop_audiobackend_def Let_def)
  with start_audio_frame [OF a] dev show ?thesis by auto
qed

theorem adapted_rate_restarts_witness:
  "\<exists>r1 r3 ex. configure_audio_backend (tascar_vtable example_json (example_senv None)) example_audio (example_member False) = (r1, None) \<and>
     configure_audio_backend (tascar_vtable example_json (example_senv None)) example_audio (r1\<lparr>session_active := True\<rparr>) = (r3, ex) \<and>
     restart_needed r3"
proof -
  have w: "wait_for_jack (\<lambda>k. 2 \<le> k) (\<lambda>k. real k / 2) 0 = Some 2"
    by (simp add: wait_for_jack.simps [of _ _ 0] wait_for_jack.simps [of _ _ "Suc 0"] wait_for_jack.simps [of _ _ "Suc (Suc 0)"])
  have m: "\<not> audio_active (example_member False)"
    by (simp add: example_member_def tascar_ctor_def render_base.defs render_base_ctor_def)
  have j: "en_jack (example_senv None) = Some (44100, 128)" by (simp add: example_senv_def)
  obtain r1 where r1: "configure_audio_backend (tascar_vtable example_json (example_senv None)) example_audio (example_member False) = (r1, None)"
    and act: "audio_active r1"
    using m w by (simp add: configure_audio_backend_def tascar_vtable_def start_audiobackend_def base_start_audiobackend_def
        example_audio_def example_senv_def Let_def)
  obtain r3 ex where r3: "configure_audio_backend (tascar_vtable example_json (example_senv None)) example_audio (r1\<lparr>session_active := True\<rparr>) = (r3, ex)"
    by fastforce
  have "restart_needed r3"
    using adapted_rate_restarts [OF r1 _ _ j _ _ _ _ r3] m act by (simp add: example_audio_def)
  with r1 r3 show ?thesis by blast
qed

text \<open>C10. Processes and sockets follow the session: whatever of the operations of \<open>render_op\<close> is called (sessions being
  started by \<open>restart_session_if_needed\<close>) and whatever fails, a session object exists exactly when the
  renderer reports the session as ready; without an active session there is neither a session
  object nor a session client nor a web mixer, and the audio server runs only while the audio
  is active; the destructor leaves none of them.\<close>

theorem resources_follow_session:
  assumes "Start_session \<notin> snd ` set ops"
    and "run_ops (tascar_vtable J) key ops (tascar_ctor zitapath ip dev pinglogport secondary, k0) = ((r, k), exs)"
  shows "(ts_tascar r \<noteq> None \<longleftrightarrow> session_ready r) \<and>
    (\<not> session_active r \<longrightarrow> ts_tascar r = None \<and> ts_ovboxclient r = None \<and> ts_h_webmixer r = None) \<and>
    (ts_h_jack r \<noteq> None \<longrightarrow> audio_active r) \<and>
    (\<exists>r'. tascar_dtor r = (r', None) \<and> ts_tascar r' = None \<and> ts_ovboxclient r' = None \<and> ts_h_webmixer r' = None \<and> ts_h_jack r' = None)"
proof -
  have "resources_ok (tascar_ctor zitapath ip dev pinglogport secondary)"
    by (simp add: resources_ok_def tascar_ctor_def render_base.defs render_base_ctor_def)
  moreover have "op \<noteq> Start_session" if "(e, op) \<in> set ops" for e op using assms(1) that by force
  ultimately have ok: "resources_ok r" using run_resources [OF assms(2)] by blast
  moreover have "\<exists>r'. tascar_dtor r = (r', None) \<and> ts_tascar r' = None \<and> ts_ovboxclient r' = None \<and> ts_h_webmixer r' = None \<and> ts_h_jack r' = None"
    using ok by (auto simp: tascar_dtor_def end_session_eq stop_audiobackend_def base_stop_audiobackend_def resources_ok_def)
  ultimately show ?thesis by (auto simp: resources_ok_def)
qed

theorem resources_follow_session_witness:
  "\<exists>r k exs. run_ops (tascar_vtable example_json) session_key
      (map (Pair (example_senv None)) [Configure_audio example_audio, Restart_if_needed, Clear_stage])
      (tascar_ctor [] zero_endpoint ''dev'' 0 False, session_key (render_base_ctor [])) = ((r, k), exs) \<and>
     (ts_tascar r \<noteq> None \<longleftrightarrow> session_ready r) \<and> (\<not> session_active r \<longrightarrow> ts_tascar r = None)"
proof -
  let ?ops = "map (Pair (example_senv None)) [Configure_audio example_audio, Restart_if_needed, Clear_stage]"
  let ?run = "run_ops (tascar_vtable example_json) session_key ?ops (tascar_ctor [] zero_endpoint ''dev'' 0 False, session_key (render_base_ctor []))"
  obtain r k exs where run: "?run = ((r, k), exs)" using that [of "fst (fst ?run)" "snd (fst ?run)" "snd ?run"]
    by (simp only: prod.collapse)
  have "Start_session \<notin> snd ` set ?ops" by simp
  from resources_follow_session [OF this run]
  have "(ts_tascar r \<noteq> None \<longleftrightarrow> session_ready r) \<and> (\<not> session_active r \<longrightarrow> ts_tascar r = None)" by blast
  with run show ?thesis by blast
qed

end
