(* ===== verification/Tascar_Processes.thy ===== *)
theory Tascar_Processes
  imports Tascar_Session
begin

text \<open>
  The processes of a session: which \<open>system\<close> modules the generated document contains, as an
  abstract specification over the stage, and that \<open>start_session\<close> implements it.
\<close>

section \<open>Specification\<close>

text \<open>The command lines of a document, in their order.\<close>

fun system_command :: "xnode \<Rightarrow> string list" where
  "system_command (Xelem n as cs) =
     (if n = ''system'' then (case map_of as ''command'' of Some c \<Rightarrow> [c] | None \<Rightarrow> []) else [])"
| "system_command (Xtext s) = []"

fun modules_commands :: "xnode \<Rightarrow> string list" where
  "modules_commands (Xelem n as cs) = (if n = ''modules'' then concat (map system_command cs) else [])"
| "modules_commands (Xtext s) = []"

fun session_commands :: "xnode \<Rightarrow> string list" where
  "session_commands (Xelem n as cs) = concat (map modules_commands cs)"
| "session_commands (Xtext s) = []"

text \<open>
  A member of the stage is received when it is another device, its downmix fits and it has not
  switched the audio transport off: once, and a second time with the longer buffer.
\<close>

definition is_raw :: "'a tascar_scheme \<Rightarrow> bool" where
  "is_raw r \<longleftrightarrow> rs_rawmode (settings r) \<or> sd_receivedownmix (stg_thisdevice (ovr_stage r))"

definition receiver_commands :: "tascar_lib \<Rightarrow> 'a tascar_scheme \<Rightarrow> stage_device \<Rightarrow> string list" where
  "receiver_commands T r mem =
     (let thisdev = stage_entry (own_id r) r; buff = sd_receiverjitter thisdev + sd_senderjitter mem;
          chanlist = (if sd_senddownmix mem then ''1,2'' else channel_list 0 (sd_channels mem));
          prefix = (if is_raw r then ''n2j_'' else [])
      in if rs_receive (settings r) \<and> sd_id mem \<noteq> own_id r \<and> sd_senddownmix mem = sd_receivedownmix thisdev \<and> \<not> sd_nozita mem
         then n2j_command T (ts_zitapath r) chanlist (prefix @ get_stagedev_name T (sd_id mem) r @ ''.'' @ dev_id r) buff
                (get_zitaport (sd_id mem) (ts_portoffset r) 0) #
              (if rs_secrec (settings r) > 0
               then [n2j_command T (ts_zitapath r) chanlist (''n2j_'' @ show_nat (unat (sd_id mem)) @ ''_sec.'' @ dev_id r)
                       (rs_secrec (settings r) + buff) (get_zitaport (sd_id mem) (ts_portoffset r) 100)] else [])
         else [])"

definition received_members :: "'a tascar_scheme \<Rightarrow> stage_device list" where
  "received_members r = filter (\<lambda>mem. is_raw r \<or> sd_channels mem \<noteq> []) (map snd (stg_stage (ovr_stage r)))"

text \<open>At most one sender, on the port of this device; in raw mode it is not switched off.\<close>

definition sender_commands :: "'a tascar_scheme \<Rightarrow> string list" where
  "sender_commands r =
     (let own = stg_thisdevice (ovr_stage r); n = length (sd_channels (stage_entry (own_id r) r)) in
      if is_raw r then (if n \<noteq> 0 then [j2n_command r n] else [])
      else if sd_nozita own then []
      else if sd_senddownmix own then (if rs_receive (settings r) then [j2n_command r 2] else [])
      else if n \<noteq> 0 then [j2n_command r n] else [])"

definition network_commands :: "tascar_lib \<Rightarrow> 'a tascar_scheme \<Rightarrow> string list" where
  "network_commands T r = concat (map (receiver_commands T r) (received_members r)) @ sender_commands r"

text \<open>Multicast receiver and sender, and the hearing aid.\<close>

definition local_commands :: "'a tascar_scheme \<Rightarrow> string list" where
  "local_commands r =
     concat (map system_command (d_mods (multicast r empty_doc))) @
     (if tc_mhaconfig (ts_cfg r) \<noteq> [] then [''mha ?read:'' @ dev_id r @ ''.mhacfg''] else [])"

section \<open>The commands of a document in progress\<close>

definition cmds :: "doc \<Rightarrow> string list \<times> string list" where
  "cmds d = (concat (map system_command (d_mods d)), concat (map modules_commands (d_sess d)))"

definition emit_cmds :: "string list \<Rightarrow> string list \<times> string list \<Rightarrow> string list \<times> string list" where
  "emit_cmds xs p = (fst p @ xs, snd p)"

lemma emit_cmds_simps [simp]: "emit_cmds [] p = p" "emit_cmds ys (emit_cmds xs p) = emit_cmds (xs @ ys) p"
  by (simp_all add: emit_cmds_def)

lemma cmds_simps [simp]:
  "cmds (add_wait p d) = cmds d" "cmds (session_add_connect s t d) = cmds d"
  "cmds (add_mod n a c d) = emit_cmds (system_command (Xelem n a c)) (cmds d)" "cmds empty_doc = ([], [])"
  "cmds (session_add_waitforjackports n ws sl d) = cmds d"
  by (simp_all add: cmds_def emit_cmds_def session_add_waitforjackports_def Let_def)

lemma connects_cmds [simp]:
  "cmds (secondary_connects sn cn c xs d) = cmds d"
  "cmds (scene_connects i cn nn own k c chs d) = cmds d"
  "cmds (connect_channels dest c chs d) = cmds d"
  "cmds (raw_sender_connects i c chs d) = cmds d"
  "cmds (meter_connects cn c chs d) = cmds d"
  "cmds (tuner_connects chs d) = cmds d"
  "cmds (extra_connects ps d) = cmds d"
proof -
  show "cmds (secondary_connects sn cn c xs d) = cmds d"
    by (induction sn cn c xs d rule: secondary_connects.induct) (simp_all add: Let_def)
  show "cmds (scene_connects i cn nn own k c chs d) = cmds d"
    by (induction i cn nn own k c chs d rule: scene_connects.induct) (simp_all add: Let_def)
  show "cmds (connect_channels dest c chs d) = cmds d" by (induction dest c chs d rule: connect_channels.induct) simp_all
  show "cmds (raw_sender_connects i c chs d) = cmds d" by (induction i c chs d rule: raw_sender_connects.induct) (simp_all add: Let_def)
  show "cmds (meter_connects cn c chs d) = cmds d" by (induction cn c chs d rule: meter_connects.induct) simp_all
  show "cmds (tuner_connects chs d) = cmds d" by (induction chs d rule: tuner_connects.induct) simp_all
  show "cmds (extra_connects ps d) = cmds d" by (induction ps d rule: extra_connects.induct) simp_all
qed

lemma raw_connects_cmds [simp]: "cmds (snd (raw_connects i cn nn own nz c n cd)) = cmds (snd cd)"
  by (induction i cn nn own nz c n cd rule: raw_connects.induct) (simp_all add: Let_def)

lemma sender_connects_cmds [simp]: "cmds (sender_connects r names c chs d) = cmds d"
  by (induction r names c chs d rule: sender_connects.induct) (simp_all add: Let_def)

lemma effect_buses_cmds [simp]: "cmds (effect_buses chs d) = cmds d"
  by (induction chs d rule: effect_buses.induct) simp_all

lemma add_sender_cmds [simp]: "cmds (add_sender r n d) = emit_cmds [j2n_command r n] (cmds d)"
  by (simp add: add_sender_def)

lemma secondary_monitor_cmds [simp]: "cmds (secondary_monitor T r mem d) = cmds d"
  by (simp add: secondary_monitor_def Let_def)

section \<open>Receivers and senders\<close>

lemma secondary_bus_cmds:
  "cmds (add_secondary_bus T r mem chanlist d) =
     emit_cmds (if sd_nozita mem then []
           else [n2j_command T (ts_zitapath r) chanlist (''n2j_'' @ show_nat (unat (sd_id mem)) @ ''_sec.'' @ dev_id r)
                   (rs_secrec (settings r) + (sd_receiverjitter (stage_entry (own_id r) r) + sd_senderjitter mem))
                   (get_zitaport (sd_id mem) (ts_portoffset r) 100)]) (cmds d)"
  by (simp add: add_secondary_bus_def Let_def)

lemma network_receiver_cmds:
  "cmds (snd (add_network_receiver T r mem cd)) = emit_cmds (receiver_commands T r mem) (cmds (snd cd))"
  by (cases cd) (auto simp: add_network_receiver_def receiver_commands_def is_raw_def secondary_bus_cmds Let_def split_beta)

lemma network_receivers_cmds:
  "cmds (snd (network_receivers T r so m cd)) =
     emit_cmds (concat (map (receiver_commands T r) (filter (\<lambda>mem. \<not> so \<or> sd_channels mem \<noteq> []) (map snd m)))) (cmds (snd cd))"
  by (induction T r so m cd rule: network_receivers.induct) (simp_all add: network_receiver_cmds)

lemma raw_doc_cmds: "is_raw r \<Longrightarrow> cmds (raw_doc T r) = (network_commands T r, [])"
  by (auto simp: raw_doc_def network_commands_def received_members_def sender_commands_def network_receivers_cmds Let_def split_beta
      emit_cmds_def)

lemma plain_module_cmds: "n \<noteq> ''system'' \<Longrightarrow> cmds (add_mod n as cs d) = cmds d"
  by (simp add: cmds_def)

lemma scene_modules_cmds [simp]:
  "cmds (pos_sender r d) = cmds d" "cmds (echo_canceller T r mem d) = cmds d" "cmds (headtracker T r mem d) = cmds d"
  "cmds (metronome_route r d) = cmds d"
  by (simp_all add: pos_sender_def echo_canceller_def headtracker_def metronome_route_def plain_module_cmds Let_def split_beta del: cmds_simps(3))

lemma scene_senders_cmds:
  "\<not> is_raw r \<Longrightarrow> cmds (downmix_sender r (scene_sender r (stage_entry (own_id r) r) ns d)) = emit_cmds (sender_commands r) (cmds d)"
  by (simp add: downmix_sender_def scene_sender_def sender_commands_def Let_def)

lemma scene_doc_cmds: "\<not> is_raw r \<Longrightarrow> cmds (scene_doc T r) = (network_commands T r, [])"
  by (simp add: scene_doc_def scene_senders_cmds network_commands_def received_members_def network_receivers_cmds Let_def split_beta
      emit_cmds_def)

section \<open>The whole document\<close>

lemma head_cmds [simp]: "cmds (head_modules T r) = ([], [])"
  by (simp add: head_modules_def create_levelmeter_route_def Let_def)

lemma output_connects_cmds [simp]: "cmds (output_connects r d) = cmds d"
  by (simp add: output_connects_def Let_def)

lemma sess_cmds [simp]:
  "cmds (d\<lparr>d_sess := d_sess d @ Xelem ''modules'' [] (d_mods d') # d_sess d'\<rparr>) =
     (fst (cmds d), snd (cmds d) @ fst (cmds d') @ snd (cmds d'))"
  by (simp add: cmds_def)


text \<open>What the commands depend on, and that looking up an entry that is present changes nothing.\<close>

lemma commands_cong:
  assumes "ovr_stage r' = ovr_stage r" "ts_cfg r' = ts_cfg r" "ts_mc r' = ts_mc r" "ts_zitapath r' = ts_zitapath r"
    "ts_portoffset r' = ts_portoffset r"
  shows "network_commands T r' = network_commands T r" "local_commands r' = local_commands r"
proof -
  have e: "settings r' = settings r" "own_id r' = own_id r" "dev_id r' = dev_id r" "is_raw r' = is_raw r"
    "stage_entry i r' = stage_entry i r" "get_stagedev_name T i r' = get_stagedev_name T i r" for i
    using assms by (simp_all add: settings_def own_id_def dev_id_def is_raw_def stage_entry_def get_stagedev_name_def)
  then have "receiver_commands T r' = receiver_commands T r" using assms by (simp add: fun_eq_iff receiver_commands_def cong: if_cong)
  then show "network_commands T r' = network_commands T r" "local_commands r' = local_commands r"
    using e assms by (simp_all add: network_commands_def received_members_def sender_commands_def local_commands_def j2n_command_def
        multicast_def mczita_receiver_def mczita_sender_def Let_def cong: if_cong)
qed

definition present :: "stage_device_id_t \<Rightarrow> 'a render_base_scheme \<Rightarrow> bool" where
  "present i r \<longleftrightarrow> map_of (stg_stage (ovr_stage r)) i \<noteq> None"

lemma touch_present: "present i r \<Longrightarrow> touch_stage i r = r"
  by (cases r) (auto simp: present_def touch_stage_def upd_stage_def omap_index_def)

lemma present_touch: "stage_ok r \<Longrightarrow> present i (touch_stage i r)"
  by (simp add: present_def stage_ok_def touch_stage_def upd_stage_def omap_index_lookup)

lemma present_touch_other: "stage_ok r \<Longrightarrow> present i r \<Longrightarrow> present i (touch_stage j r)"
  by (simp add: present_def stage_ok_def touch_stage_def upd_stage_def omap_index_lookup)

lemma touch_fields [simp]:
  "own_id (touch_stage i r) = own_id r" "settings (touch_stage i r) = settings r" "stage_ok r \<Longrightarrow> stage_ok (touch_stage i r)"
  "in_room (touch_stage i r) = in_room r" "is_raw (touch_stage i r) = is_raw r"
  by (simp_all add: own_id_def settings_def stage_ok_def touch_stage_def upd_stage_def omap_wf_index in_room_def is_raw_def)

lemma acoustics_cmds:
  assumes "create_virtual_acoustics E r = (recv, scene, sess, r')" and "stage_ok r" and "\<not> is_raw r"
  shows "\<exists>d. sess = Xelem ''modules'' [] (d_mods d) # d_sess d \<and> cmds d = (network_commands (en_tsc E) r', []) \<and> present (own_id r') r'"
proof -
  define r1 where "r1 = touch_stage (own_id r) r"
  define r2 where "r2 = (if rs_receive (settings r1) \<and> b_sender_of (stage_entry (own_id r1) r1)
    then touch_stage (rs_id (settings r1)) r1 else r1)"
  have sess: "sess = Xelem ''modules'' [] (d_mods (scene_doc (en_tsc E) r')) # d_sess (scene_doc (en_tsc E) r')"
    using assms(1) by (auto simp: create_virtual_acoustics_def Let_def split_beta)
  have "\<exists>names. r' = r2\<lparr>ts_ego_source_names := names\<rparr>"
    using acoustics_state [OF assms(1)] by (simp only: r1_def r2_def)
  moreover have "present (own_id r1) r1" "stage_ok r1" using assms(2) by (simp_all add: r1_def present_touch)
  then have "present (own_id r2) r2" "\<not> is_raw r2" using assms(3) by (simp_all add: r2_def present_touch_other r1_def)
  ultimately have "present (own_id r') r'" "\<not> is_raw r'" by (auto simp: present_def own_id_def is_raw_def settings_def)
  with sess show ?thesis by (blast intro: scene_doc_cmds)
qed

lemma raw_dev_cmds:
  assumes "create_raw_dev T r = (sess, r')" and "stage_ok r" and "is_raw r"
  shows "\<exists>d. sess = Xelem ''modules'' [] (d_mods d) # d_sess d \<and> cmds d = (network_commands T r', []) \<and> present (own_id r') r'"
  using assms by (auto simp: create_raw_dev_def Let_def raw_doc_cmds present_touch intro!: exI [of _ "raw_doc T r'"])

lemma begin_cmds:
  assumes "begin_document E xports r = (scene, d, r')" and "stage_ok r"
  shows "cmds d = ([], if in_room r then network_commands (en_tsc E) r' else []) \<and> (in_room r \<longrightarrow> present (own_id r') r')"
proof -
  obtain d1 where p: "scene_part E r (head_modules (en_tsc E) r) = (scene, d1, r')" and d: "d = extra_connects xports d1"
    using assms(1) by (auto simp: begin_document_def Let_def split: prod.splits)
  have "cmds d1 = ([], if in_room r then network_commands (en_tsc E) r' else []) \<and> (in_room r \<longrightarrow> present (own_id r') r')"
  proof (cases "in_room r")
    case True
    show ?thesis
    proof (cases "is_raw r")
      case raw: True
      obtain sess where c: "create_raw_dev (en_tsc E) r = (sess, r')" and "d1 = (head_modules (en_tsc E) r)\<lparr>d_sess := d_sess (head_modules (en_tsc E) r) @ sess\<rparr>"
        using p True raw by (auto simp: scene_part_def is_raw_def Let_def split: prod.splits)
      with raw_dev_cmds [OF c assms(2) raw] True show ?thesis by auto
    next
      case acoustics: False
      let ?d = "if rs_receive (settings r) then output_connects r (head_modules (en_tsc E) r) else head_modules (en_tsc E) r"
      obtain recv sc sess where c: "create_virtual_acoustics E r = (recv, sc, sess, r')" and d1: "d1 = ?d\<lparr>d_sess := d_sess ?d @ sess\<rparr>"
        using p True acoustics by (auto simp: scene_part_def is_raw_def Let_def split: prod.splits)
      have "cmds ?d = ([], [])" by simp
      with acoustics_cmds [OF c assms(2) acoustics] d1 True show ?thesis by (auto simp del: cmds_simps)
    qed
  next
    case False
    then show ?thesis using p by (auto simp: scene_part_def Let_def split: prod.splits if_splits)
  qed
  with d show ?thesis by simp
qed

lemma local_append: "concat (map system_command (d_mods (multicast r d))) =
    concat (map system_command (d_mods d)) @ concat (map system_command (d_mods (multicast r empty_doc)))"
  by (simp add: multicast_def mczita_receiver_def mczita_sender_def session_add_waitforjackports_def Let_def)

lemma multicast_sess: "snd (cmds (multicast r d)) = snd (cmds d)"
  by (simp add: multicast_def mczita_receiver_def mczita_sender_def Let_def emit_cmds_def)

lemma end_cmds:
  assumes "cmds d = ([], net)"
  shows "session_commands (end_document T r scene d) = local_commands r @ net"
proof -
  let ?d1 = "recording r (multicast r d)"
  let ?d2 = "if tc_tscinclude (ts_cfg r) \<noteq> [] then include_node r ?d1 else ?d1"
  have m: "cmds (multicast r d) = (concat (map system_command (d_mods (multicast r empty_doc))), net)"
    using assms local_append [of r d] multicast_sess [of r d] by (simp add: cmds_def)
  have "cmds ?d1 = cmds (multicast r d)" by (simp add: recording_def)
  moreover have "cmds (include_node r ?d1) = cmds ?d1" by (simp add: include_node_def cmds_def)
  ultimately have "cmds ?d2 = (concat (map system_command (d_mods (multicast r empty_doc))), net)" using m by simp
  then have "cmds (midi_controller T r (hearing_aid r ?d2)) = (local_commands r, net)"
    by (simp add: midi_controller_def hearing_aid_def local_commands_def emit_cmds_def split_beta Let_def)
  then show ?thesis by (simp add: end_document_def Let_def cmds_def)
qed


section \<open>The processes of a session\<close>

text \<open>The web mixer is started from what the launch of the session leaves, and nothing before touches it.\<close>

lemma frame_webmixer: "doc_frame r r' \<Longrightarrow> ts_h_webmixer r' = ts_h_webmixer r"
  unfolding doc_frame_def by (drule conjunct1, drule arg_cong [of _ _ ts_h_webmixer]) simp

lemma launched_webmixer:
  assumes "launch_session E scene d r = (r', None)"
  shows "ts_h_webmixer r' = (if tc_start_webmixer (ts_cfg r') \<and> \<not> ts_secondary r' \<and> webmixer_command E r' \<noteq> []
    then Some (webmixer_command E r') else ts_h_webmixer r)"
proof -
  obtain r1 where r1: "r1 = r\<lparr>ts_tascar := Some (end_document (en_tsc E) r scene d), ts_inputports := get_jack_input_ports (en_out_ports E) (dev_id r)\<rparr>"
    and r': "r' = (start_webmixer E r1)\<lparr>session_ready := True\<rparr>"
    using assms by (auto simp: launch_session_def Let_def split: option.splits)
  have h: "ts_h_webmixer r' = (if tc_start_webmixer (ts_cfg r1) \<and> \<not> ts_secondary r1 \<and> webmixer_command E r1 \<noteq> []
      then Some (webmixer_command E r1) else ts_h_webmixer r1)" by (simp add: r' start_webmixer_def)
  have e: "webmixer_command E r1 = webmixer_command E r'" "ts_cfg r1 = ts_cfg r'" "ts_secondary r1 = ts_secondary r'"
    by (simp_all add: r' start_webmixer_def webmixer_command_def dev_id_def)
  have "ts_h_webmixer r1 = ts_h_webmixer r" by (simp add: r1)
  then show ?thesis using h unfolding e by simp
qed

lemma started_webmixer:
  assumes "start_session E r = (r', None)"
  shows "ts_h_webmixer r' = (if tc_start_webmixer (ts_cfg r') \<and> \<not> ts_secondary r' \<and> webmixer_command E r' \<noteq> []
    then Some (webmixer_command E r') else ts_h_webmixer r)"
proof -
  obtain scene d r1 where f: "doc_frame (r\<lparr>session_active := True, restart_needed := False\<rparr>) r1"
    and s: "start_session E r = and_then (open_client E r1) (launch_session E scene d)" by (rule start_session_eq)
  obtain r2 where o: "open_client E r1 = (r2, None)" and l: "launch_session E scene d r2 = (r', None)"
    using s assms by (metis and_then_None_iff)
  have "ts_h_webmixer r2 = ts_h_webmixer r1"
    using o frame_webmixer [OF touch_frame [of r1 "own_id r1"]]
    by (auto simp: open_client_def Let_def split: if_splits sum.splits prod.splits)
  with launched_webmixer [OF l] frame_webmixer [OF f] show ?thesis by simp
qed

text \<open>What the start keeps of the configuration, and of the entries of the stage.\<close>

lemma started_fields:
  assumes "start_session E r = (r', ex)"
  shows "own_id r' = own_id r" "settings r' = settings r" "in_room r' = in_room r" "ts_portoffset r' = ts_portoffset r"
    "stage_ok r \<Longrightarrow> map_of (stg_stage (ovr_stage r)) \<subseteq>\<^sub>m map_of (stg_stage (ovr_stage r'))"
    "stg_thisdevice (ovr_stage r') = stg_thisdevice (ovr_stage r)" "ts_zitapath r' = ts_zitapath r"
proof -
  obtain r1 where f: "doc_frame (r\<lparr>session_active := True, restart_needed := False\<rparr>) r1" and g: "res_frame r1 r'"
    using start_frame [OF assms] by blast
  obtain a h t c p where r': "r' = r1\<lparr>session_ready := a, ts_h_webmixer := h, ts_tascar := t, ts_ovboxclient := c, ts_inputports := p\<rparr>"
    using g unfolding res_frame_def by blast
  obtain m n where r1: "r1 = r\<lparr>session_active := True, restart_needed := False,
      ovr_stage := (ovr_stage r)\<lparr>stg_stage := m\<rparr>, ts_ego_source_names := n\<rparr>"
    and m: "stage_ok r \<longrightarrow> map_of (stg_stage (ovr_stage r)) \<subseteq>\<^sub>m map_of (stg_stage (ovr_stage r1))"
  proof -
    obtain m n where "r1 = r\<lparr>session_active := True, restart_needed := False,
      ovr_stage := (ovr_stage r)\<lparr>stg_stage := m\<rparr>, ts_ego_source_names := n\<rparr>" using f unfolding doc_frame_def by force
    moreover have "stage_ok r \<longrightarrow> map_of (stg_stage (ovr_stage r)) \<subseteq>\<^sub>m map_of (stg_stage (ovr_stage r1))"
      using f by (simp add: doc_frame_def stage_ok_def)
    ultimately show thesis using that by blast
  qed
  show "own_id r' = own_id r" "settings r' = settings r" "in_room r' = in_room r" "ts_portoffset r' = ts_portoffset r"
    "stg_thisdevice (ovr_stage r') = stg_thisdevice (ovr_stage r)" "ts_zitapath r' = ts_zitapath r"
    by (simp_all add: r' r1 own_id_def settings_def in_room_def)
  show "map_of (stg_stage (ovr_stage r)) \<subseteq>\<^sub>m map_of (stg_stage (ovr_stage r'))" if "stage_ok r" using m that by (simp add: r')
qed

lemma started_commands:
  assumes "start_session E r = (r', None)" and "stage_ok r"
  shows "\<exists>tsc. ts_tascar r' = Some tsc \<and>
    session_commands tsc = local_commands r' @ (if in_room r' then network_commands (en_tsc E) r' else [])"
proof -
  let ?r = "r\<lparr>session_active := True, restart_needed := False\<rparr>" and ?E = "scene_env.truncate E"
  obtain scene d r1 where b: "begin_document ?E (en_xports E (rs_xports (settings ?r))) ?r = (scene, d, r1)" by (metis surj_pair)
  have T: "en_tsc ?E = en_tsc E" by (simp add: scene_env.defs)
  have ok: "stage_ok ?r" using assms(2) by (simp add: stage_ok_def)
  have room: "in_room r1 = in_room ?r" using doc_frame_fields(3) [OF begin_frame [OF b]] .
  obtain r2 where o: "open_client E r1 = (r2, None)" and l: "launch_session E scene d r2 = (r', None)"
  proof -
    have "start_session E r = and_then (open_client E r1) (launch_session E scene d)"
      using b by (simp add: start_session_def base_start_session_def)
    with assms(1) show thesis using that by (metis and_then_None_iff)
  qed
  have "in_room r1 \<longrightarrow> present (own_id r1) r1" using begin_cmds [OF b ok] room by simp
  then have "r2 = r1 \<or> (\<exists>c. r2 = r1\<lparr>ts_ovboxclient := c\<rparr>)"
    using o by (auto simp: open_client_def touch_present Let_def split: if_splits sum.splits prod.splits)
  then have f: "ovr_stage r2 = ovr_stage r1" "ts_cfg r2 = ts_cfg r1" "ts_mc r2 = ts_mc r1" "ts_zitapath r2 = ts_zitapath r1"
    "ts_portoffset r2 = ts_portoffset r1" by auto
  have "network_commands (en_tsc E) r2 = network_commands (en_tsc E) r1 \<and> in_room r2 = in_room r1"
    using commands_cong(1) [OF f] f(1) by (simp add: in_room_def)
  then have "cmds d = ([], if in_room r2 then network_commands (en_tsc E) r2 else [])"
    using begin_cmds [OF b ok] by (simp add: T room)
  from end_cmds [OF this, of "en_tsc E" r2 scene]
  have tsc: "session_commands (end_document (en_tsc E) r2 scene d) =
      local_commands r2 @ (if in_room r2 then network_commands (en_tsc E) r2 else [])" .
  have "res_frame r2 r'" using launch_frame [OF l] .
  then obtain a h t c p where "r' = r2\<lparr>session_ready := a, ts_h_webmixer := h, ts_tascar := t, ts_ovboxclient := c, ts_inputports := p\<rparr>"
    unfolding res_frame_def by blast
  then have g: "ovr_stage r' = ovr_stage r2" "ts_cfg r' = ts_cfg r2" "ts_mc r' = ts_mc r2" "ts_zitapath r' = ts_zitapath r2"
    "ts_portoffset r' = ts_portoffset r2" by simp_all
  have "network_commands (en_tsc E) r' = network_commands (en_tsc E) r2" "local_commands r' = local_commands r2" "in_room r' = in_room r2"
    using commands_cong [OF g] g(1) by (simp_all add: in_room_def)
  with tsc launch_success [OF l] show ?thesis by simp
qed

text \<open>C8. The processes of a session. The \<open>system\<close> commands of the document that a started session runs (those of an
  included file, which the library reads later, are not counted) are exactly the specified ones in their order: the
  multicast receiver and sender and the hearing aid as configured and, on a stage, one network receiver for every
  other member that has channels (in raw mode also for those without) when this device receives, both agree on the
  downmix and the member has not switched off the transport, listening on that member's port, with a second one with the
  longer buffer where that is configured; then at most one network sender on the port of this device. Beside them
  the web mixer runs exactly as configured, in a primary instance that finds its program.\<close>

theorem session_processes:
  assumes "start_session E r = (r', None)" and "stage_ok r"
  shows "\<exists>tsc. ts_tascar r' = Some tsc \<and>
    session_commands tsc = local_commands r' @ (if in_room r' then network_commands (en_tsc E) r' else []) \<and>
    ts_h_webmixer r' = (if tc_start_webmixer (ts_cfg r') \<and> \<not> ts_secondary r' \<and> webmixer_command E r' \<noteq> []
                        then Some (webmixer_command E r') else ts_h_webmixer r)"
  using started_commands [OF assms] started_webmixer [OF assms(1)] by simp

lemma receiver_listed:
  assumes "start_session E r = (r', None)" and "stage_ok r" and "in_room r" and "map_of (stg_stage (ovr_stage r)) i = Some mem"
    and "is_raw r \<or> sd_channels mem \<noteq> []"
  shows "mem \<in> set (received_members r') \<and> is_raw r' = is_raw r"
proof -
  note f = started_fields [OF assms(1)]
  have raw: "is_raw r' = is_raw r" using f by (simp add: is_raw_def)
  have "map_of (stg_stage (ovr_stage r')) i = Some mem" using f(5) [OF assms(2)] assms(4) by (metis domI map_le_def)
  then have "mem \<in> set (map snd (stg_stage (ovr_stage r')))" by (force dest: map_of_SomeD)
  then show ?thesis using assms(5) raw by (simp add: received_members_def)
qed

theorem session_processes_witness:
  "\<exists>r' tsc chanlist jname buff. start_session (example_senv None) (example_peers False) = (r', None) \<and> ts_tascar r' = Some tsc \<and>
     session_commands tsc = local_commands r' @ network_commands example_tsc r' \<and>
     n2j_command example_tsc [] chanlist jname buff 4468 \<in> set (session_commands tsc)"
proof -
  let ?r = "example_peers False" and ?mem = "default_device\<lparr>sd_id := 2, sd_channels := [example_channel]\<rparr>"
  obtain r' where r: "start_session (example_senv None) ?r = (r', None)" using example_peers_starts by blast
  have ok: "stage_ok ?r" by (simp add: stage_ok_def example_peers_def omap_wf_def)
  have room: "in_room ?r" by (simp add: example_peers_def example_member_def in_room_def)
  have T: "en_tsc (example_senv None) = example_tsc" by (simp add: example_senv_def)
  have m1: "map_of (stg_stage (ovr_stage ?r)) 2 = Some ?mem" by (simp add: example_peers_def)
  have m2: "map_of (stg_stage (ovr_stage ?r)) 1 = Some (default_device\<lparr>sd_id := 1, sd_channels := [example_channel]\<rparr>)"
    by (simp add: example_peers_def)
  note f = started_fields [OF r]
  have mem: "?mem \<in> set (received_members r')" using receiver_listed [OF r ok room m1] by simp
  have own: "stage_entry (own_id r') r' = default_device\<lparr>sd_id := 1, sd_channels := [example_channel]\<rparr>"
  proof -
    have "own_id r' = 1" using f(1) by (simp add: example_peers_def example_member_def own_id_def)
    moreover have "map_of (stg_stage (ovr_stage r')) 1 = map_of (stg_stage (ovr_stage ?r)) 1"
      using f(5) [OF ok] m2 by (metis domI map_le_def)
    ultimately show ?thesis using m2 by (simp add: stage_entry_def omap_index_def)
  qed
  have "own_id r' = 1" "rs_receive (settings r')" "ts_portoffset r' = 0" "ts_zitapath r' = []"
    using f by (simp_all add: example_peers_def example_member_def own_id_def settings_def render_settings_ctor_def
        tascar_ctor_def render_base.defs)
  then have "\<exists>chanlist jname buff. n2j_command example_tsc [] chanlist jname buff 4468 \<in> set (receiver_commands example_tsc r' ?mem)"
    using own by (auto simp: receiver_commands_def default_device_def get_zitaport_def Let_def)
  then obtain chanlist jname buff where n: "n2j_command example_tsc [] chanlist jname buff 4468 \<in> set (network_commands example_tsc r')"
    using mem by (auto simp: network_commands_def)
  obtain tsc where t: "ts_tascar r' = Some tsc" "session_commands tsc = local_commands r' @ network_commands example_tsc r'"
    using session_processes [OF r ok] room f(3) by (auto simp: T)
  then have "n2j_command example_tsc [] chanlist jname buff 4468 \<in> set (session_commands tsc)" using n by simp
  with r t show ?thesis by blast
qed

end
