(* ===== verification/Client_Routing.thy ===== *)
theory Client_Routing
  imports Client
begin

text \<open>
  Where \<open>ovboxclient_t::recsrv\<close> sends a message from a local sender: the specification
  computes the destinations and keys from the endpoint table; the loop over the endpoints
  with its buffers, flags and counters is proved to implement it.
\<close>

section \<open>The specification\<close>

definition peer_wanted :: "ovboxclient \<Rightarrow> nat \<times> ep_desc \<Rightarrow> bool" where
  "peer_wanted c = (\<lambda>(i, ep). ed_timeout ep \<noteq> 0 \<and> i \<noteq> unat (callerid c) \<and> has_mode (ed_mode ep) B_PEER2PEER)"

definition peer_via_server :: "ovboxclient \<Rightarrow> nat \<times> ep_desc \<Rightarrow> bool" where
  "peer_via_server c = (\<lambda>(i, ep). ed_timeout ep \<noteq> 0 \<and> i \<noteq> unat (callerid c) \<and> \<not> has_mode (ed_mode ep) B_PEER2PEER)"

definition peer_accepts :: "ovboxclient \<Rightarrow> ep_desc \<Rightarrow> bool" where
  "peer_accepts c ep \<longleftrightarrow>
     (\<not> has_mode (ed_mode ep) B_DONOTSEND \<or> has_mode (ed_mode ep) B_USINGPROXY \<and> in_same_network c ep) \<and>
     has_mode (ed_mode ep) B_RECEIVEDOWNMIX_deprecated = has_mode (cl_mode c) B_SENDDOWNMIX_deprecated"

definition peer_route :: "ovboxclient \<Rightarrow> ep_desc \<Rightarrow> endpoint \<times> byte list option" where
  "peer_route c ep =
     (if sendlocal c \<and> in_same_network c ep then ed_localep ep else ed_ep ep,
      if wants_encryption c ep then Some (pubkey ep) else None)"

definition peer_routes :: "ovboxclient \<Rightarrow> (nat \<times> ep_desc) list \<Rightarrow> (endpoint \<times> byte list option) list" where
  "peer_routes c eps = map (peer_route c \<circ> snd) (filter (\<lambda>e. peer_wanted c e \<and> peer_accepts c (snd e)) eps)"

definition server_route :: "ovboxclient \<Rightarrow> (endpoint \<times> byte list option) list" where
  "server_route c =
     (if toport c = 0 then []
      else [((serv_addr (remote_server c))\<lparr>sin_port := htons (toport c)\<rparr>,
             if has_mode (cl_mode c) B_ENCRYPTION \<and> srv_has_pubkey c then Some (srv_pubkey c) else None)])"

definition needs_server :: "ovboxclient \<Rightarrow> bool" where
  "needs_server c \<longleftrightarrow> \<not> has_mode (cl_mode c) B_PEER2PEER \<or> (\<exists>e\<in>set (enumerate 0 (endpoints c)). peer_via_server c e)"

definition routes :: "ovboxclient \<Rightarrow> (endpoint \<times> byte list option) list" where
  "routes c =
     (if has_mode (cl_mode c) B_PEER2PEER then peer_routes c (enumerate 0 (endpoints c)) else []) @
     (if needs_server c then server_route c else [])"

text \<open>
  The bytes on the wire. A message that the encryption buffer cannot hold is sent as an
  empty datagram.
\<close>

definition wire :: "sodium \<Rightarrow> byte list \<Rightarrow> byte list \<Rightarrow> byte list option \<Rightarrow> byte list" where
  "wire S hdr data key =
     (case key of
        None \<Rightarrow> hdr @ data
      | Some pk \<Rightarrow>
          if BUFSIZE < length hdr + length data + crypto_box_SEALBYTES then [] else hdr @ crypto_box_seal S data pk)"

definition to_dgram :: "sodium \<Rightarrow> byte list \<Rightarrow> byte list \<Rightarrow> endpoint \<times> byte list option \<Rightarrow> dgram" where
  "to_dgram S hdr data = (\<lambda>(dst, key). Dgram dst (wire S hdr data key))"

section \<open>The loop implements it\<close>

definition client_ok :: "ovboxclient \<Rightarrow> bool" where
  "client_ok c \<longleftrightarrow> table_ok c \<and> unat (callerid c) < MAX_STAGE_ID \<and> sorter_ok (cl_sorter c) \<and>
     socket_ok (remote_server c) \<and> msgbuf_ok (decrypted_msg c)"

lemma buf_arith: "BUFSIZE < 2 ^ 63" "HEADERLEN < 2 ^ 63" "crypto_box_SEALBYTES = 48"
  by (simp_all add: buf_bounds crypto_box_SEALBYTES_def)

text \<open>The packed message in its buffer.\<close>

definition packed_in :: "byte list \<Rightarrow> nat \<Rightarrow> byte list \<Rightarrow> byte list \<Rightarrow> bool" where
  "packed_in msg len hdr data \<longleftrightarrow> length msg = BUFSIZE \<and> length hdr = HEADERLEN \<and>
     len = HEADERLEN + length data \<and> len \<le> BUFSIZE \<and> take (HEADERLEN + length data) msg = hdr @ data"

lemma packed_take_drop:
  assumes "packed_in msg len hdr data"
  shows "take HEADERLEN msg = hdr" "take (len - HEADERLEN) (drop HEADERLEN msg) = data"
proof -
  have t: "take (HEADERLEN + length data) msg = hdr @ data" and l: "length hdr = HEADERLEN" "len = HEADERLEN + length data"
    using assms by (simp_all add: packed_in_def)
  have "take HEADERLEN (take (HEADERLEN + length data) msg) = hdr" unfolding t using l by simp
  then show "take HEADERLEN msg = hdr" using l by simp
  have "drop HEADERLEN (take (HEADERLEN + length data) msg) = data" unfolding t using l by simp
  then show "take (len - HEADERLEN) (drop HEADERLEN msg) = data" using l by (simp add: drop_take)
qed

text \<open>Encryption for one destination: what is sent, and the size of the buffer.\<close>

lemma encrypt_wire:
  assumes "seal_length_ok S" and p: "packed_in msg len hdr data" and c: "length cmsg = BUFSIZE + crypto_box_SEALBYTES"
  shows "\<exists>d n. encryptmsg S cmsg BUFSIZE msg len pk = Inr (d, n) \<and> take n d = wire S hdr data (Some pk) \<and>
    length d = BUFSIZE + crypto_box_SEALBYTES"
proof (cases "BUFSIZE < len + crypto_box_SEALBYTES")
  case True
  then show ?thesis using p c by (simp add: encryptmsg_def wire_def packed_in_def)
next
  case False
  have len: "HEADERLEN \<le> len" "len \<le> length msg" "length msg < 2 ^ 64"
    using p by (simp_all add: packed_in_def buf_bounds)
  have "len + crypto_box_SEALBYTES \<le> BUFSIZE" "BUFSIZE \<le> length cmsg" using False c by simp_all
  from encryptmsg_ok [OF assms(1) len this, of pk] show ?thesis
    using False p c packed_take_drop [OF p] by (auto simp: wire_def packed_in_def)
qed

definition fanout_ok :: "fanout \<Rightarrow> bool" where
  "fanout_ok f \<longleftrightarrow> length (fo_cmsg f) = BUFSIZE + crypto_box_SEALBYTES"

text \<open>The effect of the loop, up to the byte counter of the socket and the contents of \<open>cmsg\<close>.\<close>

definition fanned_out ::
  "platform \<Rightarrow> ovboxclient \<Rightarrow> byte list \<Rightarrow> byte list \<Rightarrow> (nat \<times> ep_desc) list \<Rightarrow> fanout \<Rightarrow> fanout \<Rightarrow> bool" where
  "fanned_out P c hdr data eps f f' \<longleftrightarrow>
     fanout_ok f' \<and> serv_addr (fo_remote f') = serv_addr (fo_remote f) \<and>
     ovbox_udpsocket.more (fo_remote f') = ovbox_udpsocket.more (fo_remote f) \<and>
     seqmap (fo_remote f') = seqmap (fo_remote f) \<and>
     fo_out f' = fo_out f @ map (to_dgram (pl_sodium P) hdr data) (peer_routes c eps) \<and>
     fo_total f' = fo_total f + length (filter (peer_wanted c) eps) \<and>
     fo_encrypted f' = fo_encrypted f + length (filter (\<lambda>e. peer_wanted c e \<and> wants_encryption c (snd e)) eps) \<and>
     (fo_server f' \<longleftrightarrow> fo_server f \<or> (\<exists>e\<in>set eps. peer_via_server c e))"

lemma fanned_out_trans:
  "fanned_out P c hdr data es f f' \<Longrightarrow> fanned_out P c hdr data es' f' f'' \<Longrightarrow> fanned_out P c hdr data (es @ es') f f''"
  by (auto simp: fanned_out_def peer_routes_def)

lemma send_ep_frame:
  "send_ep K s buf len ep = (n, s', out) \<Longrightarrow> out = [Dgram ep (take len buf)] \<and> serv_addr s' = serv_addr s"
  "send_ep K r buf len ep = (n, r', out) \<Longrightarrow> seqmap r' = seqmap r \<and> ovbox_udpsocket.more r' = ovbox_udpsocket.more r \<and>
     ov_secret r' = ov_secret r \<and> ov_callerid r' = ov_callerid r"
  by (auto simp: send_ep_def udp_count_tx_def Let_def)

lemma recsrv_peer_ok:
  assumes S: "seal_length_ok (pl_sodium P)" and p: "packed_in msg len hdr data"
    and f: "fanout_ok f" and c: "unat (callerid c) < length (endpoints c)"
  shows "\<exists>f'. recsrv_peer P c msg len i ep f = Inr f' \<and> fanned_out P c hdr data [(i, ep)] f f'"
proof (cases "peer_wanted c (i, ep)")
  case False
  then show ?thesis using f
    by (auto simp: recsrv_peer_def fanned_out_def peer_routes_def peer_wanted_def peer_via_server_def fanout_ok_def)
next
  case True
  define f1 where "f1 = f\<lparr>fo_total := fo_total f + 1\<rparr>"
  have len: "take len msg = wire (pl_sodium P) hdr data None" using p by (simp add: packed_in_def wire_def)
  have "\<exists>f2 buf n. (if wants_encryption c ep
          then bind_res (encryptmsg (pl_sodium P) (fo_cmsg f1) BUFSIZE msg len (pubkey ep)) (\<lambda>(cmsg, clen).
                 Inr (f1\<lparr>fo_cmsg := cmsg, fo_encrypted := fo_encrypted f1 + 1\<rparr>, cmsg, clen))
          else Inr (f1, msg, len)) = Inr (f2, buf, n) \<and>
      take n buf = wire (pl_sodium P) hdr data (snd (peer_route c ep)) \<and> fanout_ok f2 \<and>
      fo_remote f2 = fo_remote f \<and> fo_out f2 = fo_out f \<and> fo_total f2 = fo_total f + 1 \<and> fo_server f2 = fo_server f \<and>
      fo_encrypted f2 = fo_encrypted f + (if wants_encryption c ep then 1 else 0)"
  proof (cases "wants_encryption c ep")
    case True
    have "length (fo_cmsg f1) = BUFSIZE + crypto_box_SEALBYTES" using f by (simp add: f1_def fanout_ok_def)
    from encrypt_wire [OF S p this, of "pubkey ep"] True show ?thesis
      by (auto simp: peer_route_def f1_def fanout_ok_def)
  next
    case False
    then show ?thesis using f len by (auto simp: peer_route_def f1_def fanout_ok_def)
  qed
  then obtain f2 buf n where e: "(if wants_encryption c ep
          then bind_res (encryptmsg (pl_sodium P) (fo_cmsg f1) BUFSIZE msg len (pubkey ep)) (\<lambda>(cmsg, clen).
                 Inr (f1\<lparr>fo_cmsg := cmsg, fo_encrypted := fo_encrypted f1 + 1\<rparr>, cmsg, clen))
          else Inr (f1, msg, len)) = Inr (f2, buf, n)"
    and w: "take n buf = wire (pl_sodium P) hdr data (snd (peer_route c ep))"
    and f2: "fanout_ok f2" "fo_remote f2 = fo_remote f" "fo_out f2 = fo_out f" "fo_total f2 = fo_total f + 1"
      "fo_server f2 = fo_server f" "fo_encrypted f2 = fo_encrypted f + (if wants_encryption c ep then 1 else 0)"
    by auto
  have r: "recsrv_peer P c msg len i ep f =
      (if peer_accepts c ep then Inr (fanout_send P buf n (fst (peer_route c ep)) f2) else Inr f2)"
    using True c unfolding recsrv_peer_def Let_def f1_def [symmetric] e
    by (simp add: peer_wanted_def peer_accepts_def peer_route_def)
  have n: "\<not> peer_via_server c (i, ep)" using True by (simp add: peer_wanted_def peer_via_server_def)
  show ?thesis
  proof (cases "peer_accepts c ep")
    case False
    then show ?thesis using r f2 True n by (simp add: fanned_out_def peer_routes_def)
  next
    case a: True
    obtain k rs out where s: "send_ep (pl_kernel P) (fo_remote f2) buf n (fst (peer_route c ep)) = (k, rs, out)"
      by (metis surj_pair)
    then have "fanned_out P c hdr data [(i, ep)] f (fanout_send P buf n (fst (peer_route c ep)) f2)"
      using f2 True n a w send_ep_frame(1) [OF s] send_ep_frame(2) [OF s]
      by (simp add: fanned_out_def fanout_send_def peer_routes_def to_dgram_def fanout_ok_def case_prod_beta)
    then show ?thesis using r a by simp
  qed
qed

lemma recsrv_peers_ok:
  assumes S: "seal_length_ok (pl_sodium P)" and p: "packed_in msg len hdr data"
    and c: "unat (callerid c) < length (endpoints c)" and f: "fanout_ok f"
  shows "\<exists>f'. recsrv_peers P c msg len i eps f = Inr f' \<and> fanned_out P c hdr data (enumerate i eps) f f'"
  using f
proof (induction eps arbitrary: i f)
  case Nil
  then show ?case by (simp add: fanned_out_def peer_routes_def)
next
  case (Cons ep eps)
  obtain f1 where 1: "recsrv_peer P c msg len i ep f = Inr f1" "fanned_out P c hdr data [(i, ep)] f f1"
    using recsrv_peer_ok [OF S p Cons.prems c] by blast
  then have "fanout_ok f1" by (simp add: fanned_out_def)
  from Cons.IH [OF this, of "Suc i"] obtain f2 where 2: "recsrv_peers P c msg len (Suc i) eps f1 = Inr f2"
    "fanned_out P c hdr data (enumerate (Suc i) eps) f1 f2" by blast
  then show ?case using 1 fanned_out_trans [OF 1(2) 2(2)] by simp
qed

text \<open>The copy for the server, and the whole iteration.\<close>

lemma send_port_frame:
  "send_port K s buf len p = (n, s', out) \<Longrightarrow> out = (if p = 0 then [] else [Dgram ((serv_addr s)\<lparr>sin_port := htons p\<rparr>) (take len buf)])"
  "send_port K r buf len p = (n, r', out) \<Longrightarrow> seqmap r' = seqmap r \<and> ovbox_udpsocket.more r' = ovbox_udpsocket.more r \<and>
     ov_secret r' = ov_secret r \<and> ov_callerid r' = ov_callerid r"
  by (auto simp: send_port_def udp_count_tx_def Let_def split: if_splits)

definition server_encrypts :: "ovboxclient \<Rightarrow> bool" where
  "server_encrypts c \<longleftrightarrow> has_mode (cl_mode c) B_ENCRYPTION \<and> srv_has_pubkey c"

lemma recsrv_server_ok:
  assumes S: "seal_length_ok (pl_sodium P)" and p: "packed_in msg len hdr data" and f: "fanout_ok f"
    and a: "serv_addr (fo_remote f) = serv_addr (remote_server c)"
  shows "\<exists>f'. recsrv_server P c msg len f = Inr f' \<and> fanout_ok f' \<and>
    fo_out f' = fo_out f @ map (to_dgram (pl_sodium P) hdr data) (server_route c) \<and>
    fo_total f' = fo_total f + 1 \<and> fo_encrypted f' = fo_encrypted f + (if server_encrypts c then 1 else 0) \<and>
    seqmap (fo_remote f') = seqmap (fo_remote f)"
proof (cases "server_encrypts c")
  case True
  have "length (fo_cmsg f) = BUFSIZE + crypto_box_SEALBYTES" using f by (simp add: fanout_ok_def)
  from encrypt_wire [OF S p this, of "srv_pubkey c"] obtain d n
    where e: "encryptmsg (pl_sodium P) (fo_cmsg f) BUFSIZE msg len (srv_pubkey c) = Inr (d, n)"
      "take n d = wire (pl_sodium P) hdr data (Some (srv_pubkey c))" "length d = BUFSIZE + crypto_box_SEALBYTES" by blast
  obtain k r out where s: "send_port (pl_kernel P) (fo_remote f) d n (toport c) = (k, r, out)" by (metis surj_pair)
  then show ?thesis using True e a send_port_frame [OF s]
    by (simp add: recsrv_server_def server_encrypts_def server_route_def to_dgram_def fanout_ok_def)
next
  case False
  obtain k r out where s: "send_port (pl_kernel P) (fo_remote f) msg len (toport c) = (k, r, out)" by (metis surj_pair)
  have "take len msg = wire (pl_sodium P) hdr data None" using p by (auto simp: packed_in_def wire_def)
  then show ?thesis using False a f send_port_frame [OF s] s
    by (auto simp: recsrv_server_def server_encrypts_def server_route_def to_dgram_def fanout_ok_def)
qed

text \<open>The header that \<open>recsrv\<close> puts in front of a local datagram.\<close>

definition out_port :: "ovboxclient \<Rightarrow> port_t" where
  "out_port c = recport c - portoffset c"

definition out_header :: "ovboxclient \<Rightarrow> byte list" where
  "out_header c = header_bytes (ov_secret (remote_server c)) (ov_callerid (remote_server c)) (out_port c)
     (next_seq (remote_server c) (out_port c))"

lemma length_out_header [simp]: "length (out_header c) = HEADERLEN"
  by (simp add: out_header_def)

lemma recvfrom_Some:
  assumes "length data \<le> n" and "n \<le> length buf"
  shows "\<exists>s'. recvfrom s buf n (Some (data, src)) = (int (length data), s', data @ drop (length data) buf, src)"
  using assms by (simp add: recvfrom_def blit_def Let_def)

lemma routes_frame [simp]: "routes (c\<lparr>local_server := l\<rparr>) = routes c"
  by (simp add: routes_def needs_server_def peer_routes_def peer_wanted_def peer_accepts_def peer_route_def
      peer_via_server_def in_same_network_def wants_encryption_def server_route_def cong: if_cong)

lemma client_frame [simp]:
  "peer_wanted (c\<lparr>local_server := l\<rparr>) = peer_wanted c" "peer_via_server (c\<lparr>local_server := l\<rparr>) = peer_via_server c"
  "wants_encryption (c\<lparr>local_server := l\<rparr>) = wants_encryption c" "peer_routes (c\<lparr>local_server := l\<rparr>) = peer_routes c"
  "server_route (c\<lparr>local_server := l\<rparr>) = server_route c" "server_encrypts (c\<lparr>local_server := l\<rparr>) = server_encrypts c"
  by (simp_all add: fun_eq_iff peer_routes_def peer_wanted_def peer_accepts_def peer_route_def server_encrypts_def
      peer_via_server_def in_same_network_def wants_encryption_def server_route_def)

definition recsrv_counts :: "ovboxclient \<Rightarrow> nat \<times> nat" where
  "recsrv_counts c =
     (let eps = (if has_mode (cl_mode c) B_PEER2PEER then enumerate 0 (endpoints c) else [])
      in (length (filter (peer_wanted c) eps) + (if needs_server c then 1 else 0),
          length (filter (\<lambda>e. peer_wanted c e \<and> wants_encryption c (snd e)) eps) +
            (if needs_server c \<and> server_encrypts c then 1 else 0)))"

lemma recsrv_step_ok:
  assumes S: "seal_length_ok (pl_sodium P)" and c: "client_ok c" and b: "recbufs_ok b"
    and d: "0 < length data" "HEADERLEN + length data \<le> BUFSIZE"
  shows "\<exists>c' b'. recsrv_step P c b (Some (data, src)) =
      Inr (c', b', map (to_dgram (pl_sodium P) (out_header c) data) (routes c)) \<and> recbufs_ok b' \<and>
    send_encrypt_any c' = (0 < snd (recsrv_counts c)) \<and>
    send_encrypt_all c' = (0 < snd (recsrv_counts c) \<and> snd (recsrv_counts c) = fst (recsrv_counts c)) \<and>
    endpoints c' = endpoints c \<and> callerid c' = callerid c \<and> cl_sorter c' = cl_sorter c \<and>
    seqmap (remote_server c') = seqmap (bump_seq (out_port c) (remote_server c))"
proof -
  let ?buf = "data @ drop (length data) (rb_buffer b)" and ?hdr = "out_header c"
  have bl: "length (rb_buffer b) = BUFSIZE" "length (rb_msg b) = BUFSIZE"
    "length (rb_cmsg b) = BUFSIZE + crypto_box_SEALBYTES" using b by (simp_all add: recbufs_ok_def)
  have dl: "length data \<le> BUFSIZE" "BUFSIZE \<le> length (rb_buffer b)" using d bl by simp_all
  obtain l1 where rv: "recvfrom (local_server c) (rb_buffer b) BUFSIZE (Some (data, src)) = (int (length data), l1, ?buf, src)"
    using recvfrom_Some [OF dl] by blast
  define c1 where "c1 = c\<lparr>local_server := l1\<rparr>"
  define msg where "msg = ?hdr @ data @ drop (HEADERLEN + length data) (rb_msg b)"
  define r1 where "r1 = bump_seq (out_port c) (remote_server c)"
  have pk: "ov_packmsg (remote_server c1) (rb_msg b) BUFSIZE (recport c1 - portoffset c1) ?buf (length data) =
      (msg, HEADERLEN + length data, r1)"
    using d bl by (simp add: c1_def ov_packmsg_ok msg_def out_header_def out_port_def r1_def)
  have p: "packed_in msg (HEADERLEN + length data) ?hdr data"
    using d bl by (simp add: packed_in_def msg_def)
  define f0 where "f0 = \<lparr>fo_remote = r1, fo_cmsg = rb_cmsg b, fo_out = [], fo_total = 0, fo_encrypted = 0,
      fo_server = \<not> has_mode (cl_mode c1) B_PEER2PEER\<rparr>"
  have f0: "fanout_ok f0" using bl by (simp add: f0_def fanout_ok_def)
  have cid: "unat (callerid c1) < length (endpoints c1)" using c by (simp add: client_ok_def table_ok_def c1_def)
  let ?eps = "if has_mode (cl_mode c) B_PEER2PEER then enumerate 0 (endpoints c) else []"
  have "\<exists>f1. (if has_mode (cl_mode c1) B_PEER2PEER
        then recsrv_peers P c1 msg (HEADERLEN + length data) 0 (endpoints c1) f0 else Inr f0) = Inr f1 \<and>
      fanned_out P c1 ?hdr data ?eps f0 f1"
    using recsrv_peers_ok [OF S p cid f0, of 0 "endpoints c"] f0
    by (auto simp: c1_def fanned_out_def peer_routes_def)
  then obtain f1 where f1: "(if has_mode (cl_mode c1) B_PEER2PEER
        then recsrv_peers P c1 msg (HEADERLEN + length data) 0 (endpoints c1) f0 else Inr f0) = Inr f1"
    and fan: "fanned_out P c1 ?hdr data ?eps f0 f1" by blast
  have srv: "fo_server f1 = needs_server c"
    using fan by (auto simp: fanned_out_def f0_def needs_server_def c1_def)
  have out1: "fo_out f1 = map (to_dgram (pl_sodium P) ?hdr data) (peer_routes c ?eps)" "fanout_ok f1"
    "seqmap (fo_remote f1) = seqmap r1" "serv_addr (fo_remote f1) = serv_addr (remote_server c1)"
    using fan by (simp_all add: fanned_out_def f0_def c1_def r1_def)
  have cnt1: "fo_total f1 = length (filter (peer_wanted c) ?eps)"
    "fo_encrypted f1 = length (filter (\<lambda>e. peer_wanted c e \<and> wants_encryption c (snd e)) ?eps)"
    using fan by (simp_all add: fanned_out_def f0_def c1_def)
  have "\<exists>f2. (if fo_server f1 then recsrv_server P c1 msg (HEADERLEN + length data) f1 else Inr f1) = Inr f2 \<and>
      fanout_ok f2 \<and> fo_out f2 = map (to_dgram (pl_sodium P) ?hdr data) (routes c) \<and>
      (fo_total f2, fo_encrypted f2) = recsrv_counts c \<and> seqmap (fo_remote f2) = seqmap r1"
  proof (cases "needs_server c")
    case True
    from recsrv_server_ok [OF S p out1(2,4)] obtain f2 where "recsrv_server P c1 msg (HEADERLEN + length data) f1 = Inr f2"
      "fanout_ok f2" "fo_out f2 = fo_out f1 @ map (to_dgram (pl_sodium P) ?hdr data) (server_route c1)"
      "fo_total f2 = fo_total f1 + 1" "fo_encrypted f2 = fo_encrypted f1 + (if server_encrypts c1 then 1 else 0)"
      "seqmap (fo_remote f2) = seqmap (fo_remote f1)" by blast
    then show ?thesis using True srv out1 cnt1 by (auto simp: routes_def recsrv_counts_def c1_def peer_routes_def Let_def)
  next
    case False
    then show ?thesis using srv out1 cnt1 by (auto simp: routes_def recsrv_counts_def peer_routes_def Let_def)
  qed
  then obtain f2 where f2: "(if fo_server f1 then recsrv_server P c1 msg (HEADERLEN + length data) f1 else Inr f1) = Inr f2"
    and ok2: "fanout_ok f2" "fo_out f2 = map (to_dgram (pl_sodium P) ?hdr data) (routes c)"
      "(fo_total f2, fo_encrypted f2) = recsrv_counts c" "seqmap (fo_remote f2) = seqmap r1" by blast
  have sel: "rb_msg (b\<lparr>rb_buffer := x\<rparr>) = rb_msg b" "rb_cmsg (b\<lparr>rb_buffer := x\<rparr>) = rb_cmsg b" for x by simp_all
  have step: "recsrv_step P c b (Some (data, src)) =
      Inr (c1\<lparr>remote_server := fo_remote f2, send_encrypt_any := fo_encrypted f2 > 0,
              send_encrypt_all := fo_encrypted f2 > 0 \<and> fo_encrypted f2 = fo_total f2\<rparr>,
           b\<lparr>rb_buffer := ?buf, rb_msg := msg, rb_cmsg := fo_cmsg f2\<rparr>, fo_out f2)"
    unfolding recsrv_step_def rv Let_def prod.case c1_def [symmetric] sel nat_int pk f0_def [symmetric] f1 bind_res.simps f2
    using d(1) by simp
  have bufs: "recbufs_ok (b\<lparr>rb_buffer := ?buf, rb_msg := msg, rb_cmsg := fo_cmsg f2\<rparr>)"
    using bl d ok2(1) by (simp add: recbufs_ok_def msg_def fanout_ok_def)
  show ?thesis unfolding step using ok2 bufs
    by (cases "recsrv_counts c") (auto simp: c1_def r1_def)
qed

section \<open>Encryption of what is sent\<close>

lemma all_of_count:
  assumes "length (filter (\<lambda>x. P x \<and> Q x) xs) = length (filter P xs)"
  shows "\<forall>x\<in>set xs. P x \<longrightarrow> Q x"
proof (rule ccontr)
  assume "\<not> (\<forall>x\<in>set xs. P x \<longrightarrow> Q x)"
  then obtain x where x: "x \<in> set (filter P xs)" "\<not> Q x" by auto
  then have "length (filter Q (filter P xs)) < length (filter P xs)" by (rule length_filter_less)
  then show False using assms by (simp add: conj_commute)
qed

lemma count_le: "length (filter (\<lambda>x. P x \<and> Q x) xs) \<le> length (filter P xs)"
  by (induction xs) auto

lemma all_encrypted:
  assumes "snd (recsrv_counts c) = fst (recsrv_counts c)" and "r \<in> set (routes c)"
  shows "snd r \<noteq> None"
proof -
  let ?eps = "if has_mode (cl_mode c) B_PEER2PEER then enumerate 0 (endpoints c) else []"
  let ?w = "length (filter (peer_wanted c) ?eps)"
    and ?e = "length (filter (\<lambda>e. peer_wanted c e \<and> wants_encryption c (snd e)) ?eps)"
  have "?e + (if needs_server c \<and> server_encrypts c then 1 else 0) = ?w + (if needs_server c then 1 else 0)"
    using assms(1) unfolding recsrv_counts_def Let_def by simp
  moreover have "?e \<le> ?w" by (rule count_le)
  ultimately have "?e = ?w" and s: "needs_server c \<Longrightarrow> server_encrypts c" by (auto split: if_splits)
  from all_of_count [OF this(1)] have "\<forall>e\<in>set ?eps. peer_wanted c e \<longrightarrow> wants_encryption c (snd e)" .
  then show ?thesis using assms(2) s
    by (auto simp: routes_def peer_routes_def peer_route_def server_route_def server_encrypts_def split: if_splits)
qed

text \<open>A packed message of length 0 makes the encryption read outside its buffer.\<close>

lemma recsrv_peers_fault:
  assumes "(i, ep) \<in> set (enumerate n eps)" and "peer_wanted c (i, ep)" and "wants_encryption c ep"
    and "length msg = BUFSIZE"
  shows "recsrv_peers P c msg 0 n eps f = Inl Out_of_bounds"
  using assms(1)
proof (induction eps arbitrary: n f)
  case (Cons e eps)
  show ?case
  proof (cases "(i, ep) = (n, e)")
    case True
    have "encryptmsg (pl_sodium P) d BUFSIZE msg 0 pk = Inl Out_of_bounds" for d pk
      using assms(4) by (intro encryptmsg_short) (simp_all add: buf_bounds crypto_box_SEALBYTES_def)
    then show ?thesis using assms(2,3) True by (simp add: recsrv_peer_def peer_wanted_def)
  next
    case False
    then have "recsrv_peers P c msg 0 (Suc n) eps g = Inl Out_of_bounds" for g
      using Cons.IH [of "Suc n" g] Cons.prems by auto
    then show ?thesis by (cases "recsrv_peer P c msg 0 n e f") (auto intro: fault.exhaust)
  qed
qed simp

section \<open>An example\<close>

definition example_platform :: platform where
  "example_platform =
     \<lparr>pl_kernel = (\<lambda>fd d dst. int (length d)), pl_sodium = plain_sodium, pl_fpu = exact_fpu, pl_fmt2 = (\<lambda>x. []), pl_version = []\<rparr>"

definition example_udp :: udpsocket where
  "example_udp = \<lparr>sockfd = 4, serv_addr = zero_endpoint, isopen = True, tx_bytes = 0, rx_bytes = 0\<rparr>"

text \<open>A client of device \<open>cid\<close> in a session, with receiver port 9876.\<close>

definition example_client :: "stage_device_id_t \<Rightarrow> epmode_t \<Rightarrow> ovboxclient" where
  "example_client cid mode =
     endpoint_list.extend (endpoint_list_ctor zero_key)
       \<lparr>remote_server = example_socket 12345678 cid, local_server = example_udp, remote_timeout = 0,
        xdest = [], proxyclients = [], toport = 4464, recport = 9876, portoffset = 0, callerid = cid, cl_mode = mode,
        localep = zero_endpoint, sendlocal = True, last_tx = 0, last_rx = 0, t_bitrate = 0,
        cl_sorter = synced_sorter 0 0 0,
        coll_p2p = (\<lambda>_. collector_ctor default_window), coll_srv = (\<lambda>_. collector_ctor default_window),
        coll_local = (\<lambda>_. collector_ctor default_window), stats_announce = (\<lambda>_. client_stats_ctor),
        decrypted_msg = msgbuf_ctor zero_endpoint 0, has_cb_ping = True, has_cb_latreport = False,
        send_encrypt_any = False, send_encrypt_all = False, xreceivers = []\<rparr>"

definition with_peer :: "nat \<Rightarrow> ep_desc \<Rightarrow> ovboxclient \<Rightarrow> ovboxclient" where
  "with_peer i d c = c\<lparr>endpoints := (endpoints c)[i := d]\<rparr>"

definition example_peer :: "epmode_t \<Rightarrow> ep_desc" where
  "example_peer mode =
     (ep_desc_ctor zero_key)\<lparr>ed_ep := zero_endpoint\<lparr>s_addr := 0x0200000a\<rparr>, ed_timeout := 120, ed_mode := mode,
       has_pubkey := True, pubkey := replicate 32 1\<rparr>"

lemma example_client_ok [simp]:
  "unat cid < MAX_STAGE_ID \<Longrightarrow> client_ok (example_client cid mode)"
  "client_ok c \<Longrightarrow> client_ok (with_peer i (example_peer m) c)"
proof -
  have t: "table_ok (endpoint_list_ctor zero_key)" by simp
  show "unat cid < MAX_STAGE_ID \<Longrightarrow> client_ok (example_client cid mode)"
    using t by (simp add: client_ok_def example_client_def table_ok_def endpoint_list.extend_def)
  assume "client_ok c"
  then show "client_ok (with_peer i (example_peer m) c)"
    by (auto simp: client_ok_def with_peer_def table_ok_def example_peer_def ep_desc_ctor_def crypto_box_PUBLICKEYBYTES_def
        dest!: set_update_subset_insert [THEN subsetD])
qed

definition example_bufs :: recbufs where
  "example_bufs = \<lparr>rb_buffer = replicate BUFSIZE 0, rb_msg = replicate BUFSIZE 0,
     rb_cmsg = replicate (BUFSIZE + crypto_box_SEALBYTES) 0\<rparr>"

lemma example_bufs_ok [simp]: "recbufs_ok example_bufs"
  by (simp add: recbufs_ok_def example_bufs_def)

lemma example_platform_ok [simp]: "seal_length_ok (pl_sodium example_platform)"
  by (simp add: example_platform_def plain_sodium_ok)

lemma enumerate_replicate_update:
  "i < n \<Longrightarrow> \<not> Q d \<Longrightarrow> Q e \<Longrightarrow> filter (\<lambda>x. R x \<and> Q (snd x)) (enumerate k ((replicate n d)[i := e])) =
     (if R (k + i, e) then [(k + i, e)] else [])"
proof (induction n arbitrary: i k)
  case (Suc n)
  have none: "filter (\<lambda>x. R x \<and> Q (snd x)) (enumerate k (replicate m d)) = []" for k m
    using Suc.prems(2) by (induction m arbitrary: k) simp_all
  show ?case using Suc.IH [of "i - 1" "Suc k"] Suc.prems none by (cases i) simp_all
qed simp

lemma peer_wanted_filter:
  "filter (\<lambda>e. peer_wanted c e \<and> T e) eps =
   filter (\<lambda>e. ((fst e \<noteq> unat (callerid c) \<and> has_mode (ed_mode (snd e)) B_PEER2PEER) \<and> T e) \<and> ed_timeout (snd e) \<noteq> 0) eps"
  by (rule filter_cong) (auto simp: peer_wanted_def)

text \<open>The routes of a client with one active peer in peer-to-peer mode.\<close>

lemma example_table:
  "endpoints (with_peer i (example_peer m) (example_client cid mode)) =
     (replicate MAX_STAGE_ID (ep_desc_ctor zero_key))[i := example_peer m]"
  "callerid (with_peer i (example_peer m) (example_client cid mode)) = cid"
  "cl_mode (with_peer i (example_peer m) (example_client cid mode)) = mode"
  "\<not> ed_timeout (ep_desc_ctor zero_key) \<noteq> 0" "ed_timeout (example_peer m) \<noteq> 0"
  "ed_mode (example_peer m) = m" "has_pubkey (example_peer m)"
  by (simp_all add: with_peer_def example_client_def endpoint_list.extend_def endpoint_list_ctor_def
      example_peer_def ep_desc_ctor_def)

lemma example_filter:
  assumes "i < MAX_STAGE_ID" and "i \<noteq> unat cid" and "has_mode m B_PEER2PEER"
  shows "filter (\<lambda>e. peer_wanted (with_peer i (example_peer m) (example_client cid mode)) e \<and> T e)
      (enumerate 0 (endpoints (with_peer i (example_peer m) (example_client cid mode)))) =
    (if T (i, example_peer m) then [(i, example_peer m)] else [])"
  unfolding peer_wanted_filter example_table(1)
  using assms example_table by (subst enumerate_replicate_update) simp_all

lemma example_no_server:
  assumes "has_mode mode B_PEER2PEER" and "has_mode m B_PEER2PEER"
  shows "\<not> needs_server (with_peer i (example_peer m) (example_client cid mode))"
proof -
  let ?c = "with_peer i (example_peer m) (example_client cid mode)"
  have "\<not> peer_via_server ?c e" if "e \<in> set (enumerate 0 (endpoints ?c))" for e
  proof -
    obtain j x where e: "e = (j, x)" by fastforce
    have "snd e \<in> set (endpoints ?c)" using that unfolding e enumerate_eq_zip by (auto dest: set_zip_rightD)
    then have "snd e = ep_desc_ctor zero_key \<or> snd e = example_peer m"
      unfolding example_table by (auto dest: set_update_subset_insert [THEN subsetD])
    then show ?thesis using example_table assms(2) by (auto simp: peer_via_server_def split: prod.split)
  qed
  then show ?thesis using assms(1) example_table by (auto simp: needs_server_def)
qed

lemma example_routes:
  assumes "i < MAX_STAGE_ID" and "i \<noteq> unat cid" and "has_mode mode B_PEER2PEER" and "has_mode m B_PEER2PEER"
    and "peer_accepts (with_peer i (example_peer m) (example_client cid mode)) (example_peer m)"
  shows "routes (with_peer i (example_peer m) (example_client cid mode)) =
    [peer_route (with_peer i (example_peer m) (example_client cid mode)) (example_peer m)]"
  using assms example_no_server [OF assms(3,4)] by (simp add: routes_def peer_routes_def example_filter example_table(3))

lemma example_counts:
  assumes "i < MAX_STAGE_ID" and "i \<noteq> unat cid" and "has_mode mode B_PEER2PEER" and "has_mode m B_PEER2PEER"
    and "has_mode mode B_ENCRYPTION" and "has_mode m B_ENCRYPTION"
  shows "recsrv_counts (with_peer i (example_peer m) (example_client cid mode)) = (1, 1)"
  using assms example_no_server [OF assms(3,4)] example_filter [OF assms(1,2,4), of mode "\<lambda>_. True"]
    example_filter [OF assms(1,2,4), of mode "\<lambda>e. has_mode (ed_mode (snd e)) B_ENCRYPTION \<and> has_pubkey (snd e)"]
  by (simp add: recsrv_counts_def example_table wants_encryption_def Let_def)

section \<open>Properties\<close>

text \<open>C5. Routing of local data: for every endpoint table and every datagram that fits with its
  header into the buffer, an iteration of \<open>recsrv\<close> returns and sends exactly the
  datagrams of the specification, in its order: one to every active peer-to-peer peer that
  accepts data, at its local address if both are in the same network, and one to the
  server when it is needed; each with the next sequence number of the port, sealed with the
  key of its receiver where both sides encrypt.\<close>

theorem recsrv_routes:
  assumes "seal_length_ok (pl_sodium P)" and "client_ok c" and "recbufs_ok b"
    and "0 < length data" and "HEADERLEN + length data \<le> BUFSIZE"
  shows "\<exists>c' b'. recsrv_step P c b (Some (data, src)) =
      Inr (c', b', map (to_dgram (pl_sodium P) (out_header c) data) (routes c)) \<and> recbufs_ok b' \<and>
    endpoints c' = endpoints c"
  using recsrv_step_ok [OF assms, of src] by blast

theorem recsrv_routes_witness:
  "\<exists>c' b'. recsrv_step example_platform (with_peer 2 (example_peer B_PEER2PEER) (example_client 1 B_PEER2PEER)) example_bufs
      (Some ([5, 6, 7], zero_endpoint)) =
    Inr (c', b', [Dgram (zero_endpoint\<lparr>s_addr := 0x0200000a\<rparr>) (header_bytes 12345678 1 9876 1 @ [5, 6, 7])])"
proof -
  let ?c = "with_peer 2 (example_peer B_PEER2PEER) (example_client 1 B_PEER2PEER)"
  have m: "has_mode B_PEER2PEER B_PEER2PEER" "\<not> has_mode B_PEER2PEER B_SENDDOWNMIX_deprecated"
    "\<not> has_mode B_PEER2PEER B_ENCRYPTION" by (simp_all add: has_mode_def mode_bits)
  have "peer_accepts ?c (example_peer B_PEER2PEER)"
    by (simp add: peer_accepts_def example_peer_def has_mode_def mode_bits with_peer_def example_client_def endpoint_list.extend_def)
  then have "routes ?c = [peer_route ?c (example_peer B_PEER2PEER)]"
    using m by (intro example_routes) (simp_all add: MAX_STAGE_ID_def)
  moreover have "peer_route ?c (example_peer B_PEER2PEER) = (zero_endpoint\<lparr>s_addr := 0x0200000a\<rparr>, None)"
    using m by (simp add: peer_route_def in_same_network_def wants_encryption_def example_peer_def ep_desc_ctor_def
        zero_endpoint_def)
  moreover have "out_header ?c = header_bytes 12345678 1 9876 1"
    by (simp add: out_header_def out_port_def with_peer_def example_client_def endpoint_list.extend_def next_seq_def
        seq_get_def MAXSPECIALPORT_def)
  moreover have "client_ok ?c" by (simp add: MAX_STAGE_ID_def)
  ultimately show ?thesis
    using recsrv_routes [of example_platform ?c example_bufs "[5, 6, 7]" zero_endpoint]
    by (auto simp: buf_bounds to_dgram_def wire_def)
qed

text \<open>A route that is encrypted uses a key of the table.\<close>

lemma route_key:
  assumes "r \<in> set (routes c)" and "snd r = Some pk"
  shows "pk \<in> pubkey ` set (endpoints c) \<union> {srv_pubkey c}"
proof -
  have "snd e \<in> set (endpoints c)" if "e \<in> set (enumerate 0 (endpoints c))" for e
    using that nth_mem [of "fst e" "endpoints c"] by (auto simp: in_set_enumerate_eq)
  then show ?thesis using assms
    by (auto simp: routes_def peer_routes_def peer_route_def server_route_def split: if_splits)
qed

text \<open>C24. The encryption state is truthful: when the state after an iteration of \<open>recsrv\<close> is 2 (everything
  encrypted), no datagram that was sent carries the user data in the clear. For a local datagram that leaves room for
  the header and for the \<open>crypto_box_SEALBYTES\<close> bytes of a sealed box, each one is the clear header and the data
  sealed with the public key of a peer or of the server; for one that leaves room for the header only (8136 to 8183
  bytes), each one is empty: the data is lost although the state is 2.\<close>

theorem encrypt_state_truthful:
  assumes "seal_length_ok (pl_sodium P)" and "client_ok c" and "recbufs_ok b"
    and "0 < length data" and "HEADERLEN + length data \<le> BUFSIZE"
    and "recsrv_step P c b (Some (data, src)) = Inr (c', b', out)" and "get_encrypt_state c' = 2"
  shows "\<forall>d\<in>set out. \<exists>dst pk. pk \<in> pubkey ` set (endpoints c) \<union> {srv_pubkey c} \<and>
    d = Dgram dst (if HEADERLEN + length data + crypto_box_SEALBYTES \<le> BUFSIZE
                   then out_header c @ crypto_box_seal (pl_sodium P) data pk else [])"
proof
  fix d assume d: "d \<in> set out"
  have out: "out = map (to_dgram (pl_sodium P) (out_header c) data) (routes c)"
    and st: "send_encrypt_all c' = (0 < snd (recsrv_counts c) \<and> snd (recsrv_counts c) = fst (recsrv_counts c))"
    using recsrv_step_ok [OF assms(1-5), of src] assms(6) by auto
  have "send_encrypt_all c'" using assms(7) by (auto simp: get_encrypt_state_def split: if_splits)
  then have cnt: "snd (recsrv_counts c) = fst (recsrv_counts c)" using st by simp
  obtain r where r: "r \<in> set (routes c)" "d = to_dgram (pl_sodium P) (out_header c) data r" using d out by auto
  obtain pk where pk: "snd r = Some pk" using all_encrypted [OF cnt r(1)] by auto
  then have "d = Dgram (fst r) (if HEADERLEN + length data + crypto_box_SEALBYTES \<le> BUFSIZE
      then out_header c @ crypto_box_seal (pl_sodium P) data pk else [])"
    using r(2) by (simp add: to_dgram_def wire_def case_prod_beta)
  then show "\<exists>dst pk. pk \<in> pubkey ` set (endpoints c) \<union> {srv_pubkey c} \<and>
      d = Dgram dst (if HEADERLEN + length data + crypto_box_SEALBYTES \<le> BUFSIZE
                     then out_header c @ crypto_box_seal (pl_sodium P) data pk else [])"
    using route_key [OF r(1) pk] by blast
qed

lemma example_secure_peer:
  "has_mode (B_PEER2PEER OR B_ENCRYPTION) B_PEER2PEER" "has_mode (B_PEER2PEER OR B_ENCRYPTION) B_ENCRYPTION"
  "unat (1 :: stage_device_id_t) < MAX_STAGE_ID" "(2 :: nat) < MAX_STAGE_ID"
  by (simp_all add: has_mode_def mode_bits MAX_STAGE_ID_def)

theorem encrypt_state_truthful_witness:
  "\<exists>c' b' out. recsrv_step example_platform
      (with_peer 2 (example_peer (B_PEER2PEER OR B_ENCRYPTION)) (example_client 1 (B_PEER2PEER OR B_ENCRYPTION)))
      example_bufs (Some ([5, 6, 7], zero_endpoint)) = Inr (c', b', out) \<and> get_encrypt_state c' = 2 \<and>
    (\<forall>d\<in>set out. \<exists>dst hdr. d = Dgram dst (hdr @ replicate 48 0 @ [5, 6, 7]))"
proof -
  let ?m = "B_PEER2PEER OR B_ENCRYPTION"
  let ?c = "with_peer 2 (example_peer ?m) (example_client 1 ?m)"
  have ok: "client_ok ?c" using example_secure_peer by simp
  have cnt: "recsrv_counts ?c = (1, 1)" using example_secure_peer by (intro example_counts) simp_all
  obtain c' b' out where step: "recsrv_step example_platform ?c example_bufs (Some ([5, 6, 7], zero_endpoint)) = Inr (c', b', out)"
    and st: "get_encrypt_state c' = 2"
    using recsrv_step_ok [OF example_platform_ok ok example_bufs_ok, of "[5, 6, 7]" zero_endpoint] cnt
    by (auto simp: buf_bounds get_encrypt_state_def)
  have "\<forall>d\<in>set out. \<exists>dst pk. d = Dgram dst (out_header ?c @ crypto_box_seal (pl_sodium example_platform) [5, 6, 7] pk)"
    using encrypt_state_truthful [OF example_platform_ok ok example_bufs_ok _ _ step st]
    by (simp add: buf_bounds crypto_box_SEALBYTES_def) blast
  then show ?thesis using step st by (fastforce simp: example_platform_def plain_sodium_def)
qed

lemma example_peer_listed:
  "i < MAX_STAGE_ID \<Longrightarrow> (i, example_peer m) \<in> set (enumerate 0 (endpoints (with_peer i (example_peer m) (example_client cid mode))))"
  by (simp add: in_set_enumerate_eq with_peer_def example_client_def endpoint_list.extend_def endpoint_list_ctor_def)

text \<open>C25. Oversized local data: a local datagram that leaves no room for the header makes packing
  fail; when some active peer-to-peer peer is to receive it encrypted, the encryption then
  computes a negative length and reads outside its buffer.\<close>

theorem oversized_datagram_fault:
  assumes "client_ok c" and "recbufs_ok b" and "has_mode (cl_mode c) B_PEER2PEER"
    and "(i, ep) \<in> set (enumerate 0 (endpoints c))" and "peer_wanted c (i, ep)" and "wants_encryption c ep"
    and "length data \<le> BUFSIZE" and "BUFSIZE < HEADERLEN + length data"
  shows "recsrv_step P c b (Some (data, src)) = Inl Out_of_bounds"
proof -
  have bl: "length (rb_buffer b) = BUFSIZE" "length (rb_msg b) = BUFSIZE" using assms(2) by (simp_all add: recbufs_ok_def)
  obtain l1 where rv: "recvfrom (local_server c) (rb_buffer b) BUFSIZE (Some (data, src)) =
      (int (length data), l1, data @ drop (length data) (rb_buffer b), src)"
    using recvfrom_Some [OF assms(7), of "rb_buffer b" "local_server c" src] bl by auto
  define c1 where "c1 = c\<lparr>local_server := l1\<rparr>"
  have w: "peer_wanted c1 (i, ep)" "wants_encryption c1 ep" "(i, ep) \<in> set (enumerate 0 (endpoints c1))"
    "has_mode (cl_mode c1) B_PEER2PEER" using assms by (simp_all add: c1_def)
  have "data \<noteq> []" using assms(8) by (auto simp: buf_bounds)
  moreover have "ov_packmsg (remote_server c) (rb_msg b) BUFSIZE p (data @ r) (length data) =
      (rb_msg b, 0, bump_seq p (remote_server c))" for p r
    using assms(8) by (simp add: ov_packmsg_eq packmsg_fail)
  ultimately show ?thesis
    using assms(3) recsrv_peers_fault [OF assms(4) w(1,2) bl(2)]
    by (simp add: recsrv_step_def rv flip: c1_def)
qed

theorem oversized_datagram_fault_witness:
  "recsrv_step example_platform
     (with_peer 2 (example_peer (B_PEER2PEER OR B_ENCRYPTION)) (example_client 1 (B_PEER2PEER OR B_ENCRYPTION)))
     example_bufs (Some (replicate 8184 0, zero_endpoint)) = Inl Out_of_bounds"
proof -
  let ?m = "B_PEER2PEER OR B_ENCRYPTION"
  let ?c = "with_peer 2 (example_peer ?m) (example_client 1 ?m)"
  have f: "callerid ?c = 1" "cl_mode ?c = ?m"
    by (simp_all add: with_peer_def example_client_def endpoint_list.extend_def)
  have "peer_wanted ?c (2, example_peer ?m)" "wants_encryption ?c (example_peer ?m)"
    using f example_secure_peer by (simp_all add: peer_wanted_def wants_encryption_def example_peer_def)
  moreover have "client_ok ?c" using example_secure_peer by simp
  ultimately show ?thesis
    using example_peer_listed [of 2 ?m 1 ?m] f example_secure_peer
    by (intro oversized_datagram_fault) (simp_all add: buf_bounds)
qed

end
