(* ===== verification/Client_Receive.thy ===== *)
theory Client_Receive
  imports Client_Routing
begin

text \<open>
  What a client does with messages from the server and the peers: the thread \<open>sendsrv\<close>
  never faults and keeps the client well formed, whatever arrives; data messages are
  forwarded to the local receivers and the proxy clients; pings are answered and measured;
  and data sent by one client's \<open>recsrv\<close> comes out of another client's \<open>sendsrv\<close>.
\<close>

section \<open>Invariants of the loop\<close>

definition bufs_ok :: "sorter \<Rightarrow> msgbuf \<Rightarrow> bool" where
  "bufs_ok so ext \<longleftrightarrow> msgbuf_ok (buf1 so) \<and> msgbuf_ok (buf2 so) \<and> msgbuf_ok ext"

lemma msgbuf_ok_flag [simp]: "msgbuf_ok b \<Longrightarrow> msgbuf_ok (b\<lparr>mb_valid := False\<rparr>)"
  by (rule msgbuf_ok_invalidate)

lemma msgbuf_ok_copied [simp]: "msgbuf_ok d \<Longrightarrow> msgbuf_ok s \<Longrightarrow> msgbuf_ok (msgbuf_copy d s)"
  by (rule msgbuf_ok_copy)

lemma sorter_process_bufs:
  assumes "bufs_ok so ext" and "r = Ext \<or> \<not> mb_valid (deref so ext r)"
    and "sorter_process so ext r = (b, so', ext', r')"
  shows "bufs_ok so' ext' \<and> (b \<longrightarrow> mb_msg (deref so' ext' r') = HEADERLEN)"
proof (cases "mb_valid (deref so ext r)")
  case False
  have "mb_valid (buf1 so) \<longrightarrow> mb_msg (buf1 so) = HEADERLEN" "mb_valid (buf2 so) \<longrightarrow> mb_msg (buf2 so) = HEADERLEN"
    using assms(1) by (simp_all add: bufs_ok_def msgbuf_ok_def)
  then show ?thesis using assms False
    by (auto simp: sorter_process_again bufs_ok_def split: if_splits)
next
  case True
  then have r: "r = Ext" and v: "mb_valid ext" using assms(2) by auto
  have h: "mb_msg ext = HEADERLEN" using assms(1) v by (simp add: bufs_ok_def msgbuf_ok_def)
  show ?thesis
  proof (cases "mb_destport ext \<le> MAXSPECIALPORT")
    case True
    then show ?thesis using assms v h by (auto simp: r sorter_process_special bufs_ok_def)
  next
    case False
    then have p: "MAXSPECIALPORT < mb_destport ext" by simp
    have "verdict so ext = Swap \<Longrightarrow> mb_msg (buf1 so) = HEADERLEN"
      using verdict_Swap_valid assms(1) by (auto simp: bufs_ok_def msgbuf_ok_def)
    then show ?thesis using assms(1,3) h
      by (cases "verdict so ext")
        (auto simp: r sorter_process_data [OF v p] bufs_ok_def held_def clear_msg_def)
  qed
qed

text \<open>
  The loop, with a consumer that succeeds on every message with its data behind the header
  and keeps an invariant: the loop succeeds and keeps the invariant.
\<close>

lemma drain_invariant:
  assumes f: "\<And>c m. I c \<Longrightarrow> msgbuf_ok m \<Longrightarrow> mb_msg m = HEADERLEN \<Longrightarrow> \<exists>c' m'. f c m = Inr (c', m') \<and> I c' \<and> msgbuf_ok m'"
    and "I c" and "bufs_ok so ext" and "r = Ext \<or> \<not> mb_valid (deref so ext r)"
  shows "\<exists>c' so' ext'. drain f c so ext r = Inr (c', so', ext') \<and> I c' \<and> bufs_ok so' ext'"
  using assms(2-)
proof (induction "pending_work so ext r" arbitrary: c so ext r rule: less_induct)
  case less
  obtain b so1 ext1 r1 where p: "sorter_process so ext r = (b, so1, ext1, r1)" by (metis surj_pair)
  have ok1: "bufs_ok so1 ext1" and h: "b \<longrightarrow> mb_msg (deref so1 ext1 r1) = HEADERLEN"
    using sorter_process_bufs [OF less.prems(2,3) p] by auto
  show ?case
  proof (cases b)
    case False
    then show ?thesis using p less.prems(1) ok1 by (subst drain.simps) simp
  next
    case True
    let ?m = "(deref so1 ext1 r1)\<lparr>mb_valid := False\<rparr>"
    have "msgbuf_ok ?m" using ok1 by (cases r1) (simp_all add: bufs_ok_def)
    from f [OF less.prems(1) this] h True obtain c' m' where m: "f c ?m = Inr (c', m')" "I c'" "msgbuf_ok m'" by auto
    obtain so2 ext2 where a: "assign_ref r1 (m'\<lparr>mb_valid := False\<rparr>) so1 ext1 = (so2, ext2)" by fastforce
    have ok2: "bufs_ok so2 ext2" using a ok1 m(3) by (cases r1) (auto simp: bufs_ok_def)
    have v2: "\<not> mb_valid (deref so2 ext2 r1)" using a by (cases r1) auto
    have "pending_work so2 ext2 r1 < pending_work so ext r"
      using pending_work_assign [OF a] sorter_process_decreases [of so ext r so1 ext1 r1] p True by simp
    from less.hyps [OF this m(2) ok2] v2 obtain c'' so3 ext3
      where "drain f c' so2 ext2 r1 = Inr (c'', so3, ext3)" "I c''" "bufs_ok so3 ext3" by blast
    then show ?thesis using p True m a by (subst drain.simps) simp
  qed
qed

section \<open>Well-formed clients\<close>

definition client_inv :: "ovboxclient \<Rightarrow> bool" where
  "client_inv c \<longleftrightarrow> table_ok c \<and> unat (callerid c) < MAX_STAGE_ID \<and> socket_ok (remote_server c) \<and>
     msgbuf_ok (decrypted_msg c) \<and> omap_wf (proxyclients c) \<and>
     (\<forall>i. collector_ok (coll_p2p c i) \<and> collector_ok (coll_srv c i) \<and> collector_ok (coll_local c i))"

definition client_ready :: "ovboxclient \<Rightarrow> msgbuf \<Rightarrow> bool" where
  "client_ready c msg \<longleftrightarrow> client_inv c \<and> sorter_ok (cl_sorter c) \<and> bufs_ok (cl_sorter c) msg"

lemma process_ping_ok:
  assumes "client_inv c" and "msgbuf_ok m"
  shows "\<exists>c' m' out. process_ping_msg P c m = (c', m', out) \<and> client_inv c' \<and> msgbuf_ok m'"
proof -
  have l: "length (rawbuffer m) = BUFSIZE" "mb_msg m \<le> HEADERLEN" using assms(2) by (simp_all add: msgbuf_ok_def)
  obtain c' m' out where p: "process_ping_msg P c m = (c', m', out)" by (metis surj_pair)
  have "length (rawbuffer m') = BUFSIZE"
    using p l by (auto simp: process_ping_msg_def set_msg_callerid_def set_msg_port_def header_layout BUFSIZE_def Let_def
        split: prod.splits option.splits special_port.splits)
  moreover have "m' = m\<lparr>rawbuffer := rawbuffer m'\<rparr>"
    using p by (auto simp: process_ping_msg_def Let_def split: prod.splits)
  ultimately have "msgbuf_ok m'" using msgbuf_ok_raw [OF assms(2)] by metis
  moreover have "client_inv c'"
    using p assms(1) send_ep_frame(2) [of "pl_kernel P" "remote_server c"]
    by (auto simp: process_ping_msg_def client_inv_def socket_ok_def table_ok_def Let_def split: prod.splits)
  ultimately show ?thesis using p by blast
qed

lemma client_inv_colls:
  assumes "client_inv c"
  shows "client_inv (c\<lparr>coll_p2p := (coll_p2p c)(i := add_value F t (coll_p2p c i))\<rparr>)"
    "client_inv (c\<lparr>coll_srv := (coll_srv c)(i := add_value F t (coll_srv c i))\<rparr>)"
    "client_inv (c\<lparr>coll_local := (coll_local c)(i := add_value F t (coll_local c i))\<rparr>)"
  using assms by (simp_all add: client_inv_def table_ok_def)

lemma get_pingtime_ok:
  "sizeof_double \<le> length mem \<Longrightarrow> \<exists>t r k. get_pingtime F now s mem n = Inr (t, r, k)"
  by (simp add: get_pingtime_def Let_def)

lemma process_pong_ok:
  assumes "client_inv c" and "msgbuf_ok m"
  shows "\<exists>c' out. process_pong_msg P e c m = Inr (c', out) \<and> client_inv c'"
proof -
  let ?srv = "special_of_port (mb_destport m) = Some PORT_PONG_SRV"
  let ?mem = "if ?srv then drop (mb_msg m + 1) (rawbuffer m) else msg_mem m"
    and ?n = "if ?srv then size_sub (mb_size m) 1 else mb_size m"
  have "length (rawbuffer m) = BUFSIZE" "mb_msg m \<le> HEADERLEN" using assms(2) by (simp_all add: msgbuf_ok_def)
  then have "sizeof_double \<le> length ?mem" by (auto simp: sizeof_double_def buf_bounds msg_mem_def)
  from get_pingtime_ok [OF this] obtain t r k
    where g: "get_pingtime (pl_fpu P) (env_now e) (remote_server c) ?mem ?n = Inr (t, r, k)" by blast
  show ?thesis
  proof (cases "t > 0")
    case True
    then show ?thesis unfolding process_pong_msg_def Let_def g bind_res.simps prod.case
      using assms(1) client_inv_colls [OF assms(1)] by (auto split: option.split special_port.split)
  next
    case False
    then show ?thesis unfolding process_pong_msg_def Let_def g bind_res.simps prod.case
      using assms(1) by simp
  qed
qed

lemma send_ep_seqmap [simp]: "seqmap (fst (snd (send_ep K r buf len ep))) = seqmap r"
  by (simp add: send_ep_def udp_count_tx_def Let_def)

lemma send_to_proxies_frame [simp]:
  "map fst (fst (snd (send_to_proxies P cid p buf len ps s))) = map fst ps"
  "seqmap (fst (send_to_proxies P cid p buf len ps s)) = seqmap s"
  by (induction ps arbitrary: s) (auto simp: case_prod_beta Let_def)

lemma process_data_ok:
  assumes S: "seal_length_ok (pl_sodium P)" and c: "client_inv c" and m: "msgbuf_ok m" "mb_msg m = HEADERLEN"
  shows "\<exists>c' out. process_data_msg P c m = Inr (c', out) \<and> client_inv c'"
proof -
  have t: "\<not> (unat (mb_cid m) < MAX_STAGE_ID \<and> length (endpoints c) \<le> unat (mb_cid m))"
    using c by (simp add: client_inv_def table_ok_def)
  define opened where "opened = (if unat (mb_cid m) < MAX_STAGE_ID \<and>
      has_mode (ed_mode (endpoints c ! unat (mb_cid m))) B_ENCRYPTION \<and> has_mode (cl_mode c) B_ENCRYPTION
    then crypto_box_seal_open (pl_sodium P) (payload m) (recipient_public (remote_server c)) (recipient_secret (remote_server c))
    else None)"
  define d where "d x = (decrypted_msg c)\<lparr>rawbuffer := blit (mb_msg (decrypted_msg c)) x (rawbuffer (decrypted_msg c))\<rparr>" for x
  obtain c1 buf n where o: "(case opened of None \<Rightarrow> (c, msg_mem m, mb_size m)
       | Some x \<Rightarrow> (c\<lparr>decrypted_msg := d x\<rparr>, msg_mem (d x), size_sub (mb_size m) crypto_box_SEALBYTES)) = (c1, buf, n)"
    by (rule prod_cases3)
  have pl: "length (payload m) = mb_size m" "mb_size m + HEADERLEN \<le> BUFSIZE"
    using m by (auto simp: msgbuf_ok_def payload_def msg_mem_def min_def)
  have dec: "msgbuf_ok (decrypted_msg c)" using c by (simp add: client_inv_def)
  have "msgbuf_ok (d x)" if "opened = Some x" for x
  proof -
    have "length (payload m) = length x + crypto_box_SEALBYTES"
      using that S by (auto simp: opened_def seal_length_ok_def split: if_splits)
    then have "length x + HEADERLEN \<le> BUFSIZE" using pl by simp
    then have "length (blit (mb_msg (decrypted_msg c)) x (rawbuffer (decrypted_msg c))) = BUFSIZE"
      using dec by (subst length_blit) (simp_all add: msgbuf_ok_def)
    then show ?thesis unfolding d_def by (rule msgbuf_ok_raw [OF dec])
  qed
  then have c1: "client_inv c1"
    using o c by (cases opened) (auto simp: client_inv_def table_ok_def)
  have c1': "proxyclients c1 = proxyclients c" "remote_server c1 = remote_server c" "local_server c1 = local_server c"
    using o by (cases opened; auto)+
  obtain l1 out1 where l: "send_locally P (recport c) (portoffset c # xdest c) (mb_destport m) buf n (local_server c) = (l1, out1)"
    by fastforce
  obtain r1 ps1 out2 where r: "(if \<not> is_same_network (mb_sender m) (localep c)
      then send_to_proxies P (mb_cid m) (mb_destport m) buf n (proxyclients c) (remote_server c)
      else (remote_server c, proxyclients c, [])) = (r1, ps1, out2)" by (rule prod_cases3)
  have "map fst ps1 = map fst (proxyclients c) \<and> seqmap r1 = seqmap (remote_server c)"
  proof (cases "is_same_network (mb_sender m) (localep c)")
    case False
    then have "send_to_proxies P (mb_cid m) (mb_destport m) buf n (proxyclients c) (remote_server c) = (r1, ps1, out2)"
      using r by simp
    then show ?thesis by (metis fst_conv snd_conv send_to_proxies_frame)
  qed (use r in simp)
  then have "client_inv (c1\<lparr>local_server := l1, remote_server := r1, proxyclients := ps1\<rparr>)"
    using c1 c1' by (simp add: client_inv_def omap_wf_def socket_ok_def table_ok_def)
  moreover have "process_data_msg P c m = Inr (c1\<lparr>local_server := l1, remote_server := r1, proxyclients := ps1\<rparr>,
      map To_local out1 @ map To_remote out2)"
    unfolding process_data_msg_def Let_def opened_def [symmetric] d_def [symmetric] o prod.case l r
    using t by auto
  ultimately show ?thesis by blast
qed

text \<open>The table updates, on messages of the size that \<open>process_msg\<close> checks.\<close>

lemma client_inv_table:
  assumes "client_inv c" and "table_ok c'" and "endpoint_list.more c' = endpoint_list.more c"
  shows "client_inv c'"
proof -
  have "remote_server c' = remote_server c" "callerid c' = callerid c" "decrypted_msg c' = decrypted_msg c"
    "proxyclients c' = proxyclients c" "coll_p2p c' = coll_p2p c" "coll_srv c' = coll_srv c" "coll_local c' = coll_local c"
    using assms(3) by (cases c; cases c'; simp)+
  then show ?thesis using assms by (simp add: client_inv_def)
qed

lemma table_updates_more:
  "cid_register lock cid mem mode rver c = Inr c' \<Longrightarrow> endpoint_list.more c' = endpoint_list.more c"
  "cid_setlocalip cid mem c = Inr c' \<Longrightarrow> endpoint_list.more c' = endpoint_list.more c"
  "cid_set_pubkey cid mem len c = Inr c' \<Longrightarrow> endpoint_list.more c' = endpoint_list.more c"
  by (auto simp: cid_register_def cid_setlocalip_def cid_set_pubkey_def upd_ep_def Let_def split: if_splits)

lemma table_updates_return:
  "sizeof_endpoint \<le> length mem \<Longrightarrow> \<exists>c'. cid_register lock cid mem mode rver c = Inr c'"
  "sizeof_endpoint \<le> length mem \<Longrightarrow> \<exists>c'. cid_setlocalip cid mem c = Inr c'"
  "len \<le> length mem \<Longrightarrow> \<exists>c'. cid_set_pubkey cid mem len c = Inr c'"
  by (simp_all add: cid_register_def cid_setlocalip_def cid_set_pubkey_def Let_def)

lemma process_msg_ok:
  assumes S: "seal_length_ok (pl_sodium P)" and c: "client_inv c" and m: "msgbuf_ok m0" "mb_msg m0 = HEADERLEN"
  shows "\<exists>c' m' out. process_msg P e c m0 = Inr (c', m', out) \<and> client_inv c' \<and> msgbuf_ok m'"
proof -
  define m1 where "m1 = m0\<lparr>mb_valid := False\<rparr>"
  have m1: "msgbuf_ok m1" "mb_msg m1 = HEADERLEN" using m by (simp_all add: m1_def)
  have mem: "mb_size m1 \<le> length (msg_mem m1)" using m1 by (auto simp: msgbuf_ok_def msg_mem_def)
  have table_ok: "table_ok c" using c by (simp add: client_inv_def)
  show ?thesis
  proof (cases "mb_cid m1 = callerid c \<and> mb_destport m1 \<noteq> port_code PORT_LISTCID \<and> mb_destport m1 \<noteq> port_code PORT_PUBKEY")
    case True
    then show ?thesis using m1 c by (simp add: process_msg_def Let_def m1_def)
  next
    case loop: False
    show ?thesis
    proof (cases "mb_destport m1 > MAXSPECIALPORT")
      case True
      obtain c' out where "process_data_msg P c m1 = Inr (c', out)" "client_inv c'"
        using process_data_ok [OF S c m1] by blast
      then show ?thesis using True loop m1 by (auto simp: process_msg_def Let_def m1_def)
    next
      case special: False
      have unfolded: "process_msg P e c m0 = (case special_of_port (mb_destport m1) of
          Some p \<Rightarrow>
            if p \<in> {PORT_PING, PORT_PING_SRV, PORT_PING_LOCAL} then Inr (process_ping_msg P c m1)
            else if p \<in> {PORT_PONG, PORT_PONG_SRV, PORT_PONG_LOCAL}
            then bind_res (process_pong_msg P e c m1) (\<lambda>(c1, out). Inr (c1, m1, out))
            else if p = PORT_SETLOCALIP \<and> mb_size m1 = sizeof_endpoint
            then bind_res (cid_setlocalip (mb_cid m1) (msg_mem m1) c) (\<lambda>c1. Inr (c1, m1, []))
            else if p = PORT_LISTCID \<and> mb_size m1 = sizeof_endpoint \<and>
              0 \<le> int_of_seq (mb_seq m1) \<and> int_of_seq (mb_seq m1) < 256
            then bind_res (cid_register (env_lock e) (mb_cid m1) (msg_mem m1) (ucast (mb_seq m1)) [] c)
                   (\<lambda>c1. Inr (c1, m1, []))
            else if p = PORT_PUBKEY
            then bind_res (cid_set_pubkey (mb_cid m1) (msg_mem m1) (mb_size m1) c) (\<lambda>c1. Inr (c1, m1, []))
            else Inr (c, m1, [])
        | None \<Rightarrow> Inr (c, m1, []))"
        unfolding process_msg_def Let_def m1_def [symmetric] if_not_P [OF loop] if_not_P [OF special] ..
      obtain c1 m' out1 where ping: "process_ping_msg P c m1 = (c1, m', out1)" "client_inv c1" "msgbuf_ok m'"
        using process_ping_ok [OF c m1(1)] by blast
      obtain c2 out2 where pong: "process_pong_msg P e c m1 = Inr (c2, out2)" "client_inv c2"
        using process_pong_ok [OF c m1(1)] by blast
      obtain c3 where key: "cid_set_pubkey (mb_cid m1) (msg_mem m1) (mb_size m1) c = Inr c3"
        using table_updates_return(3) [OF mem] by blast
      have key3: "client_inv c3"
        using client_inv_table [OF c table_ok_set_pubkey [OF table_ok key] table_updates_more(3) [OF key]] .
      have reg: "\<exists>c4. cid_register (env_lock e) (mb_cid m1) (msg_mem m1) (ucast (mb_seq m1)) [] c = Inr c4 \<and> client_inv c4"
        and loc: "\<exists>c5. cid_setlocalip (mb_cid m1) (msg_mem m1) c = Inr c5 \<and> client_inv c5"
        if "mb_size m1 = sizeof_endpoint"
      proof -
        have s: "sizeof_endpoint \<le> length (msg_mem m1)" using mem that by simp
        obtain c4 where 4: "cid_register (env_lock e) (mb_cid m1) (msg_mem m1) (ucast (mb_seq m1)) [] c = Inr c4"
          using table_updates_return(1) [OF s] by blast
        then show "\<exists>c4. cid_register (env_lock e) (mb_cid m1) (msg_mem m1) (ucast (mb_seq m1)) [] c = Inr c4 \<and> client_inv c4"
          using client_inv_table [OF c table_ok_register [OF table_ok 4] table_updates_more(1) [OF 4]] by blast
        obtain c5 where 5: "cid_setlocalip (mb_cid m1) (msg_mem m1) c = Inr c5"
          using table_updates_return(2) [OF s] by blast
        then show "\<exists>c5. cid_setlocalip (mb_cid m1) (msg_mem m1) c = Inr c5 \<and> client_inv c5"
          using client_inv_table [OF c table_ok_setlocalip [OF table_ok 5] table_updates_more(2) [OF 5]] by blast
      qed
      show ?thesis unfolding unfolded
        using c m1 ping pong key key3 reg loc
        by (auto split: option.split)
    qed
  qed
qed

section \<open>What is forwarded\<close>

text \<open>
  The datagrams for the local receivers and the proxy clients, computed from the lists of
  offsets and clients; and the user data of a message, opened if both sides encrypt.
\<close>

definition local_dgrams :: "endpoint \<Rightarrow> port_t \<Rightarrow> port_t list \<Rightarrow> port_t \<Rightarrow> byte list \<Rightarrow> dgram list" where
  "local_dgrams addr rp offs p data =
     map (\<lambda>off. Dgram (addr\<lparr>sin_port := htons (p + off)\<rparr>) data)
       (filter (\<lambda>off. unat p + unat off \<noteq> unat rp \<and> p + off \<noteq> 0) offs)"

definition proxy_dgrams :: "stage_device_id_t \<Rightarrow> port_t \<Rightarrow> (stage_device_id_t, endpoint) omap \<Rightarrow> byte list \<Rightarrow> dgram list" where
  "proxy_dgrams cid p ps data =
     map (\<lambda>(pc, ep). Dgram (ep\<lparr>sin_port := htons p\<rparr>) data) (filter (\<lambda>(pc, ep). pc \<noteq> cid) ps)"

definition try_open :: "ovboxclient \<Rightarrow> stage_device_id_t \<Rightarrow> bool" where
  "try_open c cid \<longleftrightarrow> unat cid < MAX_STAGE_ID \<and>
     has_mode (ed_mode (endpoints c ! unat cid)) B_ENCRYPTION \<and> has_mode (cl_mode c) B_ENCRYPTION"

definition opened :: "platform \<Rightarrow> ovboxclient \<Rightarrow> msgbuf \<Rightarrow> byte list option" where
  "opened P c m =
     (if try_open c (mb_cid m)
      then crypto_box_seal_open (pl_sodium P) (payload m) (recipient_public (remote_server c)) (recipient_secret (remote_server c))
      else None)"

definition received_data :: "platform \<Rightarrow> ovboxclient \<Rightarrow> msgbuf \<Rightarrow> byte list" where
  "received_data P c m = (case opened P c m of None \<Rightarrow> payload m | Some x \<Rightarrow> x)"

definition forwarded :: "platform \<Rightarrow> ovboxclient \<Rightarrow> msgbuf \<Rightarrow> client_output list" where
  "forwarded P c m =
     map To_local (local_dgrams (serv_addr (local_server c)) (recport c) (portoffset c # xdest c) (mb_destport m)
       (received_data P c m)) @
     (if is_same_network (mb_sender m) (localep c) then []
      else map To_remote (proxy_dgrams (mb_cid m) (mb_destport m) (proxyclients c) (received_data P c m)))"

lemma send_port_addr [simp]:
  "(serv_addr (fst (snd (send_port K s buf len p))))\<lparr>sin_port := q\<rparr> = (serv_addr s)\<lparr>sin_port := q\<rparr>"
  by (simp add: send_port_def Let_def)

lemma local_dgrams_addr: "local_dgrams (addr\<lparr>sin_port := q\<rparr>) rp offs p data = local_dgrams addr rp offs p data"
  by (simp add: local_dgrams_def)

lemma send_locally_spec:
  "snd (send_locally P rp offs p buf len s) = local_dgrams (serv_addr s) rp offs p (take len buf)"
proof (induction offs arbitrary: s)
  case (Cons off offs)
  have "local_dgrams (serv_addr (fst (snd (send_port K s buf len q)))) rp offs p d = local_dgrams (serv_addr s) rp offs p d" for K q d
    by (metis local_dgrams_addr send_port_addr)
  with Cons.IH show ?case
    by (auto simp: case_prod_beta) (auto simp: local_dgrams_def)
qed (simp add: local_dgrams_def)

lemma send_to_proxies_spec:
  "snd (snd (send_to_proxies P cid p buf len ps s)) = proxy_dgrams cid p ps (take len buf)"
  by (induction ps arbitrary: s) (auto simp: case_prod_beta Let_def proxy_dgrams_def)

lemma process_data_forwards:
  assumes S: "seal_length_ok (pl_sodium P)" and c: "client_inv c" and m: "msgbuf_ok m" "mb_msg m = HEADERLEN"
    and r: "process_data_msg P c m = Inr (c', out)"
  shows "out = forwarded P c m"
proof -
  have t: "\<not> (unat (mb_cid m) < MAX_STAGE_ID \<and> length (endpoints c) \<le> unat (mb_cid m))"
    using c by (simp add: client_inv_def table_ok_def)
  have o: "opened P c m = (if unat (mb_cid m) < MAX_STAGE_ID \<and>
      has_mode (ed_mode (endpoints c ! unat (mb_cid m))) B_ENCRYPTION \<and> has_mode (cl_mode c) B_ENCRYPTION
    then crypto_box_seal_open (pl_sodium P) (payload m) (recipient_public (remote_server c)) (recipient_secret (remote_server c))
    else None)"
    by (simp add: opened_def try_open_def)
  have pl: "length (payload m) = mb_size m" "mb_size m + HEADERLEN \<le> BUFSIZE"
    using m by (auto simp: msgbuf_ok_def payload_def msg_mem_def min_def)
  have dec: "length (rawbuffer (decrypted_msg c)) = BUFSIZE" "mb_msg (decrypted_msg c) \<le> HEADERLEN"
    using c by (simp_all add: client_inv_def msgbuf_ok_def)
  have len: "size_sub (mb_size m) crypto_box_SEALBYTES = length x" "mb_msg (decrypted_msg c) \<le> length (rawbuffer (decrypted_msg c))"
    if "opened P c m = Some x" for x
  proof -
    have "length (payload m) = length x + crypto_box_SEALBYTES"
      using that S by (auto simp: o seal_length_ok_def split: if_splits)
    moreover have "mb_size m < 2 ^ 64" using pl(2) by (simp add: buf_bounds)
    ultimately show "size_sub (mb_size m) crypto_box_SEALBYTES = length x" using pl by (simp add: crypto_box_SEALBYTES_def)
    show "mb_msg (decrypted_msg c) \<le> length (rawbuffer (decrypted_msg c))" using dec by (simp add: buf_bounds)
  qed
  show ?thesis
  proof (cases "opened P c m")
    case None
    then show ?thesis using r t
      unfolding process_data_msg_def Let_def o [symmetric]
      by (auto simp: case_prod_beta send_locally_spec send_to_proxies_spec forwarded_def received_data_def payload_def
          simp del: send_locally.simps)
  next
    case (Some x)
    then show ?thesis using r t len [OF Some]
      unfolding process_data_msg_def Let_def o [symmetric]
      by (auto simp: case_prod_beta send_locally_spec send_to_proxies_spec forwarded_def received_data_def msg_mem_def drop_blit
          simp del: send_locally.simps)
  qed
qed

section \<open>One iteration of the thread\<close>

lemma client_inv_rx: "client_inv c \<Longrightarrow> client_inv (c\<lparr>remote_server := count_rx n (remote_server c)\<rparr>)"
  by (simp add: client_inv_def table_ok_def socket_ok_def)

lemma consume_msg_ok:
  assumes S: "seal_length_ok (pl_sodium P)" and "client_inv (fst co)" and "msgbuf_ok m" and "mb_msg m = HEADERLEN"
  shows "\<exists>co' m'. consume_msg P e co m = Inr (co', m') \<and> client_inv (fst co') \<and> msgbuf_ok m'"
  using process_msg_ok [OF S assms(2-4), of e] by (auto simp: consume_msg_def case_prod_beta)

lemma sendsrv_step_ok:
  assumes S: "seal_length_ok (pl_sodium P)" and c: "client_ready c msg"
  shows "\<exists>c' msg' out. sendsrv_step P e c msg inp = Inr (c', msg', out) \<and> client_ready c' msg'"
proof -
  have inv: "client_inv c" and so: "sorter_ok (cl_sorter c)" and b: "bufs_ok (cl_sorter c) msg"
    using c by (simp_all add: client_ready_def)
  obtain ok r1 msg1 where r: "recv_sec_msg (remote_server c) msg inp = (ok, r1, msg1)" by (rule prod_cases3)
  have m1: "msgbuf_ok msg1" using recv_sec_msg_ok_inv [OF _ r] b by (simp add: bufs_ok_def)
  obtain n where r1: "r1 = count_rx n (remote_server c)" using recv_sec_msg_frame [OF r] by blast
  define c1 where "c1 = c\<lparr>remote_server := r1\<rparr>"
  have inv1: "client_inv c1" using client_inv_rx [OF inv] by (simp add: c1_def r1)
  have b1: "bufs_ok (cl_sorter c) msg1" using b m1 by (simp add: bufs_ok_def)
  show ?thesis
  proof (cases ok)
    case False
    then show ?thesis using r inv1 so b1 by (simp add: sendsrv_step_def client_ready_def c1_def)
  next
    case True
    have v: "mb_valid msg1" using recv_sec_msg_accepts [of msg "remote_server c" inp r1 msg1] r True b
      by (auto simp: bufs_ok_def)
    obtain co so2 msg2 where d: "drain (consume_msg P e) (c1, []) (cl_sorter c) msg1 Ext = Inr (co, so2, msg2)"
      and i2: "client_inv (fst co)" "bufs_ok so2 msg2"
      using drain_invariant [of "\<lambda>co. client_inv (fst co)" "consume_msg P e" "(c1, [])" "cl_sorter c" msg1 Ext]
        consume_msg_ok [OF S] inv1 b1 by auto
    have so2: "sorter_ok so2"
      using drain_refines [of "cl_sorter c" msg1 "consume_msg P e" "(c1, [])"] d so m1 v by simp
    obtain c2 out where co: "co = (c2, out)" by fastforce
    have "client_ready (c2\<lparr>cl_sorter := so2\<rparr>) msg2"
      using i2 so2 by (simp add: client_ready_def co client_inv_def table_ok_def)
    then show ?thesis using r True d by (simp add: sendsrv_step_def co flip: c1_def)
  qed
qed

text \<open>A message that the sorter hands out at once, and nothing else, is processed exactly once.\<close>

lemma sendsrv_single:
  assumes S: "seal_length_ok (pl_sodium P)" and c: "client_ready c msg"
    and r: "recv_sec_msg (remote_server c) msg inp = (True, count_rx n (remote_server c), msg1)"
    and one: "deliveries (cl_sorter c) msg1 = [clear_msg msg1]"
    and p: "process_msg P e (c\<lparr>remote_server := count_rx n (remote_server c)\<rparr>) (clear_msg msg1) = Inr (c2, m2, out)"
  shows "\<exists>so' msg'. sendsrv_step P e c msg inp = Inr (c2\<lparr>cl_sorter := so'\<rparr>, msg', out)"
proof -
  let ?c1 = "c\<lparr>remote_server := count_rx n (remote_server c)\<rparr>"
  have ok: "msgbuf_ok msg" "sorter_ok (cl_sorter c)" using c by (simp_all add: client_ready_def bufs_ok_def)
  have m1: "msgbuf_ok msg1" using recv_sec_msg_ok_inv [OF ok(1) r] .
  have v: "mb_valid msg1" using recv_sec_msg_accepts [OF ok(1) r] by auto
  have k: "consume (consume_msg P e) (?c1, []) (deliveries (cl_sorter c) msg1) = Inr (c2, out)"
    by (simp add: one consume_msg_def p)
  show ?thesis
  proof (cases "drain (consume_msg P e) (?c1, []) (cl_sorter c) msg1 Ext")
    case (Inl a)
    then show ?thesis using drain_refines [OF ok(2) m1 v, of "consume_msg P e" "(?c1, [])"] k by simp
  next
    case (Inr t)
    obtain co so' msg' where t: "t = (co, so', msg')" by (rule prod_cases3)
    then have "co = (c2, out)" using drain_refines [OF ok(2) m1 v, of "consume_msg P e" "(?c1, [])"] k Inr by simp
    then show ?thesis using Inr t r by (auto simp: sendsrv_step_def)
  qed
qed

lemma deliveries_special:
  "mb_destport m \<le> MAXSPECIALPORT \<Longrightarrow> \<not> mb_valid (buf1 so) \<Longrightarrow> deliveries so m = [clear_msg m]"
  by (simp add: deliveries_def flush_def)

lemma deliveries_in_order:
  assumes "MAXSPECIALPORT < mb_destport m" and "in_step (mb_cid m) (mb_destport m) n (abs_sorter so)" and "mb_seq m = n + 1"
  shows "deliveries so m = [clear_msg m]"
proof -
  have h: "\<not> mb_valid (buf1 so)" and s: "step_in so m = 1"
    using assms by (auto simp: in_step_def abs_sorter_def step_in_def seq_get_def split: if_splits)
  then have "verdict so m = Pass" by (simp add: verdict_def overtakes_def)
  then show ?thesis using h assms(1) by (auto simp: deliveries_def flush_def)
qed

text \<open>An accepted message, in the buffer of the receiver.\<close>

definition received_msg :: "msgbuf \<Rightarrow> byte list \<Rightarrow> stage_device_id_t \<Rightarrow> port_t \<Rightarrow> sequence_t \<Rightarrow> byte list \<Rightarrow> endpoint \<Rightarrow> msgbuf" where
  "received_msg b hdr cid p sq body src =
     b\<lparr>rawbuffer := hdr @ body @ drop (HEADERLEN + length body) (rawbuffer b), mb_valid := True, mb_cid := cid,
       mb_destport := p, mb_seq := sq, mb_size := length body, mb_msg := HEADERLEN, mb_sender := src\<rparr>"

lemma received_msg_simps [simp]:
  "mb_cid (received_msg b hdr cid p sq body src) = cid" "mb_destport (received_msg b hdr cid p sq body src) = p"
  "mb_seq (received_msg b hdr cid p sq body src) = sq" "mb_size (received_msg b hdr cid p sq body src) = length body"
  "mb_sender (received_msg b hdr cid p sq body src) = src" "mb_msg (received_msg b hdr cid p sq body src) = HEADERLEN"
  by (simp_all add: received_msg_def)

lemma clear_msg_simps [simp]:
  "mb_cid (clear_msg m) = mb_cid m" "mb_destport (clear_msg m) = mb_destport m" "mb_seq (clear_msg m) = mb_seq m"
  "mb_size (clear_msg m) = mb_size m" "mb_sender (clear_msg m) = mb_sender m" "mb_msg (clear_msg m) = mb_msg m"
  "payload (clear_msg m) = payload m" "(clear_msg m)\<lparr>mb_valid := False\<rparr> = clear_msg m" "rawbuffer (clear_msg m) = rawbuffer m"
  "msg_mem (clear_msg m) = msg_mem m"
  by (simp_all add: clear_msg_def payload_def msg_mem_def)

lemma payload_received: "length hdr = HEADERLEN \<Longrightarrow> payload (received_msg b hdr cid p sq body src) = body"
  by (simp add: received_msg_def payload_def msg_mem_def)

lemma recv_received:
  assumes "msgbuf_ok b" and "HEADERLEN + length body \<le> BUFSIZE"
  shows "recv_sec_msg s b (Some (header_bytes (ov_secret s) cid p sq @ body, src)) =
    (True, count_rx (HEADERLEN + length body) s, received_msg b (header_bytes (ov_secret s) cid p sq) cid p sq body src)"
  using recv_sec_msg_ok [OF assms] by (simp add: received_msg_def)

lemma clear_ok: "msgbuf_ok m \<Longrightarrow> msgbuf_ok (clear_msg m)"
  by (simp add: clear_msg_def)

text \<open>A data message that is the next of its stream.\<close>

lemma sendsrv_data:
  assumes S: "seal_length_ok (pl_sodium P)" and B: "client_ready B msg" and len: "HEADERLEN + length body \<le> BUFSIZE"
    and cid: "cid \<noteq> callerid B" and p: "MAXSPECIALPORT < p" and ord: "in_step cid p n (abs_sorter (cl_sorter B))"
  shows "\<exists>B' msg'. sendsrv_step P e B msg (Some (header_bytes (ov_secret (remote_server B)) cid p (n + 1) @ body, src)) =
    Inr (B', msg', forwarded P B (received_msg msg (header_bytes (ov_secret (remote_server B)) cid p (n + 1)) cid p (n + 1) body src))"
proof -
  let ?hdr = "header_bytes (ov_secret (remote_server B)) cid p (n + 1)"
  let ?m = "received_msg msg ?hdr cid p (n + 1) body src" and ?k = "HEADERLEN + length body"
  let ?B1 = "B\<lparr>remote_server := count_rx ?k (remote_server B)\<rparr>"
  have ok: "msgbuf_ok msg" "client_inv B" using B by (simp_all add: client_ready_def bufs_ok_def)
  note r = recv_received [OF ok(1) len, of "remote_server B" cid p "n + 1" src]
  have m: "msgbuf_ok ?m" using recv_sec_msg_ok_inv [OF ok(1) r] .
  have one: "deliveries (cl_sorter B) ?m = [clear_msg ?m]" using p ord by (intro deliveries_in_order [where n = n]) simp_all
  have inv1: "client_inv ?B1" using client_inv_rx [OF ok(2)] .
  obtain c' out where d: "process_data_msg P ?B1 (clear_msg ?m) = Inr (c', out)"
    using process_data_ok [OF S inv1 clear_ok [OF m]] by auto
  have "out = forwarded P ?B1 (clear_msg ?m)" using process_data_forwards [OF S inv1 clear_ok [OF m] _ d] by simp
  also have "\<dots> = forwarded P B ?m"
  proof -
    have "opened P ?B1 (clear_msg ?m) = opened P B ?m" by (simp add: opened_def try_open_def cong: if_cong)
    then have "received_data P ?B1 (clear_msg ?m) = received_data P B ?m"
      by (simp add: received_data_def split: option.split)
    then show ?thesis by (simp add: forwarded_def cong: if_cong)
  qed
  finally have out: "out = forwarded P B ?m" .
  have "process_msg P e ?B1 (clear_msg ?m) = Inr (c', clear_msg ?m, out)"
    using d cid p by (simp add: process_msg_def)
  from sendsrv_single [OF S B r one this] show ?thesis unfolding out by blast
qed

section \<open>Pings\<close>

text \<open>The datagram of a ping, and the answer to it.\<close>

definition ping_body :: "fpu \<Rightarrow> special_port \<Rightarrow> stage_device_id_t \<Rightarrow> real \<Rightarrow> endpoint \<Rightarrow> byte list" where
  "ping_body F proto destid t ep =
     (if proto = PORT_PING_SRV then le_bytes 1 destid else []) @ dbl_bytes F t @ bytes_of_endpoint ep"

lemma send_ping_dgram:
  assumes F: "dbl_ok F (time_since_start F now s)"
  shows "snd (send_ping K F now s ep destid proto) =
    [Dgram ep (header_bytes (ov_secret s) (ov_callerid s) (port_code proto) 0 @ ping_body F proto destid (time_since_start F now s) ep)]"
proof -
  let ?h = "header_bytes (ov_secret s) (ov_callerid s) (port_code proto) 0" and ?t = "time_since_start F now s"
  let ?z = "\<lambda>k. replicate (pingbufsize - k) (0 :: byte)"
  have c: "pingbufsize = 134" "HEADERLEN = 9" "sizeof_double = 8" "sizeof_endpoint = 16"
    by (simp_all add: pingbufsize_def header_layout sizeof_double_def sizeof_endpoint_def)
  have d: "length (dbl_bytes F ?t) = 8" using F by (simp add: dbl_ok_def sizeof_double_def)
  have e: "length (bytes_of_endpoint ep) = 16" using ep_codec.enc_length [of ep] by (simp add: sizeof_endpoint_def)
  have ts: "time_since_start F now (bump_seq q s) = ?t" for q by (simp add: time_since_start_def)
  have seq0: "next_seq s (port_code proto) = 0" 
    using port_code_less [of proto] unfolding next_seq_def not_le [symmetric] by simp
  have 0: "ov_packmsg s (replicate pingbufsize 0) pingbufsize (port_code proto) [] 0 =
      (?h @ ?z 9, 9, bump_seq (port_code proto) s)"
    by (subst ov_packmsg_ok) (simp_all add: seq0 c)
  show ?thesis
  proof (cases "proto = PORT_PING_SRV")
    case True
    have 1: "addmsg (?h @ ?z 9) pingbufsize 9 (le_bytes 1 destid) 1 = (?h @ le_bytes 1 destid @ ?z 10, 10)"
      by (subst addmsg_ok) (simp_all add: c)
    have 2: "addmsg (?h @ le_bytes 1 destid @ ?z 10) pingbufsize 10 (dbl_bytes F ?t) sizeof_double =
        (?h @ le_bytes 1 destid @ dbl_bytes F ?t @ ?z 18, 18)"
      using d by (subst addmsg_ok) (simp_all add: c)
    have 3: "addmsg (?h @ le_bytes 1 destid @ dbl_bytes F ?t @ ?z 18) pingbufsize 18 (bytes_of_endpoint ep) sizeof_endpoint =
        (?h @ le_bytes 1 destid @ dbl_bytes F ?t @ bytes_of_endpoint ep @ ?z 34, 34)"
      using d e by (subst addmsg_ok) (simp_all add: c)
    have 4: "take 34 (?h @ le_bytes 1 destid @ dbl_bytes F ?t @ bytes_of_endpoint ep @ ?z 34) =
        ?h @ le_bytes 1 destid @ dbl_bytes F ?t @ bytes_of_endpoint ep"
      using d e by (simp add: c)
    show ?thesis unfolding send_ping_def ping_body_def 0 prod.case ts if_P [OF True] 1 2 3 Let_def send_ep_def 4 by simp
  next
    case False
    have 2: "addmsg (?h @ ?z 9) pingbufsize 9 (dbl_bytes F ?t) sizeof_double = (?h @ dbl_bytes F ?t @ ?z 17, 17)"
      using d by (subst addmsg_ok) (simp_all add: c)
    have 3: "addmsg (?h @ dbl_bytes F ?t @ ?z 17) pingbufsize 17 (bytes_of_endpoint ep) sizeof_endpoint =
        (?h @ dbl_bytes F ?t @ bytes_of_endpoint ep @ ?z 33, 33)"
      using d e by (subst addmsg_ok) (simp_all add: c)
    have 4: "take 33 (?h @ dbl_bytes F ?t @ bytes_of_endpoint ep @ ?z 33) = ?h @ dbl_bytes F ?t @ bytes_of_endpoint ep"
      using d e by (simp add: c)
    show ?thesis unfolding send_ping_def ping_body_def 0 prod.case ts if_not_P [OF False] 2 3 Let_def send_ep_def 4 by simp
  qed
qed

lemma set_header_parts [simp]:
  "set_msg_callerid c (header_bytes sec cid p sq @ r) = header_bytes sec c p sq @ r"
  "set_msg_port q (header_bytes sec cid p sq @ r) = header_bytes sec cid q sq @ r"
  by (simp_all add: set_msg_callerid_def set_msg_port_def header_bytes_def header_layout blit_def)

definition pong_of :: "special_port \<Rightarrow> special_port" where
  "pong_of p = (if p = PORT_PING_LOCAL then PORT_PONG_LOCAL else PORT_PONG)"

lemma special_message:
  assumes S: "seal_length_ok (pl_sodium P)" and c: "client_ready c msg" and h: "\<not> mb_valid (buf1 (cl_sorter c))"
    and len: "HEADERLEN + length body \<le> BUFSIZE"
    and p: "process_msg P e (c\<lparr>remote_server := count_rx (HEADERLEN + length body) (remote_server c)\<rparr>)
        (clear_msg (received_msg msg (header_bytes (ov_secret (remote_server c)) cid (port_code q) sq) cid (port_code q) sq body src)) =
      Inr (c2, m2, out)"
  shows "\<exists>so' msg'. sendsrv_step P e c msg (Some (header_bytes (ov_secret (remote_server c)) cid (port_code q) sq @ body, src)) =
    Inr (c2\<lparr>cl_sorter := so'\<rparr>, msg', out)"
proof -
  have ok: "msgbuf_ok msg" using c by (simp add: client_ready_def bufs_ok_def)
  note r = recv_received [OF ok len, of "remote_server c" cid "port_code q" sq src]
  show ?thesis by (rule sendsrv_single [OF S c r deliveries_special p]) (simp_all add: h)
qed

lemma special_not_data: "\<not> MAXSPECIALPORT < port_code s"
  unfolding not_less by (rule port_code_le)

lemma ping_answer:
  assumes S: "seal_length_ok (pl_sodium P)" and B: "client_ready B msg" "\<not> mb_valid (buf1 (cl_sorter B))"
    and len: "HEADERLEN + length body \<le> BUFSIZE" and q: "q \<in> {PORT_PING, PORT_PING_LOCAL}" and cid: "cid \<noteq> callerid B"
  shows "\<exists>B' msg'. sendsrv_step P e B msg (Some (header_bytes (ov_secret (remote_server B)) cid (port_code q) 0 @ body, src)) =
    Inr (B', msg', [To_remote (Dgram src (header_bytes (ov_secret (remote_server B)) (callerid B) (port_code (pong_of q)) 0 @ body))])"
proof -
  let ?B1 = "B\<lparr>remote_server := count_rx (HEADERLEN + length body) (remote_server B)\<rparr>"
  let ?m = "clear_msg (received_msg msg (header_bytes (ov_secret (remote_server B)) cid (port_code q) 0) cid (port_code q) 0 body src)"
  have q': "q = PORT_PING \<or> q = PORT_PING_LOCAL" using q by auto
  obtain c2 m2 where "process_msg P e ?B1 ?m = Inr (c2, m2,
      [To_remote (Dgram src (header_bytes (ov_secret (remote_server B)) (callerid B) (port_code (pong_of q)) 0 @ body))])"
    using q' cid
    by (auto simp: process_msg_def process_ping_msg_def received_msg_def pong_of_def send_ep_def special_not_data Let_def
        simp del: port_code.simps)
  from special_message [OF S B len this] show ?thesis by blast
qed

definition measured :: "special_port \<Rightarrow> ovboxclient \<Rightarrow> stage_device_id_t \<Rightarrow> collector" where
  "measured q c = (if q = PORT_PING_LOCAL then coll_local c else coll_p2p c)"

definition ping_ms :: "fpu \<Rightarrow> int \<Rightarrow> real \<Rightarrow> ovbox_udpsocket \<Rightarrow> real" where
  "ping_ms F now t s = fl F (1000 * fl F (time_since_start F now s - t))"

lemma pong_measured:
  assumes S: "seal_length_ok (pl_sodium P)" and A: "client_ready A msg" "\<not> mb_valid (buf1 (cl_sorter A))"
    and q: "q \<in> {PORT_PING, PORT_PING_LOCAL}" and cid: "cid \<noteq> callerid A" and F: "dbl_ok (pl_fpu P) t"
  shows "\<exists>A' msg' out. sendsrv_step P e A msg
      (Some (header_bytes (ov_secret (remote_server A)) cid (port_code (pong_of q)) 0 @ dbl_bytes (pl_fpu P) t @ bytes_of_endpoint ep, src)) =
      Inr (A', msg', out) \<and>
    (let ms = ping_ms (pl_fpu P) (env_now e) t (remote_server A) in
     if ms > 0 then out = (if has_cb_ping A then [Cb_ping cid (port_code (pong_of q)) ms src] else []) \<and>
       measured q A' cid = add_value (pl_fpu P) (fl32 (pl_fpu P) ms) (measured q A cid)
     else out = [] \<and> measured q A' cid = measured q A cid)"
proof -
  let ?body = "dbl_bytes (pl_fpu P) t @ bytes_of_endpoint ep" and ?p = "pong_of q"
  let ?A1 = "A\<lparr>remote_server := count_rx (HEADERLEN + length ?body) (remote_server A)\<rparr>"
  let ?hdr = "header_bytes (ov_secret (remote_server A)) cid (port_code ?p) 0"
  let ?m = "clear_msg (received_msg msg ?hdr cid (port_code ?p) 0 ?body src)"
  let ?ms = "ping_ms (pl_fpu P) (env_now e) t (remote_server A)"
  have q': "q = PORT_PING \<or> q = PORT_PING_LOCAL" using q by auto
  have d: "length (dbl_bytes (pl_fpu P) t) = 8" "bytes_dbl (pl_fpu P) (dbl_bytes (pl_fpu P) t) = t"
    using F by (simp_all add: dbl_ok_def sizeof_double_def)
  have e16: "length (bytes_of_endpoint ep) = 16" using ep_codec.enc_length [of ep] by (simp add: sizeof_endpoint_def)
  have len: "HEADERLEN + length ?body \<le> BUFSIZE" using d e16 by (simp add: buf_bounds)
  have mem: "msg_mem ?m = ?body @ drop (HEADERLEN + length ?body) (rawbuffer msg)"
    by (simp add: msg_mem_def received_msg_def)
  have ts: "time_since_start F now (count_rx k s) = time_since_start F now s" for F now k s
    by (simp add: time_since_start_def)
  obtain mem' n' where g: "get_pingtime (pl_fpu P) (env_now e) (remote_server ?A1) (msg_mem ?m) (mb_size ?m) = Inr (?ms, mem', n')"
    unfolding mem using d e16 by (auto simp: get_pingtime_def ts ping_ms_def sizeof_double_def)
  define A2 where "A2 = (if ?ms > 0 then
      (if q = PORT_PING_LOCAL
       then ?A1\<lparr>coll_local := (coll_local A)(cid := add_value (pl_fpu P) (fl32 (pl_fpu P) ?ms) (coll_local A cid))\<rparr>
       else ?A1\<lparr>coll_p2p := (coll_p2p A)(cid := add_value (pl_fpu P) (fl32 (pl_fpu P) ?ms) (coll_p2p A cid))\<rparr>)
      else ?A1)"
  define out where "out = (if ?ms > 0 \<and> has_cb_ping A then [Cb_ping cid (port_code ?p) ?ms src] else [])"
  have pong: "process_pong_msg P e ?A1 ?m = Inr (A2, out)"
    using q' g unfolding process_pong_msg_def Let_def
    by (auto simp: pong_of_def A2_def out_def simp del: port_code.simps)
  have "process_msg P e ?A1 ?m = Inr (A2, ?m, out)"
    using q' cid pong by (auto simp: process_msg_def special_not_data pong_of_def Let_def simp del: port_code.simps)
  from special_message [OF S A len this] obtain so' msg' where
    "sendsrv_step P e A msg (Some (?hdr @ ?body, src)) = Inr (A2\<lparr>cl_sorter := so'\<rparr>, msg', out)" by blast
  moreover have "measured q (A2\<lparr>cl_sorter := so'\<rparr>) cid =
      (if ?ms > 0 then add_value (pl_fpu P) (fl32 (pl_fpu P) ?ms) (measured q A cid) else measured q A cid)" for so'
    by (simp add: measured_def A2_def)
  ultimately show ?thesis by (auto simp: Let_def out_def)
qed

section \<open>Properties\<close>

text \<open>Nothing that arrives makes the client fault: for every datagram, from anyone, an iteration of
  \<open>sendsrv\<close> returns, no access leaves its buffer, and the client and its message buffer stay
  well formed.\<close>

theorem sendsrv_safe:
  assumes "seal_length_ok (pl_sodium P)" and "client_ready c msg"
  shows "\<exists>c' msg' out. sendsrv_step P e c msg inp = Inr (c', msg', out) \<and> client_ready c' msg'"
  using sendsrv_step_ok [OF assms] .

lemma synced_bufs [simp]:
  "buf1 (synced_sorter c p n) = msgbuf_ctor zero_endpoint 0" "buf2 (synced_sorter c p n) = msgbuf_ctor zero_endpoint 0"
  by (simp_all add: synced_sorter_def sorter_ctor_def)

lemma example_client_ready:
  "unat cid < MAX_STAGE_ID \<Longrightarrow> client_ready (example_client cid mode) (msgbuf_ctor zero_endpoint 0)"
  "client_ready c msg \<Longrightarrow> client_ready (with_peer i (example_peer m) c) msg"
proof -
  have t: "table_ok (endpoint_list_ctor zero_key)" by simp
  show "unat cid < MAX_STAGE_ID \<Longrightarrow> client_ready (example_client cid mode) (msgbuf_ctor zero_endpoint 0)"
    using t by (simp add: client_ready_def client_inv_def example_client_def table_ok_def endpoint_list.extend_def bufs_ok_def
        default_window_def)
  assume "client_ready c msg"
  then show "client_ready (with_peer i (example_peer m) c) msg"
    by (auto simp: client_ready_def client_inv_def with_peer_def table_ok_def example_peer_def ep_desc_ctor_def
        crypto_box_PUBLICKEYBYTES_def dest!: set_update_subset_insert [THEN subsetD])
qed

definition example_env :: "int \<Rightarrow> env" where
  "example_env now = \<lparr>env_now = now, env_lock = True\<rparr>"

theorem sendsrv_safe_witness:
  "\<exists>c' msg' out. sendsrv_step example_platform (example_env 0) (example_client 1 B_PEER2PEER) (msgbuf_ctor zero_endpoint 0)
      (Some (header_bytes 12345678 2 8 0, zero_endpoint)) = Inr (c', msg', out)"
  using sendsrv_safe [OF example_platform_ok example_client_ready(1) [of 1], of "example_env 0"] example_secure_peer by blast

text \<open>Forwarding: the next message of a data stream of another device is forwarded exactly once to
  every local receiver (with the port offsets added, except to the client's own input) and,
  when it came from outside the local network, to every proxy client other than its sender;
  the forwarded bytes are the user data, decrypted when both sides encrypt and it opens.\<close>

theorem data_forwarded:
  assumes "seal_length_ok (pl_sodium P)" and "client_ready B msg" and "HEADERLEN + length body \<le> BUFSIZE"
    and "cid \<noteq> callerid B" and "MAXSPECIALPORT < p" and "in_step cid p n (abs_sorter (cl_sorter B))"
  shows "\<exists>B' msg'. sendsrv_step P e B msg (Some (header_bytes (ov_secret (remote_server B)) cid p (n + 1) @ body, src)) =
    Inr (B', msg', forwarded P B (received_msg msg (header_bytes (ov_secret (remote_server B)) cid p (n + 1)) cid p (n + 1) body src))"
  using sendsrv_data [OF assms] .

lemma example_client_fields [simp]:
  "ov_secret (remote_server (example_client cid mode)) = 12345678" "callerid (example_client cid mode) = cid"
  "cl_sorter (example_client cid mode) = synced_sorter 0 0 0" "cl_mode (example_client cid mode) = mode"
  "recport (example_client cid mode) = 9876" "portoffset (example_client cid mode) = 0" "xdest (example_client cid mode) = []"
  "proxyclients (example_client cid mode) = []" "local_server (example_client cid mode) = example_udp"
  "localep (example_client cid mode) = zero_endpoint" "remote_server (example_client cid mode) = example_socket 12345678 cid"
  "has_cb_ping (example_client cid mode)"
  by (simp_all add: example_client_def endpoint_list.extend_def)

text \<open>A client that has received number \<open>n\<close> of a stream.\<close>

definition with_stream :: "stage_device_id_t \<Rightarrow> port_t \<Rightarrow> sequence_t \<Rightarrow> ovboxclient \<Rightarrow> ovboxclient" where
  "with_stream cid p n c = c\<lparr>cl_sorter := synced_sorter cid p n\<rparr>"

lemma with_stream_ready: "client_ready c (msgbuf_ctor zero_endpoint 0) \<Longrightarrow> client_ready (with_stream cid p n c) (msgbuf_ctor zero_endpoint 0)"
  by (simp add: client_ready_def with_stream_def client_inv_def table_ok_def bufs_ok_def)

theorem data_forwarded_witness:
  "\<exists>B' msg'. sendsrv_step example_platform (example_env 0) (with_stream 2 4464 7 (example_client 1 B_PEER2PEER))
      (msgbuf_ctor zero_endpoint 0) (Some (header_bytes 12345678 2 4464 8 @ [1, 2], zero_endpoint)) =
    Inr (B', msg', [To_local (Dgram (zero_endpoint\<lparr>sin_port := htons 4464\<rparr>) [1, 2])])"
proof -
  let ?B = "with_stream 2 4464 7 (example_client 1 B_PEER2PEER)" and ?msg = "msgbuf_ctor zero_endpoint 0"
  have B: "client_ready ?B ?msg" using example_secure_peer by (intro with_stream_ready example_client_ready) simp
  have f: "forwarded example_platform ?B (received_msg ?msg (header_bytes 12345678 2 4464 8) 2 4464 8 [1, 2] zero_endpoint) =
      [To_local (Dgram (zero_endpoint\<lparr>sin_port := htons 4464\<rparr>) [1, 2])]"
    by (simp add: forwarded_def received_data_def opened_def try_open_def with_stream_def local_dgrams_def proxy_dgrams_def
        payload_received example_udp_def has_mode_def mode_bits)
  show ?thesis
    using data_forwarded [OF example_platform_ok B, of "[1, 2]" 2 4464 7 "example_env 0" zero_endpoint] f
    by (simp add: buf_bounds MAXSPECIALPORT_def with_stream_def)
qed

text \<open>End to end: what one client's \<open>recsrv\<close> sends to a destination is, when it arrives at
  another client of the same session as the next message of its stream, handed unchanged to
  that client's local receivers (and proxy clients), whether it travels in clear between
  clients that do not both encrypt or sealed with the receiver's public key.\<close>

theorem end_to_end_delivery:
  assumes "seal_length_ok (pl_sodium P)" and "client_ok A" and "recbufs_ok bufs"
    and "0 < length data" and "HEADERLEN + length data + crypto_box_SEALBYTES \<le> BUFSIZE"
    and "recsrv_step P A bufs (Some (data, local_src)) = Inr (A', bufs', out)"
    and "(dst, key) \<in> set (routes A)" and "client_ready B msg"
    and "ov_secret (remote_server B) = ov_secret (remote_server A)" and "ov_callerid (remote_server A) = callerid A"
    and "callerid A \<noteq> callerid B" and "MAXSPECIALPORT < out_port A"
    and "in_step (callerid A) (out_port A) n (abs_sorter (cl_sorter B))" and "next_seq (remote_server A) (out_port A) = n + 1"
    and "key = None \<and> \<not> try_open B (callerid A) \<or>
      key = Some (recipient_public (remote_server B)) \<and> try_open B (callerid A) \<and>
      key_pair_ok (pl_sodium P) (recipient_public (remote_server B)) (recipient_secret (remote_server B))"
  shows "\<exists>d\<in>set out. dg_dest d = dst \<and> (\<exists>B' msg'. sendsrv_step P e B msg (Some (dg_data d, src)) =
    Inr (B', msg', map To_local (local_dgrams (serv_addr (local_server B)) (recport B) (portoffset B # xdest B) (out_port A) data) @
      (if is_same_network src (localep B) then []
       else map To_remote (proxy_dgrams (callerid A) (out_port A) (proxyclients B) data))))"
proof -
  let ?d = "to_dgram (pl_sodium P) (out_header A) data (dst, key)"
  let ?body = "case key of None \<Rightarrow> data | Some pk \<Rightarrow> crypto_box_seal (pl_sodium P) data pk"
  let ?hdr = "header_bytes (ov_secret (remote_server B)) (callerid A) (out_port A) (n + 1)"
  let ?m = "received_msg msg ?hdr (callerid A) (out_port A) (n + 1) ?body src"
  have "HEADERLEN + length data \<le> BUFSIZE" using assms(5) by simp
  then have "out = map (to_dgram (pl_sodium P) (out_header A) data) (routes A)"
    using recsrv_step_ok [OF assms(1-4), of local_src] assms(6) by auto
  then have d: "?d \<in> set out" using assms(7) by auto
  have hdr: "out_header A = ?hdr" using assms(9,10,14) by (simp add: out_header_def)
  have data: "dg_data ?d = ?hdr @ ?body" "dg_dest ?d = dst"
    using assms(5) by (simp_all add: to_dgram_def wire_def hdr split: option.split)
  have len: "HEADERLEN + length ?body \<le> BUFSIZE"
    using assms(1,5) by (simp add: seal_length_ok_def split: option.split)
  have "payload ?m = ?body" by (simp add: payload_received)
  then have "received_data P B ?m = data"
    using assms(15) by (auto simp: received_data_def opened_def key_pair_ok_def)
  then have "forwarded P B ?m = map To_local (local_dgrams (serv_addr (local_server B)) (recport B) (portoffset B # xdest B) (out_port A) data) @
      (if is_same_network src (localep B) then []
       else map To_remote (proxy_dgrams (callerid A) (out_port A) (proxyclients B) data))"
    by (simp add: forwarded_def)
  then show ?thesis
    using sendsrv_data [OF assms(1,8) len assms(11-13), of e src] d data by metis
qed

lemma with_peer_fields [simp]:
  "remote_server (with_peer i d c) = remote_server c" "callerid (with_peer i d c) = callerid c" "cl_mode (with_peer i d c) = cl_mode c"
  "local_server (with_peer i d c) = local_server c" "recport (with_peer i d c) = recport c" "portoffset (with_peer i d c) = portoffset c"
  "xdest (with_peer i d c) = xdest c" "localep (with_peer i d c) = localep c" "proxyclients (with_peer i d c) = proxyclients c"
  "cl_sorter (with_peer i d c) = cl_sorter c" "sendlocal (with_peer i d c) = sendlocal c"
  by (simp_all add: with_peer_def)

lemma with_stream_fields [simp]:
  "remote_server (with_stream cid p n c) = remote_server c" "callerid (with_stream cid p n c) = callerid c"
  "cl_mode (with_stream cid p n c) = cl_mode c" "local_server (with_stream cid p n c) = local_server c"
  "recport (with_stream cid p n c) = recport c" "portoffset (with_stream cid p n c) = portoffset c"
  "xdest (with_stream cid p n c) = xdest c" "localep (with_stream cid p n c) = localep c"
  "proxyclients (with_stream cid p n c) = proxyclients c" "endpoints (with_stream cid p n c) = endpoints c"
  "cl_sorter (with_stream cid p n c) = synced_sorter cid p n"
  by (simp_all add: with_stream_def)

definition example_receiver :: ovboxclient where
  "example_receiver = add_extraport 100 (with_peer 1 (example_peer (B_PEER2PEER OR B_ENCRYPTION))
     (with_stream 1 9876 0 (example_client 2 (B_PEER2PEER OR B_ENCRYPTION))))"

lemma example_receiver_ok: "client_ready example_receiver (msgbuf_ctor zero_endpoint 0)" "try_open example_receiver 1"
proof -
  have "unat (2 :: stage_device_id_t) < MAX_STAGE_ID" by (simp add: MAX_STAGE_ID_def)
  then have r: "client_ready (with_peer 1 (example_peer (B_PEER2PEER OR B_ENCRYPTION))
      (with_stream 1 9876 0 (example_client 2 (B_PEER2PEER OR B_ENCRYPTION)))) (msgbuf_ctor zero_endpoint 0)"
    by (intro example_client_ready(2) with_stream_ready example_client_ready(1))
  then show "client_ready example_receiver (msgbuf_ctor zero_endpoint 0)"
    by (simp add: example_receiver_def add_extraport_def client_ready_def client_inv_def table_ok_def)
  have "length (endpoints (example_client 2 (B_PEER2PEER OR B_ENCRYPTION))) = MAX_STAGE_ID"
    by (simp add: example_client_def endpoint_list.extend_def endpoint_list_ctor_def)
  then show "try_open example_receiver 1" using example_secure_peer
    by (simp add: try_open_def example_receiver_def add_extraport_def with_peer_def example_peer_def)
qed

lemma example_receiver_fields:
  "recipient_public (remote_server example_receiver) = replicate 32 1" "serv_addr (local_server example_receiver) = zero_endpoint"
  "ov_secret (remote_server example_receiver) = 12345678" "callerid example_receiver = 2"
  "cl_sorter example_receiver = synced_sorter 1 9876 0" "recport example_receiver = 9876" "portoffset example_receiver = 0"
  "xdest example_receiver = [100]" "proxyclients example_receiver = []"
  by (simp_all add: example_receiver_def add_extraport_def example_socket_def ovbox_udpsocket_ctor_def udpsocket.extend_def
      example_udp_def)

theorem end_to_end_delivery_witness:
  "\<exists>A' bufs' d B' msg'.
    recsrv_step example_platform (with_peer 2 (example_peer (B_PEER2PEER OR B_ENCRYPTION)) (example_client 1 (B_PEER2PEER OR B_ENCRYPTION)))
      example_bufs (Some ([5, 6, 7], zero_endpoint)) = Inr (A', bufs', [d]) \<and>
    sendsrv_step example_platform (example_env 0) example_receiver (msgbuf_ctor zero_endpoint 0) (Some (dg_data d, zero_endpoint)) =
      Inr (B', msg', [To_local (Dgram (zero_endpoint\<lparr>sin_port := htons 9976\<rparr>) [5, 6, 7])])"
proof -
  let ?m = "B_PEER2PEER OR B_ENCRYPTION" and ?B = example_receiver
  let ?A = "with_peer 2 (example_peer ?m) (example_client 1 ?m)"
  let ?dst = "zero_endpoint\<lparr>s_addr := 0x0200000a\<rparr>" and ?key = "Some (replicate 32 1) :: byte list option"
  have A: "client_ok ?A" using example_secure_peer by simp
  have "peer_accepts ?A (example_peer ?m)" by (simp add: peer_accepts_def example_peer_def has_mode_def mode_bits)
  then have "routes ?A = [peer_route ?A (example_peer ?m)]"
    using example_secure_peer by (intro example_routes) simp_all
  moreover have "peer_route ?A (example_peer ?m) = (?dst, ?key)"
    using example_secure_peer by (simp add: peer_route_def wants_encryption_def example_peer_def in_same_network_def ep_desc_ctor_def
        zero_endpoint_def)
  ultimately have rt: "routes ?A = [(?dst, ?key)]" by simp
  have op: "out_port ?A = 9876" by (simp add: out_port_def)
  have enc: "?key = None \<and> \<not> try_open ?B (callerid ?A) \<or>
      ?key = Some (recipient_public (remote_server ?B)) \<and> try_open ?B (callerid ?A) \<and>
      key_pair_ok (pl_sodium example_platform) (recipient_public (remote_server ?B)) (recipient_secret (remote_server ?B))"
    using example_receiver_ok(2) by (simp add: example_receiver_fields example_platform_def plain_sodium_ok)
  obtain A' bufs' where step: "recsrv_step example_platform ?A example_bufs (Some ([5, 6, 7], zero_endpoint)) =
      Inr (A', bufs', [to_dgram (pl_sodium example_platform) (out_header ?A) [5, 6, 7] (?dst, ?key)])"
    using recsrv_step_ok [OF example_platform_ok A example_bufs_ok, of "[5, 6, 7]" zero_endpoint] rt by (auto simp: buf_bounds)
  have l: "local_dgrams zero_endpoint 9876 [0, 100] 9876 [5, 6, 7] = [Dgram (zero_endpoint\<lparr>sin_port := htons 9976\<rparr>) [5, 6, 7]]"
    by (simp add: local_dgrams_def)
  have ord: "in_step (callerid ?A) (out_port ?A) 0 (abs_sorter (cl_sorter ?B))" by (simp add: op example_receiver_fields)
  have nx: "next_seq (remote_server ?A) (out_port ?A) = 0 + 1"
    by (simp add: op next_seq_def seq_get_def MAXSPECIALPORT_def)
  have s: "[5, 6, 7 :: byte] \<noteq> []" "HEADERLEN + length [5, 6, 7 :: byte] + crypto_box_SEALBYTES \<le> BUFSIZE"
    "(?dst, ?key) \<in> set (routes ?A)" "ov_secret (remote_server ?B) = ov_secret (remote_server ?A)"
    "ov_callerid (remote_server ?A) = callerid ?A" "callerid ?A \<noteq> callerid ?B" "MAXSPECIALPORT < out_port ?A"
    using rt by (simp_all add: buf_bounds crypto_box_SEALBYTES_def example_receiver_fields op MAXSPECIALPORT_def)
  have p: "0 < length [5, 6, 7 :: byte]" by simp
  from end_to_end_delivery [OF example_platform_ok A example_bufs_ok p s(2) step s(3) example_receiver_ok(1) s(4-7) ord nx enc,
      of "example_env 0" zero_endpoint] step l
  show ?thesis by (auto simp: op example_receiver_fields proxy_dgrams_def)
qed

text \<open>C18. A ping is answered and measured. For the direct pings of a session, those on \<open>PORT_PING\<close> and \<open>PORT_PING_LOCAL\<close>
  (on \<open>PORT_PING_SRV\<close> the answer has the sender's number in place of the destination's), and two clients of the same
  session secret whose re-ordering buffers hold no packet: a ping that arrives at the peer is answered with exactly
  one datagram, to the address it came from, made of a header with the peer's device number and the matching pong
  port, the time stamp and the address that the ping carried; when it arrives back, the time since
  the sending, as the rounded clock arithmetic gives it, is reported to the ping callback and entered into the
  peer's statistics of this kind of ping.\<close>

theorem ping_roundtrip:
  assumes "seal_length_ok (pl_sodium P)" and "q \<in> {PORT_PING, PORT_PING_LOCAL}"
    and "dbl_ok (pl_fpu P) (time_since_start (pl_fpu P) now sA)"
    and "send_ping K (pl_fpu P) now sA dest destid q = (sA', [d])"
    and "client_ready B msgB" and "\<not> mb_valid (buf1 (cl_sorter B))" and "ov_secret (remote_server B) = ov_secret sA"
    and "client_ready A msgA" and "\<not> mb_valid (buf1 (cl_sorter A))" and "ov_secret (remote_server A) = ov_secret sA"
    and "ov_callerid sA = callerid A" and "callerid A \<noteq> callerid B"
  shows "\<exists>B' msgB' dB. sendsrv_step P eB B msgB (Some (dg_data d, srcA)) = Inr (B', msgB', [To_remote dB]) \<and>
    dB = Dgram srcA (header_bytes (ov_secret sA) (callerid B) (port_code (pong_of q)) 0 @
           dbl_bytes (pl_fpu P) (time_since_start (pl_fpu P) now sA) @ bytes_of_endpoint dest) \<and>
    (\<exists>A' msgA' out. sendsrv_step P eA A msgA (Some (dg_data dB, srcB)) = Inr (A', msgA', out) \<and>
      (let ms = ping_ms (pl_fpu P) (env_now eA) (time_since_start (pl_fpu P) now sA) (remote_server A) in
       if ms > 0 then out = (if has_cb_ping A then [Cb_ping (callerid B) (port_code (pong_of q)) ms srcB] else []) \<and>
         measured q A' (callerid B) = add_value (pl_fpu P) (fl32 (pl_fpu P) ms) (measured q A (callerid B))
       else out = [] \<and> measured q A' (callerid B) = measured q A (callerid B)))"
proof -
  let ?t = "time_since_start (pl_fpu P) now sA"
  let ?body = "dbl_bytes (pl_fpu P) ?t @ bytes_of_endpoint dest"
  have q: "ping_body (pl_fpu P) q destid ?t dest = ?body" using assms(2) by (auto simp: ping_body_def)
  have d: "dg_data d = header_bytes (ov_secret (remote_server B)) (callerid A) (port_code q) 0 @ ?body"
    using send_ping_dgram [OF assms(3), of K dest destid q] assms(4,7,11) by (simp add: q)
  have "length (bytes_of_endpoint dest) = 16" using ep_codec.enc_length [of dest] by (simp add: sizeof_endpoint_def)
  then have len: "HEADERLEN + length ?body \<le> BUFSIZE"
    using assms(3) by (simp add: dbl_ok_def sizeof_double_def buf_bounds)
  have ne: "callerid B \<noteq> callerid A" using assms(12) by simp
  obtain B' msgB' where B: "sendsrv_step P eB B msgB (Some (dg_data d, srcA)) = Inr (B', msgB',
      [To_remote (Dgram srcA (header_bytes (ov_secret (remote_server B)) (callerid B) (port_code (pong_of q)) 0 @ ?body))])"
    using ping_answer [OF assms(1,5,6) len assms(2,12), of eB srcA] unfolding d by blast
  have sec: "ov_secret (remote_server B) = ov_secret (remote_server A)" using assms(7,10) by simp
  show ?thesis unfolding B
    using pong_measured [OF assms(1,8,9,2) ne assms(3), of eA dest srcB] by (auto simp: sec simp flip: assms(7))
qed

theorem ping_roundtrip_witness:
  "\<exists>d B' mB dB A' mA. snd (send_ping (pl_kernel example_platform) exact_fpu 0 (example_socket 12345678 1) zero_endpoint 2 PORT_PING) = [d] \<and>
    sendsrv_step example_platform (example_env 0) (example_client 2 B_PEER2PEER) (msgbuf_ctor zero_endpoint 0)
      (Some (dg_data d, zero_endpoint)) = Inr (B', mB, [To_remote dB]) \<and>
    sendsrv_step example_platform (example_env 5000000) (example_client 1 B_PEER2PEER) (msgbuf_ctor zero_endpoint 0)
      (Some (dg_data dB, zero_endpoint)) = Inr (A', mA, [Cb_ping 2 (port_code PORT_PONG) 5 zero_endpoint])"
proof -
  let ?A = "example_client 1 B_PEER2PEER" and ?B = "example_client 2 B_PEER2PEER" and ?msg = "msgbuf_ctor zero_endpoint 0"
  let ?s = "example_socket 12345678 1"
  have F: "pl_fpu example_platform = exact_fpu" by (simp add: example_platform_def)
  have t0: "time_since_start exact_fpu now (example_socket sec cid) = real_of_int now / 1000000000" for now sec cid
    by (simp add: time_since_start_def exact_fpu_def example_socket_def ovbox_udpsocket_ctor_def udpsocket.extend_def)
  have dbl: "dbl_ok (pl_fpu example_platform) (time_since_start (pl_fpu example_platform) 0 ?s)"
    unfolding F t0 by (simp add: dbl_ok_def exact_fpu_def sizeof_double_def)
  have A: "client_ready ?A ?msg" by (rule example_client_ready(1)) (simp add: MAX_STAGE_ID_def)
  have B: "client_ready ?B ?msg" by (rule example_client_ready(1)) (simp add: MAX_STAGE_ID_def)
  have h: "\<not> mb_valid (buf1 (cl_sorter ?A))" "\<not> mb_valid (buf1 (cl_sorter ?B))" by (simp_all add: msgbuf_ctor_def)
  have eq: "ov_secret (remote_server ?B) = ov_secret ?s" "ov_secret (remote_server ?A) = ov_secret ?s" "ov_callerid ?s = callerid ?A"
    "callerid ?A \<noteq> callerid ?B" by simp_all
  obtain sA' d where p: "send_ping (pl_kernel example_platform) (pl_fpu example_platform) 0 ?s zero_endpoint 2 PORT_PING = (sA', [d])"
    using send_ping_dgram [OF dbl, of "pl_kernel example_platform" zero_endpoint 2 PORT_PING] by (metis prod.collapse)
  have q: "PORT_PING \<in> {PORT_PING, PORT_PING_LOCAL}" by simp
  have ms: "ping_ms exact_fpu 5000000 (time_since_start exact_fpu 0 ?s) ?s = 5"
    unfolding ping_ms_def t0 by (simp add: exact_fpu_def)
  from ping_roundtrip [OF example_platform_ok q dbl p B h(2) eq(1) A h(1) eq(2-4), of "example_env 0" zero_endpoint "example_env 5000000" zero_endpoint]
  show ?thesis using p ms by (fastforce simp: F example_env_def pong_of_def Let_def)
qed

end
