(* ===== verification/Client_Threads.thy ===== *)
theory Client_Threads
  imports Client_Receive
begin

text \<open>
  The client as a whole: its threads (\<open>sendsrv\<close>, \<open>recsrv\<close>, one \<open>xrecsrv\<close> per additional port,
  \<open>pingservice\<close> and \<open>checkstatus\<close>) and the calls of its owner, interleaved turn by turn. A turn is
  one iteration of a loop or one call; each thread has its own buffers. Whatever the order of the
  turns and whatever arrives, no turn faults and the client stays well formed.
\<close>

section \<open>Machines whose steps can fault\<close>

text \<open>Any number of steps, in their order, with what they put out; the first fault ends them.\<close>

fun run_turns :: "('e \<Rightarrow> 's \<Rightarrow> ('s \<times> 'o list) res) \<Rightarrow> 'e list \<Rightarrow> 's \<Rightarrow> ('s \<times> 'o list) res" where
  "run_turns step [] s = Inr (s, [])"
| "run_turns step (t # ts) s =
     bind_res (step t s) (\<lambda>(s1, out1). bind_res (run_turns step ts s1) (\<lambda>(s2, out2). Inr (s2, out1 @ out2)))"

lemma run_turns_append:
  "run_turns step (ts @ us) s =
     bind_res (run_turns step ts s) (\<lambda>(s1, out1). bind_res (run_turns step us s1) (\<lambda>(s2, out2). Inr (s2, out1 @ out2)))"
proof (induction ts arbitrary: s)
  case Nil
  then show ?case by (cases "run_turns step us s") auto
next
  case (Cons t ts)
  show ?case
  proof (cases "step t s")
    case (Inr r)
    then show ?thesis
      by (cases r; cases "run_turns step ts (fst r)"; cases "run_turns step us (fst (projr (run_turns step ts (fst r))))")
        (auto simp: Cons.IH split: prod.splits)
  qed simp
qed

text \<open>Steps that never fault on good input and keep an invariant; outputs that all have a property.\<close>

locale safe_machine =
  fixes step :: "'e \<Rightarrow> 's \<Rightarrow> ('s \<times> 'o list) res" and good :: "'e \<Rightarrow> bool" and inv :: "'s \<Rightarrow> bool"
  assumes step_safe: "good t \<Longrightarrow> inv s \<Longrightarrow> \<exists>s' out. step t s = Inr (s', out) \<and> inv s'"
begin

lemma turns_safe: "\<forall>t\<in>set ts. good t \<Longrightarrow> inv s \<Longrightarrow> \<exists>s' out. run_turns step ts s = Inr (s', out) \<and> inv s'"
proof (induction ts arbitrary: s)
  case (Cons t ts)
  then obtain s1 out1 where "step t s = Inr (s1, out1)" "inv s1" using step_safe [of t s] by auto
  then show ?case using Cons by fastforce
qed simp

lemma turns_prefix:
  assumes "\<forall>t\<in>set (ts @ us). good t" and "inv s"
  shows "\<exists>s1 out1 s2 out2. run_turns step ts s = Inr (s1, out1) \<and> inv s1 \<and> run_turns step us s1 = Inr (s2, out2) \<and>
    run_turns step (ts @ us) s = Inr (s2, out1 @ out2) \<and> inv s2"
proof -
  obtain s1 out1 where 1: "run_turns step ts s = Inr (s1, out1)" "inv s1" using turns_safe [of ts s] assms by auto
  moreover obtain s2 out2 where "run_turns step us s1 = Inr (s2, out2)" "inv s2" using turns_safe [of us s1] assms(1) 1 by auto
  ultimately show ?thesis by (simp add: run_turns_append)
qed

end

section \<open>Turns\<close>

type_synonym arrival = "(byte list \<times> endpoint) option"

text \<open>
  A thread \<open>xrecsrv\<close> first creates its socket; \<open>Open_port\<close> is the outcome. The memory that a new
  entry of the table is made of is the argument of \<open>Checkstatus\<close>.
\<close>

datatype thread_turn =
    Sendsrv env arrival
  | Recsrv arrival
  | Xrecsrv nat arrival
  | Pingservice env
  | Checkstatus "byte list"
  | Getbitrate int
  | Add_port port_t
  | Open_port port_t port_t "err + udpsocket" recbufs
  | Add_proxy resolver stage_device_id_t string
  | Hiresping bool
  | Destroy

text \<open>The client with the local variables of its threads; \<open>cr_running\<close> is the flag \<open>runsession\<close>.\<close>

record client_run =
  cr_client :: ovboxclient
  cr_running :: bool
  cr_msg :: msgbuf
  cr_bufs :: recbufs
  cr_extra :: "(port_t \<times> udpsocket \<times> recbufs) list"
  cr_statcnt :: "32 word"

definition xrecsrv_turn :: "platform \<Rightarrow> nat \<Rightarrow> arrival \<Rightarrow> client_run \<Rightarrow> (client_run \<times> client_output list) res" where
  "xrecsrv_turn P i inp s =
     (let (port, xs, b) = cr_extra s ! i
      in bind_res (xrecsrv_step P port (cr_client s) xs b inp) (\<lambda>(c, xs', b', out).
           Inr (s\<lparr>cr_client := c, cr_extra := (cr_extra s)[i := (port, xs', b')]\<rparr>, map To_remote out)))"

text \<open>
  The loops end when \<open>runsession\<close> is reset. An exception in a thread resets it; the only one that
  can be thrown is that of the socket of a new additional port. The destructor ends the loops too, and with
  its threads go their sockets; the thread \<open>checkstatus\<close> belongs to the base class and goes on until its
  destructor.
\<close>

fun client_turn :: "platform \<Rightarrow> thread_turn \<Rightarrow> client_run \<Rightarrow> (client_run \<times> client_output list) res" where
  "client_turn P (Sendsrv e inp) s =
     (if \<not> cr_running s then Inr (s, [])
      else bind_res (sendsrv_step P e (cr_client s) (cr_msg s) inp) (\<lambda>(c, m, out). Inr (s\<lparr>cr_client := c, cr_msg := m\<rparr>, out)))"
| "client_turn P (Recsrv inp) s =
     (if \<not> cr_running s then Inr (s, [])
      else bind_res (recsrv_step P (cr_client s) (cr_bufs s) inp) (\<lambda>(c, b, out).
             Inr (s\<lparr>cr_client := c, cr_bufs := b\<rparr>, map To_remote out)))"
| "client_turn P (Xrecsrv i inp) s =
     (if \<not> cr_running s \<or> length (cr_extra s) \<le> i then Inr (s, []) else xrecsrv_turn P i inp s)"
| "client_turn P (Pingservice e) s =
     (if \<not> cr_running s then Inr (s, [])
      else bind_res (pingservice_step P e (cr_client s)) (\<lambda>(c, out). Inr (s\<lparr>cr_client := c\<rparr>, map To_remote out)))"
| "client_turn P (Checkstatus junk) s =
     (let (c, cnt, out) = client_check P junk (cr_statcnt s) (cr_client s) in Inr (s\<lparr>cr_client := c, cr_statcnt := cnt\<rparr>, out))"
| "client_turn P (Getbitrate now) s = Inr (s\<lparr>cr_client := snd (getbitrate (pl_fpu P) now (cr_client s))\<rparr>, [])"
| "client_turn P (Add_port p) s = Inr (s\<lparr>cr_client := add_extraport p (cr_client s)\<rparr>, [])"
| "client_turn P (Open_port p dest sock b) s =
     (let s1 = s\<lparr>cr_client := add_receiverport p dest (cr_client s)\<rparr>
      in Inr (case sock of Inl err \<Rightarrow> s1\<lparr>cr_running := False\<rparr> | Inr x \<Rightarrow> s1\<lparr>cr_extra := cr_extra s @ [(dest, x, b)]\<rparr>, []))"
| "client_turn P (Add_proxy R cid host) s =
     Inr (case add_proxy_client R cid host (cr_client s) of Inl err \<Rightarrow> s | Inr c \<Rightarrow> s\<lparr>cr_client := c\<rparr>, [])"
| "client_turn P (Hiresping hr) s = Inr (s\<lparr>cr_client := set_hiresping hr (cr_client s)\<rparr>, [])"
| "client_turn P Destroy s = Inr (s\<lparr>cr_running := False, cr_extra := []\<rparr>, [])"

definition start_run :: "ovboxclient \<Rightarrow> msgbuf \<Rightarrow> recbufs \<Rightarrow> client_run" where
  "start_run c m b = \<lparr>cr_client = c, cr_running = True, cr_msg = m, cr_bufs = b, cr_extra = [], cr_statcnt = stat_rounds (pingperiodms c)\<rparr>"

text \<open>What is required of the inputs: a local datagram leaves room for the header; buffers have their size.\<close>

fun turn_ok :: "thread_turn \<Rightarrow> bool" where
  "turn_ok (Recsrv inp) = (\<forall>d. inp = Some d \<longrightarrow> HEADERLEN + length (fst d) \<le> BUFSIZE)"
| "turn_ok (Xrecsrv i inp) = (\<forall>d. inp = Some d \<longrightarrow> HEADERLEN + length (fst d) \<le> BUFSIZE)"
| "turn_ok (Checkstatus junk) = (length junk = crypto_box_PUBLICKEYBYTES)"
| "turn_ok (Open_port p dest sock b) = recbufs_ok b"
| "turn_ok t = True"

section \<open>The invariant\<close>

definition run_ok :: "client_run \<Rightarrow> bool" where
  "run_ok s \<longleftrightarrow> client_ready (cr_client s) (cr_msg s) \<and> recbufs_ok (cr_bufs s) \<and> (\<forall>(port, xs, b)\<in>set (cr_extra s). recbufs_ok b)"

text \<open>What a client is made of, as far as the invariant sees it.\<close>

definition same_parts :: "ovboxclient \<Rightarrow> ovboxclient \<Rightarrow> bool" where
  "same_parts c c' \<longleftrightarrow> endpoints c' = endpoints c \<and> srv_pubkey c' = srv_pubkey c \<and> callerid c' = callerid c \<and>
     decrypted_msg c' = decrypted_msg c \<and> map fst (proxyclients c') = map fst (proxyclients c) \<and> cl_sorter c' = cl_sorter c"

definition colls_ok :: "ovboxclient \<Rightarrow> bool" where
  "colls_ok c \<longleftrightarrow> (\<forall>i. collector_ok (coll_p2p c i) \<and> collector_ok (coll_srv c i) \<and> collector_ok (coll_local c i))"

lemma ready_parts:
  assumes "client_ready c m" and "same_parts c c'" and "socket_ok (remote_server c')" and "colls_ok c'"
  shows "client_ready c' m"
  using assms by (simp add: client_ready_def client_inv_def same_parts_def colls_ok_def table_ok_def omap_wf_def)

lemma ready_client_ok: "client_ready c m \<Longrightarrow> client_ok c"
  by (simp add: client_ready_def client_inv_def client_ok_def)

lemma ready_socket: "client_ready c m \<Longrightarrow> socket_ok (remote_server c) \<and> colls_ok c"
  by (simp add: client_ready_def client_inv_def colls_ok_def)

lemma same_parts_refl [simp]: "same_parts c c"
  by (simp add: same_parts_def)

text \<open>What is sent and packed keeps the sequence map ordered.\<close>

lemma bump_ok [simp, intro]: "socket_ok s \<Longrightarrow> socket_ok (bump_seq p s)"
  by (simp add: socket_ok_def)

lemma send_ok:
  "send_ep K r buf len ep = (n, r', out) \<Longrightarrow> socket_ok r \<Longrightarrow> socket_ok r'"
  "send_port K r buf len p = (n, r', out) \<Longrightarrow> socket_ok r \<Longrightarrow> socket_ok r'"
  by (auto simp: socket_ok_def dest!: send_ep_frame(2) send_port_frame(2))

lemma packmsg_socket: "ov_packmsg s d n p m k = (buf, len, s') \<Longrightarrow> socket_ok s \<Longrightarrow> socket_ok s'"
  by (auto simp: ov_packmsg_eq Let_def split: prod.splits)

lemma pack_and_send_ok: "pack_and_send K s p m len port = (x, s', out) \<Longrightarrow> socket_ok s \<Longrightarrow> socket_ok s'"
  by (auto simp: pack_and_send_def dest: packmsg_socket send_ok split: prod.splits if_splits)

lemma send_ping_ok: "send_ping K F now s ep i q = (s', out) \<Longrightarrow> socket_ok s \<Longrightarrow> socket_ok s'"
  by (auto simp: send_ping_def Let_def dest: packmsg_socket send_ok split: prod.splits)

lemma registration_ok: "send_registration K v s mode port ep = (s', out) \<Longrightarrow> socket_ok s \<Longrightarrow> socket_ok s'"
  by (auto simp: send_registration_def send_pubkey_port_def Let_def dest!: packmsg_socket send_ok split: prod.splits)

section \<open>Every turn keeps it\<close>

lemma ping_peer_parts:
  assumes "ping_peer P e own i ep c = (c', out)" and "socket_ok (remote_server c)" and "colls_ok c"
  shows "same_parts c c' \<and> socket_ok (remote_server c') \<and> colls_ok c'"
  using assms
  by (auto simp: ping_peer_def same_parts_def colls_ok_def Let_def count_sent_def collector_ok_def dest!: send_ping_ok split: prod.splits if_splits)

lemma same_parts_trans: "same_parts c c1 \<Longrightarrow> same_parts c1 c2 \<Longrightarrow> same_parts c c2"
  by (simp add: same_parts_def)

lemma ping_peers_parts:
  assumes "ping_peers P e own i eps c = (c', out)" and "socket_ok (remote_server c)" and "colls_ok c"
  shows "same_parts c c' \<and> socket_ok (remote_server c') \<and> colls_ok c'"
  using assms
proof (induction eps arbitrary: i c out)
  case (Cons ep eps)
  obtain c1 out1 where 1: "(if ed_timeout ep \<noteq> 0 \<and> i \<noteq> callerid c then ping_peer P e own i ep c else (c, [])) = (c1, out1)" by fastforce
  obtain out2 where 2: "ping_peers P e own (i + 1) eps c1 = (c', out2)" using Cons.prems(1) 1 by (auto split: prod.splits)
  have "same_parts c c1 \<and> socket_ok (remote_server c1) \<and> colls_ok c1"
    using 1 ping_peer_parts [of P e own i ep c c1 out1] Cons.prems(2,3) by (auto split: if_splits)
  then show ?case using Cons.IH [OF 2] same_parts_trans by blast
qed simp

lemma pingservice_ok:
  assumes "client_ready c m"
  shows "\<exists>c' out. pingservice_step P e c = Inr (c', out) \<and> client_ready c' m"
proof -
  obtain r1 out1 where r: "send_registration (pl_kernel P) (pl_version P) (remote_server c) (cl_mode c) (toport c) (localep c) = (r1, out1)"
    by fastforce
  let ?c1 = "c\<lparr>remote_server := r1\<rparr>"
  obtain c2 out2 where p: "ping_peers P e (endpoints c ! unat (callerid c)) 0 (endpoints c) ?c1 = (c2, out2)" by fastforce
  have 1: "socket_ok (remote_server ?c1)" "colls_ok ?c1" "same_parts c ?c1"
    using registration_ok [OF r] ready_socket [OF assms] by (simp_all add: colls_ok_def same_parts_def)
  have "\<not> length (endpoints c) \<le> unat (callerid c)"
    using ready_client_ok [OF assms] by (simp add: client_ok_def table_ok_def)
  then have "pingservice_step P e c = Inr (c2, out1 @ out2)" using r p by (simp add: pingservice_step_def)
  moreover have "client_ready c2 m"
    using ready_parts [OF assms] ping_peers_parts [OF p 1(1,2)] same_parts_trans [OF 1(3)] by blast
  ultimately show ?thesis by blast
qed

lemma announce_parts:
  assumes "announce_latency P c cid = (c', out)" and "socket_ok (remote_server c)" and "colls_ok c"
  shows "same_parts c c' \<and> socket_ok (remote_server c') \<and> colls_ok c'"
  using assms by (auto simp: announce_latency_def same_parts_def colls_ok_def Let_def dest!: pack_and_send_ok split: prod.splits if_splits)

lemma handle_parts:
  assumes "handle_announcements P c as = (c', out)" and "socket_ok (remote_server c)" and "colls_ok c"
  shows "same_parts c c' \<and> socket_ok (remote_server c') \<and> colls_ok c'"
  using assms
proof (induction as arbitrary: c out)
  case (Cons a as)
  obtain c1 out1 where 1: "handle_announcement P c a = (c1, out1)" by fastforce
  obtain out2 where 2: "handle_announcements P c1 as = (c', out2)" using Cons.prems(1) 1 by (auto split: prod.splits)
  have "same_parts c c1 \<and> socket_ok (remote_server c1) \<and> colls_ok c1"
    using 1 Cons.prems(2,3) announce_parts [of P c "ann_cid a" c1 out1] by (cases a) auto
  then show ?case using Cons.IH [OF 2] same_parts_trans by blast
qed simp

lemma checkstatus_more: "endpoint_list.more (snd (snd (checkstatus_round F junk cnt c))) = endpoint_list.more c"
  by (simp add: checkstatus_round_def case_prod_beta Let_def)

lemma client_check_ok:
  assumes "client_ready c m" and "length junk = crypto_box_PUBLICKEYBYTES"
    and "client_check P junk cnt c = (c', cnt', out)"
  shows "client_ready c' m"
proof -
  obtain evs n c1 where r: "checkstatus_round (pl_fpu P) junk cnt c = (evs, n, c1)" by (metis surj_pair)
  have m: "endpoint_list.more c1 = endpoint_list.more c" using checkstatus_more [of "pl_fpu P" junk cnt c] r by simp
  have inv: "client_inv c" using assms(1) by (simp add: client_ready_def)
  then have "table_ok c1" using table_ok_round [OF _ assms(2), of c "pl_fpu P" cnt] r by (simp add: client_inv_def)
  then have "client_inv c1" using client_inv_table [OF inv _ m] by blast
  moreover have "cl_sorter c1 = cl_sorter c" using m by (cases c; cases c1) simp
  ultimately have c1: "client_ready c1 m" using assms(1) by (simp add: client_ready_def)
  obtain out' where "handle_announcements P c1 evs = (c', out')" using assms(3) r by (auto simp: client_check_def split: prod.splits)
  then show ?thesis using handle_parts ready_socket [OF c1] ready_parts [OF c1] by blast
qed

lemma handle_same:
  assumes "handle_announcements P c as = (c', out)"
  shows "same_parts c c'"
  using assms
proof (induction as arbitrary: c out)
  case (Cons a as)
  obtain c1 out1 where 1: "handle_announcement P c a = (c1, out1)" by fastforce
  obtain out2 where 2: "handle_announcements P c1 as = (c', out2)" using Cons.prems(1) 1 by (auto split: prod.splits)
  have "same_parts c c1" using 1 by (cases a) (auto simp: announce_latency_def same_parts_def Let_def split: prod.splits if_splits)
  then show ?case using Cons.IH [OF 2] same_parts_trans by blast
qed simp

text \<open>The senders of local data: \<open>recsrv\<close> by its specification, \<open>xrecsrv\<close> by its own loop.\<close>

lemma recsrv_parts:
  assumes "recsrv_step P c b inp = Inr (c', b', out)"
  shows "same_parts c c' \<and> coll_p2p c' = coll_p2p c \<and> coll_srv c' = coll_srv c \<and> coll_local c' = coll_local c"
  using assms by (auto simp: recsrv_step_def same_parts_def bind_res_Inr_iff Let_def split: prod.splits if_splits)

lemma recvfrom_silent:
  "recvfrom s buf n None = (- 1, s, buf, zero_endpoint\<lparr>sin_family := AF_INET\<rparr>)"
  "recvfrom s buf n (Some ([], src)) = (0, s, buf, src)"
  by (simp_all add: recvfrom_def Let_def)

lemma recsrv_ok:
  assumes S: "seal_length_ok (pl_sodium P)" and c: "client_ready c m" and b: "recbufs_ok b"
    and d: "\<And>d. inp = Some d \<Longrightarrow> HEADERLEN + length (fst d) \<le> BUFSIZE"
  shows "\<exists>c' b' out. recsrv_step P c b inp = Inr (c', b', out) \<and> client_ready c' m \<and> recbufs_ok b'"
proof (cases "\<exists>data src. inp = Some (data, src) \<and> data \<noteq> []")
  case True
  then obtain data src where inp: "inp = Some (data, src)" "0 < length data" by auto
  have len: "HEADERLEN + length data \<le> BUFSIZE" using d inp by simp
  from recsrv_step_ok [OF S ready_client_ok [OF c] b inp(2) len, of src] obtain c' b'
    where step: "recsrv_step P c b inp = Inr (c', b', map (to_dgram (pl_sodium P) (out_header c) data) (routes c))"
      and b': "recbufs_ok b'" and sq: "seqmap (remote_server c') = seqmap (bump_seq (out_port c) (remote_server c))"
    unfolding inp(1) by blast
  have "client_ready c' m"
    using recsrv_parts [OF step] sq ready_socket [OF c] bump_ok [of "remote_server c" "out_port c"]
    by (intro ready_parts [OF c]) (simp_all add: socket_ok_def colls_ok_def)
  with step b' show ?thesis by blast
next
  case False
  then have "inp = None \<or> (\<exists>src. inp = Some ([], src))" by (cases inp) auto
  then have "recsrv_step P c b inp = Inr (c, b, [])" by (auto simp: recsrv_step_def recvfrom_silent)
  then show ?thesis using c b by blast
qed

lemma xrecsrv_peer_ok:
  assumes S: "seal_length_ok (pl_sodium P)" and p: "packed_in msg len hdr data"
    and f: "fanout_ok f" "socket_ok (fo_remote f)" and c: "unat (callerid c) < length (endpoints c)"
  shows "\<exists>f'. xrecsrv_peer P c msg len i ep f = Inr f' \<and> fanout_ok f' \<and> socket_ok (fo_remote f')"
proof -
  have cm: "length (fo_cmsg f) = BUFSIZE + crypto_box_SEALBYTES" using f(1) by (simp add: fanout_ok_def)
  obtain d n where e: "encryptmsg (pl_sodium P) (fo_cmsg f) BUFSIZE msg len (pubkey ep) = Inr (d, n)"
    "length d = BUFSIZE + crypto_box_SEALBYTES" using encrypt_wire [OF S p cm, of "pubkey ep"] by blast
  have send: "fanout_ok (fanout_send P buf k dest g) \<and> socket_ok (fo_remote (fanout_send P buf k dest g))"
    if "fanout_ok g" "socket_ok (fo_remote g)" for buf k dest g
    using that send_ok(1) [of "pl_kernel P" "fo_remote g" buf k dest]
    by (auto simp: fanout_send_def fanout_ok_def split: prod.split)
  have g: "fanout_ok (f\<lparr>fo_cmsg := d\<rparr>)" "socket_ok (fo_remote (f\<lparr>fo_cmsg := d\<rparr>))" using e(2) f(2) by (simp_all add: fanout_ok_def)
  have srv: "fanout_ok (g\<lparr>fo_server := True\<rparr>) = fanout_ok g" for g by (simp add: fanout_ok_def)
  show ?thesis
    using c f g e(1) send [OF f] send [OF g] by (simp add: xrecsrv_peer_def srv)
qed

lemma xrecsrv_peers_ok:
  assumes "seal_length_ok (pl_sodium P)" and "packed_in msg len hdr data"
    and "fanout_ok f" and "socket_ok (fo_remote f)" and "unat (callerid c) < length (endpoints c)"
  shows "\<exists>f'. xrecsrv_peers P c msg len i eps f = Inr f' \<and> fanout_ok f' \<and> socket_ok (fo_remote f')"
  using assms(3,4)
proof (induction eps arbitrary: i f)
  case (Cons ep eps)
  then obtain f1 where "xrecsrv_peer P c msg len i ep f = Inr f1" "fanout_ok f1" "socket_ok (fo_remote f1)"
    using xrecsrv_peer_ok [OF assms(1,2) _ _ assms(5)] by blast
  then show ?case using Cons.IH by simp
qed simp

lemma xrecsrv_ok:
  assumes S: "seal_length_ok (pl_sodium P)" and c: "client_ready c m" and b: "recbufs_ok b"
    and d: "\<And>d. inp = Some d \<Longrightarrow> HEADERLEN + length (fst d) \<le> BUFSIZE"
  shows "\<exists>c' xs' b' out. xrecsrv_step P port c xs b inp = Inr (c', xs', b', out) \<and> client_ready c' m \<and> recbufs_ok b'"
proof (cases "\<exists>data src. inp = Some (data, src) \<and> data \<noteq> []")
  case True
  then obtain data src where inp: "inp = Some (data, src)" "0 < length data" by auto
  have len: "HEADERLEN + length data \<le> BUFSIZE" using d inp by simp
  have bl: "length (rb_buffer b) = BUFSIZE" "length (rb_msg b) = BUFSIZE"
    "length (rb_cmsg b) = BUFSIZE + crypto_box_SEALBYTES" using b by (simp_all add: recbufs_ok_def)
  let ?buf = "data @ drop (length data) (rb_buffer b)"
  let ?hdr = "header_bytes (ov_secret (remote_server c)) (ov_callerid (remote_server c)) port (next_seq (remote_server c) port)"
  obtain l1 where rv: "recvfrom xs (rb_buffer b) BUFSIZE inp = (int (length data), l1, ?buf, src)"
    using recvfrom_Some [of data BUFSIZE "rb_buffer b" xs src] inp len bl by auto
  define msg where "msg = ?hdr @ data @ drop (HEADERLEN + length data) (rb_msg b)"
  define r1 where "r1 = bump_seq port (remote_server c)"
  have pk: "ov_packmsg (remote_server c) (rb_msg b) BUFSIZE port ?buf (length data) = (msg, HEADERLEN + length data, r1)"
    using len bl by (simp add: ov_packmsg_ok msg_def r1_def)
  have p: "packed_in msg (HEADERLEN + length data) ?hdr data" using len bl by (simp add: packed_in_def msg_def)
  let ?p2p = "has_mode (cl_mode c) B_PEER2PEER"
  define f0 where "f0 = \<lparr>fo_remote = r1, fo_cmsg = rb_cmsg b, fo_out = [], fo_total = 0, fo_encrypted = 0, fo_server = \<not> ?p2p\<rparr>"
  have f0: "fanout_ok f0" "socket_ok (fo_remote f0)" using bl ready_socket [OF c] by (simp_all add: f0_def fanout_ok_def r1_def)
  have cid: "unat (callerid c) < length (endpoints c)" using ready_client_ok [OF c] by (simp add: client_ok_def table_ok_def)
  obtain f1 where f1: "(if ?p2p then xrecsrv_peers P c msg (HEADERLEN + length data) 0 (endpoints c) f0 else Inr f0) = Inr f1"
    "fanout_ok f1" "socket_ok (fo_remote f1)"
    using xrecsrv_peers_ok [OF S p f0 cid, of 0 "endpoints c"] f0 by (cases ?p2p) auto
  obtain r2 out where r2: "(if fo_server f1
      then (let (k, r2, out) = send_port (pl_kernel P) (fo_remote f1) msg (HEADERLEN + length data) (toport c) in (r2, out))
      else (fo_remote f1, [])) = (r2, out)" by fastforce
  have "socket_ok r2" using r2 f1(3) send_ok(2) by (auto split: if_splits prod.splits)
  then have c': "client_ready (c\<lparr>remote_server := r2\<rparr>) m"
    using ready_socket [OF c] by (intro ready_parts [OF c]) (simp_all add: same_parts_def colls_ok_def)
  have sel: "rb_msg (b\<lparr>rb_buffer := x\<rparr>) = rb_msg b" "rb_cmsg (b\<lparr>rb_buffer := x\<rparr>) = rb_cmsg b" for x by simp_all
  have "xrecsrv_step P port c xs b inp =
      Inr (c\<lparr>remote_server := r2\<rparr>, l1, b\<lparr>rb_buffer := ?buf, rb_msg := msg, rb_cmsg := fo_cmsg f1\<rparr>, fo_out f1 @ out)"
    unfolding xrecsrv_step_def rv Let_def prod.case sel nat_int pk f0_def [symmetric] f1 bind_res.simps r2 [unfolded Let_def]
    using inp(2) by simp
  moreover have "recbufs_ok (b\<lparr>rb_buffer := ?buf, rb_msg := msg, rb_cmsg := fo_cmsg f1\<rparr>)"
    using bl len f1(2) by (simp add: recbufs_ok_def msg_def fanout_ok_def)
  ultimately show ?thesis using c' by blast
next
  case False
  then have "inp = None \<or> (\<exists>src. inp = Some ([], src))" by (cases inp) auto
  then have "xrecsrv_step P port c xs b inp = Inr (c, xs, b, [])" by (auto simp: xrecsrv_step_def recvfrom_silent)
  then show ?thesis using c b by blast
qed

lemma client_turn_ok:
  assumes S: "seal_length_ok (pl_sodium P)" and t: "turn_ok t" and s: "run_ok s"
  shows "\<exists>s' out. client_turn P t s = Inr (s', out) \<and> run_ok s'"
proof -
  have c: "client_ready (cr_client s) (cr_msg s)" and b: "recbufs_ok (cr_bufs s)"
    and x: "\<forall>(port, xs, b)\<in>set (cr_extra s). recbufs_ok b" using s by (auto simp: run_ok_def)
  have kept: "run_ok (s\<lparr>cr_client := c'\<rparr>)" if "client_ready c' (cr_msg s)" for c' using that s by (simp add: run_ok_def)
  have set: "client_ready c' (cr_msg s)" if "same_parts (cr_client s) c'" "remote_server c' = remote_server (cr_client s)"
    "coll_p2p c' = coll_p2p (cr_client s)" "coll_srv c' = coll_srv (cr_client s)" "coll_local c' = coll_local (cr_client s)" for c'
    using that ready_socket [OF c] by (intro ready_parts [OF c]) (simp_all add: colls_ok_def)
  show ?thesis
  proof (cases t)
    case (Sendsrv e inp)
    then show ?thesis using sendsrv_step_ok [OF S c, of e inp] s by (fastforce simp: run_ok_def)
  next
    case (Recsrv inp)
    then show ?thesis using recsrv_ok [OF S c b, of inp] t s by (fastforce simp: run_ok_def)
  next
    case (Xrecsrv i inp)
    show ?thesis
    proof (cases "cr_running s \<and> i < length (cr_extra s)")
      case True
      obtain port xs rb where e: "cr_extra s ! i = (port, xs, rb)" by (metis surj_pair)
      then have rb: "recbufs_ok rb" using x True nth_mem [of i "cr_extra s"] by fastforce
      obtain c' xs' b' out where "xrecsrv_step P port (cr_client s) xs rb inp = Inr (c', xs', b', out)"
        "client_ready c' (cr_msg s)" "recbufs_ok b'"
        using xrecsrv_ok [OF S c rb, of inp port xs] t Xrecsrv by auto
      moreover from this have "run_ok (s\<lparr>cr_client := c', cr_extra := (cr_extra s)[i := (port, xs', b')]\<rparr>)"
        using b x by (auto simp: run_ok_def dest!: set_update_subset_insert [THEN subsetD])
      ultimately show ?thesis using True e Xrecsrv by (simp add: xrecsrv_turn_def)
    qed (use s Xrecsrv in auto)
  next
    case (Pingservice e)
    then show ?thesis using pingservice_ok [OF c, of P e] s by (fastforce simp: run_ok_def)
  next
    case (Checkstatus junk)
    obtain c' cnt out where k: "client_check P junk (cr_statcnt s) (cr_client s) = (c', cnt, out)" by (metis surj_pair)
    then show ?thesis using client_check_ok [OF c _ k] t b x Checkstatus by (simp add: run_ok_def)
  next
    case (Getbitrate now)
    have "client_ready (snd (getbitrate (pl_fpu P) now (cr_client s))) (cr_msg s)"
      by (rule set) (simp_all add: getbitrate_def same_parts_def Let_def)
    then show ?thesis using kept Getbitrate by simp
  next
    case (Add_port p)
    have "client_ready (add_extraport p (cr_client s)) (cr_msg s)" by (rule set) (simp_all add: add_extraport_def same_parts_def)
    then show ?thesis using kept Add_port by simp
  next
    case (Open_port p dest sock rb)
    have "client_ready (add_receiverport p dest (cr_client s)) (cr_msg s)"
      by (rule set) (simp_all add: add_receiverport_def same_parts_def)
    then show ?thesis using t b x Open_port by (auto simp: run_ok_def Let_def split: sum.split)
  next
    case (Add_proxy R cid host)
    have "client_ready c' (cr_msg s)" if "add_proxy_client R cid host (cr_client s) = Inr c'" for c'
      using that c by (auto simp: add_proxy_client_def client_ready_def client_inv_def table_ok_def split: sum.splits)
    then show ?thesis using kept s Add_proxy by (auto split: sum.split)
  next
    case (Hiresping hr)
    have "client_ready (set_hiresping hr (cr_client s)) (cr_msg s)" by (rule set) (simp_all add: set_hiresping_def same_parts_def)
    then show ?thesis using kept Hiresping by simp
  next
    case Destroy
    then show ?thesis using c b by (simp add: run_ok_def)
  qed
qed

text \<open>The turns of a client are such a machine; its inputs are good on a platform with sealed boxes of the documented size.\<close>

interpretation client_machine: safe_machine "client_turn P" "\<lambda>t. seal_length_ok (pl_sodium P) \<and> turn_ok t" run_ok for P
  using client_turn_ok by unfold_locales blast

section \<open>A client that was just constructed\<close>

lemma set_destination_seqmap:
  "set_destination R host (s :: ovbox_udpsocket) = Inr s' \<Longrightarrow> socket_ok s' = socket_ok s \<and> ov_callerid s' = ov_callerid s \<and> ov_secret s' = ov_secret s"
  by (auto simp: set_destination_def socket_ok_def ovgethostbyname_def bind_err_Inr_iff Let_def split: sum.splits)

lemma ctor_socket: "socket_ok (ovbox_udpsocket_ctor r sec cid now keys)"
  by (simp add: ovbox_udpsocket_ctor_def socket_ok_def udpsocket.extend_def)

lemma ctor_not_valid: "\<not> mb_valid (msgbuf_ctor src t)"
  by (simp add: msgbuf_ctor_def)

lemma sorter_ctor_ok: "msgbuf_ok m \<Longrightarrow> \<not> mb_valid m \<Longrightarrow> msgbuf_ok ext \<Longrightarrow> sorter_ok (sorter_ctor m m) \<and> bufs_ok (sorter_ctor m m) ext"
  by (simp add: sorter_ok_def quiet_def sorter_ctor_def bufs_ok_def)

lemma ctor_ready:
  assumes "ovboxclient_ctor F U g = Inr c" and "length (su_junk U) = crypto_box_PUBLICKEYBYTES"
    and "unat (cfg_callerid g) < MAX_STAGE_ID" and "msgbuf_ok m"
  shows "client_ready c m"
proof -
  have so: "sorter_ok (sorter_ctor (msgbuf_ctor zero_endpoint t) (msgbuf_ctor zero_endpoint t))"
    "bufs_ok (sorter_ctor (msgbuf_ctor zero_endpoint t) (msgbuf_ctor zero_endpoint t)) m" for t
    using sorter_ctor_ok [OF msgbuf_ok_ctor _ assms(4), of zero_endpoint t] by (simp_all add: ctor_not_valid)
  have t: "table_ok (endpoint_list_ctor (su_junk U))" using assms(2) by simp
  obtain r0 r1 x where r: "set_destination (su_resolver U) x (ovbox_udpsocket_ctor r0 (cfg_secret g) (cfg_callerid g) (su_now U) (su_keys U)) = Inr r1"
    and c: "remote_server c = r1" "callerid c = cfg_callerid g" "proxyclients c = []" "decrypted_msg c = msgbuf_ctor zero_endpoint (su_now U)"
      "cl_sorter c = sorter_ctor (msgbuf_ctor zero_endpoint (su_now U)) (msgbuf_ctor zero_endpoint (su_now U))"
      "endpoints c = endpoints (endpoint_list_ctor (su_junk U))" "srv_pubkey c = srv_pubkey (endpoint_list_ctor (su_junk U))"
      "coll_p2p c = (\<lambda>_. collector_ctor default_window)" "coll_srv c = (\<lambda>_. collector_ctor default_window)"
      "coll_local c = (\<lambda>_. collector_ctor default_window)"
    using assms(1) by (auto simp: ovboxclient_ctor_def bind_err_Inr_iff Let_def endpoint_list.extend_def)
  have "table_ok c" using t c(6,7) by (simp add: table_ok_def)
  moreover have "socket_ok r1" using set_destination_seqmap [OF r] ctor_socket by simp
  ultimately show ?thesis using c(1-5,8-10) so assms(3) by (simp add: client_ready_def client_inv_def default_window_def)
qed

section \<open>After a failed receiver\<close>

fun is_check :: "thread_turn \<Rightarrow> bool" where
  "is_check (Checkstatus junk) = True"
| "is_check t = False"

text \<open>What the check of the table puts out: lines on the console, reports to the callback, and messages
  with the statistics of a peer; \<open>r\<close> is the socket that they are sent with.\<close>

fun status_output :: "ovbox_udpsocket \<Rightarrow> client_output \<Rightarrow> bool" where
  "status_output r (To_remote d) \<longleftrightarrow>
     take HEADERLEN (dg_data d) = header_bytes (ov_secret r) (ov_callerid r) (port_code PORT_PEERLATREP) 0"
| "status_output r (To_local d) \<longleftrightarrow> False"
| "status_output r (Cb_ping cid p t ep) \<longleftrightarrow> False"
| "status_output r (Cb_latreport cid kind ps) \<longleftrightarrow> True"
| "status_output r (Log_line p l) \<longleftrightarrow> True"

definition same_session :: "ovbox_udpsocket \<Rightarrow> ovbox_udpsocket \<Rightarrow> bool" where
  "same_session r r' \<longleftrightarrow> rx_bytes r' = rx_bytes r \<and> ov_secret r' = ov_secret r \<and> ov_callerid r' = ov_callerid r"

lemma same_session_refl [simp]: "same_session r r"
  by (simp add: same_session_def)

lemma same_session_trans: "same_session r r1 \<Longrightarrow> same_session r1 r2 \<Longrightarrow> same_session r r2"
  by (simp add: same_session_def)

lemma status_output_session: "same_session r r' \<Longrightarrow> status_output r' = status_output r"
proof
  fix x assume "same_session r r'"
  then show "status_output r' x = status_output r x" by (cases x) (simp_all add: same_session_def)
qed

lemma packmsg_header:
  "HEADERLEN \<le> length d \<Longrightarrow> snd (packmsg d n sec cid p sq msg k) \<noteq> 0 \<Longrightarrow>
   take HEADERLEN (fst (packmsg d n sec cid p sq msg k)) = header_bytes sec cid p sq \<and> HEADERLEN \<le> snd (packmsg d n sec cid p sq msg k)"
  by (simp add: packmsg_def set_header_fields blit_def split: if_splits)

lemma pack_and_send_status:
  assumes "pack_and_send K r (port_code PORT_PEERLATREP) msg k port = (ok, r', out)"
  shows "same_session r r' \<and> (\<forall>d\<in>set out. status_output r (To_remote d))"
proof -
  let ?p = "port_code PORT_PEERLATREP"
  have sq: "next_seq r ?p = 0" by (simp add: next_seq_def MAXSPECIALPORT_def special_ports_def)
  obtain buf n where p: "packmsg (replicate BUFSIZE 0) BUFSIZE (ov_secret r) (ov_callerid r) ?p 0 msg k = (buf, n)" by fastforce
  have "HEADERLEN \<le> length (replicate BUFSIZE (0 :: byte))" by (simp add: buf_bounds)
  from packmsg_header [OF this, of BUFSIZE "ov_secret r" "ov_callerid r" ?p 0 msg k]
  have h: "take HEADERLEN buf = header_bytes (ov_secret r) (ov_callerid r) ?p 0 \<and> HEADERLEN \<le> n" if "n \<noteq> 0"
    using that unfolding p by simp
  show ?thesis using assms h unfolding pack_and_send_def ov_packmsg_eq sq p
    by (auto simp: send_port_def udp_count_tx_def same_session_def bump_seq_def Let_def simp del: port_code.simps split: if_splits)
qed

lemma latency_lines_status: "x \<in> set (latency_lines P c cid kind ps) \<Longrightarrow> status_output r x"
  by (auto simp: latency_lines_def split: if_splits)

lemma announce_status:
  assumes "announce_latency P c cid = (c', out)"
  shows "local_server c' = local_server c \<and> same_session (remote_server c) (remote_server c') \<and>
    (\<forall>x\<in>set out. status_output (remote_server c) x)"
proof (cases "cid = callerid c")
  case False
  let ?st = "update_client_stats (pl_fpu P) cid c (stats_announce c cid)"
  let ?data = "concat (map (dbl_bytes (pl_fpu P)) [real (unat cid), t_min (cs_ping_p2p ?st), t_med (cs_ping_p2p ?st), t_p99 (cs_ping_p2p ?st),
    fl (pl_fpu P) (real (unat (ps_received (cs_ping_p2p ?st)))), fl (pl_fpu P) (real (unat (ps_lost (cs_ping_p2p ?st))))])"
  obtain sent rs o1 where ps: "pack_and_send (pl_kernel P) (remote_server c) (port_code PORT_PEERLATREP) ?data (6 * sizeof_double) (toport c) = (sent, rs, o1)"
    by (metis surj_pair)
  let ?c1 = "c\<lparr>stats_announce := (stats_announce c)(cid := ?st)\<rparr>"
  have 1: "remote_server c' = rs" "local_server c' = local_server c"
    using assms False ps by (auto simp: announce_latency_def Let_def simp del: port_code.simps)
  have 2: "out = Log_line (recport c) (''packages '' @ show_cid cid @ '' '' @ message_stat_to_string (pl_fmt2 P) (pl_fpu P) (cs_packages ?st)) #
      latency_lines P ?c1 cid ''p2p'' (cs_ping_p2p ?st) @ latency_lines P ?c1 cid ''srv'' (cs_ping_srv ?st) @
      latency_lines P ?c1 cid ''loc'' (cs_ping_loc ?st) @ map To_remote o1"
    using assms False ps by (simp add: announce_latency_def Let_def del: port_code.simps)
  have 3: "same_session (remote_server c) rs" "\<And>d. d \<in> set o1 \<Longrightarrow> status_output (remote_server c) (To_remote d)"
    using pack_and_send_status [OF ps] by blast+
  have "status_output (remote_server c) x" if "x \<in> set out" for x
  proof -
    from that consider (log) p l where "x = Log_line p l" | (lines) kind ps where "x \<in> set (latency_lines P ?c1 cid kind ps)"
      | (sent) d where "x = To_remote d" "d \<in> set o1"
      unfolding 2 set_append list.set(2) set_map by blast
    then show ?thesis
    proof cases
      case log
      then show ?thesis by simp
    next
      case lines
      then show ?thesis by (rule latency_lines_status)
    next
      case sent
      then show ?thesis using 3(2) by blast
    qed
  qed
  then show ?thesis using 1 3(1) by blast
qed (use assms in \<open>simp add: announce_latency_def\<close>)

lemma handle_status:
  assumes "handle_announcements P c as = (c', out)"
  shows "local_server c' = local_server c \<and> same_session (remote_server c) (remote_server c') \<and>
    (\<forall>x\<in>set out. status_output (remote_server c) x)"
  using assms
proof (induction as arbitrary: c out)
  case (Cons a as)
  obtain c1 out1 where 1: "handle_announcement P c a = (c1, out1)" by fastforce
  obtain out2 where 2: "handle_announcements P c1 as = (c', out2)" "out = out1 @ out2" using Cons.prems 1 by (auto split: prod.splits)
  have "local_server c1 = local_server c \<and> same_session (remote_server c) (remote_server c1) \<and>
      (\<forall>x\<in>set out1. status_output (remote_server c) x)"
    using 1 announce_status [of P c "ann_cid a" c1 out1]
    by (cases a) (auto simp: announce_new_connection_def announce_connection_lost_def split: if_splits)
  then have h: "local_server c1 = local_server c" "same_session (remote_server c) (remote_server c1)"
    "\<forall>x\<in>set out1. status_output (remote_server c) x" by blast+
  then show ?case using Cons.IH [OF 2(1)] same_session_trans [OF h(2)]
    unfolding 2(2) set_append status_output_session [OF h(2)] by (metis Un_iff)
qed simp

text \<open>The effect of the later turns, up to the peers' entries.\<close>

definition stays_stopped :: "client_run \<Rightarrow> client_run \<Rightarrow> client_output list \<Rightarrow> bool" where
  "stays_stopped s s' out \<longleftrightarrow> \<not> cr_running s' \<and> cr_msg s' = cr_msg s \<and> cr_bufs s' = cr_bufs s \<and>
     cl_sorter (cr_client s') = cl_sorter (cr_client s) \<and> local_server (cr_client s') = local_server (cr_client s) \<and>
     same_session (remote_server (cr_client s)) (remote_server (cr_client s')) \<and>
     (\<forall>x\<in>set out. status_output (remote_server (cr_client s)) x)"

lemma stays_stopped_trans:
  assumes "stays_stopped s s1 out1" and "stays_stopped s1 s2 out2"
  shows "stays_stopped s s2 (out1 @ out2)"
proof -
  have h: "same_session (remote_server (cr_client s)) (remote_server (cr_client s1))" using assms(1) by (simp add: stays_stopped_def)
  show ?thesis using assms same_session_trans [OF h]
    unfolding stays_stopped_def set_append status_output_session [OF h] by (metis Un_iff)
qed

definition life_of :: "client_run \<Rightarrow> stage_device_id_t \<Rightarrow> nat \<times> bool" where
  "life_of s cid = life (endpoints (cr_client s) ! unat cid)"

lemma stopped_turn:
  assumes "\<not> is_check t" and "\<not> cr_running s"
  shows "\<exists>s'. client_turn P t s = Inr (s', []) \<and> stays_stopped s s' [] \<and> life_of s' = life_of s \<and>
    (table_ok (cr_client s) \<longrightarrow> table_ok (cr_client s'))"
  using assms
  by (cases t)
    (auto simp: getbitrate_def add_extraport_def add_receiverport_def add_proxy_client_def set_hiresping_def stays_stopped_def
      life_of_def table_ok_def Let_def split: sum.split)

lemma stopped_check:
  assumes "length junk = crypto_box_PUBLICKEYBYTES" and "\<not> cr_running s" and "table_ok (cr_client s)"
  shows "\<exists>s' out. client_turn P (Checkstatus junk) s = Inr (s', out) \<and> stays_stopped s s' out \<and> table_ok (cr_client s') \<and>
    (\<forall>cid. unat cid < MAX_STAGE_ID \<longrightarrow> life_of s' cid = snd (life_tick (life_of s cid)))"
proof -
  let ?c = "cr_client s"
  obtain evs cnt c1 where r: "checkstatus_round (pl_fpu P) junk (cr_statcnt s) ?c = (evs, cnt, c1)" by (metis surj_pair)
  obtain c2 out where h: "handle_announcements P c1 evs = (c2, out)" by fastforce
  have t: "client_turn P (Checkstatus junk) s = Inr (s\<lparr>cr_client := c2, cr_statcnt := cnt\<rparr>, out)"
    using r h by (simp add: client_check_def)
  have m: "endpoint_list.more c1 = endpoint_list.more ?c" using checkstatus_more [of "pl_fpu P" junk "cr_statcnt s" ?c] r by simp
  then have same: "local_server c1 = local_server ?c" "remote_server c1 = remote_server ?c" "cl_sorter c1 = cl_sorter ?c"
    by (cases c1; cases ?c; simp)+
  have ok: "table_ok c1" using table_ok_round [OF assms(3,1), of "pl_fpu P" "cr_statcnt s"] r by simp
  have parts: "endpoints c2 = endpoints c1" "srv_pubkey c2 = srv_pubkey c1" "cl_sorter c2 = cl_sorter c1"
    using handle_same [OF h] by (simp_all add: same_parts_def)
  have "life (endpoints c1 ! unat cid) = snd (life_tick (life (endpoints ?c ! unat cid)))"
    if "unat cid < MAX_STAGE_ID" for cid :: stage_device_id_t
    using checkstatus_round_ep(2) [OF assms(3) that, of "pl_fpu P" junk "cr_statcnt s"] r
      round_ep_life [of "endpoints ?c ! unat cid" "pl_fpu P" junk "cr_statcnt s" cid] by simp
  then show ?thesis using t assms(2) parts same ok handle_status [OF h]
    by (simp add: stays_stopped_def life_of_def table_ok_def)
qed

lemma stopped_turns:
  assumes "\<forall>t\<in>set ts. \<forall>junk. t = Checkstatus junk \<longrightarrow> length junk = crypto_box_PUBLICKEYBYTES"
    and "\<not> cr_running s" and "table_ok (cr_client s)"
  shows "\<exists>s' out. run_turns (client_turn P) ts s = Inr (s', out) \<and> stays_stopped s s' out \<and> table_ok (cr_client s') \<and>
    (\<forall>cid. unat cid < MAX_STAGE_ID \<longrightarrow> life_of s' cid = snd (life_ticks (length (filter is_check ts)) (life_of s cid)))"
  using assms
proof (induction ts arbitrary: s)
  case Nil
  then show ?case by (simp add: stays_stopped_def)
next
  case (Cons t ts)
  obtain s1 out1 where 1: "client_turn P t s = Inr (s1, out1)" "stays_stopped s s1 out1" "table_ok (cr_client s1)"
    "\<forall>cid. unat cid < MAX_STAGE_ID \<longrightarrow> life_of s1 cid = (if is_check t then snd (life_tick (life_of s cid)) else life_of s cid)"
  proof (cases "is_check t")
    case True
    then obtain junk where "t = Checkstatus junk" by (cases t) auto
    then show ?thesis using that stopped_check [of junk s P] Cons.prems True by auto
  next
    case False
    then show ?thesis using that stopped_turn [of t s P] Cons.prems by auto
  qed
  from 1(2) have "\<not> cr_running s1" by (simp add: stays_stopped_def)
  then obtain s2 out2 where 2: "run_turns (client_turn P) ts s1 = Inr (s2, out2)" "stays_stopped s1 s2 out2" "table_ok (cr_client s2)"
    "\<forall>cid. unat cid < MAX_STAGE_ID \<longrightarrow> life_of s2 cid = snd (life_ticks (length (filter is_check ts)) (life_of s1 cid))"
    using Cons.IH [of s1] Cons.prems(1) 1(3) by auto
  have "run_turns (client_turn P) (t # ts) s = Inr (s2, out1 @ out2)" using 1(1) 2(1) by simp
  moreover have "snd (life_ticks (length (filter is_check (t # ts))) (life_of s cid)) = life_of s2 cid" if "unat cid < MAX_STAGE_ID" for cid
    using 1(4) 2(4) that by (simp add: case_prod_beta)
  ultimately show ?case using stays_stopped_trans [OF 1(2) 2(2)] 2(3) by auto
qed

section \<open>Properties\<close>

text \<open>C3. The client never faults: from its construction with the number of a device, in every interleaving of the
  turns of its threads and the calls of its owner, with any datagrams from outside and local ones that leave
  room for the header, every turn returns, no access leaves its buffer, and the client and the
  buffers of all threads stay well formed.\<close>

theorem client_threads_safe:
  assumes "seal_length_ok (pl_sodium P)" and "ovboxclient_ctor F U g = Inr c" and "length (su_junk U) = crypto_box_PUBLICKEYBYTES"
    and "unat (cfg_callerid g) < MAX_STAGE_ID" and "recbufs_ok b" and "\<forall>t\<in>set ts. turn_ok t"
  shows "\<exists>s out. run_turns (client_turn P) ts (start_run c (msgbuf_ctor zero_endpoint now) b) = Inr (s, out) \<and>
    client_ready (cr_client s) (cr_msg s) \<and> recbufs_ok (cr_bufs s) \<and> (\<forall>(port, xs, b)\<in>set (cr_extra s). recbufs_ok b)"
proof -
  have "run_ok (start_run c (msgbuf_ctor zero_endpoint now) b)"
    using ctor_ready [OF assms(2-4) msgbuf_ok_ctor] assms(5) by (simp add: run_ok_def start_run_def)
  with client_machine.turns_safe [of ts P] assms(1,6) show ?thesis unfolding run_ok_def by blast
qed

definition example_setup0 :: client_setup where
  "example_setup0 =
     \<lparr>su_remote = Inr example_udp, su_local = Inr example_udp, su_resolver = (\<lambda>_. Inr 0x0100007f), su_bind = (\<lambda>s p l. Inr p),
      su_connect = (\<lambda>e p. Inr p), su_ipaddr = zero_endpoint, su_sockep = zero_endpoint, su_keys = (replicate 32 1, replicate 32 2),
      su_now = 0, su_junk = zero_key\<rparr>"

definition example_config :: "stage_device_id_t \<Rightarrow> client_config" where
  "example_config cid =
     \<lparr>cfg_desthost = ''relay'', cfg_destport = 4464, cfg_recport = 9876, cfg_portoffset = 0, cfg_secret = 12345678, cfg_callerid = cid,
      cfg_peer2peer = True, cfg_donotsend = False, cfg_receivedownmix = False, cfg_sendlocal = True, cfg_deadline = 5,
      cfg_senddownmix = False, cfg_usingproxy = False, cfg_use_tcp_tunnel = False, cfg_encryption = True\<rparr>"

definition example_turns :: "thread_turn list" where
  "example_turns =
     [Pingservice (example_env 0), Recsrv (Some ([1, 2, 3], zero_endpoint)), Sendsrv (example_env 5) (Some (header_bytes 12345678 2 4464 8 @ [9], zero_endpoint)),
      Open_port 4000 4001 (Inr example_udp) example_bufs, Xrecsrv 0 (Some ([7], zero_endpoint)), Checkstatus zero_key]"

lemma example_constructed: "\<exists>c. ovboxclient_ctor exact_fpu example_setup0 (example_config cid) = Inr c"
  by (simp add: ovboxclient_ctor_def example_setup0_def example_config_def set_destination_def ovgethostbyname_def Let_def)

theorem client_threads_safe_witness:
  "\<exists>c s out. ovboxclient_ctor exact_fpu example_setup0 (example_config 3) = Inr c \<and>
     run_turns (client_turn example_platform) example_turns (start_run c (msgbuf_ctor zero_endpoint 0) example_bufs) = Inr (s, out) \<and>
     client_ready (cr_client s) (cr_msg s)"
proof -
  obtain c where c: "ovboxclient_ctor exact_fpu example_setup0 (example_config 3) = Inr c" using example_constructed by blast
  have j: "length (su_junk example_setup0) = crypto_box_PUBLICKEYBYTES" by (simp add: example_setup0_def)
  have i: "unat (cfg_callerid (example_config 3)) < MAX_STAGE_ID" by (simp add: example_config_def MAX_STAGE_ID_def)
  have t: "\<forall>t\<in>set example_turns. turn_ok t" by (simp add: example_turns_def buf_bounds)
  from client_threads_safe [OF example_platform_ok c j i example_bufs_ok t] c show ?thesis by blast
qed

text \<open>C27. An additional port that cannot be opened ends the session without a notice. The exception of its thread stops
  the loops of all other threads, so whatever is called or arrives from then on, in any order, every turn returns and
  nothing that arrives is read or handled: the buffers, the sorter, the local socket and the received bytes stay as
  they were. Only the check of the table goes on: all that is put out are its lines, its reports to the callback and
  its messages with the statistics of a peer, so no ping, no registration and no data. Each check counts every
  peer down, and after as many checks as its timeout says, plus one, a peer is no longer connected.\<close>

theorem receiver_failure_stops:
  assumes "client_turn P (Open_port p dest (Inl err) b) s = Inr (s1, out1)" and "table_ok (cr_client s)"
    and "\<forall>t\<in>set ts. \<forall>junk. t = Checkstatus junk \<longrightarrow> length junk = crypto_box_PUBLICKEYBYTES"
  shows "out1 = [] \<and> (\<exists>s2 out. run_turns (client_turn P) ts s1 = Inr (s2, out) \<and> \<not> cr_running s2 \<and>
    cr_msg s2 = cr_msg s \<and> cr_bufs s2 = cr_bufs s \<and> cl_sorter (cr_client s2) = cl_sorter (cr_client s) \<and>
    local_server (cr_client s2) = local_server (cr_client s) \<and>
    rx_bytes (remote_server (cr_client s2)) = rx_bytes (remote_server (cr_client s)) \<and>
    (\<forall>x\<in>set out. status_output (remote_server (cr_client s)) x) \<and>
    (\<forall>cid :: stage_device_id_t. unat cid < MAX_STAGE_ID \<longrightarrow>
      (let ep = endpoints (cr_client s) ! unat cid; ep' = endpoints (cr_client s2) ! unat cid; n = length (filter is_check ts)
       in unat (ed_timeout ep') = unat (ed_timeout ep) - n \<and> (unat (ed_timeout ep) < n \<longrightarrow> \<not> ed_announced ep'))))"
proof -
  have s1: "s1 = s\<lparr>cr_client := add_receiverport p dest (cr_client s), cr_running := False\<rparr>" and o: "out1 = []"
    using assms(1) by (simp_all add: Let_def)
  have c: "table_ok (cr_client s1)" "\<not> cr_running s1" using assms(2) by (simp_all add: s1 add_receiverport_def table_ok_def)
  obtain s2 out where r: "run_turns (client_turn P) ts s1 = Inr (s2, out)" "stays_stopped s1 s2 out"
    and l: "\<forall>cid. unat cid < MAX_STAGE_ID \<longrightarrow> life_of s2 cid = snd (life_ticks (length (filter is_check ts)) (life_of s1 cid))"
    using stopped_turns [OF assms(3) c(2,1), of P] by blast
  have e: "endpoints (cr_client s1) = endpoints (cr_client s)" by (simp add: s1 add_receiverport_def)
  have "unat (ed_timeout (endpoints (cr_client s2) ! unat cid)) = unat (ed_timeout (endpoints (cr_client s) ! unat cid)) - length (filter is_check ts) \<and>
      (unat (ed_timeout (endpoints (cr_client s) ! unat cid)) < length (filter is_check ts) \<longrightarrow> \<not> ed_announced (endpoints (cr_client s2) ! unat cid))"
    if "unat cid < MAX_STAGE_ID" for cid :: stage_device_id_t
    using l [rule_format, OF that] by (auto simp: e life_of_def life_def life_ticks_run split: if_splits)
  then show ?thesis using r o by (simp add: stays_stopped_def same_session_def s1 add_receiverport_def Let_def)
qed

theorem receiver_failure_stops_witness:
  "\<exists>s2 out. run_turns (client_turn example_platform)
      ([Open_port 80 80 (Inl (ErrMsg ''Binding the socket failed.'')) example_bufs, Pingservice (example_env 0),
        Recsrv (Some ([1, 2, 3], zero_endpoint))] @ replicate 121 (Checkstatus zero_key))
      (start_run (with_peer 2 (example_peer B_PEER2PEER) (example_client 1 B_PEER2PEER)) (msgbuf_ctor zero_endpoint 0) example_bufs) = Inr (s2, out) \<and>
    \<not> cr_running s2 \<and> \<not> ed_announced (endpoints (cr_client s2) ! 2)"
proof -
  let ?c = "with_peer 2 (example_peer B_PEER2PEER) (example_client 1 B_PEER2PEER)"
  let ?s = "start_run ?c (msgbuf_ctor zero_endpoint 0) example_bufs"
    and ?o = "Open_port 80 80 (Inl (ErrMsg ''Binding the socket failed.'')) example_bufs"
    and ?ts = "[Pingservice (example_env 0), Recsrv (Some ([1, 2, 3], zero_endpoint))] @ replicate 121 (Checkstatus zero_key)"
  obtain s1 where o: "client_turn example_platform ?o ?s = Inr (s1, [])" by (simp add: Let_def)
  have "client_ok ?c" by (simp add: MAX_STAGE_ID_def)
  then have t: "table_ok (cr_client ?s)" by (simp add: client_ok_def start_run_def)
  have q: "\<forall>t\<in>set ?ts. \<forall>junk. t = Checkstatus junk \<longrightarrow> length junk = crypto_box_PUBLICKEYBYTES" by auto
  have n: "length (filter is_check ?ts) = 121" by simp
  have "endpoints (cr_client ?s) ! 2 = example_peer B_PEER2PEER"
    by (simp add: start_run_def example_table MAX_STAGE_ID_def)
  then have to: "unat (ed_timeout (endpoints (cr_client ?s) ! unat (2 :: stage_device_id_t))) = 120" by (simp add: example_peer_def)
  obtain s2 out where r: "run_turns (client_turn example_platform) ?ts s1 = Inr (s2, out)" "\<not> cr_running s2"
    and p: "\<forall>cid :: stage_device_id_t. unat cid < MAX_STAGE_ID \<longrightarrow> (let ep = endpoints (cr_client ?s) ! unat cid; ep' = endpoints (cr_client s2) ! unat cid;
        n = length (filter is_check ?ts) in unat (ed_timeout ep') = unat (ed_timeout ep) - n \<and>
        (unat (ed_timeout ep) < n \<longrightarrow> \<not> ed_announced ep'))"
    using receiver_failure_stops [OF o t q] by blast
  have "\<not> ed_announced (endpoints (cr_client s2) ! 2)"
    using p [rule_format, of 2] unfolding Let_def n to by (simp add: MAX_STAGE_ID_def)
  then show ?thesis using o r by auto
qed

end
