(* ===== verification/Session_Client.thy ===== *)
theory Session_Client
  imports Client_Threads Tascar_Session
begin

text \<open>
  The session client in the hands of the renderer: the client that \<open>start_session\<close> constructs and
  configures is one whose threads never fault, provided that the number of this device, which
  comes from the configuration and is checked nowhere, fits the table of peers.
\<close>

section \<open>The configured client is well formed\<close>

lemma ready_setters:
  assumes "client_ready c m"
  shows "client_ready (add_extraport p c) m" "client_ready (add_receiverport p q c) m" "client_ready (set_ping_callback b c) m"
    "client_ready (set_latreport_callback b c) m" "client_ready (set_hiresping h c) m"
  using assms
  by (simp_all add: add_extraport_def add_receiverport_def set_ping_callback_def set_latreport_callback_def set_hiresping_def
      client_ready_def client_inv_def table_ok_def)

lemma ready_receiverports: "client_ready c m \<Longrightarrow> client_ready (add_receiverports ps c) m"
  by (induction ps arbitrary: c) (simp_all add: ready_setters)

lemma ready_proxies: "add_proxy_clients R ps c = (c', ex) \<Longrightarrow> client_ready c m \<Longrightarrow> client_ready c' m"
proof (induction R ps c rule: add_proxy_clients.induct)
  case (2 R i host ps c)
  have "client_ready c1 m" if "add_proxy_client R i host c = Inr c1" for c1
    using that 2(3) by (auto simp: add_proxy_client_def client_ready_def client_inv_def table_ok_def split: sum.splits)
  then show ?case using 2 by (auto split: sum.splits)
qed simp

lemma ready_configured:
  assumes "client_ready c m" and "configure_client R r c = (c', None)"
  shows "client_ready c' m"
proof -
  let ?c = "add_receiverport (ts_dist_to_other_tascarport r) (ts_other_tascarport r)
      (add_receiverports (rs_xrecport (settings r)) (if rs_secrec (settings r) > 0 then add_extraport 100 c else c))"
  obtain c4 where "add_proxy_clients R (tc_proxyclients (ts_cfg r))
      (if ts_pinglogport r \<noteq> 0 then set_latreport_callback True (set_ping_callback True ?c) else ?c) = (c4, None)"
    and c': "c' = set_hiresping (sd_hiresping (stg_thisdevice (ovr_stage r))) c4"
    using assms(2) by (auto simp: configure_client_def and_then_None_iff Let_def)
  moreover have "client_ready (if ts_pinglogport r \<noteq> 0 then set_latreport_callback True (set_ping_callback True ?c) else ?c) m"
    using assms(1) by (simp add: ready_setters ready_receiverports)
  ultimately show ?thesis using ready_proxies ready_setters(5) by blast
qed

lemma proxies_table: "add_proxy_clients R ps c = (c', ex) \<Longrightarrow> endpoints c' = endpoints c"
proof (induction R ps c rule: add_proxy_clients.induct)
  case (2 R i host ps c)
  then show ?case by (auto simp: add_proxy_client_def split: sum.splits)
qed simp

lemma receiverports_table [simp]: "endpoints (add_receiverports ps c) = endpoints c"
  by (induction ps arbitrary: c) (simp_all add: add_receiverport_def)

lemma configured_table: "configure_client R r c = (c', None) \<Longrightarrow> endpoints c' = endpoints c"
  by (auto simp: configure_client_def and_then_None_iff Let_def add_extraport_def add_receiverport_def set_ping_callback_def
      set_latreport_callback_def set_hiresping_def dest!: proxies_table)

lemma ctor_table: "ovboxclient_ctor F U g = Inr c \<Longrightarrow> endpoints c = replicate MAX_STAGE_ID (ep_desc_ctor (su_junk U))"
  by (auto simp: ovboxclient_ctor_def bind_err_Inr_iff Let_def endpoint_list.extend_def endpoint_list_ctor_def)

lemma pingservice_outside:
  assumes "length (endpoints c) \<le> unat (callerid c)"
  shows "pingservice_step P e c = Inl Out_of_bounds \<longleftrightarrow> (\<exists>ep\<in>set (endpoints c). ed_timeout ep \<noteq> 0)"
  using assms by (auto simp: pingservice_step_def list_ex_iff Let_def split: prod.splits)

section \<open>Properties\<close>

text \<open>C11. The session client that the renderer starts never faults: after \<open>start_session\<close> in a room, as a device whose
  number fits the table, every interleaving of the turns of the client's threads and the calls of its
  owner, with any datagrams from outside and local ones that leave room for the header, returns
  without an access outside a buffer and leaves the client well formed.\<close>

theorem session_threads_safe:
  fixes r r' :: "'a tascar_scheme"
  assumes "start_session E r = (r', None)" and "in_room r" and "unat (own_id r) < MAX_STAGE_ID"
    and "length (su_junk (en_setup E)) = crypto_box_PUBLICKEYBYTES" and "seal_length_ok (pl_sodium P)" and "recbufs_ok b"
    and "\<forall>t\<in>set ts. turn_ok t"
  shows "\<exists>c s out. ts_ovboxclient r' = Some c \<and>
    run_turns (client_turn P) ts (start_run c (msgbuf_ctor zero_endpoint now) b) = Inr (s, out) \<and> client_ready (cr_client s) (cr_msg s)"
proof -
  obtain r1 :: "'a tascar_scheme" and c0 c where own: "own_id r1 = own_id r" and c0: "ovboxclient_ctor (en_fpu E) (en_setup E) (client_config_of r1) = Inr c0"
    and c: "configure_client (su_resolver (en_setup E)) r1 c0 = (c, None)" "ts_ovboxclient r' = Some c"
    using started_parts [OF assms(1,2)] by blast
  have "unat (cfg_callerid (client_config_of r1)) < MAX_STAGE_ID" using own assms(3) by (simp add: client_config_of_def own_id_def Let_def)
  then have "client_ready c (msgbuf_ctor zero_endpoint now)"
    using ready_configured [OF ctor_ready [OF c0 assms(4) _ msgbuf_ok_ctor] c(1)] by blast
  then have "run_ok (start_run c (msgbuf_ctor zero_endpoint now) b)" using assms(6) by (simp add: run_ok_def start_run_def)
  with client_machine.turns_safe [of ts P] assms(5,7) c(2) show ?thesis unfolding run_ok_def by blast
qed

theorem session_threads_safe_witness:
  "\<exists>r' c s out. start_session (example_senv None) (example_member True) = (r', None) \<and> ts_ovboxclient r' = Some c \<and>
     run_turns (client_turn example_platform) example_turns (start_run c (msgbuf_ctor zero_endpoint 0) example_bufs) = Inr (s, out) \<and>
     client_ready (cr_client s) (cr_msg s)"
proof -
  obtain r' where r: "start_session (example_senv None) (example_member True) = (r', None)" using example_member_starts by blast
  have m: "in_room (example_member True)" "unat (own_id (example_member True)) < MAX_STAGE_ID"
    by (simp_all add: example_member_def tascar_ctor_def render_base.defs in_room_def own_id_def MAX_STAGE_ID_def)
  have j: "length (su_junk (en_setup (example_senv None))) = crypto_box_PUBLICKEYBYTES"
    by (simp add: example_senv_def example_setup_def zero_key_length)
  have t: "\<forall>t\<in>set example_turns. turn_ok t" by (simp add: example_turns_def buf_bounds zero_key_length)
  from session_threads_safe [OF r m j example_platform_ok example_bufs_ok t] r show ?thesis by blast
qed

text \<open>C26. The number of this device is not checked: a session starts with any number, also with one for which the
  table of peers has no entry; as long as the table is empty, \<open>pingservice\<close> runs, but after the
  registration of any peer its next turn reads outside the table.\<close>

theorem unchecked_device_number:
  fixes r r' :: "'a tascar_scheme"
  assumes "start_session E r = (r', None)" and "in_room r" and "MAX_STAGE_ID \<le> unat (own_id r)"
    and "unat cid < MAX_STAGE_ID" and "sizeof_endpoint \<le> length mem"
  shows "\<exists>c c1. ts_ovboxclient r' = Some c \<and> (\<exists>x. pingservice_step P e c = Inr x) \<and>
    cid_register True cid mem mode rver c = Inr c1 \<and> pingservice_step P e c1 = Inl Out_of_bounds"
proof -
  obtain r1 :: "'a tascar_scheme" and c0 c where c0: "ovboxclient_ctor (en_fpu E) (en_setup E) (client_config_of r1) = Inr c0" and own: "own_id r1 = own_id r"
    and c: "configure_client (su_resolver (en_setup E)) r1 c0 = (c, None)" "ts_ovboxclient r' = Some c"
    using started_parts [OF assms(1,2)] by blast
  have t: "endpoints c = replicate MAX_STAGE_ID (ep_desc_ctor (su_junk (en_setup E)))" using configured_table [OF c(1)] ctor_table [OF c0] by simp
  have id: "callerid c = own_id r"
    using configure_client_fields [OF c(1)] ctor_fields [OF c0] own by (simp add: client_config_of_def own_id_def Let_def)
  have "length (endpoints c) \<le> unat (callerid c)" "\<not> (\<exists>ep\<in>set (endpoints c). ed_timeout ep \<noteq> 0)"
    using t id assms(3) by (auto simp: ep_desc_ctor_def)
  then have quiet: "\<exists>x. pingservice_step P e c = Inr x"
    by (auto simp: pingservice_step_def list_ex_iff Let_def split: prod.split)
  obtain c1 where c1: "cid_register True cid mem mode rver c = Inr c1"
    and up: "endpoints c1 = (endpoints c)[unat cid := endpoints c1 ! unat cid]" "ed_timeout (endpoints c1 ! unat cid) = CALLERLIST_TIMEOUT"
      "callerid c1 = callerid c"
    using assms(4,5) t by (auto simp: cid_register_def upd_ep_def Let_def)
  have n: "unat cid < length (endpoints c1)" using up(1) t assms(4) by (metis length_list_update length_replicate)
  moreover have "length (endpoints c1) \<le> unat (callerid c1)" using up t id assms(3) by (metis length_list_update length_replicate)
  moreover have "ed_timeout (endpoints c1 ! unat cid) \<noteq> 0" using up(2) by (simp add: CALLERLIST_TIMEOUT_def)
  ultimately have "pingservice_step P e c1 = Inl Out_of_bounds" using pingservice_outside nth_mem by blast
  with c(2) quiet c1 show ?thesis by blast
qed

theorem unchecked_device_number_witness:
  "\<exists>r' c c1. start_session (example_senv None) ((example_member True)\<lparr>ovr_stage := (ovr_stage (example_member True))\<lparr>stg_thisstagedeviceid := 40\<rparr>\<rparr>) =
      (r', None) \<and> ts_ovboxclient r' = Some c \<and>
    cid_register True 2 (replicate 16 0) B_PEER2PEER [] c = Inr c1 \<and> pingservice_step example_platform (example_env 0) c1 = Inl Out_of_bounds"
proof -
  let ?r = "(example_member True)\<lparr>ovr_stage := (ovr_stage (example_member True))\<lparr>stg_thisstagedeviceid := 40\<rparr>\<rparr>"
  obtain r' where r: "start_session (example_senv None) ?r = (r', None)"
    using example_starts [of ?r] by (auto simp: example_member_def tascar_ctor_def render_base.defs tascar_config_ctor_def)
  have m: "in_room ?r" "MAX_STAGE_ID \<le> unat (own_id ?r)"
    by (simp_all add: example_member_def tascar_ctor_def render_base.defs in_room_def own_id_def MAX_STAGE_ID_def)
  have d: "unat (2 :: 8 word) < MAX_STAGE_ID" "sizeof_endpoint \<le> length (replicate 16 (0 :: 8 word))"
    by (simp_all add: MAX_STAGE_ID_def sizeof_endpoint_def)
  from unchecked_device_number [OF r m d] r show ?thesis by blast
qed

end
