(* ===== verification/Client_Streams.thy ===== *)
theory Client_Streams
  imports Client_Threads
begin

text \<open>
  Streams of audio data from client to client: what \<open>sendsrv\<close> does with any sequence of data
  datagrams is the abstract re-ordering of \<open>Sorter\<close> followed by forwarding; what \<open>recsrv\<close> sends
  for a sequence of local datagrams has consecutive numbers. Together, a stream arrives as it was sent.
\<close>

section \<open>Forwarding, packet by packet\<close>

text \<open>The user data of a packet, opened if both sides encrypt, and the datagrams for the local receivers.\<close>

definition plain_data :: "platform \<Rightarrow> ovboxclient \<Rightarrow> stage_device_id_t \<Rightarrow> byte list \<Rightarrow> byte list" where
  "plain_data P c cid data =
     (case if try_open c cid
           then crypto_box_seal_open (pl_sodium P) data (recipient_public (remote_server c)) (recipient_secret (remote_server c))
           else None of
        None \<Rightarrow> data
      | Some x \<Rightarrow> x)"

definition deliver :: "platform \<Rightarrow> ovboxclient \<Rightarrow> packet \<Rightarrow> client_output list" where
  "deliver P c k =
     map To_local (local_dgrams (serv_addr (local_server c)) (recport c) (portoffset c # xdest c) (pk_port k)
       (plain_data P c (pk_cid k) (pk_data k)))"

lemma forwarded_deliver: "proxyclients c = [] \<Longrightarrow> forwarded P c m = deliver P c (content m)"
  by (simp add: forwarded_def deliver_def proxy_dgrams_def received_data_def plain_data_def opened_def content_def split: option.split)

text \<open>What forwarding depends on, for a client without proxy clients.\<close>

definition same_forwarding :: "ovboxclient \<Rightarrow> ovboxclient \<Rightarrow> bool" where
  "same_forwarding c c' \<longleftrightarrow> endpoints c' = endpoints c \<and> cl_mode c' = cl_mode c \<and> callerid c' = callerid c \<and>
     recport c' = recport c \<and> portoffset c' = portoffset c \<and> xdest c' = xdest c \<and> proxyclients c' = proxyclients c \<and>
     ov_secret (remote_server c') = ov_secret (remote_server c) \<and>
     recipient_public (remote_server c') = recipient_public (remote_server c) \<and>
     recipient_secret (remote_server c') = recipient_secret (remote_server c) \<and>
     (serv_addr (local_server c'))\<lparr>sin_port := 0\<rparr> = (serv_addr (local_server c))\<lparr>sin_port := 0\<rparr>"

lemma same_forwarding_refl [simp]: "same_forwarding c c"
  by (simp add: same_forwarding_def)

lemma same_forwarding_trans: "same_forwarding c c1 \<Longrightarrow> same_forwarding c1 c2 \<Longrightarrow> same_forwarding c c2"
  by (simp add: same_forwarding_def)

lemma same_forwarding_sorter [simp]: "same_forwarding c (c'\<lparr>cl_sorter := so\<rparr>) = same_forwarding c c'"
  by (simp add: same_forwarding_def)

lemma deliver_same:
  assumes "same_forwarding c c'"
  shows "deliver P c' k = deliver P c k"
proof -
  have "local_dgrams (serv_addr (local_server c')) rp offs p d = local_dgrams (serv_addr (local_server c)) rp offs p d" for rp offs p d
    using assms local_dgrams_addr [of 0 "serv_addr (local_server c')"] local_dgrams_addr [of 0 "serv_addr (local_server c)"]
    by (simp add: same_forwarding_def)
  then show ?thesis using assms by (simp add: deliver_def plain_data_def same_forwarding_def try_open_def)
qed

lemma send_port_portless: "(serv_addr (fst (snd (send_port K s buf len p))))\<lparr>sin_port := 0\<rparr> = (serv_addr s)\<lparr>sin_port := 0\<rparr>"
  by simp

lemma send_locally_portless: "(serv_addr (fst (send_locally P rp offs p buf len s)))\<lparr>sin_port := 0\<rparr> = (serv_addr s)\<lparr>sin_port := 0\<rparr>"
  by (induction offs arbitrary: s) (auto simp: case_prod_beta)

lemma process_data_same:
  assumes "process_data_msg P c m = Inr (c', out)" and "proxyclients c = []"
  shows "same_forwarding c c'"
  using assms send_locally_portless [of P "recport c" "portoffset c # xdest c" "mb_destport m"]
  by (auto simp: process_data_msg_def same_forwarding_def case_prod_beta Let_def simp del: send_locally.simps split: if_splits option.splits)

section \<open>A datagram through the sorter\<close>

text \<open>Data of another device.\<close>

definition foreign_data :: "ovboxclient \<Rightarrow> packet \<Rightarrow> bool" where
  "foreign_data c k \<longleftrightarrow> MAXSPECIALPORT < pk_port k \<and> pk_cid k \<noteq> callerid c"

lemma process_data_packet:
  assumes S: "seal_length_ok (pl_sodium P)" and c: "client_inv c" and m: "msgbuf_ok m" "mb_msg m = HEADERLEN"
    and k: "foreign_data c (content m)" and x: "proxyclients c = []"
  shows "\<exists>c' m'. process_msg P e c m = Inr (c', m', deliver P c (content m)) \<and> client_inv c' \<and> same_forwarding c c'"
proof -
  let ?m = "m\<lparr>mb_valid := False\<rparr>"
  have m': "msgbuf_ok ?m" "mb_msg ?m = HEADERLEN" using m by simp_all
  obtain c' out where d: "process_data_msg P c ?m = Inr (c', out)" "client_inv c'" using process_data_ok [OF S c m'] by blast
  have "content ?m = content m" by (simp add: content_def payload_def msg_mem_def)
  then have "out = deliver P c (content m)" using process_data_forwards [OF S c m' d(1)] forwarded_deliver [OF x] by metis
  then show ?thesis using d k process_data_same [OF d(1) x] by (auto simp: process_msg_def foreign_data_def Let_def)
qed

lemma consume_packets:
  assumes S: "seal_length_ok (pl_sodium P)"
  shows "client_inv c \<Longrightarrow> proxyclients c = [] \<Longrightarrow> \<forall>m\<in>set ms. msgbuf_ok m \<and> mb_msg m = HEADERLEN \<and> foreign_data c (content m) \<Longrightarrow>
    \<exists>c'. consume (consume_msg P e) (c, out) ms = Inr (c', out @ concat (map (deliver P c) (map content ms))) \<and>
      client_inv c' \<and> same_forwarding c c'"
proof (induction ms arbitrary: c out)
  case (Cons m ms)
  obtain c1 m1 where 1: "process_msg P e c m = Inr (c1, m1, deliver P c (content m))" "client_inv c1" "same_forwarding c c1"
    using process_data_packet [OF S Cons.prems(1) _ _ _ Cons.prems(2), of m e] Cons.prems(3) by auto
  have "callerid c1 = callerid c" "proxyclients c1 = []" using 1(3) Cons.prems(2) by (simp_all add: same_forwarding_def)
  with Cons.IH [OF 1(2), of "out @ deliver P c (content m)"] Cons.prems(3) obtain c'
    where "consume (consume_msg P e) (c1, out @ deliver P c (content m)) ms =
        Inr (c', out @ deliver P c (content m) @ concat (map (deliver P c1) (map content ms)))"
      "client_inv c'" "same_forwarding c1 c'" by (auto simp: foreign_data_def)
  moreover have "deliver P c1 = deliver P c" using deliver_same [OF 1(3)] by (simp add: fun_eq_iff)
  ultimately show ?case using 1 same_forwarding_trans [OF 1(3)] by (auto simp: consume_msg_def)
qed simp

lemma deliveries_ok:
  assumes "msgbuf_ok m" and "mb_valid m" and "sorter_ok so" and "bufs_ok so ext"
  shows "\<forall>x\<in>set (deliveries so m). msgbuf_ok x \<and> mb_msg x = HEADERLEN"
proof -
  have h: "mb_msg m = HEADERLEN" and b: "mb_valid (buf1 so) \<Longrightarrow> mb_msg (buf1 so) = HEADERLEN" "msgbuf_ok (buf1 so)" "msgbuf_ok (buf2 so)"
    using assms by (simp_all add: msgbuf_ok_def bufs_ok_def)
  have c: "mb_msg (msgbuf_copy d m) = HEADERLEN" for d by (simp add: msgbuf_copy_def)
  show ?thesis using assms(1) h b c verdict_Swap_valid [of so m]
    by (auto simp: deliveries_def flush_def intro!: clear_ok split: judgement.splits if_splits)
qed

text \<open>An authentic data datagram, and the packet that it carries.\<close>

definition authentic :: "ovboxclient \<Rightarrow> packet \<Rightarrow> byte list" where
  "authentic c k = header_bytes (ov_secret (remote_server c)) (pk_cid k) (pk_port k) (pk_seq k) @ pk_data k"

definition packet_ok :: "ovboxclient \<Rightarrow> packet \<Rightarrow> bool" where
  "packet_ok c k \<longleftrightarrow> foreign_data c k \<and> HEADERLEN + length (pk_data k) \<le> BUFSIZE"

lemma content_received: "length hdr = HEADERLEN \<Longrightarrow> content (received_msg b hdr cid p sq body src) = Packet cid p sq body"
  by (simp add: content_def payload_received)

lemma sendsrv_packet:
  assumes S: "seal_length_ok (pl_sodium P)" and c: "client_ready c msg" and x: "proxyclients c = []" and k: "packet_ok c k"
    and h: "\<forall>h\<in>set (held_list (abs_sorter (cl_sorter c))). foreign_data c h"
  shows "\<exists>c' msg'. sendsrv_step P e c msg (Some (authentic c k, src)) =
      Inr (c', msg', concat (map (deliver P c) (fst (reorder_step (abs_sorter (cl_sorter c)) k)))) \<and>
    client_ready c' msg' \<and> same_forwarding c c' \<and> abs_sorter (cl_sorter c') = snd (reorder_step (abs_sorter (cl_sorter c)) k)"
proof -
  let ?hdr = "header_bytes (ov_secret (remote_server c)) (pk_cid k) (pk_port k) (pk_seq k)" and ?n = "HEADERLEN + length (pk_data k)"
  let ?m = "received_msg msg ?hdr (pk_cid k) (pk_port k) (pk_seq k) (pk_data k) src"
  let ?c1 = "c\<lparr>remote_server := count_rx ?n (remote_server c)\<rparr>"
  have ok: "msgbuf_ok msg" "client_inv c" "sorter_ok (cl_sorter c)" "bufs_ok (cl_sorter c) msg"
    using c by (simp_all add: client_ready_def bufs_ok_def)
  have len: "HEADERLEN + length (pk_data k) \<le> BUFSIZE" using k by (simp add: packet_ok_def)
  note r = recv_received [OF ok(1) len, of "remote_server c" "pk_cid k" "pk_port k" "pk_seq k" src]
  have m: "msgbuf_ok ?m" "mb_valid ?m" "content ?m = k"
    using recv_sec_msg_ok_inv [OF ok(1) r] by (simp_all add: content_received) (simp add: received_msg_def)
  have out: "map content (deliveries (cl_sorter c) ?m) = fst (reorder_step (abs_sorter (cl_sorter c)) k)"
    using reorder_step_abs [OF ok(3) m(1,2)] m(3) by simp
  have same1: "same_forwarding c ?c1" by (simp add: same_forwarding_def)
  have "\<forall>x\<in>set (deliveries (cl_sorter c) ?m). foreign_data c (content x)"
  proof
    fix x assume "x \<in> set (deliveries (cl_sorter c) ?m)"
    then have "content x \<in> set (fst (reorder_step (abs_sorter (cl_sorter c)) k))" by (simp flip: out)
    then have "content x = k \<or> content x \<in> set (held_list (abs_sorter (cl_sorter c)))"
      using step_accounting [of "abs_sorter (cl_sorter c)" k] by (metis insertE set_mset_add_mset_insert set_mset_mset union_iff)
    then show "foreign_data c (content x)" using k h by (auto simp: packet_ok_def)
  qed
  then have "\<forall>x\<in>set (deliveries (cl_sorter c) ?m). msgbuf_ok x \<and> mb_msg x = HEADERLEN \<and> foreign_data ?c1 (content x)"
    using deliveries_ok [OF m(1,2) ok(3,4)] by (simp add: foreign_data_def)
  with consume_packets [OF S client_inv_rx [OF ok(2), of ?n], of "deliveries (cl_sorter c) ?m" e "[]"] x obtain c2
    where k2: "consume (consume_msg P e) (?c1, []) (deliveries (cl_sorter c) ?m) =
        Inr (c2, concat (map (deliver P ?c1) (fst (reorder_step (abs_sorter (cl_sorter c)) k))))"
      and i2: "client_inv c2" "same_forwarding ?c1 c2" unfolding out by auto
  obtain c' msg' out' where s: "sendsrv_step P e c msg (Some (authentic c k, src)) = Inr (c', msg', out')" "client_ready c' msg'"
    using sendsrv_step_ok [OF S c, of e "Some (authentic c k, src)"] by blast
  then obtain co so' ext' where d: "drain (consume_msg P e) (?c1, []) (cl_sorter c) ?m Ext = Inr (co, so', ext')"
    and c': "c' = (fst co)\<lparr>cl_sorter := so'\<rparr>" "out' = snd co"
    using r by (auto simp: sendsrv_step_def authentic_def bind_res_Inr_iff split: prod.splits)
  have co: "co = (c2, concat (map (deliver P ?c1) (fst (reorder_step (abs_sorter (cl_sorter c)) k))))"
    and so': "abs_sorter so' = snd (reorder_step (abs_sorter (cl_sorter c)) k)"
    using drain_refines [OF ok(3) m(1,2), of "consume_msg P e" "(?c1, [])"] d k2 m(3) by simp_all
  have "deliver P ?c1 = deliver P c" using deliver_same [OF same1] by (simp add: fun_eq_iff)
  then show ?thesis using s c' co so' same_forwarding_trans [OF same1 i2(2)] by simp
qed

section \<open>Any arrivals\<close>

definition receive_turn :: "platform \<Rightarrow> env \<times> byte list \<times> endpoint \<Rightarrow> ovboxclient \<times> msgbuf \<Rightarrow> ((ovboxclient \<times> msgbuf) \<times> client_output list) res" where
  "receive_turn P = (\<lambda>(e, inp) (c, msg). bind_res (sendsrv_step P e c msg (Some inp)) (\<lambda>(c', msg', out). Inr ((c', msg'), out)))"

abbreviation packet_of :: "env \<times> endpoint \<times> packet \<Rightarrow> packet" where
  "packet_of \<equiv> \<lambda>x. snd (snd x)"

definition arrival_of :: "ovboxclient \<Rightarrow> env \<times> endpoint \<times> packet \<Rightarrow> env \<times> byte list \<times> endpoint" where
  "arrival_of c = (\<lambda>(e, src, k). (e, authentic c k, src))"

lemma held_after_step: "h \<in> set (held_list (snd (reorder_step R k))) \<Longrightarrow> h = k \<or> h \<in> set (held_list R)"
  using step_accounting [of R k] by (metis insertE set_mset_add_mset_insert set_mset_mset union_iff)

lemma receive_packets:
  assumes S: "seal_length_ok (pl_sodium P)"
  shows "client_ready c msg \<Longrightarrow> proxyclients c = [] \<Longrightarrow> \<forall>x\<in>set xs. packet_ok c (snd (snd x)) \<Longrightarrow>
    \<forall>h\<in>set (held_list (abs_sorter (cl_sorter c))). foreign_data c h \<Longrightarrow>
    \<exists>c' msg'. run_turns (receive_turn P) (map (arrival_of c) xs) (c, msg) =
        Inr ((c', msg'), concat (map (deliver P c) (fst (reorder_run (abs_sorter (cl_sorter c)) (map packet_of xs))))) \<and>
      client_ready c' msg' \<and> same_forwarding c c' \<and>
      abs_sorter (cl_sorter c') = snd (reorder_run (abs_sorter (cl_sorter c)) (map packet_of xs))"
proof (induction xs arbitrary: c msg)
  case (Cons x xs)
  obtain e src k where x: "x = (e, src, k)" by (metis surj_pair)
  let ?R = "abs_sorter (cl_sorter c)"
  obtain c1 msg1 where 1: "sendsrv_step P e c msg (Some (authentic c k, src)) = Inr (c1, msg1, concat (map (deliver P c) (fst (reorder_step ?R k))))"
    "client_ready c1 msg1" "same_forwarding c c1" "abs_sorter (cl_sorter c1) = snd (reorder_step ?R k)"
    using sendsrv_packet [OF S Cons.prems(1,2) _ Cons.prems(4), of k e src] Cons.prems(3) x by auto
  have p: "proxyclients c1 = []" "packet_ok c1 = packet_ok c" "foreign_data c1 = foreign_data c" "arrival_of c1 = arrival_of c"
    using 1(3) Cons.prems(2)
    by (auto simp: same_forwarding_def packet_ok_def foreign_data_def arrival_of_def authentic_def fun_eq_iff)
  have "\<forall>h\<in>set (held_list (abs_sorter (cl_sorter c1))). foreign_data c1 h"
    using held_after_step [of _ ?R k] Cons.prems(3,4) x by (auto simp: 1(4) p packet_ok_def)
  with Cons.IH [OF 1(2) p(1)] Cons.prems(3) obtain c' msg'
    where "run_turns (receive_turn P) (map (arrival_of c) xs) (c1, msg1) =
        Inr ((c', msg'), concat (map (deliver P c1) (fst (reorder_run (snd (reorder_step ?R k)) (map packet_of xs)))))"
      "client_ready c' msg'" "same_forwarding c1 c'"
      "abs_sorter (cl_sorter c') = snd (reorder_run (snd (reorder_step ?R k)) (map packet_of xs))"
    unfolding p 1(4) by auto
  moreover have "deliver P c1 = deliver P c" using deliver_same [OF 1(3)] by (simp add: fun_eq_iff)
  moreover have "receive_turn P (arrival_of c x) (c, msg) = Inr ((c1, msg1), concat (map (deliver P c) (fst (reorder_step ?R k))))"
    using 1(1) by (simp add: x receive_turn_def arrival_of_def)
  ultimately show ?case using same_forwarding_trans [OF 1(3)] by (auto simp: x case_prod_beta)
qed simp

section \<open>The sender\<close>

text \<open>What routes and headers depend on.\<close>

definition sock_same :: "ovbox_udpsocket \<Rightarrow> ovbox_udpsocket \<Rightarrow> bool" where
  "sock_same r r' \<longleftrightarrow> ov_secret r' = ov_secret r \<and> ov_callerid r' = ov_callerid r \<and>
     (serv_addr r')\<lparr>sin_port := 0\<rparr> = (serv_addr r)\<lparr>sin_port := 0\<rparr>"

lemma sock_same_trans: "sock_same r r1 \<Longrightarrow> sock_same r1 r2 \<Longrightarrow> sock_same r r2"
  by (simp add: sock_same_def)

lemma sock_same_send:
  "send_ep K r buf len ep = (n, r', out) \<Longrightarrow> sock_same r r'"
  "send_port K r buf len p = (n, r', out) \<Longrightarrow> sock_same r r'"
  "ov_packmsg r d k p m l = (buf, len, r') \<Longrightarrow> sock_same r r'"
  by (auto simp: sock_same_def send_ep_def send_port_def udp_count_tx_def ov_packmsg_eq Let_def split: prod.splits if_splits)

lemma sock_same_refl [simp]: "sock_same r r"
  by (simp add: sock_same_def)

lemma fanout_send_sock [simp]: "sock_same (fo_remote f) (fo_remote (fanout_send P buf k dest f))"
  by (auto simp: fanout_send_def dest: sock_same_send(1) split: prod.split)

lemma recsrv_peer_sock: "recsrv_peer P c msg len i ep f = Inr f' \<Longrightarrow> sock_same (fo_remote f) (fo_remote f')"
proof -
  assume r: "recsrv_peer P c msg len i ep f = Inr f'"
  show ?thesis
  proof (cases "ed_timeout ep \<noteq> 0 \<and> i \<noteq> unat (callerid c) \<and> has_mode (ed_mode ep) B_PEER2PEER")
    case True
    then obtain f2 buf k where e: "(if wants_encryption c ep
        then bind_res (encryptmsg (pl_sodium P) (fo_cmsg f) BUFSIZE msg len (pubkey ep)) (\<lambda>(cmsg, clen).
               Inr (f\<lparr>fo_total := fo_total f + 1, fo_cmsg := cmsg, fo_encrypted := fo_encrypted f + 1\<rparr>, cmsg, clen))
        else Inr (f\<lparr>fo_total := fo_total f + 1\<rparr>, msg, len)) = Inr (f2, buf, k)"
      and f': "f' = f2 \<or> f' = fanout_send P buf k (if sendlocal c \<and> in_same_network c ep then ed_localep ep else ed_ep ep) f2"
      using r unfolding recsrv_peer_def Let_def bind_res_Inr_iff by (auto simp: bind_res_Inr_iff split: if_splits)
    have "fo_remote f2 = fo_remote f" using e by (auto simp: bind_res_Inr_iff split: if_splits)
    with f' show ?thesis using fanout_send_sock [of f2] by (metis sock_same_refl)
  qed (use r in \<open>auto simp: recsrv_peer_def split: if_splits\<close>)
qed

lemma recsrv_peers_sock: "recsrv_peers P c msg len i eps f = Inr f' \<Longrightarrow> sock_same (fo_remote f) (fo_remote f')"
proof (induction eps arbitrary: i f)
  case (Cons ep eps)
  then show ?case using recsrv_peer_sock sock_same_trans by (fastforce simp: bind_res_Inr_iff)
qed (simp add: sock_same_def)

lemma send_port_sock [simp]: "sock_same r (fst (snd (send_port K r buf len p)))"
  by (cases "send_port K r buf len p") (auto dest: sock_same_send(2))

lemma recsrv_server_sock: "recsrv_server P c msg len f = Inr f' \<Longrightarrow> sock_same (fo_remote f) (fo_remote f')"
  by (auto simp: recsrv_server_def bind_res_Inr_iff case_prod_beta Let_def split: if_splits)

definition same_sending :: "ovboxclient \<Rightarrow> ovboxclient \<Rightarrow> bool" where
  "same_sending c c' \<longleftrightarrow> endpoints c' = endpoints c \<and> cl_mode c' = cl_mode c \<and> callerid c' = callerid c \<and> sendlocal c' = sendlocal c \<and>
     toport c' = toport c \<and> srv_has_pubkey c' = srv_has_pubkey c \<and> srv_pubkey c' = srv_pubkey c \<and> recport c' = recport c \<and>
     portoffset c' = portoffset c \<and> sock_same (remote_server c) (remote_server c')"

lemma recsrv_same:
  assumes "recsrv_step P c b (Some (data, src)) = Inr (c', b', out)"
  shows "same_sending c c'"
proof -
  obtain n l1 buffer src' where rv: "recvfrom (local_server c) (rb_buffer b) BUFSIZE (Some (data, src)) = (n, l1, buffer, src')" by (metis surj_pair)
  define c1 where "c1 = c\<lparr>local_server := l1\<rparr>"
  obtain msg len r1 where pk: "ov_packmsg (remote_server c1) (rb_msg b) BUFSIZE (recport c1 - portoffset c1) buffer (nat n) = (msg, len, r1)"
    by (metis surj_pair)
  define f0 where "f0 = \<lparr>fo_remote = r1, fo_cmsg = rb_cmsg b, fo_out = [], fo_total = 0, fo_encrypted = 0,
      fo_server = \<not> has_mode (cl_mode c1) B_PEER2PEER\<rparr>"
  show ?thesis
  proof (cases "n > 0")
    case True
    have sel: "rb_msg (b\<lparr>rb_buffer := x\<rparr>) = rb_msg b" "rb_cmsg (b\<lparr>rb_buffer := x\<rparr>) = rb_cmsg b" for x by simp_all
    obtain f1 f2 where f1: "(if has_mode (cl_mode c1) B_PEER2PEER then recsrv_peers P c1 msg len 0 (endpoints c1) f0 else Inr f0) = Inr f1"
      and f2: "(if fo_server f1 then recsrv_server P c1 msg len f1 else Inr f1) = Inr f2"
      and c': "c' = c1\<lparr>remote_server := fo_remote f2, send_encrypt_any := fo_encrypted f2 > 0,
        send_encrypt_all := fo_encrypted f2 > 0 \<and> fo_encrypted f2 = fo_total f2\<rparr>"
      using assms unfolding recsrv_step_def rv Let_def prod.case c1_def [symmetric] if_P [OF True] sel pk f0_def [symmetric] bind_res_Inr_iff
      by blast
    have "sock_same (remote_server c1) (fo_remote f0)" using sock_same_send(3) [OF pk] by (simp add: f0_def)
    moreover have "sock_same (fo_remote f0) (fo_remote f1)" using f1 recsrv_peers_sock [of P c1 msg len 0 "endpoints c1" f0 f1] by (auto split: if_splits)
    moreover have "sock_same (fo_remote f1) (fo_remote f2)" using f2 recsrv_server_sock [of P c1 msg len f1 f2] by (auto split: if_splits)
    ultimately have "sock_same (remote_server c1) (fo_remote f2)" using sock_same_trans by blast
    then show ?thesis by (simp add: same_sending_def c' c1_def)
  qed (use assms in \<open>auto simp: recsrv_step_def rv same_sending_def\<close>)
qed

lemma routes_same:
  assumes "same_sending c c'"
  shows "routes c' = routes c" "out_port c' = out_port c"
proof -
  have f: "endpoints c' = endpoints c" "cl_mode c' = cl_mode c" "callerid c' = callerid c" "sendlocal c' = sendlocal c"
    "toport c' = toport c" "srv_has_pubkey c' = srv_has_pubkey c" "srv_pubkey c' = srv_pubkey c"
    "recport c' = recport c" "portoffset c' = portoffset c"
    and a: "(serv_addr (remote_server c'))\<lparr>sin_port := 0\<rparr> = (serv_addr (remote_server c))\<lparr>sin_port := 0\<rparr>"
    using assms by (simp_all add: same_sending_def sock_same_def)
  have "(serv_addr (remote_server c'))\<lparr>sin_port := q\<rparr> = (serv_addr (remote_server c))\<lparr>sin_port := q\<rparr>" for q
    using arg_cong [OF a, of "\<lambda>x. x\<lparr>sin_port := q\<rparr>"] by simp
  then have s: "server_route c' = server_route c" using f by (simp add: server_route_def)
  have p: "peer_wanted c' = peer_wanted c" "peer_via_server c' = peer_via_server c" "peer_accepts c' = peer_accepts c" "peer_route c' = peer_route c"
    using f by (simp_all add: fun_eq_iff peer_wanted_def peer_via_server_def peer_accepts_def peer_route_def in_same_network_def wants_encryption_def)
  then show "routes c' = routes c" using f s by (simp add: routes_def needs_server_def peer_routes_def)
  show "out_port c' = out_port c" using f by (simp add: out_port_def)
qed

definition send_turn :: "platform \<Rightarrow> byte list \<times> endpoint \<Rightarrow> ovboxclient \<times> recbufs \<Rightarrow> ((ovboxclient \<times> recbufs) \<times> dgram list list) res" where
  "send_turn P = (\<lambda>inp (c, b). bind_res (recsrv_step P c b (Some inp)) (\<lambda>(c', b', out). Inr ((c', b'), [out])))"

text \<open>The packets that carry consecutive data, and what is sent of them on each route.\<close>

definition sent_packets :: "ovboxclient \<Rightarrow> byte list list \<Rightarrow> packet list" where
  "sent_packets c datas = consecutive (ov_callerid (remote_server c)) (out_port c) (next_seq (remote_server c) (out_port c) - 1) datas"

definition packet_dgram :: "sodium \<Rightarrow> ovboxclient \<Rightarrow> endpoint \<times> byte list option \<Rightarrow> packet \<Rightarrow> dgram" where
  "packet_dgram S c route k =
     to_dgram S (header_bytes (ov_secret (remote_server c)) (pk_cid k) (pk_port k) (pk_seq k)) (pk_data k) route"

lemma next_seq_bump: "socket_ok r \<Longrightarrow> MAXSPECIALPORT \<le> p \<Longrightarrow> seqmap r' = seqmap (bump_seq p r) \<Longrightarrow> next_seq r' p = next_seq r p + 1"
  by (simp add: next_seq_def socket_ok_def)

lemma send_packets:
  assumes S: "seal_length_ok (pl_sodium P)"
  shows "client_ready c msg \<Longrightarrow> recbufs_ok b \<Longrightarrow> MAXSPECIALPORT \<le> out_port c \<Longrightarrow>
    \<forall>x\<in>set xs. 0 < length (fst x) \<and> HEADERLEN + length (fst x) \<le> BUFSIZE \<Longrightarrow>
    \<exists>c' b'. run_turns (send_turn P) xs (c, b) =
      Inr ((c', b'), map (\<lambda>k. map (\<lambda>r. packet_dgram (pl_sodium P) c r k) (routes c)) (sent_packets c (map fst xs))) \<and>
      client_ready c' msg \<and> recbufs_ok b' \<and> same_sending c c'"
proof (induction xs arbitrary: c b)
  case Nil
  then show ?case by (simp add: sent_packets_def same_sending_def)
next
  case (Cons x xs)
  obtain data src where x: "x = (data, src)" by fastforce
  have len: "0 < length data" "HEADERLEN + length data \<le> BUFSIZE" using Cons.prems(4) x by auto
  obtain c1 b1 where 1: "recsrv_step P c b (Some (data, src)) = Inr (c1, b1, map (to_dgram (pl_sodium P) (out_header c) data) (routes c))"
    "recbufs_ok b1" "seqmap (remote_server c1) = seqmap (bump_seq (out_port c) (remote_server c))"
    using recsrv_step_ok [OF S ready_client_ok [OF Cons.prems(1)] Cons.prems(2) len, of src] by blast
  have ready: "client_ready c1 msg"
    using recsrv_ok [OF S Cons.prems(1,2), of "Some (data, src)"] 1(1) len by auto
  have same: "same_sending c c1" using recsrv_same [OF 1(1)] .
  have f: "ov_secret (remote_server c1) = ov_secret (remote_server c)" "ov_callerid (remote_server c1) = ov_callerid (remote_server c)"
    "routes c1 = routes c" "out_port c1 = out_port c"
    using same routes_same [OF same] by (simp_all add: same_sending_def sock_same_def)
  have sq: "next_seq (remote_server c1) (out_port c) = next_seq (remote_server c) (out_port c) + 1"
    using next_seq_bump [OF _ Cons.prems(3) 1(3)] ready_socket [OF Cons.prems(1)] by simp
  obtain c' b' where IH: "run_turns (send_turn P) xs (c1, b1) =
      Inr ((c', b'), map (\<lambda>k. map (\<lambda>r. packet_dgram (pl_sodium P) c1 r k) (routes c1)) (sent_packets c1 (map fst xs)))"
    "client_ready c' msg" "recbufs_ok b'" "same_sending c1 c'"
    using Cons.IH [OF ready 1(2)] Cons.prems(3,4) f(4) by auto
  have head: "to_dgram (pl_sodium P) (out_header c) data =
      (\<lambda>r. packet_dgram (pl_sodium P) c r (Packet (ov_callerid (remote_server c)) (out_port c) (next_seq (remote_server c) (out_port c)) data))"
    by (simp add: fun_eq_iff packet_dgram_def out_header_def)
  have rest: "sent_packets c (data # ds) =
      Packet (ov_callerid (remote_server c)) (out_port c) (next_seq (remote_server c) (out_port c)) data # sent_packets c1 ds" for ds
    by (simp add: sent_packets_def f sq)
  have dg: "packet_dgram (pl_sodium P) c1 = packet_dgram (pl_sodium P) c" by (simp add: fun_eq_iff packet_dgram_def f)
  have "send_turn P x (c, b) = Inr ((c1, b1), [map (to_dgram (pl_sodium P) (out_header c) data) (routes c)])"
    using 1(1) by (simp add: send_turn_def x)
  moreover have "same_sending c c'" using same IH(4) by (auto simp: same_sending_def intro: sock_same_trans)
  ultimately show ?case using IH by (simp add: x rest dg f head)
qed

section \<open>From client to client\<close>

lemma length_consecutive [simp]: "length (consecutive c p n ds) = length ds"
  by (induction ds arbitrary: n) simp_all

lemma consecutive_map: "consecutive c p n (map f ds) = map (\<lambda>k. Packet c p (pk_seq k) (f (pk_data k))) (consecutive c p n ds)"
  by (induction ds arbitrary: n) simp_all

lemma consecutive_fields: "k \<in> set (consecutive c p n ds) \<Longrightarrow> pk_cid k = c \<and> pk_port k = p \<and> pk_data k \<in> set ds"
  by (induction ds arbitrary: n) auto

lemma map_pk_data [simp]: "map pk_data (consecutive c p n ds) = ds"
  by (induction ds arbitrary: n) simp_all

definition sealed :: "sodium \<Rightarrow> byte list option \<Rightarrow> byte list \<Rightarrow> byte list" where
  "sealed S key data = (case key of None \<Rightarrow> data | Some pk \<Rightarrow> crypto_box_seal S data pk)"

text \<open>A local datagram fits, with its header and, on an encrypted route, with the overhead of a sealed box.\<close>

definition fits_route :: "byte list option \<Rightarrow> byte list \<Rightarrow> bool" where
  "fits_route key data \<longleftrightarrow> HEADERLEN + length data + (if key = None then 0 else crypto_box_SEALBYTES) \<le> BUFSIZE"

lemma packet_dgram_authentic:
  assumes "fits_route key (pk_data k)" and "ov_secret (remote_server B) = ov_secret (remote_server A)"
  shows "packet_dgram S A (dst, key) k = Dgram dst (authentic B (Packet (pk_cid k) (pk_port k) (pk_seq k) (sealed S key (pk_data k))))"
  using assms by (cases key) (simp_all add: fits_route_def packet_dgram_def to_dgram_def wire_def authentic_def sealed_def)

lemma length_sealed:
  "seal_length_ok S \<Longrightarrow> fits_route key d \<Longrightarrow> HEADERLEN + length (sealed S key d) \<le> BUFSIZE"
  by (cases key) (simp_all add: fits_route_def sealed_def seal_length_ok_def)

lemma plain_sealed:
  assumes "key = None \<and> \<not> try_open B cid \<or>
      key = Some (recipient_public (remote_server B)) \<and> try_open B cid \<and>
      key_pair_ok (pl_sodium P) (recipient_public (remote_server B)) (recipient_secret (remote_server B))"
  shows "plain_data P B cid (sealed (pl_sodium P) key d) = d"
  using assms by (auto simp: plain_data_def sealed_def key_pair_ok_def)

text \<open>The datagrams that travel on one route, as they arrive.\<close>

definition on_route :: "nat \<Rightarrow> (env \<times> endpoint) list \<Rightarrow> dgram list list \<Rightarrow> (env \<times> byte list \<times> endpoint) list" where
  "on_route j es outs = map2 (\<lambda>(e, src) out. (e, dg_data (out ! j), src)) es outs"

lemma stream_received:
  assumes S: "seal_length_ok (pl_sodium P)" and B: "client_ready B msg" "proxyclients B = []"
    and cid: "cid \<noteq> callerid B" "MAXSPECIALPORT < p" and ord: "in_step cid p n (abs_sorter (cl_sorter B))"
    and len: "\<forall>d\<in>set ds. HEADERLEN + length d \<le> BUFSIZE" and es: "length es = length ds"
  shows "\<exists>B' msg'. run_turns (receive_turn P) (map2 (\<lambda>(e, src) k. (e, authentic B k, src)) es (consecutive cid p n ds)) (B, msg) =
    Inr ((B', msg'), concat (map (deliver P B) (consecutive cid p n ds)))"
proof -
  let ?ks = "consecutive cid p n ds"
  let ?xs = "map2 (\<lambda>(e, src) k. (e, src, k)) es ?ks"
  have ks: "map packet_of ?xs = ?ks" using es by (auto intro!: nth_equalityI simp: case_prod_beta)
  have arr: "map (arrival_of B) ?xs = map2 (\<lambda>(e, src) k. (e, authentic B k, src)) es ?ks" by (simp add: arrival_of_def case_prod_beta)
  have "\<forall>k\<in>set ?ks. packet_ok B k" using cid len by (auto simp: packet_ok_def foreign_data_def dest!: consecutive_fields)
  then have "\<forall>x\<in>set ?xs. packet_ok B (packet_of x)" by (auto simp: case_prod_beta dest: set_zip_rightD)
  moreover have "held_list (abs_sorter (cl_sorter B)) = []" using ord by (simp add: in_step_def held_list_def)
  ultimately obtain B' msg' where "run_turns (receive_turn P) (map (arrival_of B) ?xs) (B, msg) =
      Inr ((B', msg'), concat (map (deliver P B) (fst (reorder_run (abs_sorter (cl_sorter B)) (map packet_of ?xs)))))"
    using receive_packets [OF S B, of ?xs] by auto
  then show ?thesis unfolding ks arr using run_consecutive [OF cid(2) ord, of ds] by auto
qed

section \<open>Properties\<close>

text \<open>C2. What \<open>sendsrv\<close> does with audio data, as a whole, in a client without proxy clients: for any sequence of data datagrams of other devices, in any
  order and with any losses, its iterations hand to the local receivers exactly the packets that the abstract
  re-ordering hands out, in its order, each opened where both sides encrypt; the sorter of the
  client ends in a state that stands for that of the abstract re-ordering.\<close>

theorem arrivals_reordered:
  assumes "seal_length_ok (pl_sodium P)" and "client_ready c msg" and "proxyclients c = []"
    and "\<forall>x\<in>set xs. packet_ok c (snd (snd x))" and "\<forall>h\<in>set (held_list (abs_sorter (cl_sorter c))). foreign_data c h"
  shows "\<exists>c' msg'. run_turns (receive_turn P) (map (arrival_of c) xs) (c, msg) =
      Inr ((c', msg'), concat (map (deliver P c) (fst (reorder_run (abs_sorter (cl_sorter c)) (map (\<lambda>x. snd (snd x)) xs))))) \<and>
    client_ready c' msg' \<and> abs_sorter (cl_sorter c') = snd (reorder_run (abs_sorter (cl_sorter c)) (map (\<lambda>x. snd (snd x)) xs))"
  using receive_packets [OF assms] by blast

theorem arrivals_reordered_witness:
  "\<exists>c' msg'. run_turns (receive_turn example_platform)
      [(example_env 0, header_bytes 12345678 2 4464 9 @ [9], zero_endpoint), (example_env 1, header_bytes 12345678 2 4464 8 @ [8], zero_endpoint)]
      (with_stream 2 4464 7 (example_client 1 B_PEER2PEER), msgbuf_ctor zero_endpoint 0) =
    Inr ((c', msg'), [To_local (Dgram (zero_endpoint\<lparr>sin_port := htons 4464\<rparr>) [8]), To_local (Dgram (zero_endpoint\<lparr>sin_port := htons 4464\<rparr>) [9])])"
proof -
  let ?c = "with_stream 2 4464 7 (example_client 1 B_PEER2PEER)" and ?m = "msgbuf_ctor zero_endpoint 0"
  let ?ks = "[Packet 2 4464 (7 + 2) [9], Packet 2 4464 (7 + 1) [8]]"
  let ?xs = "[(example_env 0, zero_endpoint, ?ks ! 0), (example_env 1, zero_endpoint, ?ks ! 1)]"
  have r: "client_ready ?c ?m" by (intro with_stream_ready example_client_ready(1)) (simp add: MAX_STAGE_ID_def)
  have p: "proxyclients ?c = []" by simp
  have k: "\<forall>x\<in>set ?xs. packet_ok ?c (snd (snd x))" by (simp add: packet_ok_def foreign_data_def buf_bounds MAXSPECIALPORT_def)
  have h: "\<forall>h\<in>set (held_list (abs_sorter (cl_sorter ?c))). foreign_data ?c h"
    using synced_sorter_ok(2) [of 2 4464 7] by (simp add: in_step_def held_list_def)
  have "fst (reorder_run (abs_sorter (cl_sorter ?c)) ?ks) = [?ks ! 1, ?ks ! 0]"
    using run_reversed_pair [of 4464 2 7 "abs_sorter (synced_sorter 2 4464 7)" "[9]" "[8]"] synced_sorter_ok(2) [of 2 4464 7]
    by (simp add: MAXSPECIALPORT_def)
  moreover have "\<not> try_open ?c 2" by (simp add: try_open_def has_mode_def mode_bits)
  then have "deliver example_platform ?c (Packet 2 4464 n d) = [To_local (Dgram (zero_endpoint\<lparr>sin_port := htons 4464\<rparr>) d)]" for n d
    by (simp add: deliver_def plain_data_def local_dgrams_def example_udp_def)
  ultimately show ?thesis
    using arrivals_reordered [OF example_platform_ok r p k h] by (auto simp: arrival_of_def authentic_def)
qed

lemma map2_map_right: "map2 f xs (map g ys) = map2 (\<lambda>x y. f x (g y)) xs ys"
  by (induction xs arbitrary: ys) (auto simp: zip_Cons1 split: list.split)

lemma map2_cong_right: "(\<And>x y. y \<in> set ys \<Longrightarrow> f x y = g x y) \<Longrightarrow> map2 f xs ys = map2 g xs ys"
  by (auto dest: set_zip_rightD)

lemma sent_on_route:
  assumes "routes A ! j = (dst, key)" and "j < length (routes A)" and "ov_secret (remote_server B) = ov_secret (remote_server A)"
    and "\<forall>d\<in>set ds. fits_route key d"
  shows "on_route j es (map (\<lambda>k. map (\<lambda>r. packet_dgram S A r k) (routes A)) (sent_packets A ds)) =
    map2 (\<lambda>(e, src) k. (e, authentic B k, src)) es
      (consecutive (ov_callerid (remote_server A)) (out_port A) (next_seq (remote_server A) (out_port A) - 1) (map (sealed S key) ds))"
proof -
  let ?c = "ov_callerid (remote_server A)" and ?p = "out_port A"
  have "dg_data (packet_dgram S A (routes A ! j) k) = authentic B (Packet ?c ?p (pk_seq k) (sealed S key (pk_data k)))"
    if "k \<in> set (sent_packets A ds)" for k
    using that packet_dgram_authentic [OF _ assms(3), of key k S dst] assms(4)
    by (auto simp: sent_packets_def assms(1) dest!: consecutive_fields)
  then show ?thesis
    using assms(2) unfolding on_route_def consecutive_map map2_map_right
    by (auto simp: sent_packets_def intro!: map2_cong_right dest: set_zip_rightD)
qed

lemma deliver_consecutive:
  "concat (map (deliver P B) (consecutive cid p n (map (sealed S key) ds))) =
     concat (map (\<lambda>d. map To_local (local_dgrams (serv_addr (local_server B)) (recport B) (portoffset B # xdest B) p
       (plain_data P B cid (sealed S key d)))) ds)"
  by (induction ds arbitrary: n) (simp_all add: deliver_def)

text \<open>C1. A stream of audio data arrives. Two clients share the session secret, have different numbers and a data port; the
  receiver has no proxy clients, and its sorter expects the next number of this sender and port. Then, when the sender
  reads local datagrams one after the other, none of them empty and all of them short enough to fit with the header (and, on a
  route that is encrypted, with the \<open>crypto_box_SEALBYTES\<close> bytes of a sealed box) into the buffer, and what it sends on
  one of its routes arrives in this order, the receiver hands every datagram, unchanged and in order, to its local
  receivers, and nothing else, for any number of datagrams, across the wrap-around of the sequence number. The route
  is in clear and the receiver opens nothing from this sender, or it is sealed with the receiver's key.\<close>

theorem stream_delivery:
  assumes "seal_length_ok (pl_sodium P)" and "client_ready A msgA" and "recbufs_ok bufs" and "client_ready B msg" and "proxyclients B = []"
    and "\<forall>x\<in>set xs. 0 < length (fst x) \<and> fits_route key (fst x)"
    and "j < length (routes A)" and "routes A ! j = (dst, key)"
    and "ov_secret (remote_server B) = ov_secret (remote_server A)" and "ov_callerid (remote_server A) \<noteq> callerid B"
    and "MAXSPECIALPORT < out_port A"
    and "in_step (ov_callerid (remote_server A)) (out_port A) n (abs_sorter (cl_sorter B))" and "next_seq (remote_server A) (out_port A) = n + 1"
    and "key = None \<and> \<not> try_open B (ov_callerid (remote_server A)) \<or>
      key = Some (recipient_public (remote_server B)) \<and> try_open B (ov_callerid (remote_server A)) \<and>
      key_pair_ok (pl_sodium P) (recipient_public (remote_server B)) (recipient_secret (remote_server B))"
    and "length es = length xs"
  shows "\<exists>A' bufs' outs B' msg'. run_turns (send_turn P) xs (A, bufs) = Inr ((A', bufs'), outs) \<and>
    (\<forall>out\<in>set outs. j < length out \<and> dg_dest (out ! j) = dst) \<and>
    run_turns (receive_turn P) (on_route j es outs) (B, msg) = Inr ((B', msg'),
      concat (map (\<lambda>x. map To_local
        (local_dgrams (serv_addr (local_server B)) (recport B) (portoffset B # xdest B) (out_port A) (fst x))) xs))"
proof -
  let ?ds = "map fst xs" and ?S = "pl_sodium P"
  let ?outs = "map (\<lambda>k. map (\<lambda>r. packet_dgram ?S A r k) (routes A)) (sent_packets A ?ds)"
  have len: "\<forall>d\<in>set ?ds. fits_route key d" using assms(6) by auto
  have "\<forall>x\<in>set xs. 0 < length (fst x) \<and> HEADERLEN + length (fst x) \<le> BUFSIZE"
    using assms(6) add_leD1 unfolding fits_route_def by blast
  then obtain A' bufs' where send: "run_turns (send_turn P) xs (A, bufs) = Inr ((A', bufs'), ?outs)"
    using send_packets [OF assms(1-3)] assms(11) by fastforce
  have "dg_dest (packet_dgram ?S A (dst, key) k) = dst" for k by (simp add: packet_dgram_def to_dgram_def)
  then have dest: "\<forall>out\<in>set ?outs. j < length out \<and> dg_dest (out ! j) = dst" using assms(7,8) by auto
  have sealed: "\<forall>d\<in>set (map (sealed ?S key) ?ds). HEADERLEN + length d \<le> BUFSIZE" using length_sealed [OF assms(1)] len by auto
  obtain B' msg' where "run_turns (receive_turn P)
      (map2 (\<lambda>(e, src) k. (e, authentic B k, src)) es (consecutive (ov_callerid (remote_server A)) (out_port A) n (map (sealed ?S key) ?ds))) (B, msg) =
    Inr ((B', msg'), concat (map (deliver P B) (consecutive (ov_callerid (remote_server A)) (out_port A) n (map (sealed ?S key) ?ds))))"
    using stream_received [OF assms(1,4,5,10,11,12) sealed, of es] assms(15) by auto
  with send dest show ?thesis
    using sent_on_route [OF assms(8,7,9) len, of es ?S] plain_sealed [OF assms(14)] assms(13)
      deliver_consecutive [of P B "ov_callerid (remote_server A)" "out_port A" n ?S key ?ds]
    by (auto simp: comp_def)
qed

theorem stream_delivery_witness:
  "\<exists>A' bufs' outs B' msg'.
    run_turns (send_turn example_platform) [([5, 6, 7], zero_endpoint), ([8], zero_endpoint)]
      (with_peer 2 (example_peer (B_PEER2PEER OR B_ENCRYPTION)) (example_client 1 (B_PEER2PEER OR B_ENCRYPTION)), example_bufs) =
      Inr ((A', bufs'), outs) \<and>
    run_turns (receive_turn example_platform) (on_route 0 [(example_env 0, zero_endpoint), (example_env 1, zero_endpoint)] outs)
      (example_receiver, msgbuf_ctor zero_endpoint 0) =
      Inr ((B', msg'), [To_local (Dgram (zero_endpoint\<lparr>sin_port := htons 9976\<rparr>) [5, 6, 7]), To_local (Dgram (zero_endpoint\<lparr>sin_port := htons 9976\<rparr>) [8])])"
proof -
  let ?m = "B_PEER2PEER OR B_ENCRYPTION" and ?B = example_receiver and ?z = "msgbuf_ctor zero_endpoint 0"
  let ?A = "with_peer 2 (example_peer ?m) (example_client 1 ?m)"
  let ?dst = "zero_endpoint\<lparr>s_addr := 0x0200000a\<rparr>" and ?key = "Some (replicate 32 1) :: byte list option"
  let ?xs = "[([5, 6, 7], zero_endpoint), ([8], zero_endpoint)] :: (byte list \<times> endpoint) list"
    and ?es = "[(example_env 0, zero_endpoint), (example_env 1, zero_endpoint)]"
  have A: "client_ready ?A ?z" using example_secure_peer by (intro example_client_ready(2) example_client_ready(1)) simp
  have "peer_accepts ?A (example_peer ?m)" by (simp add: peer_accepts_def example_peer_def has_mode_def mode_bits)
  then have "routes ?A = [peer_route ?A (example_peer ?m)]" using example_secure_peer by (intro example_routes) simp_all
  moreover have "peer_route ?A (example_peer ?m) = (?dst, ?key)"
    using example_secure_peer by (simp add: peer_route_def wants_encryption_def example_peer_def in_same_network_def ep_desc_ctor_def
        zero_endpoint_def)
  ultimately have rt: "0 < length (routes ?A)" "routes ?A ! 0 = (?dst, ?key)" by simp_all
  have op: "out_port ?A = 9876" by (simp add: out_port_def)
  have id1: "ov_callerid (remote_server ?A) = 1" by simp
  have enc: "?key = None \<and> \<not> try_open ?B (ov_callerid (remote_server ?A)) \<or>
      ?key = Some (recipient_public (remote_server ?B)) \<and> try_open ?B (ov_callerid (remote_server ?A)) \<and>
      key_pair_ok (pl_sodium example_platform) (recipient_public (remote_server ?B)) (recipient_secret (remote_server ?B))"
    using example_receiver_ok(2) by (simp add: id1 example_receiver_fields example_platform_def plain_sodium_ok)
  have len: "\<forall>x\<in>set ?xs. 0 < length (fst x) \<and> fits_route ?key (fst x)"
    by (simp add: fits_route_def buf_bounds crypto_box_SEALBYTES_def)
  have s: "proxyclients ?B = []" "ov_secret (remote_server ?B) = ov_secret (remote_server ?A)"
    "ov_callerid (remote_server ?A) \<noteq> callerid ?B" "MAXSPECIALPORT < out_port ?A" "length ?es = length ?xs"
    by (simp_all add: id1 example_receiver_fields op MAXSPECIALPORT_def)
  have ord: "in_step (ov_callerid (remote_server ?A)) (out_port ?A) 0 (abs_sorter (cl_sorter ?B))" by (simp add: id1 op example_receiver_fields)
  have nx: "next_seq (remote_server ?A) (out_port ?A) = 0 + 1"
    by (simp add: op next_seq_def seq_get_def MAXSPECIALPORT_def)
  have l: "local_dgrams zero_endpoint 9876 [0, 100] 9876 d = [Dgram (zero_endpoint\<lparr>sin_port := htons 9976\<rparr>) d]" for d
    by (simp add: local_dgrams_def)
  from stream_delivery [OF example_platform_ok A example_bufs_ok example_receiver_ok(1) s(1) len rt s(2-4) ord nx enc s(5)]
  show ?thesis by (auto simp: op example_receiver_fields l)
qed

end
