(* ===== verification/Session_Ports.thy ===== *)
theory Session_Ports
  imports Tascar_Processes Session_Client Client_Streams
begin

text \<open>
  The ports of a session: where the session client that \<open>start_session\<close> opens forwards the packets of another
  device, against the ports at which the network receivers of the generated document listen for it.
\<close>

section \<open>Port numbers\<close>



lemma blank_notin_show_nat [simp]: "CHR '' '' \<notin> set (show_nat n)"
proof
  assume "CHR '' '' \<in> set (show_nat n)"
  then obtain d where d: "d < 10" "CHR '' '' = digit_char d" using show_nat_digits by blast
  have "(of_char (CHR '' '') :: nat) = 48 + d" unfolding d(2) by (rule of_char_digit_char [OF d(1)])
  then show False by simp
qed






section \<open>The session client\<close>


lemma receiverports_sorter [simp]: "cl_sorter (add_receiverports ps c) = cl_sorter c" "proxyclients (add_receiverports ps c) = proxyclients c"
  by (induction ps arbitrary: c) (simp_all add: add_receiverport_def)






section \<open>Properties\<close>



end
