(* ===== verification/Tcp_Tunnel.thy ===== *)
theory Tcp_Tunnel
  imports Wire Udp
begin

text \<open>
  The TCP tunnel (\<open>ovtcpsocket.h\<close>, \<open>ovtcpsocket.cc\<close>): datagrams of a local UDP socket are sent
  as frames, a length of four bytes and the data, over a TCP connection, and the frames that
  arrive are sent on as datagrams. A connection is the list of what the calls of \<open>read\<close> and
  \<open>write\<close> return; its end means that \<open>run_server\<close> is cleared when it is tested next.
\<close>

section \<open>Reading and writing\<close>

text \<open>
  \<open>Got bs\<close>: the bytes \<open>bs\<close> are there to be read; what does not fit into one \<open>read\<close> stays for
  the next one, and \<open>Got []\<close> is the end of the file. \<open>Rd_again\<close> is \<open>EAGAIN\<close> or \<open>EWOULDBLOCK\<close>.
\<close>

datatype rd = Got "byte list" | Rd_again | Rd_error

datatype wr = Wrote nat | Wr_again | Wr_error

function nbread :: "rd list \<Rightarrow> nat \<Rightarrow> byte list \<Rightarrow> nat \<Rightarrow> int \<times> byte list \<times> rd list" where
  "nbread rs 0 buf rcnt = (int rcnt, buf, rs)"
| "nbread [] (Suc n) buf rcnt = (int rcnt, buf, [])"
| "nbread (Rd_again # rs) (Suc n) buf rcnt = nbread rs (Suc n) buf rcnt"
| "nbread (Rd_error # rs) (Suc n) buf rcnt = (-1, buf, rs)"
| "nbread (Got bs # rs) (Suc n) buf rcnt =
     (let d = take (Suc n) bs; rest = drop (Suc n) bs
      in if d = [] then (-2, buf, rs)
         else nbread (if rest = [] then rs else Got rest # rs) (Suc n - length d) (blit rcnt d buf) (rcnt + length d))"
  by pat_completeness auto

termination
  by (relation "measure (\<lambda>(rs, n, buf, rcnt). n + length rs)") (auto simp: neq_Nil_conv min_def)

fun nbwrite :: "wr list \<Rightarrow> byte list \<Rightarrow> nat \<Rightarrow> int \<times> byte list \<times> wr list" where
  "nbwrite ws [] rcnt = (int rcnt, [], ws)"
| "nbwrite [] (b # bs) rcnt = (int rcnt, [], [])"
| "nbwrite (Wr_again # ws) (b # bs) rcnt = nbwrite ws (b # bs) rcnt"
| "nbwrite (Wr_error # ws) (b # bs) rcnt = (-1, [], ws)"
| "nbwrite (Wrote n # ws) (b # bs) rcnt =
     (if n = 0 then (-2, [], ws)
      else
        let d = take n (b # bs); (r, sent, ws') = nbwrite ws (drop n (b # bs)) (rcnt + length d)
        in (r, d @ sent, ws'))"

section \<open>Sending frames\<close>

definition csize_bytes :: "nat \<Rightarrow> byte list" where
  "csize_bytes len = le_bytes 4 (of_nat len :: 64 word)"

definition tcp_send :: "wr list \<Rightarrow> byte list \<Rightarrow> nat \<Rightarrow> int \<times> byte list \<times> wr list" where
  "tcp_send ws buf len =
     (let (wcnt, out1, ws1) = nbwrite ws (csize_bytes len) 0
      in if wcnt < 4 then (-4, out1, ws1)
         else let (r, out2, ws2) = nbwrite ws1 (take len buf) 0 in (r, out1 @ out2, ws2))"

text \<open>One iteration of \<open>udpreceive\<close>, and its loop over what \<open>recvfrom\<close> delivers.\<close>

definition udpreceive_step ::
  "udpsocket \<Rightarrow> byte list \<Rightarrow> wr list \<Rightarrow> (byte list \<times> endpoint) option \<Rightarrow> udpsocket \<times> byte list \<times> wr list \<times> byte list" where
  "udpreceive_step s buf ws inp =
     (let (len, s1, buf1, _) = recvfrom s buf BUFSIZE inp
      in if len > 0 then let (slen, out, ws1) = tcp_send ws buf1 (nat len) in (s1, buf1, ws1, out)
         else (s1, buf1, ws, []))"

fun udpreceive ::
  "udpsocket \<Rightarrow> byte list \<Rightarrow> wr list \<Rightarrow> (byte list \<times> endpoint) option list \<Rightarrow> udpsocket \<times> byte list \<times> wr list \<times> byte list" where
  "udpreceive s buf ws [] = (s, buf, ws, [])"
| "udpreceive s buf ws (inp # inps) =
     (let (s1, buf1, ws1, out1) = udpreceive_step s buf ws inp;
          (s2, buf2, ws2, out2) = udpreceive s1 buf1 ws1 inps
      in (s2, buf2, ws2, out1 @ out2))"

section \<open>Receiving frames\<close>

text \<open>
  The length is computed in \<open>int\<close>; a length byte of 128 or more in the last place makes it
  negative, and the conversion to \<open>size_t\<close> extends the sign.
\<close>

definition frame_size :: "byte list \<Rightarrow> nat" where
  "frame_size cs = unat (scast (le_word cs :: 32 word) :: 64 word)"

text \<open>
  One iteration of \<open>handleconnection\<close>; the flag tells whether the loop goes on. The terminating
  zero is written behind the data that was read, wherever this is.
\<close>

definition tcp_step ::
  "kernel \<Rightarrow> port_t \<Rightarrow> udpsocket \<Rightarrow> byte list \<Rightarrow> rd list \<Rightarrow> (bool \<times> udpsocket \<times> byte list \<times> rd list \<times> dgram list) res" where
  "tcp_step K targetport s buf rs =
     (let (cnt, cs, rs1) = nbread rs 4 (replicate 4 0) 0
      in if cnt < 4 then Inr (False, s, buf, rs1, [])
         else if BUFSIZE < frame_size cs then Inr (False, s, buf, rs1, [])
         else
           let (cnt2, buf1, rs2) = nbread rs1 (frame_size cs) buf 0
           in if cnt2 < 0 \<or> int BUFSIZE \<le> cnt2 then Inl Out_of_bounds
              else
                let buf2 = buf1[nat cnt2 := 0]
                in if cnt2 = int (frame_size cs)
                   then let (k, s1, out) = send_port K s buf2 (nat cnt2) targetport in Inr (True, s1, buf2, rs2, out)
                   else Inr (True, s, buf2, rs2, []))"

definition rd_size :: "rd list \<Rightarrow> nat" where
  "rd_size rs = sum_list (map (\<lambda>r. case r of Got bs \<Rightarrow> Suc (length bs) | _ \<Rightarrow> 1) rs)"

lemma rd_size_simps [simp]:
  "rd_size [] = 0" "rd_size (Got bs # rs) = Suc (length bs + rd_size rs)"
  "rd_size (Rd_again # rs) = Suc (rd_size rs)" "rd_size (Rd_error # rs) = Suc (rd_size rs)"
  by (simp_all add: rd_size_def)

lemma nbread_size: "rd_size (snd (snd (nbread rs n buf rcnt))) \<le> rd_size rs"
proof (induction rs n buf rcnt rule: nbread.induct)
  case (5 bs rs n buf rcnt)
  then show ?case
    by (cases "take (Suc n) bs = []") (fastforce simp: Let_def split: if_splits)+
qed auto

lemma nbread_progress:
  assumes "rs \<noteq> []"
  shows "rd_size (snd (snd (nbread rs (Suc n) buf rcnt))) < rd_size rs"
proof (cases rs)
  case (Cons r rs')
  show ?thesis
  proof (cases r)
    case (Got bs)
    then show ?thesis using Cons
      by (auto simp: Let_def neq_Nil_conv intro!: le_less_trans [OF nbread_size])
  next
    case Rd_again
    then show ?thesis using Cons by (simp add: less_Suc_eq_le nbread_size)
  qed (simp_all add: Cons)
qed (use assms in simp)

lemma tcp_step_progress:
  assumes "rs \<noteq> []" and "tcp_step K p s buf rs = Inr (go, s1, buf1, rs1, out)"
  shows "rd_size rs1 < rd_size rs"
proof -
  obtain cnt cs rs0 where r: "nbread rs 4 (replicate 4 0) 0 = (cnt, cs, rs0)" by (cases "nbread rs 4 (replicate 4 0) 0")
  then have "rd_size rs0 < rd_size rs" using nbread_progress [OF assms(1), of 3 "replicate 4 0" 0] by simp
  moreover have "rd_size (snd (snd (nbread rs0 n buf 0))) \<le> rd_size rs0" for n by (rule nbread_size)
  ultimately show ?thesis using assms(2) r
    by (auto simp: tcp_step_def Let_def split: if_splits prod.splits dest: le_less_trans)
      (metis le_less_trans snd_conv)+
qed

text \<open>The loop of \<open>handleconnection\<close>: it ends because every iteration reads something.\<close>

function tcp_loop ::
  "kernel \<Rightarrow> port_t \<Rightarrow> udpsocket \<Rightarrow> byte list \<Rightarrow> rd list \<Rightarrow> (udpsocket \<times> byte list \<times> rd list \<times> dgram list) res" where
  "tcp_loop K p s buf rs =
     (if rs = [] then Inr (s, buf, [], [])
      else case tcp_step K p s buf rs of
        Inl e \<Rightarrow> Inl e
      | Inr (go, s1, buf1, rs1, out1) \<Rightarrow>
          if go
          then bind_res (tcp_loop K p s1 buf1 rs1) (\<lambda>(s2, buf2, rs2, out2). Inr (s2, buf2, rs2, out1 @ out2))
          else Inr (s1, buf1, rs1, out1))"
  by pat_completeness auto

termination
  by (relation "measure (\<lambda>(K, p, s, buf, rs). rd_size rs)") (auto dest: tcp_step_progress)

declare tcp_loop.simps [simp del]

section \<open>Streams\<close>

text \<open>The bytes of a connection, a connection without failure, and a frame.\<close>

fun stream :: "rd list \<Rightarrow> byte list" where
  "stream [] = []"
| "stream (Got bs # rs) = bs @ stream rs"
| "stream (Rd_again # rs) = stream rs"
| "stream (Rd_error # rs) = stream rs"

definition intact :: "rd list \<Rightarrow> bool" where
  "intact rs \<longleftrightarrow> Rd_error \<notin> set rs \<and> Got [] \<notin> set rs"

definition frame :: "byte list \<Rightarrow> byte list" where
  "frame m = csize_bytes (length m) @ m"

lemma intact_simps [simp]:
  "intact []" "intact (Got bs # rs) \<longleftrightarrow> bs \<noteq> [] \<and> intact rs"
  "intact (Rd_again # rs) \<longleftrightarrow> intact rs" "\<not> intact (Rd_error # rs)"
  by (auto simp: intact_def)

lemma length_csize_bytes [simp]: "length (csize_bytes n) = 4"
  by (simp add: csize_bytes_def)

lemma frame_size_csize:
  assumes "n < 2 ^ 31"
  shows "frame_size (csize_bytes n) = n"
proof -
  have "(ucast (of_nat n :: 64 word) :: 32 word) = of_nat n" by (rule bit_eqI) (simp add: bit_simps)
  then have "csize_bytes n = le_bytes 4 (of_nat n :: 32 word)"
    using le_bytes_ucast [where 'b = 32, of 4 "of_nat n :: 64 word"] by (simp add: csize_bytes_def)
  then have "le_word (csize_bytes n) = (of_nat n :: 32 word)" by simp
  moreover have "sint (word_of_int (int n) :: 32 word) = int n"
    unfolding sint_sbintrunc' using assms by (simp add: signed_take_bit_int_eq_self)
  then have "(scast (of_nat n :: 32 word) :: 64 word) = of_nat n" by (simp add: scast_eq)
  ultimately show ?thesis using assms by (simp add: frame_size_def unsigned_of_nat take_bit_nat_eq_self)
qed

lemma nbread_intact:
  assumes "intact rs" and "n \<le> length (stream rs)" and "rcnt + n \<le> length buf"
  shows "\<exists>rs'. nbread (rs @ tail) n buf rcnt = (int (rcnt + n), blit rcnt (take n (stream rs)) buf, rs' @ tail) \<and>
     intact rs' \<and> stream rs' = drop n (stream rs)"
  using assms
proof (induction "n + length rs" arbitrary: n rs rcnt buf rule: less_induct)
  case less
  show ?case
  proof (cases n)
    case 0
    then show ?thesis using less.prems by auto
  next
    case (Suc k)
    with less.prems obtain r rs0 where rs: "rs = r # rs0" by (cases rs) auto
    show ?thesis
    proof (cases r)
      case (Got bs)
      let ?d = "take n bs" and ?rest = "drop n bs"
      let ?rs = "if ?rest = [] then rs0 else Got ?rest # rs0"
      have ne: "bs \<noteq> []" and I: "intact ?rs" using less.prems rs Got by (auto split: if_splits)
      have S: "stream ?rs = ?rest @ stream rs0" by simp
      have "n - length ?d + length ?rs < n + length rs" using rs Suc ne by (auto simp: neq_Nil_conv)
      moreover have "n - length ?d \<le> length (stream ?rs)" using less.prems rs Got S by auto
      moreover have "(rcnt + length ?d) + (n - length ?d) \<le> length (blit rcnt ?d buf)" using less.prems by simp
      ultimately obtain rs' where
        N: "nbread (?rs @ tail) (n - length ?d) (blit rcnt ?d buf) (rcnt + length ?d) =
              (int (rcnt + length ?d + (n - length ?d)),
               blit (rcnt + length ?d) (take (n - length ?d) (stream ?rs)) (blit rcnt ?d buf), rs' @ tail)"
        and R: "intact rs'" "stream rs' = drop (n - length ?d) (stream ?rs)"
        using less.hyps [OF _ I] by blast
      have "blit (rcnt + length ?d) (take (n - length ?d) (stream ?rs)) (blit rcnt ?d buf) =
          blit rcnt (?d @ take (n - length ?d) (stream ?rs)) buf"
        using less.prems by (intro blit_blit) auto
      moreover have "?d @ take (n - length ?d) (stream ?rs) = take n (stream rs)"
        and "drop (n - length ?d) (stream ?rs) = drop n (stream rs)"
        unfolding S rs Got by (cases "n \<le> length bs"; simp)+
      moreover have "nbread (rs @ tail) n buf rcnt =
          nbread (?rs @ tail) (n - length ?d) (blit rcnt ?d buf) (rcnt + length ?d)"
        using ne by (simp add: rs Got Suc Let_def)
      ultimately show ?thesis using N R by (intro exI [of _ rs']) simp
    next
      case Rd_again
      then show ?thesis using less.hyps [of n rs0 rcnt buf] less.prems rs Suc by simp
    qed (use less.prems rs in simp)
  qed
qed

lemma nbread_drained:
  assumes "intact rs" and "stream rs = []" and "0 < n"
  shows "nbread rs n buf rcnt = (int rcnt, buf, [])"
  using assms by (induction rs n buf rcnt rule: nbread.induct) auto

text \<open>A connection that fails before the requested bytes have arrived.\<close>

fun breaks :: "rd list \<Rightarrow> bool" where
  "breaks (Got bs # rs) = (bs = [])"
| "breaks (Rd_error # rs) = True"
| "breaks rs = False"

lemma nbread_broken:
  assumes "intact rs" and "length (stream rs) < n" and "breaks tail"
  shows "fst (nbread (rs @ tail) n buf rcnt) < 0"
  using assms
proof (induction rs arbitrary: n buf rcnt)
  case Nil
  then show ?case by (cases tail rule: breaks.cases; cases n) auto
next
  case (Cons r rs)
  show ?case
  proof (cases r)
    case (Got bs)
    with Cons.prems have "length bs < n" "bs \<noteq> []" and I: "intact rs" "length (stream rs) < n - length bs" by auto
    then obtain k where "n = Suc k" by (cases n) auto
    then have "nbread ((r # rs) @ tail) n buf rcnt =
        nbread (rs @ tail) (n - length bs) (blit rcnt bs buf) (rcnt + length bs)"
      using \<open>length bs < n\<close> \<open>bs \<noteq> []\<close> by (simp add: Got Let_def)
    then show ?thesis using Cons.IH [OF I Cons.prems(3)] by simp
  next
    case Rd_again
    with Cons show ?thesis by (cases n) auto
  qed (use Cons.prems in simp)
qed

section \<open>One frame\<close>

lemma read_header:
  assumes "intact rs" and "stream rs = csize_bytes n @ rest"
  shows "\<exists>rs1. nbread (rs @ tail) 4 (replicate 4 0) 0 = (4, csize_bytes n, rs1 @ tail) \<and> intact rs1 \<and> stream rs1 = rest"
  using nbread_intact [of rs 4 0 "replicate 4 0" tail] assms by (auto simp: blit_def)

lemma tcp_step_frame:
  assumes "intact rs" and "stream rs = frame m @ rest" and "length m < BUFSIZE" and "length buf = BUFSIZE" and "p \<noteq> 0"
  shows "\<exists>s1 buf1 rs1. tcp_step K p s buf (rs @ tail) =
       Inr (True, s1, buf1, rs1 @ tail, [Dgram ((serv_addr s)\<lparr>sin_port := htons p\<rparr>) m]) \<and>
     intact rs1 \<and> stream rs1 = rest \<and> length buf1 = BUFSIZE \<and> serv_addr s1 = (serv_addr s)\<lparr>sin_port := htons p\<rparr>"
proof -
  have m: "length m < 8192" "length buf = 8192" using assms by (simp_all add: BUFSIZE_def)
  obtain rs1 where h: "nbread (rs @ tail) 4 (replicate 4 0) 0 = (4, csize_bytes (length m), rs1 @ tail)"
    and r1: "intact rs1" "stream rs1 = m @ rest"
    using read_header [OF assms(1), of "length m" "m @ rest" tail] assms(2) by (auto simp: frame_def)
  obtain rs2 where d: "nbread (rs1 @ tail) (length m) buf 0 = (int (length m), blit 0 m buf, rs2 @ tail)"
    and r2: "intact rs2" "stream rs2 = rest"
    using nbread_intact [OF r1(1), of "length m" 0 buf tail] r1(2) m by auto
  have "take (length m) ((blit 0 m buf)[length m := 0]) = m" using m by (simp add: blit_def)
  then show ?thesis
    using h d r2 m assms(5)
    by (simp add: tcp_step_def frame_size_csize BUFSIZE_def send_port_def Let_def)
qed

lemma tcp_step_fault:
  assumes "intact rs" and "stream rs = csize_bytes k @ part" and "k \<le> BUFSIZE" and "length buf = BUFSIZE"
    and "k = BUFSIZE \<and> k \<le> length part \<or> length part < k \<and> breaks tail"
  shows "tcp_step K p s buf (rs @ tail) = Inl Out_of_bounds"
proof -
  have k: "k \<le> 8192" "length buf = 8192" using assms by (simp_all add: BUFSIZE_def)
  obtain rs1 where h: "nbread (rs @ tail) 4 (replicate 4 0) 0 = (4, csize_bytes k, rs1 @ tail)"
    and r1: "intact rs1" "stream rs1 = part"
    using read_header [OF assms(1,2)] by auto
  have "fst (nbread (rs1 @ tail) k buf 0) < 0 \<or> int BUFSIZE \<le> fst (nbread (rs1 @ tail) k buf 0)"
    using assms(5)
  proof
    assume "k = BUFSIZE \<and> k \<le> length part"
    then show ?thesis using nbread_intact [OF r1(1), of k 0 buf tail] r1(2) k by (auto simp: BUFSIZE_def)
  next
    assume "length part < k \<and> breaks tail"
    then show ?thesis using nbread_broken [OF r1(1), of k tail buf 0] r1(2) by auto
  qed
  then show ?thesis using h k
    by (auto simp: tcp_step_def frame_size_csize BUFSIZE_def split: prod.splits)
qed

section \<open>The receiving loop\<close>

lemma tcp_loop_frames:
  assumes "intact rs" and "stream rs = concat (map frame ms) @ rest" and "\<forall>m\<in>set ms. length m < BUFSIZE"
    and "length buf = BUFSIZE" and "p \<noteq> 0"
  shows "\<exists>s1 buf1 rs1. intact rs1 \<and> stream rs1 = rest \<and> length buf1 = BUFSIZE \<and>
     serv_addr s1 = (if ms = [] then serv_addr s else (serv_addr s)\<lparr>sin_port := htons p\<rparr>) \<and>
     tcp_loop K p s buf (rs @ tail) =
       bind_res (tcp_loop K p s1 buf1 (rs1 @ tail)) (\<lambda>(s2, buf2, rs2, out).
         Inr (s2, buf2, rs2, map (Dgram ((serv_addr s)\<lparr>sin_port := htons p\<rparr>)) ms @ out))"
  using assms
proof (induction ms arbitrary: s buf rs)
  case Nil
  have "tcp_loop K p s buf (rs @ tail) =
      bind_res (tcp_loop K p s buf (rs @ tail)) (\<lambda>(s2, buf2, rs2, out). Inr (s2, buf2, rs2, [] @ out))"
    by (cases "tcp_loop K p s buf (rs @ tail)") auto
  with Nil show ?case by (intro exI [of _ s] exI [of _ buf] exI [of _ rs]) simp
next
  case (Cons m ms)
  let ?a = "(serv_addr s)\<lparr>sin_port := htons p\<rparr>"
  from Cons.prems obtain s0 buf0 rs0 where
    step: "tcp_step K p s buf (rs @ tail) = Inr (True, s0, buf0, rs0 @ tail, [Dgram ?a m])"
    and r0: "intact rs0" "stream rs0 = concat (map frame ms) @ rest" "length buf0 = BUFSIZE" "serv_addr s0 = ?a"
    using tcp_step_frame [of rs m "concat (map frame ms) @ rest" buf p K s tail] by auto
  have a: "(serv_addr s0)\<lparr>sin_port := htons p\<rparr> = ?a" using r0(4) by simp
  obtain s1 buf1 rs1 where r1: "intact rs1" "stream rs1 = rest" "length buf1 = BUFSIZE" "serv_addr s1 = ?a"
    and loop: "tcp_loop K p s0 buf0 (rs0 @ tail) =
       bind_res (tcp_loop K p s1 buf1 (rs1 @ tail)) (\<lambda>(s2, buf2, rs2, out). Inr (s2, buf2, rs2, map (Dgram ?a) ms @ out))"
    using Cons.IH [OF r0(1,2) _ r0(3) Cons.prems(5), of s0] Cons.prems(3) unfolding a by (auto split: if_splits simp: r0(4))
  have "rs @ tail \<noteq> []" using Cons.prems(2) by (cases rs) (auto simp: frame_def csize_bytes_def le_bytes_def)
  then have "tcp_loop K p s buf (rs @ tail) =
      bind_res (tcp_loop K p s0 buf0 (rs0 @ tail)) (\<lambda>(s2, buf2, rs2, out). Inr (s2, buf2, rs2, Dgram ?a m # out))"
    by (simp add: tcp_loop.simps [of K p s buf] step del: append_is_Nil_conv)
  then show ?case using r1 loop
    by (intro exI [of _ s1] exI [of _ buf1] exI [of _ rs1])
      (cases "tcp_loop K p s1 buf1 (rs1 @ tail)", auto)
qed

lemma tcp_loop_drained:
  assumes "intact rs" and "stream rs = []"
  shows "tcp_loop K p s buf rs = Inr (s, buf, [], [])"
  using nbread_drained [OF assms, of 4] by (subst tcp_loop.simps) (simp add: tcp_step_def)

section \<open>The sending side\<close>

text \<open>A connection that takes data, and how many calls of \<open>write\<close> take some.\<close>

definition writable :: "wr list \<Rightarrow> bool" where
  "writable ws \<longleftrightarrow> Wr_error \<notin> set ws \<and> Wrote 0 \<notin> set ws"

definition writes :: "wr list \<Rightarrow> nat" where
  "writes ws = length (filter (\<lambda>w. w \<noteq> Wr_again) ws)"

lemma nbwrite_writable:
  assumes "writable ws" and "length data \<le> writes ws"
  shows "\<exists>ws'. nbwrite ws data rcnt = (int (rcnt + length data), data, ws') \<and> writable ws' \<and>
     writes ws \<le> writes ws' + length data"
  using assms
proof (induction ws data rcnt rule: nbwrite.induct)
  case (5 n ws b bs rcnt)
  let ?r = "drop n (b # bs)"
  from "5.prems" obtain k where n: "n = Suc k" by (cases n) (auto simp: writable_def)
  then have "length ?r \<le> writes ws" and "writable ws" using "5.prems" by (auto simp: writes_def writable_def)
  with "5.IH" [of "take n (b # bs)"] n obtain ws' where
    "nbwrite ws ?r (rcnt + length (take n (b # bs))) =
       (int (rcnt + length (take n (b # bs)) + length ?r), ?r, ws')"
    and "writable ws'" "writes ws \<le> writes ws' + length ?r" by auto
  then show ?case using n by (intro exI [of _ ws']) (auto simp: writes_def Let_def min_def)
qed (auto simp: writable_def writes_def)

text \<open>Whatever happens, what was written of a buffer is its beginning.\<close>

lemma nbwrite_prefix: "nbwrite ws data rcnt = (r, sent, ws') \<Longrightarrow> \<exists>rest. data = sent @ rest"
proof (induction ws data rcnt arbitrary: r sent ws' rule: nbwrite.induct)
  case (5 n ws b bs rcnt)
  show ?case
  proof (cases n)
    case (Suc k)
    with "5.prems" obtain sent' where "sent = take n (b # bs) @ sent'"
      and "nbwrite ws (drop n (b # bs)) (rcnt + length (take n (b # bs))) = (r, sent', ws')"
      by (auto simp: Let_def split: prod.splits)
    with "5.IH" [of "take n (b # bs)"] Suc obtain rest where "drop n (b # bs) = sent' @ rest" by blast
    with \<open>sent = _\<close> have "b # bs = sent @ rest" by (metis append.assoc append_take_drop_id)
    then show ?thesis by blast
  qed (use "5.prems" in simp)
qed auto

lemma tcp_send_writable:
  assumes "writable ws" and "length m + 4 \<le> writes ws"
  shows "\<exists>ws'. tcp_send ws m (length m) = (int (length m), frame m, ws') \<and> writable ws' \<and>
     writes ws \<le> writes ws' + (length m + 4)"
proof -
  obtain ws1 where 1: "nbwrite ws (csize_bytes (length m)) 0 = (4, csize_bytes (length m), ws1)"
    and w1: "writable ws1" "writes ws \<le> writes ws1 + 4"
    using nbwrite_writable [OF assms(1), of "csize_bytes (length m)" 0] assms(2) by auto
  obtain ws2 where 2: "nbwrite ws1 m 0 = (int (length m), m, ws2)"
    and w2: "writable ws2" "writes ws1 \<le> writes ws2 + length m"
    using nbwrite_writable [OF w1(1), of m 0] assms(2) w1(2) by auto
  show ?thesis using 1 2 w1 w2 by (auto simp: tcp_send_def frame_def)
qed

lemma tcp_send_blit: "tcp_send ws (blit 0 m buf) (length m) = tcp_send ws m (length m)"
proof -
  have "take (length m) (blit 0 m buf) = take (length m) m" by (simp add: blit_def)
  then show ?thesis by (simp only: tcp_send_def)
qed

text \<open>The datagrams that the loop of \<open>udpreceive\<close> takes, cut off at the size of its buffer.\<close>

fun tunnelled :: "(byte list \<times> endpoint) option list \<Rightarrow> byte list list" where
  "tunnelled [] = []"
| "tunnelled (None # inps) = tunnelled inps"
| "tunnelled (Some (d, src) # inps) = (if d = [] then [] else [take BUFSIZE d]) @ tunnelled inps"

lemma udpreceive_frames:
  assumes "writable ws" and "(\<Sum>m\<leftarrow>tunnelled inps. length m + 4) \<le> writes ws" and "length buf = BUFSIZE"
    and "udpreceive s buf ws inps = (s', buf', ws', wire)"
  shows "wire = concat (map frame (tunnelled inps))"
  using assms
proof (induction inps arbitrary: s buf ws s' buf' ws' wire)
  case (Cons inp inps)
  show ?case
  proof (cases "tunnelled [inp] = []")
    case True
    then have T: "tunnelled (inp # inps) = tunnelled inps" by (cases inp) (auto split: if_splits)
    have "\<exists>s1 buf1. udpreceive_step s buf ws inp = (s1, buf1, ws, []) \<and> length buf1 = BUFSIZE"
      using True Cons.prems(3) by (cases inp) (auto simp: udpreceive_step_def recvfrom_def split: if_splits)
    then show ?thesis using Cons.IH [OF Cons.prems(1)] Cons.prems(2,4) unfolding T
      by (auto split: prod.splits)
  next
    case False
    then obtain d src where inp: "inp = Some (d, src)" and d: "d \<noteq> []" by (cases inp) (auto split: if_splits)
    let ?m = "take BUFSIZE d"
    have B: "0 < BUFSIZE" by (simp add: BUFSIZE_def)
    have "(\<Sum>m\<leftarrow>tunnelled (inp # inps). length m + 4) = length ?m + 4 + (\<Sum>m\<leftarrow>tunnelled inps. length m + 4)"
      using inp d by simp
    with Cons.prems(2) have w: "length ?m + 4 + (\<Sum>m\<leftarrow>tunnelled inps. length m + 4) \<le> writes ws" by linarith
    then obtain ws1 where send: "tcp_send ws ?m (length ?m) = (int (length ?m), frame ?m, ws1)"
      and w1: "writable ws1" "writes ws \<le> writes ws1 + (length ?m + 4)"
      using tcp_send_writable [OF Cons.prems(1), of ?m] by auto
    have same: "tcp_send ws (blit 0 ?m buf) (length ?m) = tcp_send ws ?m (length ?m)"
      by (rule tcp_send_blit)
    obtain s1 where step: "udpreceive_step s buf ws inp = (s1, blit 0 ?m buf, ws1, frame ?m)"
      using send same d B by (auto simp: inp udpreceive_step_def recvfrom_def Let_def min_def split: if_splits)
    have "length (blit 0 ?m buf) = BUFSIZE" using Cons.prems(3) by simp
    then show ?thesis
      using Cons.IH [OF w1(1) _ _] step w w1(2) Cons.prems(4) inp d
      by (fastforce split: prod.splits)
  qed
qed auto

section \<open>The socket object\<close>

record ovtcpsocket =
  tcp_sockfd :: int
  tcp_serv_addr :: endpoint
  tcp_isopen :: bool
  run_server :: bool
  tcp_targetport :: port_t
  udpresponseport :: port_t
  binding :: bool
  connect_receiveport :: port_t

definition tcp_ctor :: "(int \<Rightarrow> string) \<Rightarrow> int \<Rightarrow> int \<Rightarrow> port_t \<Rightarrow> err + ovtcpsocket" where
  "tcp_ctor strerror errno fd port =
     (if fd < 0 then Inl (ErrMsg_errno strerror ''Opening socket failed: '' errno)
      else Inr \<lparr>tcp_sockfd = fd, tcp_serv_addr = zero_endpoint, tcp_isopen = False, run_server = True,
                tcp_targetport = 0, udpresponseport = port, binding = False, connect_receiveport = 0\<rparr>)"

text \<open>\<open>close\<close>, with the descriptor that is handed back to the system, if any.\<close>

definition tcp_close :: "ovtcpsocket \<Rightarrow> ovtcpsocket \<times> int option" where
  "tcp_close t =
     (t\<lparr>tcp_isopen := False, run_server := False\<rparr>, if tcp_isopen t then Some (tcp_sockfd t) else None)"

definition get_target_port :: "ovtcpsocket \<Rightarrow> port_t" where
  "get_target_port t = tcp_targetport t"

definition tcp_bind ::
  "(int \<Rightarrow> string) \<Rightarrow> int \<Rightarrow> (endpoint \<Rightarrow> int) \<Rightarrow> int \<Rightarrow> (endpoint \<Rightarrow> endpoint) \<Rightarrow> port_t \<Rightarrow> bool \<Rightarrow> ovtcpsocket
     \<Rightarrow> ovtcpsocket \<times> (err + port_t)" where
  "tcp_bind strerror errno k_bind k_listen k_getsockname port loopback t =
     (let my_addr = bind_addr port loopback
      in if k_bind my_addr = -1
         then (t, Inl (ErrMsg_errno strerror
                (''Binding the socket to port '' @ show_nat (unat port) @ '' failed: '') errno))
         else if k_listen < 0 then (t, Inl (ErrMsg_errno strerror ''Unable to listen to socket: '' errno))
         else let tp = ntohs (sin_port (k_getsockname my_addr))
              in (t\<lparr>run_server := True, tcp_targetport := tp\<rparr>, Inr tp))"

text \<open>
  The beginning of \<open>handleconnection\<close>: the UDP socket of the connection. Its exceptions leave
  the thread and end the process; that is the value \<open>Inl\<close>.
\<close>

definition open_connection ::
  "(err + udpsocket) \<Rightarrow> (udpsocket \<Rightarrow> port_t \<Rightarrow> bool \<Rightarrow> err + port_t) \<Rightarrow> resolver \<Rightarrow> ovtcpsocket
     \<Rightarrow> err + (udpsocket \<times> ovtcpsocket)" where
  "open_connection k_socket k_bind R t =
     bind_err k_socket (\<lambda>s.
     bind_err (k_bind s (udpresponseport t) False) (\<lambda>udpport.
     bind_err (set_destination R ''127.0.0.1'' s) (\<lambda>s1.
     Inr (s1, t\<lparr>connect_receiveport := udpport, binding := False\<rparr>))))"

text \<open>
  \<open>connect\<close>, which waits until the thread of the connection has bound its socket; \<open>None\<close> is
  the end of the process by an exception in that thread.
\<close>

definition tcp_connect ::
  "(int \<Rightarrow> string) \<Rightarrow> int \<Rightarrow> (endpoint \<Rightarrow> int) \<Rightarrow> (ovtcpsocket \<Rightarrow> err + (udpsocket \<times> ovtcpsocket)) \<Rightarrow> endpoint \<Rightarrow> port_t
     \<Rightarrow> ovtcpsocket \<Rightarrow> (ovtcpsocket \<times> (err + port_t)) option" where
  "tcp_connect strerror errno k_connect opening ep targetport t =
     (let t1 = t\<lparr>run_server := True\<rparr>
      in if k_connect ep \<noteq> 0
         then Some (t1, Inl (ErrMsg_errno strerror (''Connection to '' @ ep2str ep @ '' failed: '') errno))
         else case opening (t1\<lparr>binding := True, tcp_targetport := targetport\<rparr>) of
                Inl e \<Rightarrow> None
              | Inr (s, t2) \<Rightarrow> Some (t2, Inr (connect_receiveport t2)))"

lemma open_connection_isopen: "open_connection so kb R t = Inr (s, t') \<Longrightarrow> tcp_isopen t' = tcp_isopen t \<and> tcp_sockfd t' = tcp_sockfd t"
  by (auto simp: open_connection_def bind_err_Inr_iff)

text \<open>
  No operation sets \<open>isopen\<close>, so that \<open>close\<close> hands back no descriptor after any of them.
\<close>

lemma tcp_descriptor_kept:
  "tcp_ctor strerror errno fd port = Inr t \<Longrightarrow> snd (tcp_close t) = None"
  "tcp_bind strerror errno k_bind k_listen k_gsn port loopback t = (t', r) \<Longrightarrow> snd (tcp_close t') = snd (tcp_close t)"
  "tcp_connect strerror errno k_connect (open_connection so kb R) ep tp t = Some (t', r) \<Longrightarrow>
     snd (tcp_close t') = snd (tcp_close t)"
  "snd (tcp_close (fst (tcp_close t))) = None"
  by (auto simp: tcp_ctor_def tcp_close_def tcp_bind_def tcp_connect_def Let_def
      split: if_splits sum.splits dest!: open_connection_isopen)

section \<open>Properties\<close>

definition example_udp_socket :: udpsocket where
  "example_udp_socket = \<lparr>sockfd = 3, serv_addr = zero_endpoint, isopen = True, tx_bytes = 0, rx_bytes = 0\<rparr>"

text \<open>C15. Datagrams through the tunnel: however the calls of \<open>write\<close> and \<open>read\<close> split the bytes, the
  far end sends on exactly the datagrams that were received, each one whole and in the
  same order, as long as they are shorter than the buffer, and its loop ends.\<close>

theorem tunnel_roundtrip:
  assumes "writable ws" and "(\<Sum>m\<leftarrow>tunnelled inps. length m + 4) \<le> writes ws" and "length sbuf = BUFSIZE"
    and "udpreceive sA sbuf ws inps = (sA', sbuf', ws', wire)"
    and "\<forall>m\<in>set (tunnelled inps). length m < BUFSIZE"
    and "intact rs" and "stream rs = wire" and "length buf = BUFSIZE" and "p \<noteq> 0"
  shows "\<exists>s' buf'. tcp_loop K p s buf rs =
     Inr (s', buf', [], map (Dgram ((serv_addr s)\<lparr>sin_port := htons p\<rparr>)) (tunnelled inps))"
proof -
  have "stream rs = concat (map frame (tunnelled inps)) @ []"
    using udpreceive_frames [OF assms(1-4)] assms(7) by simp
  from tcp_loop_frames [OF assms(6) this assms(5,8,9), of s K "[]"] obtain s1 buf1 rs1 where
    "intact rs1" "stream rs1 = []" and
    "tcp_loop K p s buf rs = bind_res (tcp_loop K p s1 buf1 rs1) (\<lambda>(s2, buf2, rs2, out).
       Inr (s2, buf2, rs2, map (Dgram ((serv_addr s)\<lparr>sin_port := htons p\<rparr>)) (tunnelled inps) @ out))" by auto
  then show ?thesis by (simp add: tcp_loop_drained)
qed

theorem tunnel_roundtrip_witness:
  "\<exists>s' buf'. tcp_loop (\<lambda>_ _ _. 1) 9000 example_udp_socket (replicate BUFSIZE 0)
       [Got [2, 0], Rd_again, Got [0, 0, 7, 8, 1], Got [0, 0, 0, 9], Rd_again] =
     Inr (s', buf', [], map (Dgram (zero_endpoint\<lparr>sin_port := htons 9000\<rparr>)) [[7, 8], [9]])"
proof -
  let ?inps = "[Some ([7, 8], zero_endpoint), None, Some ([], zero_endpoint), Some ([9], zero_endpoint)]"
  let ?ws = "Wr_again # replicate 11 (Wrote 3)"
  have T: "tunnelled ?inps = [[7, 8], [9]]" by (simp add: BUFSIZE_def)
  have w: "writable ?ws" "(\<Sum>m\<leftarrow>tunnelled ?inps. length m + 4) \<le> writes ?ws"
    unfolding T by (simp_all add: writable_def writes_def)
  obtain sA sb ws' wire where U: "udpreceive example_udp_socket (replicate BUFSIZE 0) ?ws ?inps = (sA, sb, ws', wire)"
    by (metis prod_cases4)
  have "wire = [2, 0, 0, 0, 7, 8, 1, 0, 0, 0, 9]"
    unfolding udpreceive_frames [OF w length_replicate U] T by code_simp
  then show ?thesis
    using tunnel_roundtrip [OF w length_replicate U, of "[Got [2, 0], Rd_again, Got [0, 0, 7, 8, 1], Got [0, 0, 0, 9], Rd_again]"
        "replicate BUFSIZE 0" 9000 "\<lambda>_ _ _. 1" example_udp_socket]
    unfolding T by (simp add: BUFSIZE_def example_udp_socket_def)
qed

text \<open>C31. Where the tunnel writes outside its buffer: after any number of good frames, a complete frame
  of exactly the size of the buffer, or a frame that is cut off because the connection is
  closed or fails, makes the terminating zero go behind or before the buffer.\<close>

theorem tunnel_faults:
  assumes "intact rs" and "stream rs = concat (map frame ms) @ csize_bytes k @ part"
    and "\<forall>m\<in>set ms. length m < BUFSIZE" and "length buf = BUFSIZE" and "p \<noteq> 0" and "k \<le> BUFSIZE"
    and "k = BUFSIZE \<and> k \<le> length part \<or> length part < k \<and> breaks tail"
  shows "tcp_loop K p s buf (rs @ tail) = Inl Out_of_bounds"
proof -
  from tcp_loop_frames [OF assms(1-5), of s K tail] obtain s1 buf1 rs1 where
    r1: "intact rs1" "stream rs1 = csize_bytes k @ part" "length buf1 = BUFSIZE" and
    loop: "tcp_loop K p s buf (rs @ tail) = bind_res (tcp_loop K p s1 buf1 (rs1 @ tail)) (\<lambda>(s2, buf2, rs2, out).
       Inr (s2, buf2, rs2, map (Dgram ((serv_addr s)\<lparr>sin_port := htons p\<rparr>)) ms @ out))" by blast
  have "rs1 \<noteq> []" using r1(2) by (cases rs1) (auto simp: csize_bytes_def le_bytes_def)
  then have "tcp_loop K p s1 buf1 (rs1 @ tail) = Inl Out_of_bounds"
    using tcp_step_fault [OF r1(1,2) assms(6) r1(3) assms(7)] by (simp add: tcp_loop.simps [of K p s1 buf1])
  then show ?thesis using loop by simp
qed

theorem tunnel_faults_witness:
  "tcp_loop (\<lambda>_ _ _. 1) 9000 example_udp_socket (replicate BUFSIZE 0)
       ([Got [1, 0, 0, 0, 7], Got [2, 0, 0, 0, 8]] @ [Got []]) = Inl Out_of_bounds \<and>
   tcp_loop (\<lambda>_ _ _. 1) 9000 example_udp_socket (replicate BUFSIZE 0)
       ([Got (csize_bytes BUFSIZE), Got (replicate BUFSIZE 5)] @ []) = Inl Out_of_bounds"
proof
  have "csize_bytes 1 = [1, 0, 0, 0]" "csize_bytes 2 = [2, 0, 0, 0]" by code_simp+
  then show "tcp_loop (\<lambda>_ _ _. 1) 9000 example_udp_socket (replicate BUFSIZE 0)
       ([Got [1, 0, 0, 0, 7], Got [2, 0, 0, 0, 8]] @ [Got []]) = Inl Out_of_bounds"
    by (intro tunnel_faults [where ms = "[[7]]" and k = 2 and part = "[8]"]) (simp_all add: frame_def BUFSIZE_def)
  have "csize_bytes BUFSIZE \<noteq> []" by (metis length_csize_bytes list.size(3) zero_neq_numeral)
  then show "tcp_loop (\<lambda>_ _ _. 1) 9000 example_udp_socket (replicate BUFSIZE 0)
       ([Got (csize_bytes BUFSIZE), Got (replicate BUFSIZE 5)] @ []) = Inl Out_of_bounds"
    by (intro tunnel_faults [where ms = "[]" and k = BUFSIZE and part = "replicate BUFSIZE 5"])
      (simp_all add: BUFSIZE_def)
qed

end
