(* ===== verification/Tcp_Server.thy ===== *)
theory Tcp_Server
  imports Tcp_Tunnel Std_Map
begin

text \<open>
  The server side of the TCP tunnel (\<open>acceptor\<close>, the end of \<open>handleconnection\<close> and the destructor in
  \<open>ovtcpsocket.cc\<close>): one thread per accepted connection, kept in a map by its descriptor. The acceptor and
  the threads of the connections are a step relation: a thread first closes its descriptor, which the kernel may
  then give to a new connection, and returns later; the acceptor may run in between. Assigning a
  thread object over one that was not joined ends the program (\<open>std::terminate\<close>).
\<close>

section \<open>States and operations\<close>

text \<open>
  The thread object of an entry: its function at work, behind \<open>::close(fd)\<close> but not yet returned, returned but not
  joined, and joined. \<open>joinable()\<close> holds for the first three.
\<close>

datatype handler = At_work | Closing | Ended | Joined

definition joinable :: "handler \<Rightarrow> bool" where
  "joinable h \<longleftrightarrow> h \<noteq> Joined"

text \<open>
  Where the acceptor is: at the test of \<open>run_server\<close>, in \<open>accept\<close>, in \<open>join\<close> on the earlier thread of the
  descriptor, before the assignment, returned, or in \<open>std::terminate\<close>.
\<close>

datatype acceptor_at = Loop_head | In_accept | Joining int | Storing int | Acceptor_done | Terminated

text \<open>\<open>srv_fds\<close> are the open descriptors of connections; the kernel never gives one of them to a new connection.\<close>

record tcp_server =
  srv_running :: bool
  srv_acceptor :: acceptor_at
  srv_handlers :: "(int, handler) omap"
  srv_fds :: "int set"

definition tcp_server_start :: tcp_server where
  "tcp_server_start = \<lparr>srv_running = True, srv_acceptor = Loop_head, srv_handlers = [], srv_fds = {}\<rparr>"

definition handler_of :: "tcp_server \<Rightarrow> int \<Rightarrow> handler option" where
  "handler_of s = map_of (srv_handlers s)"

definition set_handler :: "int \<Rightarrow> handler \<Rightarrow> tcp_server \<Rightarrow> tcp_server" where
  "set_handler fd h s = s\<lparr>srv_handlers := omap_put fd h (srv_handlers s)\<rparr>"

text \<open>The loop of \<open>acceptor\<close>, from one point where it can wait to the next.\<close>

definition acceptor_test :: "tcp_server \<Rightarrow> tcp_server" where
  "acceptor_test s = s\<lparr>srv_acceptor := if srv_running s then In_accept else Acceptor_done\<rparr>"

definition acceptor_accepted :: "int \<Rightarrow> tcp_server \<Rightarrow> tcp_server" where
  "acceptor_accepted clientfd s =
     (if clientfd < 0 then s\<lparr>srv_acceptor := Loop_head\<rparr>
      else s\<lparr>srv_acceptor :=
        if (case handler_of s clientfd of None \<Rightarrow> False | Some h \<Rightarrow> joinable h) then Joining clientfd else Storing clientfd\<rparr>)"

text \<open>\<open>join\<close> waits until the thread has returned; \<open>None\<close> while it has not.\<close>

definition acceptor_join :: "int \<Rightarrow> tcp_server \<Rightarrow> tcp_server option" where
  "acceptor_join fd s =
     (if handler_of s fd = Some Ended then Some (set_handler fd Joined s\<lparr>srv_acceptor := Storing fd\<rparr>) else None)"

text \<open>
  \<open>handlethreads[clientfd] = std::thread(...)\<close>. When the thread cannot be created, the exception is caught in the
  loop and the descriptor stays open.
\<close>

definition acceptor_store :: "bool \<Rightarrow> int \<Rightarrow> tcp_server \<Rightarrow> tcp_server" where
  "acceptor_store created fd s =
     (if \<not> created then s\<lparr>srv_acceptor := Loop_head\<rparr>
      else if (case handler_of s fd of None \<Rightarrow> False | Some h \<Rightarrow> joinable h) then s\<lparr>srv_acceptor := Terminated\<rparr>
      else set_handler fd At_work s\<lparr>srv_acceptor := Loop_head\<rparr>)"

text \<open>The end of \<open>handleconnection\<close>: \<open>::close(fd)\<close>, then the return of the thread's function.\<close>

definition handler_closes :: "int \<Rightarrow> tcp_server \<Rightarrow> tcp_server" where
  "handler_closes fd s = set_handler fd Closing s\<lparr>srv_fds := srv_fds s - {fd}\<rparr>"

definition handler_returns :: "int \<Rightarrow> tcp_server \<Rightarrow> tcp_server" where
  "handler_returns fd s = set_handler fd Ended s"

text \<open>
  The destructor, once \<open>close\<close> has cleared \<open>run_server\<close>: it joins the acceptor and then all threads; \<open>None\<close> while one
  of them has not returned.
\<close>

definition join_handlers :: "tcp_server \<Rightarrow> tcp_server option" where
  "join_handlers s =
     (if srv_acceptor s \<noteq> Acceptor_done \<or> list_ex (\<lambda>(fd, h). h \<in> {At_work, Closing}) (srv_handlers s) then None
      else Some (s\<lparr>srv_handlers := map (\<lambda>(fd, h). (fd, Joined)) (srv_handlers s)\<rparr>))"

inductive server_step :: "tcp_server \<Rightarrow> tcp_server \<Rightarrow> bool" where
  Test: "srv_acceptor s = Loop_head \<Longrightarrow> server_step s (acceptor_test s)"
| Accepted: "srv_acceptor s = In_accept \<Longrightarrow> 0 \<le> fd \<Longrightarrow> fd \<notin> srv_fds s \<Longrightarrow>
    server_step s (acceptor_accepted fd s\<lparr>srv_fds := insert fd (srv_fds s)\<rparr>)"
| Timeout: "srv_acceptor s = In_accept \<Longrightarrow> server_step s (acceptor_accepted (- 1) s)"
| Join: "srv_acceptor s = Joining fd \<Longrightarrow> acceptor_join fd s = Some s' \<Longrightarrow> server_step s s'"
| Store: "srv_acceptor s = Storing fd \<Longrightarrow> server_step s (acceptor_store created fd s)"
| Closes: "handler_of s fd = Some At_work \<Longrightarrow> server_step s (handler_closes fd s)"
| Returns: "handler_of s fd = Some Closing \<Longrightarrow> server_step s (handler_returns fd s)"
| Close: "srv_running s \<Longrightarrow> server_step s (s\<lparr>srv_running := False\<rparr>)"

section \<open>The invariant\<close>

text \<open>Before a thread is stored, its descriptor is open, and no thread works on it or has an object left to join.\<close>

fun acceptor_ok :: "tcp_server \<Rightarrow> acceptor_at \<Rightarrow> bool" where
  "acceptor_ok s (Joining fd) \<longleftrightarrow> fd \<in> srv_fds s \<and> handler_of s fd \<in> {Some Closing, Some Ended}"
| "acceptor_ok s (Storing fd) \<longleftrightarrow> fd \<in> srv_fds s \<and> handler_of s fd \<in> {None, Some Joined}"
| "acceptor_ok s Terminated \<longleftrightarrow> False"
| "acceptor_ok s a \<longleftrightarrow> True"

definition server_ok :: "tcp_server \<Rightarrow> bool" where
  "server_ok s \<longleftrightarrow> omap_wf (srv_handlers s) \<and> (\<forall>fd. handler_of s fd = Some At_work \<longrightarrow> fd \<in> srv_fds s) \<and> acceptor_ok s (srv_acceptor s)"

lemma handler_of_set: "omap_wf (srv_handlers s) \<Longrightarrow> handler_of (set_handler fd h s) = (handler_of s)(fd \<mapsto> h)"
  by (simp add: handler_of_def set_handler_def map_of_omap_put)

lemma set_handler_frame [simp]:
  "srv_running (set_handler fd h s) = srv_running s" "srv_acceptor (set_handler fd h s) = srv_acceptor s"
  "srv_fds (set_handler fd h s) = srv_fds s" "omap_wf (srv_handlers s) \<Longrightarrow> omap_wf (srv_handlers (set_handler fd h s))"
  by (simp_all add: set_handler_def)

lemma handler_of_frame [simp]:
  "handler_of (s\<lparr>srv_running := b\<rparr>) = handler_of s" "handler_of (s\<lparr>srv_acceptor := a\<rparr>) = handler_of s"
  "handler_of (s\<lparr>srv_fds := F\<rparr>) = handler_of s"
  by (simp_all add: handler_of_def)

lemma acceptor_ok_cong:
  "acceptor_ok s a \<Longrightarrow> srv_fds s' = srv_fds s \<Longrightarrow> handler_of s' = handler_of s \<Longrightarrow> acceptor_ok s' a"
  by (cases a) simp_all

lemma server_step_ok: "server_step s s' \<Longrightarrow> server_ok s \<Longrightarrow> server_ok s'"
proof (induction rule: server_step.induct)
  case (Test s)
  then show ?case by (simp add: server_ok_def acceptor_test_def)
next
  case (Accepted s fd)
  have "handler_of s fd \<noteq> Some At_work" using Accepted by (auto simp: server_ok_def)
  then have "handler_of s fd \<in> {None, Some Closing, Some Ended, Some Joined}"
    by (cases "handler_of s fd") (auto intro: handler.exhaust)
  then show ?case using Accepted by (auto simp: server_ok_def acceptor_accepted_def joinable_def)
next
  case (Timeout s)
  then show ?case by (simp add: server_ok_def acceptor_accepted_def)
next
  case (Join s fd s')
  then show ?case by (auto simp: server_ok_def acceptor_join_def handler_of_set split: if_splits)
next
  case (Store s fd created)
  then show ?case by (auto simp: server_ok_def acceptor_store_def handler_of_set joinable_def)
next
  case (Closes s fd)
  then have w: "omap_wf (srv_handlers s)" by (simp add: server_ok_def)
  have "acceptor_ok (handler_closes fd s) (srv_acceptor s)"
    using Closes w by (cases "srv_acceptor s") (auto simp: server_ok_def handler_closes_def handler_of_set)
  then show ?case using Closes w by (auto simp: server_ok_def handler_closes_def handler_of_set)
next
  case (Returns s fd)
  then have w: "omap_wf (srv_handlers s)" by (simp add: server_ok_def)
  have "acceptor_ok (handler_returns fd s) (srv_acceptor s)"
    using Returns w by (cases "srv_acceptor s") (auto simp: server_ok_def handler_returns_def handler_of_set)
  then show ?case using Returns w by (auto simp: server_ok_def handler_returns_def handler_of_set)
next
  case (Close s)
  then show ?case using acceptor_ok_cong [of s "srv_acceptor s" "s\<lparr>srv_running := False\<rparr>"] by (simp add: server_ok_def)
qed

lemma reachable_ok:
  assumes "server_step\<^sup>*\<^sup>* tcp_server_start s"
  shows "server_ok s"
  using assms
proof (induction rule: rtranclp_induct)
  case base
  show ?case by (simp add: tcp_server_start_def server_ok_def handler_of_def)
next
  case (step y z)
  then show ?case by (blast intro: server_step_ok)
qed

section \<open>The work that is left once the server is closed\<close>

fun handler_work :: "handler \<Rightarrow> nat" where
  "handler_work At_work = 2"
| "handler_work Closing = 1"
| "handler_work Ended = 0"
| "handler_work Joined = 0"

fun acceptor_work :: "acceptor_at \<Rightarrow> nat" where
  "acceptor_work In_accept = 6"
| "acceptor_work (Joining fd) = 5"
| "acceptor_work (Storing fd) = 4"
| "acceptor_work Loop_head = 1"
| "acceptor_work Acceptor_done = 0"
| "acceptor_work Terminated = 0"

definition work_left :: "tcp_server \<Rightarrow> nat" where
  "work_left s = acceptor_work (srv_acceptor s) + (\<Sum>fd\<in>dom (handler_of s). handler_work (the (handler_of s fd)))"

lemma sum_update:
  fixes m :: "'k \<Rightarrow> 'v option" and f :: "'v \<Rightarrow> nat"
  assumes "finite (dom m)"
  shows "(\<Sum>k\<in>dom (m(a \<mapsto> v)). f (the ((m(a \<mapsto> v)) k))) + (case m a of None \<Rightarrow> 0 | Some w \<Rightarrow> f w) = (\<Sum>k\<in>dom m. f (the (m k))) + f v"
proof -
  have "(\<Sum>k\<in>dom (m(a \<mapsto> v)). f (the ((m(a \<mapsto> v)) k))) = f v + (\<Sum>k\<in>dom m - {a}. f (the (m k)))"
    using assms by (simp add: sum.insert_remove)
  moreover have "(\<Sum>k\<in>dom m. f (the (m k))) = (case m a of None \<Rightarrow> 0 | Some w \<Rightarrow> f w) + (\<Sum>k\<in>dom m - {a}. f (the (m k)))"
    using assms by (cases "m a") (auto simp: sum.remove [of "dom m" a] domIff)
  ultimately show ?thesis by simp
qed

lemma work_left_set:
  assumes "omap_wf (srv_handlers s)"
  shows "work_left (set_handler fd h s\<lparr>srv_acceptor := a, srv_fds := F\<rparr>) + acceptor_work (srv_acceptor s) +
      (case handler_of s fd of None \<Rightarrow> 0 | Some h' \<Rightarrow> handler_work h') =
    work_left s + acceptor_work a + handler_work h"
proof -
  have "finite (dom (handler_of s))" by (simp add: handler_of_def finite_dom_map_of)
  from sum_update [OF this, where a = fd and v = h and f = handler_work] assms show ?thesis
    by (simp add: work_left_def handler_of_set)
qed

lemma work_left_acceptor: "work_left (s\<lparr>srv_acceptor := a\<rparr>) + acceptor_work (srv_acceptor s) = work_left s + acceptor_work a"
  "work_left (s\<lparr>srv_fds := F\<rparr>) = work_left s"
  by (simp_all add: work_left_def)

lemma closed_step:
  assumes "server_step s s'" and "server_ok s" and "\<not> srv_running s"
  shows "\<not> srv_running s' \<and> work_left s' < work_left s"
  using assms
proof (induction rule: server_step.induct)
  case (Test s)
  then show ?case using work_left_acceptor(1) [of Acceptor_done s] by (simp add: acceptor_test_def)
next
  case (Accepted s fd)
  then show ?case using work_left_acceptor(1) [of "Joining fd" s] work_left_acceptor(1) [of "Storing fd" s]
    by (simp add: acceptor_accepted_def work_left_acceptor(2))
next
  case (Timeout s)
  then show ?case using work_left_acceptor(1) [of Loop_head s] by (simp add: acceptor_accepted_def)
next
  case (Join s fd s')
  then have "handler_of s fd = Some Ended" "s' = set_handler fd Joined s\<lparr>srv_acceptor := Storing fd, srv_fds := srv_fds s\<rparr>"
    by (simp_all add: acceptor_join_def set_handler_def split: if_splits)
  then show ?case using Join work_left_set [where s = s and fd = fd and h = Joined and a = "Storing fd" and F = "srv_fds s"] by (simp add: server_ok_def)
next
  case (Store s fd created)
  then have h: "handler_of s fd \<in> {None, Some Joined}" by (simp add: server_ok_def)
  show ?case
  proof (cases created)
    case True
    then have "acceptor_store created fd s = set_handler fd At_work s\<lparr>srv_acceptor := Loop_head, srv_fds := srv_fds s\<rparr>"
      using h by (auto simp: acceptor_store_def joinable_def set_handler_def)
    then show ?thesis using Store h work_left_set [where s = s and fd = fd and h = At_work and a = Loop_head and F = "srv_fds s"] by (auto simp: server_ok_def)
  next
    case False
    then show ?thesis using Store work_left_acceptor(1) [of Loop_head s] by (simp add: acceptor_store_def)
  qed
next
  case (Closes s fd)
  have "handler_closes fd s = set_handler fd Closing s\<lparr>srv_acceptor := srv_acceptor s, srv_fds := srv_fds s - {fd}\<rparr>"
    by (simp add: handler_closes_def set_handler_def)
  then show ?case using Closes work_left_set [where s = s and fd = fd and h = Closing and a = "srv_acceptor s" and F = "srv_fds s - {fd}"] by (simp add: server_ok_def)
next
  case (Returns s fd)
  have "handler_returns fd s = set_handler fd Ended s\<lparr>srv_acceptor := srv_acceptor s, srv_fds := srv_fds s\<rparr>"
    by (simp add: handler_returns_def set_handler_def)
  then show ?case using Returns work_left_set [where s = s and fd = fd and h = Ended and a = "srv_acceptor s" and F = "srv_fds s"] by (simp add: server_ok_def)
qed simp

lemma stuck_done:
  assumes "server_ok s" and "\<nexists>s'. server_step s s'"
  shows "join_handlers s \<noteq> None"
proof -
  have w: "handler_of s fd \<noteq> Some At_work" "handler_of s fd \<noteq> Some Closing" for fd
    using assms(2) server_step.Closes server_step.Returns by blast+
  have "srv_acceptor s = Acceptor_done"
  proof (cases "srv_acceptor s")
    case (Joining fd)
    then have e: "handler_of s fd = Some Ended" using assms(1) w(2) by (auto simp: server_ok_def)
    have "server_step s (set_handler fd Joined s\<lparr>srv_acceptor := Storing fd\<rparr>)"
      by (intro server_step.Join [OF Joining]) (simp add: acceptor_join_def e)
    then show ?thesis using assms(2) by blast
  qed (use assms in \<open>auto simp: server_ok_def dest: server_step.Test server_step.Timeout server_step.Store\<close>)
  moreover have "\<not> list_ex (\<lambda>(fd, h). h \<in> {At_work, Closing}) (srv_handlers s)"
  proof
    assume "list_ex (\<lambda>(fd, h). h \<in> {At_work, Closing}) (srv_handlers s)"
    then obtain fd h where e: "(fd, h) \<in> set (srv_handlers s)" "h \<in> {At_work, Closing}" by (auto simp: list_ex_iff)
    have "handler_of s fd = Some h" using e(1) assms(1) omap.entry_iff [of "srv_handlers s"] by (simp add: server_ok_def handler_of_def)
    then show False using e(2) w [of fd] by auto
  qed
  ultimately show ?thesis by (simp add: join_handlers_def)
qed

section \<open>Properties\<close>

text \<open>C30. The threads of the server are handled safely in every order of their steps: the assignment of a new thread never
  meets an object that was not joined, which would end the program; when the acceptor waits in \<open>join\<close>, the earlier
  thread of that descriptor has already closed it and has only to return; a thread that is created serves the
  connection, and those of the other connections are untouched; and once the server is closed, every order of the steps
  comes to an end, after which the destructor has nothing to wait for.\<close>

theorem connections_are_served:
  assumes "server_step\<^sup>*\<^sup>* tcp_server_start s"
  shows "srv_acceptor s \<noteq> Terminated \<and>
    (\<forall>fd. srv_acceptor s = Joining fd \<longrightarrow> handler_of s fd \<in> {Some Closing, Some Ended} \<and>
      acceptor_join fd (if handler_of s fd = Some Closing then handler_returns fd s else s) \<noteq> None) \<and>
    (\<forall>fd. srv_acceptor s = Storing fd \<longrightarrow> srv_acceptor (acceptor_store True fd s) = Loop_head \<and>
      handler_of (acceptor_store True fd s) = (handler_of s)(fd \<mapsto> At_work)) \<and>
    (\<not> srv_running s \<longrightarrow> (\<forall>s'. server_step s s' \<longrightarrow> \<not> srv_running s' \<and> work_left s' < work_left s) \<and>
      ((\<nexists>s'. server_step s s') \<longrightarrow> join_handlers s \<noteq> None))"
proof (intro conjI allI impI)
  have ok: "server_ok s" by (rule reachable_ok [OF assms])
  then have w: "omap_wf (srv_handlers s)" by (simp add: server_ok_def)
  show "srv_acceptor s \<noteq> Terminated" using ok by (auto simp: server_ok_def)
  show "handler_of s fd \<in> {Some Closing, Some Ended}"
    and "acceptor_join fd (if handler_of s fd = Some Closing then handler_returns fd s else s) \<noteq> None" if "srv_acceptor s = Joining fd" for fd
    using ok that w by (auto simp: server_ok_def acceptor_join_def handler_returns_def handler_of_set)
  show "srv_acceptor (acceptor_store True fd s) = Loop_head" and "handler_of (acceptor_store True fd s) = (handler_of s)(fd \<mapsto> At_work)"
    if "srv_acceptor s = Storing fd" for fd
    using ok that w by (auto simp: server_ok_def acceptor_store_def joinable_def handler_of_set)
  show "\<not> srv_running s'" and "work_left s' < work_left s" if "\<not> srv_running s" and "server_step s s'" for s'
    using closed_step [OF that(2) ok that(1)] by simp_all
  show "join_handlers s \<noteq> None" if "\<nexists>s'. server_step s s'" using stuck_done [OF ok that] .
qed

theorem connections_are_served_witness:
  "\<exists>s. server_step\<^sup>*\<^sup>* tcp_server_start s \<and> srv_acceptor s = Joining 7 \<and> handler_of s 7 = Some Closing \<and>
     acceptor_join 7 (handler_returns 7 s) \<noteq> None"
proof -
  let ?S = "\<lambda>a m F. \<lparr>srv_running = True, srv_acceptor = a, srv_handlers = m, srv_fds = F\<rparr>"
  let ?s = "?S (Joining 7) [(7, Closing)] {7}"
  note steps = acceptor_test_def acceptor_accepted_def acceptor_store_def handler_closes_def handler_of_def set_handler_def
    joinable_def tcp_server_start_def
  have "server_step tcp_server_start (?S In_accept [] {})" using server_step.Test [of tcp_server_start] by (simp add: steps)
  moreover have "server_step (?S In_accept [] {}) (?S (Storing 7) [] {7})"
    using server_step.Accepted [of "?S In_accept [] {}" 7] by (simp add: steps)
  moreover have "server_step (?S (Storing 7) [] {7}) (?S Loop_head [(7, At_work)] {7})"
    using server_step.Store [of "?S (Storing 7) [] {7}" 7 True] by (simp add: steps)
  moreover have "server_step (?S Loop_head [(7, At_work)] {7}) (?S In_accept [(7, At_work)] {7})"
    using server_step.Test [of "?S Loop_head [(7, At_work)] {7}"] by (simp add: steps)
  moreover have "server_step (?S In_accept [(7, At_work)] {7}) (?S In_accept [(7, Closing)] {})"
    using server_step.Closes [of "?S In_accept [(7, At_work)] {7}" 7] by (simp add: steps)
  moreover have "server_step (?S In_accept [(7, Closing)] {}) ?s"
    using server_step.Accepted [of "?S In_accept [(7, Closing)] {}" 7] by (simp add: steps)
  ultimately have r: "server_step\<^sup>*\<^sup>* tcp_server_start ?s" by (meson converse_rtranclp_into_rtranclp rtranclp.rtrancl_refl)
  have m: "srv_acceptor ?s = Joining 7" "handler_of ?s 7 = Some Closing" by (simp_all add: handler_of_def)
  have "acceptor_join 7 (handler_returns 7 ?s) \<noteq> None"
    using connections_are_served [OF r] m by (auto simp: handler_of_def)
  with r m show ?thesis by blast
qed

end
