(* ===== verification/Socket_Options.thy ===== *)
theory Socket_Options
  imports Client Tcp_Tunnel
begin

text \<open>
  The options of the sockets (\<open>udpsocket.cc\<close>, \<open>ovtcpsocket.cc\<close>, Linux branches): priority, type of
  service and receive timeout, as far as the kernel accepts them, and the timeouts that the
  session client asks for. The code never looks at what \<open>setsockopt\<close> returns.
\<close>

section \<open>Options of a socket\<close>

text \<open>A receive timeout of zero seconds and microseconds means to wait without limit, as a new socket does.\<close>

record socket_options =
  so_rcvtimeo :: "int \<times> int"
  so_priority :: "int option"
  so_tos :: "int option"

definition new_options :: socket_options where
  "new_options = \<lparr>so_rcvtimeo = (0, 0), so_priority = None, so_tos = None\<rparr>"

definition waits_forever :: "socket_options \<Rightarrow> bool" where
  "waits_forever so \<longleftrightarrow> so_rcvtimeo so = (0, 0)"

text \<open>Which values \<open>setsockopt\<close> accepts; a value that it rejects changes nothing.\<close>

record option_kernel =
  ok_rcvtimeo :: "int \<times> int \<Rightarrow> bool"
  ok_priority :: "int \<Rightarrow> bool"
  ok_tos :: "int \<Rightarrow> bool"

text \<open>
  As documented (\<open>EDOM\<close>): the microseconds of a receive timeout must be less than a second.
\<close>

definition posix_timeouts :: "option_kernel \<Rightarrow> bool" where
  "posix_timeouts K \<longleftrightarrow> (\<forall>sec usec. ok_rcvtimeo K (sec, usec) \<longleftrightarrow> 0 \<le> usec \<and> usec < 1000000)"

definition set_timeout_usec :: "option_kernel \<Rightarrow> int \<Rightarrow> socket_options \<Rightarrow> socket_options" where
  "set_timeout_usec K usec so = (let tv = (0, usec) in if ok_rcvtimeo K tv then so\<lparr>so_rcvtimeo := tv\<rparr> else so)"

definition set_netpriority :: "option_kernel \<Rightarrow> int \<Rightarrow> socket_options \<Rightarrow> socket_options" where
  "set_netpriority K priority so = (if ok_priority K priority then so\<lparr>so_priority := Some priority\<rparr> else so)"

definition set_iptos :: "option_kernel \<Rightarrow> int \<Rightarrow> socket_options \<Rightarrow> socket_options" where
  "set_iptos K iptos so = (if ok_tos K iptos then so\<lparr>so_tos := Some iptos\<rparr> else so)"

definition IPTOS_DSCP_EF :: int where "IPTOS_DSCP_EF = 0xb8"

definition set_expedited_forwarding_PHB :: "option_kernel \<Rightarrow> socket_options \<Rightarrow> socket_options" where
  "set_expedited_forwarding_PHB K so = set_netpriority K 6 (set_iptos K IPTOS_DSCP_EF so)"

text \<open>What the constructor of \<open>udpsocket_t\<close> sets on its new socket.\<close>

definition udp_options :: "option_kernel \<Rightarrow> socket_options" where
  "udp_options K = set_netpriority K 6 (set_iptos K 0xc0 new_options)"

section \<open>The sockets of the tunnel\<close>

text \<open>
  The options of all descriptors of the process. The descriptor for which a timeout is
  requested is computed, but the option is set on the socket of the object.
\<close>

definition tcp_set_timeout_usec ::
  "option_kernel \<Rightarrow> int \<Rightarrow> int \<Rightarrow> ovtcpsocket \<Rightarrow> (int \<Rightarrow> socket_options) \<Rightarrow> int \<Rightarrow> socket_options" where
  "tcp_set_timeout_usec K usec fd0 t opts =
     (let fd = (if fd0 = -1 then tcp_sockfd t else fd0)
      in opts(tcp_sockfd t := set_timeout_usec K usec (opts (tcp_sockfd t))))"

definition tcp_options :: "option_kernel \<Rightarrow> ovtcpsocket \<Rightarrow> (int \<Rightarrow> socket_options) \<Rightarrow> int \<Rightarrow> socket_options" where
  "tcp_options K t opts =
     tcp_set_timeout_usec K 10000 (-1) t (opts(tcp_sockfd t := set_netpriority K 6 (opts (tcp_sockfd t))))"

lemma tcp_timeout_other_descriptor:
  "fd \<noteq> tcp_sockfd t \<Longrightarrow> tcp_set_timeout_usec K usec fd t opts fd = opts fd"
  by (simp add: tcp_set_timeout_usec_def)

section \<open>The timeouts of the session client\<close>

definition deadline_options :: "option_kernel \<Rightarrow> fpu \<Rightarrow> real \<Rightarrow> socket_options \<Rightarrow> socket_options" where
  "deadline_options K F t_ms so = (if t_ms > 0 then set_timeout_usec K (usec_of_ms F t_ms) so else so)"

text \<open>The options of the sockets \<open>remote_server\<close> and \<open>local_server\<close> after the constructor.\<close>

definition client_options :: "option_kernel \<Rightarrow> fpu \<Rightarrow> client_config \<Rightarrow> socket_options \<times> socket_options" where
  "client_options K F g = (deadline_options K F (cfg_deadline g) (udp_options K), set_timeout_usec K 10000 (udp_options K))"

lemma set_timeout_posix:
  assumes "posix_timeouts K"
  shows "so_rcvtimeo (set_timeout_usec K usec so) = (if 0 \<le> usec \<and> usec < 1000000 then (0, usec) else so_rcvtimeo so)"
  using assms by (simp add: set_timeout_usec_def posix_timeouts_def)

lemma udp_options_timeout [simp]: "so_rcvtimeo (udp_options K) = (0, 0)"
  by (simp add: udp_options_def set_netpriority_def set_iptos_def new_options_def)

lemma deadline_timeout:
  assumes "posix_timeouts K"
  shows "so_rcvtimeo (deadline_options K F t so) =
    (if 0 < t \<and> 0 \<le> usec_of_ms F t \<and> usec_of_ms F t < 1000000 then (0, usec_of_ms F t) else so_rcvtimeo so)"
  using set_timeout_posix [OF assms] by (simp add: deadline_options_def)

lemma usec_of_a_second: "fl F 1000000 = 1000000 \<Longrightarrow> 1000 \<le> t \<Longrightarrow> usec_of_ms F t = 1000000"
  by (simp add: usec_of_ms_def)

section \<open>Properties\<close>

text \<open>C28. A deadline of one second is no deadline: the timeout of the socket to the server is the deadline in
  microseconds when these are less than a million; for a deadline of one second or more the value is clipped to
  a million, which the kernel rejects, so that the new client waits without limit for the next
  datagram and a later change has no effect.\<close>

theorem deadline_of_a_second:
  assumes "posix_timeouts K" and "fl F 1000000 = 1000000"
  shows "so_rcvtimeo (snd (client_options K F g)) = (0, 10000) \<and>
    (0 < cfg_deadline g \<and> usec_of_ms F (cfg_deadline g) \<in> {1..<1000000} \<longrightarrow>
      so_rcvtimeo (fst (client_options K F g)) = (0, usec_of_ms F (cfg_deadline g))) \<and>
    (1000 \<le> cfg_deadline g \<longrightarrow> waits_forever (fst (client_options K F g))) \<and>
    (1000 \<le> t \<longrightarrow> so_rcvtimeo (deadline_options K F t so) = so_rcvtimeo so)"
  using assms deadline_timeout [OF assms(1), of F] usec_of_a_second [OF assms(2)]
  by (simp add: client_options_def waits_forever_def set_timeout_posix)

definition linux_options :: option_kernel where
  "linux_options = \<lparr>ok_rcvtimeo = (\<lambda>(sec, usec). 0 \<le> usec \<and> usec < 1000000), ok_priority = (\<lambda>p. 0 \<le> p \<and> p \<le> 6), ok_tos = (\<lambda>_. True)\<rparr>"

definition example_deadline :: "real \<Rightarrow> client_config" where
  "example_deadline t =
     \<lparr>cfg_desthost = ''relay'', cfg_destport = 4464, cfg_recport = 9876, cfg_portoffset = 0, cfg_secret = 12345678, cfg_callerid = 1,
      cfg_peer2peer = True, cfg_donotsend = False, cfg_receivedownmix = False, cfg_sendlocal = True, cfg_deadline = t,
      cfg_senddownmix = False, cfg_usingproxy = False, cfg_use_tcp_tunnel = False, cfg_encryption = False\<rparr>"

theorem deadline_of_a_second_witness:
  "so_rcvtimeo (fst (client_options linux_options exact_fpu (example_deadline 5))) = (0, 5000) \<and>
   waits_forever (fst (client_options linux_options exact_fpu (example_deadline 1000))) \<and>
   so_rcvtimeo (deadline_options linux_options exact_fpu 2000 (fst (client_options linux_options exact_fpu (example_deadline 5)))) = (0, 5000)"
proof -
  have K: "posix_timeouts linux_options" by (simp add: posix_timeouts_def linux_options_def)
  have F: "fl exact_fpu 1000000 = 1000000" by (simp add: exact_fpu_def)
  have u: "usec_of_ms exact_fpu 5 = 5000" by (simp add: usec_of_ms_def exact_fpu_def)
  have d: "cfg_deadline (example_deadline t) = t" for t by (simp add: example_deadline_def)
  show ?thesis
    using deadline_of_a_second [OF K F, of "example_deadline 5" 2000] deadline_of_a_second [OF K F, of "example_deadline 1000" 2000]
    by (simp add: d u)
qed

end
