(* ===== verification/Config_Json.thy ===== *)
theory Config_Json
  imports Render_Base Tools
begin

text \<open>
  How the configuration client reads its configuration: \<open>json_merge\<close> (\<open>ov_tools.cc\<close>), \<open>get_stage_dev\<close>
  and the rendering settings (\<open>ov_client_orlandoviols.cc\<close>). Values are trees; the conversions are those of
  the library \<open>json_lib\<close>.
\<close>

section \<open>Ways to stop\<close>

text \<open>An exception, or an access outside of a container, after which nothing is known.\<close>

datatype stop = Throws err | Undefined fault

fun bind_stop :: "stop + 'a \<Rightarrow> ('a \<Rightarrow> stop + 'b) \<Rightarrow> stop + 'b" where
  "bind_stop (Inl e) f = Inl e"
| "bind_stop (Inr x) f = f x"

lemma bind_stop_Inr_iff: "bind_stop r f = Inr y \<longleftrightarrow> (\<exists>x. r = Inr x \<and> f x = Inr y)"
  by (cases r) auto

fun throwing :: "err + 'a \<Rightarrow> stop + 'a" where
  "throwing (Inl e) = Inl (Throws e)"
| "throwing (Inr x) = Inr x"

lemma throwing_Inr_iff [simp]: "throwing r = Inr x \<longleftrightarrow> r = Inr x"
  by (cases r) auto

text \<open>An exception is caught and thrown again behind a prefix.\<close>

fun rethrow :: "string \<Rightarrow> stop + 'a \<Rightarrow> stop + 'a" where
  "rethrow pre (Inl (Throws e)) = Inl (Throws (ErrMsg (pre @ what e)))"
| "rethrow pre r = r"

lemma rethrow_Inr_iff [simp]: "rethrow p r = Inr x \<longleftrightarrow> r = Inr x"
  by (cases "(p, r)" rule: rethrow.cases) auto

section \<open>Merging configurations\<close>

text \<open>Objects are ordered maps; \<open>j[key] = v\<close> makes an object of null and throws for other values.\<close>

fun jval_put :: "string \<Rightarrow> jval \<Rightarrow> jval \<Rightarrow> err + jval" where
  "jval_put k v (Jobj kvs) = Inr (Jobj (omap_put k v kvs))"
| "jval_put k v Jnull = Inr (Jobj [(k, v)])"
| "jval_put k v j = Inl type_error"

fun is_obj :: "jval \<Rightarrow> bool" where
  "is_obj (Jobj kvs) = True"
| "is_obj j = False"

text \<open>
  The loop over the entries of the right side; for an array or a scalar the first \<open>key()\<close>
  throws. \<open>lhs[key]\<close> is only reached with a key that is there.
\<close>

fun json_merge :: "jval \<Rightarrow> jval \<Rightarrow> err + jval" and
    merge_entries :: "jval \<Rightarrow> jval \<Rightarrow> (string \<times> jval) list \<Rightarrow> err + jval" where
  "json_merge lhs (Jobj kvs) = merge_entries lhs lhs kvs"
| "json_merge lhs Jnull = Inr lhs"
| "json_merge lhs (Jarr vs) = (if vs = [] then Inr lhs else Inl type_error)"
| "json_merge lhs (Jbool b) = Inl type_error"
| "json_merge lhs (Jnum x) = Inl type_error"
| "json_merge lhs (Jstr s) = Inl type_error"
| "merge_entries lhs j [] = Inr j"
| "merge_entries lhs j ((key, v) # kvs) =
     bind_err
       (if is_obj v then
          bind_err (jval_index j key) (\<lambda>cur.
            if cur \<noteq> Jnull then bind_err (jval_index lhs key) (\<lambda>old. json_merge old v) else Inr v)
        else Inr v)
       (\<lambda>new. bind_err (jval_put key new j) (\<lambda>j'. merge_entries lhs j' kvs))"

section \<open>What a merge yields\<close>

text \<open>The entries of a value, the value of a key (null when it is missing), values that can be merged into.\<close>

fun entries_of :: "jval \<Rightarrow> (string \<times> jval) list" where
  "entries_of (Jobj kvs) = kvs"
| "entries_of j = []"

definition jat :: "jval \<Rightarrow> string \<Rightarrow> jval" where
  "jat j k = (case map_of (entries_of j) k of None \<Rightarrow> Jnull | Some v \<Rightarrow> v)"

fun mergeable :: "jval \<Rightarrow> bool" where
  "mergeable (Jobj kvs) = omap_wf kvs"
| "mergeable Jnull = True"
| "mergeable j = False"

fun jval_wf :: "jval \<Rightarrow> bool" where
  "jval_wf (Jobj kvs) = (omap_wf kvs \<and> (\<forall>kv\<in>set kvs. jval_wf (snd kv)))"
| "jval_wf (Jarr vs) = (\<forall>v\<in>set vs. jval_wf v)"
| "jval_wf j = True"

text \<open>The new value of a key: objects are merged, anything else replaces.\<close>

definition merge_value :: "jval \<Rightarrow> jval \<Rightarrow> err + jval" where
  "merge_value old v = (if is_obj v \<and> old \<noteq> Jnull then json_merge old v else Inr v)"

lemma index_at: "mergeable j \<Longrightarrow> jval_index j k = Inr (jat j k)"
  by (cases j) (simp_all add: jat_def)

lemma put_mergeable: "mergeable j \<Longrightarrow> jval_put k v j = Inr (Jobj (omap_put k v (entries_of j)))"
  by (cases j) simp_all

lemma entries_wf: "mergeable j \<Longrightarrow> omap_wf (entries_of j)"
  by (cases j) simp_all

lemma merge_step:
  assumes "mergeable lhs" and "mergeable j" and "jat j k = jat lhs k"
  shows "merge_entries lhs j ((k, v) # kvs) =
    bind_err (merge_value (jat lhs k) v) (\<lambda>new. merge_entries lhs (Jobj (omap_put k new (entries_of j))) kvs)"
  using assms by (simp add: merge_value_def index_at put_mergeable)

lemma at_put: "omap_wf m \<Longrightarrow> jat (Jobj (omap_put k v m)) k' = (if k' = k then v else jat (Jobj m) k')"
  by (simp add: jat_def omap.lookup_put)

lemma at_entries: "mergeable j \<Longrightarrow> jat (Jobj (entries_of j)) k = jat j k"
  by (cases j) (simp_all add: jat_def)

text \<open>The result has, for each key of the right side, the new value, and the other entries of the left.\<close>

definition merge_result :: "jval \<Rightarrow> jval \<Rightarrow> (string \<times> jval) list \<Rightarrow> jval \<Rightarrow> bool" where
  "merge_result lhs j kvs m \<longleftrightarrow> mergeable m \<and> (is_obj m \<or> kvs = [] \<and> m = j) \<and>
     (\<forall>(k, v)\<in>set kvs. \<exists>x. merge_value (jat lhs k) v = Inr x \<and> map_of (entries_of m) k = Some x) \<and>
     (\<forall>k. k \<notin> fst ` set kvs \<longrightarrow> map_of (entries_of m) k = map_of (entries_of j) k)"

lemma merge_entries_result:
  assumes "mergeable lhs" and "mergeable j" and "distinct (map fst kvs)" and "\<forall>k\<in>fst ` set kvs. jat j k = jat lhs k"
    and "merge_entries lhs j kvs = Inr m"
  shows "merge_result lhs j kvs m"
  using assms(2-)
proof (induction kvs arbitrary: j)
  case (Cons kv kvs)
  obtain k v where kv: "kv = (k, v)" by fastforce
  let ?j = "\<lambda>new. Jobj (omap_put k new (entries_of j))"
  have wf: "omap_wf (entries_of j)" using Cons.prems(1) by (rule entries_wf)
  have fresh: "k \<notin> fst ` set kvs" using Cons.prems(2) kv by auto
  obtain x where x: "merge_value (jat lhs k) v = Inr x" "merge_entries lhs (?j x) kvs = Inr m"
    using Cons.prems merge_step [OF assms(1) Cons.prems(1)] kv by (auto simp: bind_err_Inr_iff simp del: merge_entries.simps)
  have j: "mergeable (?j x)" "\<forall>k'\<in>fst ` set kvs. jat (?j x) k' = jat lhs k'"
    using Cons.prems(1,3) wf kv fresh by (auto simp: at_put at_entries)
  from Cons.IH [OF j(1) _ j(2) x(2)] Cons.prems(2) have IH: "merge_result lhs (?j x) kvs m" by simp
  then have "map_of (entries_of m) k = Some x" using fresh wf by (simp add: merge_result_def omap.lookup_put)
  with IH x(1) show ?case using kv wf by (auto simp: merge_result_def omap.lookup_put)
qed (simp add: merge_result_def)

lemma merge_entries_exists:
  assumes "mergeable lhs" and "mergeable j" and "distinct (map fst kvs)" and "\<forall>k\<in>fst ` set kvs. jat j k = jat lhs k"
    and "\<forall>(k, v)\<in>set kvs. \<exists>x. merge_value (jat lhs k) v = Inr x"
  shows "\<exists>m. merge_entries lhs j kvs = Inr m"
  using assms(2-)
proof (induction kvs arbitrary: j)
  case (Cons kv kvs)
  obtain k v where kv: "kv = (k, v)" by fastforce
  have wf: "omap_wf (entries_of j)" using Cons.prems(1) by (rule entries_wf)
  have fresh: "k \<notin> fst ` set kvs" using Cons.prems(2) kv by auto
  obtain x where x: "merge_value (jat lhs k) v = Inr x" using Cons.prems(4) kv by auto
  let ?j = "Jobj (omap_put k x (entries_of j))"
  have j: "mergeable ?j" "\<forall>k'\<in>fst ` set kvs. jat ?j k' = jat lhs k'"
    using Cons.prems(1,3) wf kv fresh by (auto simp: at_put at_entries)
  from Cons.IH [OF j(1) _ j(2)] Cons.prems(2,4) obtain m where "merge_entries lhs ?j kvs = Inr m" by auto
  then show ?case using x merge_step [OF assms(1) Cons.prems(1), of k v kvs] Cons.prems(3) kv by (simp del: merge_entries.simps)
qed simp

lemma merge_result_unique:
  assumes "merge_result lhs j kvs m" and "merge_result lhs j kvs m'" and "kvs \<noteq> []"
  shows "m = m'"
proof -
  have "map_of (entries_of m) k = map_of (entries_of m') k" for k
    using assms(1,2) by (cases "k \<in> fst ` set kvs") (force simp: merge_result_def)+
  then have "entries_of m = entries_of m'"
    using assms(1,2) omap.entries_unique [of "entries_of m" "entries_of m'"] by (auto simp: merge_result_def entries_wf)
  then show ?thesis using assms by (cases m; cases m') (auto simp: merge_result_def)
qed

section \<open>Merging again\<close>

text \<open>A value merged into null is itself; what merging an object into a value yields is never null.\<close>

lemma merge_null: "jval_wf (Jobj kvs) \<Longrightarrow> json_merge Jnull (Jobj kvs) = Inr (Jobj kvs) \<or> kvs = []"
proof (rule disjCI)
  assume wf: "jval_wf (Jobj kvs)" and ne: "kvs \<noteq> []"
  have d: "distinct (map fst kvs)" using wf by (simp add: omap.entries_distinct)
  have v: "merge_value (jat Jnull k) x = Inr x" for k x by (simp add: merge_value_def jat_def)
  then obtain m where m: "merge_entries Jnull Jnull kvs = Inr m" using merge_entries_exists [of Jnull Jnull kvs] d by auto
  have "merge_result Jnull Jnull kvs (Jobj kvs)"
    using wf d v by (auto simp: merge_result_def map_of_eq_None_iff)
  with merge_entries_result [of Jnull Jnull kvs m] m d ne have "m = Jobj kvs" using merge_result_unique by auto
  with m show "json_merge Jnull (Jobj kvs) = Inr (Jobj kvs)" by simp
qed

lemma merge_scalar:
  "\<not> is_obj old \<Longrightarrow> old \<noteq> Jnull \<Longrightarrow> json_merge old (Jobj kvs) = (if kvs = [] then Inr old else Inl type_error)"
  by (cases old; cases kvs) auto

lemma wf_mergeable: "jval_wf j \<Longrightarrow> is_obj j \<or> j = Jnull \<Longrightarrow> mergeable j"
  by (cases j) auto

lemma jat_wf: "jval_wf j \<Longrightarrow> jval_wf (jat j k)"
  by (cases j) (force simp: jat_def dest: map_of_SomeD split: option.split)+

lemma merge_object_result:
  assumes "jval_wf lhs" and "omap_wf kvs" and "json_merge lhs (Jobj kvs) = Inr m" and "kvs \<noteq> []"
  shows "mergeable lhs \<and> merge_result lhs lhs kvs m"
proof -
  have "is_obj lhs \<or> lhs = Jnull" using assms(3,4) merge_scalar [of lhs kvs] by auto
  then have "mergeable lhs" using assms(1) by (rule wf_mergeable [rotated])
  then show ?thesis using merge_entries_result [of lhs lhs kvs m] assms(2,3) omap.entries_distinct [OF assms(2)] by simp
qed

lemma merge_again:
  "jval_wf lhs \<Longrightarrow> jval_wf rhs \<Longrightarrow> json_merge lhs rhs = Inr m \<Longrightarrow> json_merge m rhs = Inr m"
proof (induction rhs arbitrary: lhs m)
  case (Jobj kvs)
  show ?case
  proof (cases "kvs = []")
    case False
    have wf: "omap_wf kvs" and d: "distinct (map fst kvs)" using Jobj.prems(2) by (auto simp: omap.entries_distinct)
    have res: "mergeable lhs" "merge_result lhs lhs kvs m" using merge_object_result [OF Jobj.prems(1) wf Jobj.prems(3) False] by auto
    have stable: "merge_value (jat m k) v = Inr (jat m k) \<and> map_of (entries_of m) k = Some (jat m k)" if kv: "(k, v) \<in> set kvs" for k v
    proof -
      obtain x where x: "merge_value (jat lhs k) v = Inr x" and at: "map_of (entries_of m) k = Some x"
        using res(2) kv by (auto simp: merge_result_def)
      have IH: "jval_wf l \<Longrightarrow> json_merge l v = Inr y \<Longrightarrow> json_merge y v = Inr y" for l y
        using Jobj.IH [of "(k, v)" v l y] kv Jobj.prems(2) by auto
      have "json_merge x v = Inr x" if obj: "is_obj v"
      proof (cases "jat lhs k = Jnull")
        case True
        then have "x = v" using x by (simp add: merge_value_def)
        moreover obtain es where "v = Jobj es" using obj by (cases v) auto
        moreover have "jval_wf v" using kv Jobj.prems(2) by auto
        ultimately show ?thesis using IH [of Jnull v] merge_null [of es] by auto
      next
        case False
        then show ?thesis using x obj IH [OF jat_wf [OF Jobj.prems(1)]] by (simp add: merge_value_def)
      qed
      moreover have "x \<noteq> Jnull" if obj: "is_obj v"
      proof (cases "jat lhs k = Jnull")
        case True
        then show ?thesis using x obj by (auto simp: merge_value_def)
      next
        case False
        obtain es where v: "v = Jobj es" using obj by (cases v) auto
        then have e: "json_merge (jat lhs k) (Jobj es) = Inr x" "omap_wf es" using x False kv Jobj.prems(2) by (auto simp: merge_value_def)
        show ?thesis
        proof (cases "es = []")
          case False
          then have "is_obj x"
            using merge_object_result [OF jat_wf [OF Jobj.prems(1)] e(2,1)] by (simp add: merge_result_def)
          then show ?thesis by auto
        qed (use e False in auto)
      qed
      ultimately have "merge_value x v = Inr x" using x by (auto simp: merge_value_def)
      then show ?thesis using at by (simp add: jat_def)
    qed
    have m: "mergeable m" using res(2) by (simp add: merge_result_def)
    obtain m' where m': "json_merge m (Jobj kvs) = Inr m'"
      using merge_entries_exists [of m m kvs] m d stable by auto
    have "merge_result m m kvs m" using m stable res(2) False by (auto simp: merge_result_def)
    moreover have "merge_result m m kvs m'" using merge_entries_result [of m m kvs m'] m m' d by simp
    ultimately have "m' = m" using False merge_result_unique by blast
    with m' show ?thesis by simp
  qed (use Jobj.prems in simp)
qed (auto split: if_splits)

section \<open>Devices\<close>

definition read_pos :: "'j json_lib \<Rightarrow> 'j \<Rightarrow> err + pos" where
  "read_pos J js =
     bind_err (my_js_value J (get_real J) js ''x'' 0) (\<lambda>x.
     bind_err (my_js_value J (get_real J) js ''y'' 0) (\<lambda>y.
     bind_err (my_js_value J (get_real J) js ''z'' 0) (\<lambda>z.
       Inr \<lparr>pos_x = x, pos_y = y, pos_z = z\<rparr>)))"

definition read_rot :: "'j json_lib \<Rightarrow> 'j \<Rightarrow> err + zyx_euler" where
  "read_rot J js =
     bind_err (my_js_value J (get_real J) js ''z'' 0) (\<lambda>z.
     bind_err (my_js_value J (get_real J) js ''y'' 0) (\<lambda>y.
     bind_err (my_js_value J (get_real J) js ''x'' 0) (\<lambda>x.
       Inr \<lparr>rot_z = z, rot_y = y, rot_x = x\<rparr>)))"

text \<open>
  One element of the array of channels; \<open>chcnt\<close> counts the channels without a name. The
  identifier is made of label, number and name.
\<close>

definition channel_id :: "string \<Rightarrow> stage_device_id_t \<Rightarrow> nat \<Rightarrow> string \<Rightarrow> string" where
  "channel_id label i chcnt name =
     (if name = [] then label @ ''_'' @ show_nat (unat i) @ ''_c'' @ show_nat chcnt
      else label @ ''_'' @ show_nat (unat i) @ ''_'' @ name)"

definition read_channel :: "'j json_lib \<Rightarrow> string \<Rightarrow> stage_device_id_t \<Rightarrow> nat \<Rightarrow> 'j \<Rightarrow> stop + device_channel" where
  "read_channel J label i chcnt ch =
     bind_stop (throwing (my_js_value J (get_string J) ch ''name'' [])) (\<lambda>name.
     bind_stop (throwing (my_js_value J (get_string J) ch ''sourceport'' [])) (\<lambda>sourceport.
     bind_stop (throwing (my_js_value J (get_real J) ch ''gain'' 1)) (\<lambda>gain.
     bind_stop (throwing (bind_err (js_index J ch ''position'') (read_pos J))) (\<lambda>position.
     bind_stop (throwing (my_js_value J (get_string J) ch ''directivity'' ''omni'')) (\<lambda>directivity.
     bind_stop (throwing (js_index J ch ''plugins'')) (\<lambda>plugins.
       let devchannel = (device_channel_ctor (channel_id label i chcnt name) sourceport gain position directivity)\<lparr>ch_name := name\<rparr>
       in case update_plugin_cfg J (js_dump J plugins) devchannel of
            Inl f \<Rightarrow> Inl (Undefined f)
          | Inr (c, Some e) \<Rightarrow> Inl (Throws e)
          | Inr (c, None) \<Rightarrow> Inr c))))))"

fun read_channels :: "'j json_lib \<Rightarrow> string \<Rightarrow> stage_device_id_t \<Rightarrow> nat \<Rightarrow> 'j list \<Rightarrow> stop + device_channel list" where
  "read_channels J label i chcnt [] = Inr []"
| "read_channels J label i chcnt (ch # chs) =
     bind_stop (read_channel J label i chcnt ch) (\<lambda>c.
     bind_stop (read_channels J label i (if ch_name c = [] then chcnt + 1 else chcnt) chs) (\<lambda>cs.
       Inr (c # cs)))"

definition stage_dev_body :: "'j json_lib \<Rightarrow> 'j \<Rightarrow> stop + stage_device" where
  "stage_dev_body J dev =
     bind_stop (throwing (my_js_value J (get_i32 J) dev ''id'' (- 1))) (\<lambda>idnum.
     bind_stop (throwing (my_js_value J (get_string J) dev ''deviceid'' [])) (\<lambda>uid.
     bind_stop (throwing (my_js_value J (get_string J) dev ''label'' [])) (\<lambda>label.
     bind_stop (throwing (my_js_value J (get_bool J) dev ''receivedownmix'' False)) (\<lambda>receivedownmix.
     bind_stop (throwing (my_js_value J (get_bool J) dev ''senddownmix'' False)) (\<lambda>senddownmix.
     bind_stop (throwing (my_js_value J (get_bool J) dev ''nozita'' False)) (\<lambda>nozita.
     bind_stop (throwing (my_js_value J (get_bool J) dev ''hiresping'' False)) (\<lambda>hiresping.
     bind_stop (throwing (js_index J dev ''channels'')) (\<lambda>chs.
     bind_stop (if js_is_array J chs then read_channels J label (ucast idnum) 0 (js_elements J chs) else Inr []) (\<lambda>channels.
     bind_stop (throwing (bind_err (js_index J dev ''position'') (read_pos J))) (\<lambda>position.
     bind_stop (throwing (bind_err (js_index J dev ''orientation'') (read_rot J))) (\<lambda>orientation.
     bind_stop (throwing (my_js_value J (get_real J) dev ''gain'' 1)) (\<lambda>gain.
     bind_stop (throwing (my_js_value J (get_bool J) dev ''mute'' False)) (\<lambda>mute.
     bind_stop (throwing (js_index J dev ''jitter'')) (\<lambda>jitter.
     bind_stop (throwing (my_js_value J (get_real J) jitter ''receive'' 5)) (\<lambda>receive.
     bind_stop (throwing (my_js_value J (get_real J) jitter ''send'' 5)) (\<lambda>send.
     bind_stop (throwing (my_js_value J (get_bool J) dev ''sendlocal'' True)) (\<lambda>sendlocal.
       Inr \<lparr>sd_id = ucast idnum, sd_uid = uid, sd_label = label, sd_channels = channels, sd_position = position,
            sd_orientation = orientation, sd_gain = gain, sd_mute = mute, sd_senderjitter = send,
            sd_receiverjitter = receive, sd_sendlocal = sendlocal, sd_receivedownmix = receivedownmix,
            sd_senddownmix = senddownmix, sd_nozita = nozita, sd_hiresping = hiresping\<rparr>)))))))))))))))))"

definition get_stage_dev :: "'j json_lib \<Rightarrow> 'j \<Rightarrow> stop + stage_device" where
  "get_stage_dev J dev = rethrow ''get_stage_dev: '' (stage_dev_body J dev)"

text \<open>The devices of the stage, by their number; a later one replaces an earlier one.\<close>

fun read_stage :: "'j json_lib \<Rightarrow> 'j list \<Rightarrow> stage_map \<Rightarrow> stop + stage_map" where
  "read_stage J [] m = Inr m"
| "read_stage J (dev # devs) m = bind_stop (get_stage_dev J dev) (\<lambda>sdev. read_stage J devs (omap_put (sd_id sdev) sdev m))"

lemma read_stage_wf: "read_stage J devs m = Inr m' \<Longrightarrow> omap_wf m \<Longrightarrow> omap_wf m'"
  by (induction J devs m rule: read_stage.induct) (auto simp: bind_stop_Inr_iff)

section \<open>Audio device and relay server\<close>

text \<open>Each step reads one field; the default is the current value or a constant.\<close>

definition getjs ::
  "'j json_lib \<Rightarrow> ('j \<Rightarrow> err + 'v) \<Rightarrow> 'j \<Rightarrow> string \<Rightarrow> ('s \<Rightarrow> 'v) \<Rightarrow> ('v \<Rightarrow> 's \<Rightarrow> 's) \<Rightarrow> 's \<Rightarrow> err + 's" where
  "getjs J get js key sel put s = bind_err (my_js_value J get js key (sel s)) (\<lambda>v. Inr (put v s))"

definition setjs ::
  "'j json_lib \<Rightarrow> ('j \<Rightarrow> err + 'v) \<Rightarrow> 'j \<Rightarrow> string \<Rightarrow> 'v \<Rightarrow> ('v \<Rightarrow> 's \<Rightarrow> 's) \<Rightarrow> 's \<Rightarrow> err + 's" where
  "setjs J get js key d put s = bind_err (my_js_value J get js key d) (\<lambda>v. Inr (put v s))"

fun read_all :: "('s \<Rightarrow> err + 's) list \<Rightarrow> 's \<Rightarrow> err + 's" where
  "read_all [] s = Inr s"
| "read_all (f # fs) s = bind_err (f s) (read_all fs)"

definition read_audio :: "'j json_lib \<Rightarrow> 'j \<Rightarrow> err + audio_device" where
  "read_audio J js =
     bind_err (my_js_value J (get_string J) js ''driver'' ''jack'') (\<lambda>driver.
     bind_err (my_js_value J (get_string J) js ''device'' ''hw:1'') (\<lambda>device.
     bind_err (my_js_value J (get_real J) js ''srate'' 48000) (\<lambda>srate.
     bind_err (my_js_value J (get_i32 J) js ''periodsize'' 96) (\<lambda>periodsize.
     bind_err (my_js_value J (get_i32 J) js ''numperiods'' 2) (\<lambda>numperiods.
     bind_err (my_js_value J (get_i32 J) js ''priority'' 40) (\<lambda>priority.
       Inr \<lparr>ad_drivername = driver, ad_devicename = device, ad_srate = srate, ad_periodsize = periodsize,
            ad_numperiods = numperiods, ad_priority = priority\<rparr>))))))"

definition read_relay :: "'j json_lib \<Rightarrow> 'j \<Rightarrow> err + (string \<times> port_t \<times> secret_t)" where
  "read_relay J js =
     bind_err (my_js_value J (get_string J) js ''host'' []) (\<lambda>host.
     bind_err (my_js_value J (get_i32 J) js ''port'' 0) (\<lambda>port.
     bind_err (my_js_value J (get_u32 J) js ''pin'' 0) (\<lambda>pin.
       Inr (host, ucast port, pin))))"

section \<open>Rendering settings\<close>

text \<open>Up to the ambient sound; \<open>js\<close> is the part \<open>rendersettings\<close>, \<open>room\<close> the part of the stage.\<close>

definition room_steps :: "'j json_lib \<Rightarrow> 'j \<Rightarrow> 'j \<Rightarrow> 'j \<Rightarrow> (render_settings \<Rightarrow> err + render_settings) list" where
  "room_steps J js roomsize reverb =
     [getjs J (get_u8 J) js ''id'' rs_id (\<lambda>v s. s\<lparr>rs_id := v\<rparr>),
      setjs J (get_real J) roomsize ''x'' 25 (\<lambda>v s. s\<lparr>rs_roomsize := (rs_roomsize s)\<lparr>pos_x := v\<rparr>\<rparr>),
      setjs J (get_real J) roomsize ''y'' 13 (\<lambda>v s. s\<lparr>rs_roomsize := (rs_roomsize s)\<lparr>pos_y := v\<rparr>\<rparr>),
      setjs J (get_real J) roomsize ''z'' (15 / 2) (\<lambda>v s. s\<lparr>rs_roomsize := (rs_roomsize s)\<lparr>pos_z := v\<rparr>\<rparr>),
      setjs J (get_real J) reverb ''absorption'' (10066330 / 2 ^ 24) (\<lambda>v s. s\<lparr>rs_absorption := v\<rparr>),
      setjs J (get_real J) reverb ''damping'' (11744051 / 2 ^ 24) (\<lambda>v s. s\<lparr>rs_damping := v\<rparr>),
      setjs J (get_real J) reverb ''gain'' (13421773 / 2 ^ 25) (\<lambda>v s. s\<lparr>rs_reverbgain := v\<rparr>),
      setjs J (get_real J) reverb ''roomgain'' (13421773 / 2 ^ 25) (\<lambda>v s. s\<lparr>rs_reverbgainroom := v\<rparr>),
      setjs J (get_real J) reverb ''devgain'' 1 (\<lambda>v s. s\<lparr>rs_reverbgaindev := v\<rparr>)]"

definition render_fields :: "'j json_lib \<Rightarrow> 'j \<Rightarrow> (render_settings \<Rightarrow> err + render_settings) list" where
  "render_fields J js =
     [getjs J (get_bool J) js ''renderreverb'' rs_renderreverb (\<lambda>v s. s\<lparr>rs_renderreverb := v\<rparr>),
      getjs J (get_bool J) js ''renderism'' rs_renderism (\<lambda>v s. s\<lparr>rs_renderism := v\<rparr>),
      getjs J (get_bool J) js ''distancelaw'' rs_distancelaw (\<lambda>v s. s\<lparr>rs_distancelaw := v\<rparr>),
      getjs J (get_real J) js ''delaycomp'' rs_delaycomp (\<lambda>v s. s\<lparr>rs_delaycomp := v\<rparr>),
      getjs J (get_real J) js ''decorr'' rs_decorr (\<lambda>v s. s\<lparr>rs_decorr := v\<rparr>),
      getjs J (get_string J) js ''outputport1'' rs_outputport1 (\<lambda>v s. s\<lparr>rs_outputport1 := v\<rparr>),
      getjs J (get_string J) js ''outputport2'' rs_outputport2 (\<lambda>v s. s\<lparr>rs_outputport2 := v\<rparr>),
      getjs J (get_bool J) js ''rawmode'' rs_rawmode (\<lambda>v s. s\<lparr>rs_rawmode := v\<rparr>),
      getjs J (get_bool J) js ''receive'' rs_receive (\<lambda>v s. s\<lparr>rs_receive := v\<rparr>),
      getjs J (get_string J) js ''rectype'' rs_rectype (\<lambda>v s. s\<lparr>rs_rectype := v\<rparr>),
      getjs J (get_real J) js ''secrec'' rs_secrec (\<lambda>v s. s\<lparr>rs_secrec := v\<rparr>),
      getjs J (get_real J) js ''egogain'' rs_egogain (\<lambda>v s. s\<lparr>rs_egogain := v\<rparr>),
      getjs J (get_real J) js ''outputgain'' rs_outputgain (\<lambda>v s. s\<lparr>rs_outputgain := v\<rparr>),
      getjs J (get_bool J) js ''peer2peer'' rs_peer2peer (\<lambda>v s. s\<lparr>rs_peer2peer := v\<rparr>),
      getjs J (get_bool J) js ''usetcptunnel'' rs_usetcptunnel (\<lambda>v s. s\<lparr>rs_usetcptunnel := v\<rparr>),
      getjs J (get_bool J) js ''encryption'' rs_encryption (\<lambda>v s. s\<lparr>rs_encryption := v\<rparr>),
      getjs J (get_real J) js ''lmetertc'' rs_lmetertc (\<lambda>v s. s\<lparr>rs_lmetertc := v\<rparr>),
      getjs J (get_string J) js ''lmeterfw'' rs_lmeterfw (\<lambda>v s. s\<lparr>rs_lmeterfw := v\<rparr>)]"

text \<open>The address of the ambient sound, where \<open>\/\<close> stands for a slash; the replacement always ends.\<close>

definition unescape :: "string \<Rightarrow> string" where
  "unescape url = (case ovstrrep url [CHR 0x5C, CHR ''/''] ''/'' of Some t \<Rightarrow> t | None \<Rightarrow> url)"

definition ambient_fields :: "'j json_lib \<Rightarrow> 'j \<Rightarrow> (render_settings \<Rightarrow> err + render_settings) list" where
  "ambient_fields J room =
     [setjs J (get_string J) room ''ambientsound'' [] (\<lambda>v s. s\<lparr>rs_ambientsound := v\<rparr>),
      setjs J (get_real J) room ''ambientlevel'' 0 (\<lambda>v s. s\<lparr>rs_ambientlevel := v\<rparr>),
      (\<lambda>s. Inr (s\<lparr>rs_ambientsound := unescape (rs_ambientsound s)\<rparr>))]"

definition read_settings :: "'j json_lib \<Rightarrow> 'j \<Rightarrow> 'j \<Rightarrow> err + render_settings" where
  "read_settings J js room =
     bind_err (js_index J room ''size'') (\<lambda>roomsize.
     bind_err (js_index J room ''reverb'') (\<lambda>reverb.
       read_all (room_steps J js roomsize reverb @ render_fields J js @ ambient_fields J room) render_settings_ctor))"

text \<open>Additional connections: pairs of strings, the first one not empty.\<close>

fun read_xports :: "'j json_lib \<Rightarrow> 'j list \<Rightarrow> (string, string) omap \<Rightarrow> (string, string) omap" where
  "read_xports J [] m = m"
| "read_xports J (xp # xps) m =
     read_xports J xps
       (if js_is_array J xp then
          (case map (js_string J) (js_elements J xp) of
             [Some key, Some dest] \<Rightarrow> if key \<noteq> [] then omap_put key dest m else m
           | _ \<Rightarrow> m)
        else m)"

text \<open>
  \<open>atoi\<close>: white space, a sign, digits. The value is clamped to 64 bits and cut to 32 bits, as in
  the C library of Linux.
\<close>

definition is_space :: "char \<Rightarrow> bool" where
  "is_space c \<longleftrightarrow> c = CHR '' '' \<or> 9 \<le> (of_char c :: nat) \<and> (of_char c :: nat) \<le> 13"

definition is_digit :: "char \<Rightarrow> bool" where
  "is_digit c \<longleftrightarrow> 48 \<le> (of_char c :: nat) \<and> (of_char c :: nat) \<le> 57"

definition read_digits :: "string \<Rightarrow> nat" where
  "read_digits s = foldl (\<lambda>n c. 10 * n + (of_char c - 48)) 0 (takeWhile is_digit s)"

definition atoi :: "string \<Rightarrow> 32 word" where
  "atoi s =
     (let t = dropWhile is_space s;
          neg = (t \<noteq> [] \<and> hd t = CHR ''-'');
          u = (if t \<noteq> [] \<and> (hd t = CHR ''-'' \<or> hd t = CHR ''+'') then drop 1 t else t);
          v = (if neg then - int (read_digits u) else int (read_digits u))
      in word_of_int (max (- (2 ^ 63)) (min (2 ^ 63 - 1) v)))"

text \<open>Additional receiver ports: numbers, or text with a number, between 1 and 65535.\<close>

fun read_xrecports :: "'j json_lib \<Rightarrow> 'j list \<Rightarrow> err + port_t list" where
  "read_xrecports J [] = Inr []"
| "read_xrecports J (xrp # xrps) =
     bind_err
       (if js_number J xrp \<noteq> None then get_i32 J xrp
        else case js_string J xrp of Some t \<Rightarrow> Inr (atoi t) | None \<Rightarrow> Inr 0) (\<lambda>p.
     bind_err (read_xrecports J xrps) (\<lambda>ps.
       Inr (if 0 < sint p \<and> sint p < 2 ^ 16 then ucast p # ps else ps)))"

definition headtracking_steps :: "'j json_lib \<Rightarrow> 'j \<Rightarrow> (render_settings \<Rightarrow> err + render_settings) list" where
  "headtracking_steps J js =
     [setjs J (get_bool J) js ''headtracking'' False (\<lambda>v s. s\<lparr>rs_headtracking := v\<rparr>),
      setjs J (get_bool J) js ''headtrackingserial'' False (\<lambda>v s. s\<lparr>rs_headtrackingserial := v\<rparr>),
      setjs J (get_bool J) js ''headtrackingrot'' True (\<lambda>v s. s\<lparr>rs_headtrackingrotrec := v\<rparr>),
      setjs J (get_bool J) js ''headtrackingrotsrc'' True (\<lambda>v s. s\<lparr>rs_headtrackingrotsrc := v\<rparr>),
      setjs J (get_i32 J) js ''headtrackingport'' 0 (\<lambda>v s. s\<lparr>rs_headtrackingport := ucast v\<rparr>)]"

definition read_ports :: "'j json_lib \<Rightarrow> 'j \<Rightarrow> render_settings \<Rightarrow> err + render_settings" where
  "read_ports J js s =
     bind_err (js_index J js ''xport'') (\<lambda>xports.
     bind_err (js_index J js ''xrecport'') (\<lambda>xrecports.
     bind_err (if js_is_array J xrecports then read_xrecports J (js_elements J xrecports) else Inr []) (\<lambda>ps.
       read_all (headtracking_steps J js)
         (s\<lparr>rs_xports := (if js_is_array J xports then read_xports J (js_elements J xports) [] else []), rs_xrecport := ps\<rparr>))))"

section \<open>What is read is well formed\<close>

text \<open>The number of an additional port as it is read, before its range is checked.\<close>

definition port_value :: "'j json_lib \<Rightarrow> 'j \<Rightarrow> err + 32 word" where
  "port_value J x =
     (if js_number J x \<noteq> None then get_i32 J x else case js_string J x of Some t \<Rightarrow> Inr (atoi t) | None \<Rightarrow> Inr 0)"

lemma read_xrecports_values:
  "read_xrecports J xs = Inr ps \<Longrightarrow> \<exists>vs. list_all2 (\<lambda>x v. port_value J x = Inr v) xs vs \<and>
     ps = map ucast (filter (\<lambda>v. 0 < sint v \<and> sint v < 2 ^ 16) vs)"
proof (induction xs arbitrary: ps)
  case (Cons x xs)
  obtain v qs where v: "port_value J x = Inr v" "read_xrecports J xs = Inr qs"
    "ps = (if 0 < sint v \<and> sint v < 2 ^ 16 then ucast v # qs else qs)"
    using Cons.prems unfolding read_xrecports.simps port_value_def [symmetric] by (auto simp: bind_err_Inr_iff)
  obtain vs where "list_all2 (\<lambda>x v. port_value J x = Inr v) xs vs" "qs = map ucast (filter (\<lambda>v. 0 < sint v \<and> sint v < 2 ^ 16) vs)"
    using Cons.IH [OF v(2)] by blast
  with v show ?case by (intro exI [of _ "v # vs"]) simp
qed simp

lemma port_width: "0 < sint (v :: 32 word) \<Longrightarrow> sint v < 2 ^ 16 \<Longrightarrow> uint (ucast v :: port_t) = sint v"
proof -
  assume v: "0 < sint v" "sint v < 2 ^ 16"
  have "uint v = sint v" using v by (simp add: uint_sint [of v] take_bit_int_eq_self)
  then show ?thesis using v by (simp add: unsigned_ucast_eq take_bit_int_eq_self)
qed

lemma read_xports_wf: "omap_wf m \<Longrightarrow> [] \<notin> fst ` set m \<Longrightarrow> omap_wf (read_xports J xs m) \<and> [] \<notin> fst ` set (read_xports J xs m)"
proof (induction J xs m rule: read_xports.induct)
  case (2 J xp xps m)
  let ?m = "if js_is_array J xp then
      (case map (js_string J) (js_elements J xp) of
         [Some key, Some dest] \<Rightarrow> if key \<noteq> [] then omap_put key dest m else m
       | _ \<Rightarrow> m) else m"
  have "omap_wf ?m \<and> [] \<notin> fst ` set ?m"
    using 2(2,3) by (auto simp: keys_omap_put split: list.split option.split)
  then show ?case unfolding read_xports.simps by (intro 2(1)) blast+
qed simp

lemma read_stage_last:
  assumes "read_stage J devs m = Inr m'" and "omap_wf m"
  shows "\<exists>ds. list_all2 (\<lambda>dev d. get_stage_dev J dev = Inr d) devs ds \<and>
    (\<forall>i. map_of m' i = (case map_of (rev (map (\<lambda>d. (sd_id d, d)) ds)) i of Some d \<Rightarrow> Some d | None \<Rightarrow> map_of m i))"
  using assms
proof (induction J devs m rule: read_stage.induct)
  case (2 J dev devs m)
  obtain d where d: "get_stage_dev J dev = Inr d" "read_stage J devs (omap_put (sd_id d) d m) = Inr m'"
    using 2(2) by (auto simp: bind_stop_Inr_iff)
  obtain ds where "list_all2 (\<lambda>dev d. get_stage_dev J dev = Inr d) devs ds"
    "\<forall>i. map_of m' i = (case map_of (rev (map (\<lambda>d. (sd_id d, d)) ds)) i of Some d \<Rightarrow> Some d | None \<Rightarrow> map_of (omap_put (sd_id d) d m) i)"
    using 2(1) [OF d(2)] 2(3) by auto
  with d(1) 2(3) show ?case
    by (intro exI [of _ "d # ds"]) (auto simp: omap.lookup_put map_add_def split: option.split)
qed simp

section \<open>Properties\<close>

text \<open>C38. Merging a part of a configuration: the result is an object with a value, which may also be null, for exactly
  the keys of both sides; a key of the part has its new value, where an object is merged in the same way into what is
  not null and anything else, also null, replaces the old value, and the other keys keep theirs. Merging the same
  part again changes nothing.\<close>

theorem merge_configuration:
  assumes "jval_wf lhs" and "jval_wf (Jobj kvs)" and "json_merge lhs (Jobj kvs) = Inr m" and "kvs \<noteq> []"
  shows "is_obj m \<and> fst ` set (entries_of m) = fst ` set (entries_of lhs) \<union> fst ` set kvs \<and>
    (\<forall>k v. map_of kvs k = Some v \<longrightarrow> (\<exists>w. map_of (entries_of m) k = Some w \<and>
      (if is_obj v \<and> jat lhs k \<noteq> Jnull then json_merge (jat lhs k) v else Inr v) = Inr w)) \<and>
    (\<forall>k. map_of kvs k = None \<longrightarrow> map_of (entries_of m) k = map_of (entries_of lhs) k) \<and> json_merge m (Jobj kvs) = Inr m"
proof -
  have wf: "omap_wf kvs" using assms(2) by simp
  have "merge_result lhs lhs kvs m" using merge_object_result [OF assms(1) wf assms(3,4)] by simp
  then have m: "is_obj m" "\<And>k v. (k, v) \<in> set kvs \<Longrightarrow> \<exists>w. merge_value (jat lhs k) v = Inr w \<and> map_of (entries_of m) k = Some w"
    "\<And>k. k \<notin> fst ` set kvs \<Longrightarrow> map_of (entries_of m) k = map_of (entries_of lhs) k"
    using assms(4) by (auto simp: merge_result_def)
  have keys: "fst ` set (entries_of m) = fst ` set (entries_of lhs) \<union> fst ` set kvs"
  proof (intro set_eqI)
    fix k
    have "k \<in> fst ` set kvs \<Longrightarrow> map_of (entries_of m) k \<noteq> None" using m(2) by fastforce
    then show "k \<in> fst ` set (entries_of m) \<longleftrightarrow> k \<in> fst ` set (entries_of lhs) \<union> fst ` set kvs"
      using m(3) [of k] map_of_eq_None_iff [of "entries_of m" k] map_of_eq_None_iff [of "entries_of lhs" k] by (metis Un_iff)
  qed
  have "\<exists>w. map_of (entries_of m) k = Some w \<and> (if is_obj v \<and> jat lhs k \<noteq> Jnull then json_merge (jat lhs k) v else Inr v) = Inr w"
    if "map_of kvs k = Some v" for k v using m(2) [OF map_of_SomeD [OF that]] by (auto simp: merge_value_def split: if_splits)
  moreover have "json_merge m (Jobj kvs) = Inr m" using merge_again [OF assms(1-3)] .
  ultimately show ?thesis using m(1,3) keys by (simp add: map_of_eq_None_iff)
qed

theorem merge_configuration_witness:
  "\<exists>m w. json_merge (Jobj [(''a'', Jobj [(''x'', Jnum 1)]), (''b'', Jnum 3)]) (Jobj [(''a'', Jobj [(''y'', Jnum 2)]), (''b'', Jnull)]) = Inr m \<and>
     is_obj m \<and> map_of (entries_of m) ''a'' = Some w \<and> json_merge (Jobj [(''x'', Jnum 1)]) (Jobj [(''y'', Jnum 2)]) = Inr w \<and>
     map_of (entries_of m) ''b'' = Some Jnull"
proof -
  let ?l = "Jobj [(''a'', Jobj [(''x'', Jnum 1)]), (''b'', Jnum 3)]" and ?kvs = "[(''a'', Jobj [(''y'', Jnum 2)]), (''b'', Jnull)]"
  have "jval_wf ?l" "jval_wf (Jobj ?kvs)" by (simp_all add: omap_wf_def less_char_def)
  moreover obtain m where m: "json_merge ?l (Jobj ?kvs) = Inr m" by (simp add: less_char_def)
  ultimately have r: "\<And>k v. map_of ?kvs k = Some v \<Longrightarrow> \<exists>w. map_of (entries_of m) k = Some w \<and>
      (if is_obj v \<and> jat ?l k \<noteq> Jnull then json_merge (jat ?l k) v else Inr v) = Inr w" "is_obj m"
    using merge_configuration [OF _ _ m] by auto
  have "\<exists>w. map_of (entries_of m) ''a'' = Some w \<and> json_merge (Jobj [(''x'', Jnum 1)]) (Jobj [(''y'', Jnum 2)]) = Inr w"
    using r(1) [of "''a''" "Jobj [(''y'', Jnum 2)]"] by (simp add: jat_def del: json_merge.simps)
  moreover have "map_of (entries_of m) ''b'' = Some Jnull" using r(1) [of "''b''" Jnull] by simp
  ultimately show ?thesis using m r(2) by blast
qed

end
