(* ===== verification/Host_Tools.thy ===== *)
theory Host_Tools
  imports Config_Json Tools
begin

text \<open>
  Inspection of the host: the search for the autorun script in \<open>/proc\<close> (\<open>ov_tools.cc\<close>), the buffer
  that collects the answers of the configuration server (\<open>ov_client_orlandoviols.cc\<close>), the lists of
  sound devices of Windows and macOS (\<open>soundcardtools.cc\<close>) and the addresses of a Windows host
  (\<open>udpsocket.cc\<close>). What the operating system and the audio libraries return is a parameter.
\<close>

section \<open>Processes\<close>

definition BUFSIZ :: nat where "BUFSIZ = 8192"

definition NUL :: char where "NUL = CHR 0x00"

text \<open>
  \<open>strtok\<close> with a blank as delimiter, on the memory from the saved position on: the token, if there is
  one, and the memory after it. A text without end is scanned beyond its buffer.
\<close>

definition strtok :: "string \<Rightarrow> (string option \<times> string) res" where
  "strtok mem =
     (let m = dropWhile (\<lambda>c. c = CHR '' '') mem;
          t = takeWhile (\<lambda>c. c \<noteq> CHR '' '' \<and> c \<noteq> NUL) m; r = dropWhile (\<lambda>c. c \<noteq> CHR '' '' \<and> c \<noteq> NUL) m
      in case r of
           [] \<Rightarrow> Inl Out_of_bounds
         | c # cs \<Rightarrow> if t = [] then Inr (None, r) else if c = NUL then Inr (Some t, r) else Inr (Some t, cs))"

definition show_int :: "int \<Rightarrow> string" where
  "show_int i = (if i < 0 then ''-'' @ show_nat (nat (- i)) else show_nat (nat i))"

fun nth_token :: "nat \<Rightarrow> string \<Rightarrow> string option res" where
  "nth_token 0 mem = bind_res (strtok mem) (\<lambda>(t, rest). Inr t)"
| "nth_token (Suc n) mem = bind_res (strtok mem) (\<lambda>(t, rest). nth_token n rest)"

text \<open>
  \<open>get_process_parent_id\<close>: the buffer holds the name of the file before the file is read into it.
  \<open>stat\<close> is the content of \<open>/proc/<pid>/stat\<close>, if it can be opened, \<open>junk\<close> the rest of the buffer; a missing fourth
  token is the null pointer, which \<open>atoi\<close> reads.
\<close>

definition get_process_parent_id :: "(int \<Rightarrow> string option) \<Rightarrow> string \<Rightarrow> int \<Rightarrow> int res" where
  "get_process_parent_id stat junk pid =
     (let buffer0 = blit 0 (''/proc/'' @ show_int pid @ ''/stat'' @ [NUL]) junk
      in case stat pid of
           None \<Rightarrow> Inr 0
         | Some content \<Rightarrow>
             (let d = take BUFSIZ content; buffer = blit 0 d buffer0 in
              if d = [] then Inr 0
              else bind_res (nth_token 3 buffer) (\<lambda>t. case t of None \<Rightarrow> Inl Out_of_bounds | Some s \<Rightarrow> Inr (sint (atoi s)))))"

text \<open>\<open>strlen\<close> and the text that \<open>strcpy\<close> copies from a position of a buffer.\<close>

definition c_text :: "string \<Rightarrow> string res" where
  "c_text mem = (if NUL \<in> set mem then Inr (takeWhile (\<lambda>c. c \<noteq> NUL) mem) else Inl Out_of_bounds)"

text \<open>\<open>get_process_name\<close>, with buffers that were cleared: the second argument of the command line.\<close>

definition get_process_name :: "(int \<Rightarrow> string option) \<Rightarrow> int \<Rightarrow> string res" where
  "get_process_name cmdline pid =
     (case cmdline pid of
        None \<Rightarrow> Inr []
      | Some content \<Rightarrow>
          (let d = take BUFSIZ content;
               name0 = blit 0 d (replicate BUFSIZ NUL);
               name = (if d \<noteq> [] \<and> last d = CHR 0x0A then name0[length d - 1 := NUL] else name0)
           in if d = [] then Inr []
              else bind_res (c_text name) (\<lambda>s. if length s < length d then c_text (drop (length s + 1) name) else Inr [])))"

definition is_ovbox :: "(int \<Rightarrow> string option) \<Rightarrow> (int \<Rightarrow> string option) \<Rightarrow> string \<Rightarrow> int \<Rightarrow> bool res" where
  "is_ovbox stat cmdline junk parent =
     bind_res (get_process_parent_id stat junk parent) (\<lambda>p1.
     bind_res (get_process_parent_id stat junk p1) (\<lambda>p2.
     bind_res (get_process_name cmdline p2) (\<lambda>arg. Inr (arg = ''/home/pi/autorun''))))"

section \<open>The answer of a request\<close>

record memory_struct =
  ms_memory :: "byte list"
  ms_size :: nat

text \<open>
  \<open>WriteMemoryCallback\<close>: \<open>grown\<close> is the block that \<open>realloc\<close> returns, with the old content at its beginning;
  the return value is compared with the number of bytes by libcurl.
\<close>

definition write_memory_callback ::
  "(nat \<Rightarrow> byte list \<Rightarrow> byte list option) \<Rightarrow> byte list \<Rightarrow> memory_struct \<Rightarrow> (nat \<times> memory_struct) res" where
  "write_memory_callback realloc contents mem =
     (let realsize = length contents in
      case realloc (ms_size mem + realsize + 1) (ms_memory mem) of
        None \<Rightarrow> Inr (0, mem)
      | Some p \<Rightarrow>
          (if length p \<le> ms_size mem + realsize then Inl Out_of_bounds
           else
             let m1 = blit (ms_size mem) contents p; n = ms_size mem + realsize
             in Inr (realsize, \<lparr>ms_memory = m1[n := 0], ms_size = n\<rparr>)))"

text \<open>A transfer: libcurl passes on the blocks that arrive, until one is not taken completely.\<close>

fun transfer ::
  "(nat \<Rightarrow> byte list \<Rightarrow> byte list option) \<Rightarrow> byte list list \<Rightarrow> memory_struct \<Rightarrow> (bool \<times> memory_struct) res" where
  "transfer realloc [] mem = Inr (True, mem)"
| "transfer realloc (b # bs) mem =
     bind_res (write_memory_callback realloc b mem) (\<lambda>(n, m).
       if n = length b then transfer realloc bs m else Inr (False, m))"

text \<open>As documented: a block of the requested size that begins with the old content.\<close>

definition realloc_ok :: "(nat \<Rightarrow> byte list \<Rightarrow> byte list option) \<Rightarrow> bool" where
  "realloc_ok realloc \<longleftrightarrow> (\<forall>n old p. realloc n old = Some p \<longrightarrow> length p = n \<and> take (length old) p = take n old)"

section \<open>Sound devices of Windows\<close>

text \<open>
  What PortAudio tells of a device; the name of the host interface is missing when
  \<open>Pa_GetHostApiInfo\<close> returns the null pointer.
\<close>

record pa_device =
  pa_name :: string
  pa_inputs :: int
  pa_outputs :: int
  pa_api :: "string option"

type_synonym device_names = "(string, string list) omap"

definition push_name :: "string \<Rightarrow> string \<Rightarrow> device_names \<Rightarrow> device_names" where
  "push_name k v m = omap_put k (fst (omap_index [] k m) @ [v]) m"

definition group_device :: "pa_device \<Rightarrow> device_names \<times> device_names \<times> device_names \<Rightarrow> device_names \<times> device_names \<times> device_names" where
  "group_device d g =
     (let (duplex, inputs, outputs) = g in
      if pa_inputs d + pa_outputs d > 0 then
        case pa_api d of
          None \<Rightarrow> g
        | Some api \<Rightarrow>
            (if pa_inputs d > 0 \<and> pa_outputs d > 0 then push_name api (pa_name d) duplex else duplex,
             if pa_inputs d > 0 \<and> pa_outputs d = 0 then push_name api (pa_name d) inputs else inputs,
             if pa_inputs d = 0 \<and> pa_outputs d > 0 then push_name api (pa_name d) outputs else outputs)
      else g)"

definition quote :: string where "quote = [CHR 0x22]"

definition duplex_entry :: "string \<Rightarrow> string \<Rightarrow> snddevname" where
  "duplex_entry api dev = \<lparr>snd_dev = ''-d '' @ quote @ api @ ''::'' @ dev @ quote, snd_desc = api @ '': '' @ dev\<rparr>"

definition pair_entry :: "string \<Rightarrow> string \<Rightarrow> string \<Rightarrow> snddevname" where
  "pair_entry api devi devo =
     \<lparr>snd_dev = ''-C '' @ quote @ api @ ''::'' @ devi @ quote @ '' -P '' @ quote @ api @ ''::'' @ devo @ quote,
      snd_desc = api @ '': '' @ devi @ ''/'' @ devo\<rparr>"

text \<open>\<open>list_sound_devices\<close>: \<open>None\<close> when PortAudio cannot be started; no devices when their number is negative.\<close>

definition list_sound_devices_win :: "pa_device list option \<Rightarrow> snddevname list" where
  "list_sound_devices_win pa =
     (case pa of
        None \<Rightarrow> []
      | Some devs \<Rightarrow>
          (let (duplex, inputs, outputs) = fold group_device devs ([], [], [])
           in concat (map (\<lambda>(api, names). map (duplex_entry api) names) duplex) @
              concat (map (\<lambda>(api, names). concat (map (\<lambda>devi. map (pair_entry api devi) (fst (omap_index [] api outputs))) names)) inputs)))"

section \<open>Sound devices of macOS\<close>

record soundio_device =
  io_id :: string
  io_name :: string
  io_channels :: int
  io_rate :: int
  io_rates :: "int list"
  io_latency :: real

record sound_card =
  sc_id :: string
  sc_name :: string
  num_input_channels :: int
  num_output_channels :: int
  sample_rate :: int
  sample_rates :: "int list"
  software_latency :: real
  is_default :: bool

text \<open>\<open>get_sound_devices\<close>: an input with the last output of the same identifier; the default index is an \<open>int\<close>.\<close>

definition last_output :: "string \<Rightarrow> soundio_device list \<Rightarrow> soundio_device option" where
  "last_output i outputs = fold (\<lambda>d found. if io_id d = i then Some d else found) outputs None"

definition get_sound_devices :: "int \<Rightarrow> soundio_device list \<Rightarrow> soundio_device list \<Rightarrow> sound_card list" where
  "get_sound_devices default_input inputs outputs =
     concat (map (\<lambda>(i, d).
       case last_output (io_id d) outputs of
         None \<Rightarrow> []
       | Some out \<Rightarrow>
           [\<lparr>sc_id = io_id d, sc_name = io_name d, num_input_channels = io_channels d, num_output_channels = io_channels out,
             sample_rate = io_rate d, sample_rates = io_rates out, software_latency = io_latency d,
             is_default = ((word_of_int default_input :: 64 word) = of_nat i)\<rparr>]) (enumerate 0 inputs))"

definition list_sound_devices_mac :: "int \<Rightarrow> soundio_device list \<Rightarrow> soundio_device list \<Rightarrow> snddevname list" where
  "list_sound_devices_mac default_input inputs outputs =
     map (\<lambda>card. \<lparr>snd_dev = sc_id card, snd_desc = sc_name card\<rparr>) (get_sound_devices default_input inputs outputs)"

section \<open>Addresses of a Windows host\<close>

record adapter =
  adp_name :: string
  adp_up :: bool
  adp_unicast :: "endpoint list"

text \<open>
  The call of \<open>GetAdaptersAddresses\<close>, repeated once with a larger buffer; the flags tell whether
  the buffers could be allocated.
\<close>

datatype adapters_result = Adapters "adapter list" | Buffer_overflow | Adapters_error

definition get_adapters :: "bool \<Rightarrow> adapters_result \<Rightarrow> bool \<Rightarrow> adapters_result \<Rightarrow> adapter list" where
  "get_adapters alloc1 res1 alloc2 res2 =
     (if \<not> alloc1 then []
      else
        let res = (if res1 = Buffer_overflow then if alloc2 then res2 else Adapters_error else res1)
        in case res of Adapters as \<Rightarrow> as | _ \<Rightarrow> [])"

definition loopback_address :: "32 word" where "loopback_address = 0x0100007f"

fun first_address :: "endpoint list \<Rightarrow> endpoint option" where
  "first_address [] = None"
| "first_address (a # as) = (if sin_family a = AF_INET \<and> s_addr a \<noteq> loopback_address then Some a else first_address as)"

fun getipaddr_win :: "adapter list \<Rightarrow> endpoint" where
  "getipaddr_win [] = zero_endpoint"
| "getipaddr_win (p # ps) =
     (case if adp_up p then first_address (adp_unicast p) else None of Some a \<Rightarrow> a | None \<Rightarrow> getipaddr_win ps)"

definition getnetworkdevices_win :: "adapter list \<Rightarrow> string list" where
  "getnetworkdevices_win ps = map adp_name ps"

text \<open>\<open>getmacaddr\<close> where \<open>MACAddressUtility\<close> is used: its return value and its six bytes.\<close>

definition getmacaddr_generic :: "int \<times> byte list \<Rightarrow> string" where
  "getmacaddr_generic p = (if fst p = 0 then concat (map hex2 (take 6 (snd p))) else [])"

section \<open>Reading the parent's number\<close>

lemma strtok_token:
  assumes "t \<noteq> []" and "CHR '' '' \<notin> set t" and "NUL \<notin> set t"
  shows "strtok (t @ CHR '' '' # rest) = Inr (Some t, rest)"
proof -
  let ?P = "\<lambda>c. c \<noteq> CHR '' '' \<and> c \<noteq> NUL" and ?m = "t @ CHR '' '' # rest"
  have P: "?P c" if "c \<in> set t" for c using that assms(2,3) by metis
  have "dropWhile (\<lambda>c. c = CHR '' '') ?m = ?m" using assms(1,2) by (cases t) auto
  moreover have "takeWhile ?P ?m = t" "dropWhile ?P ?m = CHR '' '' # rest"
    using takeWhile_append2 [of t ?P "CHR '' '' # rest"] dropWhile_append2 [of t ?P "CHR '' '' # rest"] P by auto
  ultimately show ?thesis using assms(1) by (simp add: strtok_def NUL_def)
qed

lemma digit_is_digit:
  assumes "c \<in> set (show_nat n)"
  shows "is_digit c" "\<not> is_space c" "c \<noteq> CHR ''-''" "c \<noteq> CHR ''+''" "c \<noteq> CHR '' ''" "c \<noteq> NUL"
proof -
  obtain d where d: "d < 10" "(of_char c :: nat) = 48 + d" using show_nat_digits [OF assms] of_char_digit_char by metis
  show "is_digit c" "\<not> is_space c" using d by (auto simp: is_digit_def is_space_def)
  show "c \<noteq> CHR ''-''" "c \<noteq> CHR ''+''" "c \<noteq> CHR '' ''" "c \<noteq> NUL" using d by (auto simp: NUL_def)
qed

lemma show_nat_not_Nil [simp]: "show_nat n \<noteq> []"
  by (subst show_nat.simps) simp

lemma atoi_show_nat: "n < 2 ^ 31 \<Longrightarrow> sint (atoi (show_nat n)) = int n"
proof -
  assume n: "n < 2 ^ 31"
  obtain c cs where s: "show_nat n = c # cs" using show_nat_not_Nil by (cases "show_nat n") auto
  have c: "\<not> is_space c" "c \<noteq> CHR ''-''" "c \<noteq> CHR ''+''" using digit_is_digit [of c n] s by auto
  have t: "takeWhile is_digit (show_nat n) = show_nat n" using digit_is_digit(1) by (auto simp: takeWhile_eq_all_conv)
  have r: "read_digits (show_nat n) = n"
    by (simp only: read_digits_def t nat_of_digits_show_nat [unfolded nat_of_digits_def])
  have "atoi (show_nat n) = word_of_int (int n)" using n c r by (simp add: atoi_def s Let_def)
  moreover have "sint (word_of_int (int n) :: 32 word) = int n"
    unfolding sint_sbintrunc' using n by (simp add: signed_take_bit_int_eq_self)
  ultimately show ?thesis by simp
qed

text \<open>The line of a process whose fields have no blanks, up to the number of its parent, and the rest.\<close>

definition field_ok :: "string \<Rightarrow> bool" where
  "field_ok s \<longleftrightarrow> s \<noteq> [] \<and> CHR '' '' \<notin> set s \<and> NUL \<notin> set s"

definition stat_head :: "string list \<Rightarrow> string" where
  "stat_head fs = concat (map (\<lambda>f. f @ '' '') fs)"

lemma nth_token_fields:
  "\<forall>f\<in>set fs. field_ok f \<Longrightarrow> n < length fs \<Longrightarrow> nth_token n (stat_head fs @ rest) = Inr (Some (fs ! n))"
proof (induction fs arbitrary: n)
  case (Cons f fs)
  then show ?case by (cases n) (auto simp: stat_head_def field_ok_def strtok_token)
qed simp

lemma parent_id_fields:
  assumes "stat pid = Some (stat_head fs @ rest)" and "\<forall>f\<in>set fs. field_ok f" and "3 < length fs"
    and "length (stat_head fs) \<le> BUFSIZ"
  shows "get_process_parent_id stat junk pid = Inr (sint (atoi (fs ! 3)))"
proof -
  let ?d = "take BUFSIZ (stat_head fs @ rest)"
  have d: "?d = stat_head fs @ take (BUFSIZ - length (stat_head fs)) rest" using assms(4) by simp
  have "blit 0 ?d x = stat_head fs @ (take (BUFSIZ - length (stat_head fs)) rest @ drop (length ?d) x)" for x
    unfolding d by (simp add: blit_def)
  then have "nth_token 3 (blit 0 ?d x) = Inr (Some (fs ! 3))" for x using nth_token_fields [OF assms(2,3)] by metis
  moreover have "fs \<noteq> []" "hd fs \<noteq> []" using assms(2,3) by (cases fs; auto simp: field_ok_def)+
  then have "?d \<noteq> []" using assms(4) by (cases fs) (auto simp: stat_head_def BUFSIZ_def)
  ultimately show ?thesis using assms(1) by (simp add: get_process_parent_id_def Let_def del: take_append take_eq_Nil)
qed

lemma second_argument:
  assumes "cmdline pid = Some (a0 @ NUL # a1 @ NUL # rest)" and "NUL \<notin> set a0" and "NUL \<notin> set a1"
    and "length a0 + length a1 + 2 \<le> BUFSIZ"
    and "last (take BUFSIZ (a0 @ NUL # a1 @ NUL # rest)) \<noteq> CHR 0x0A"
  shows "get_process_name cmdline pid = Inr a1"
proof -
  let ?d = "take BUFSIZ (a0 @ NUL # a1 @ NUL # rest)" and ?pre = "a0 @ NUL # a1 @ [NUL]"
  have d: "?d = ?pre @ take (BUFSIZ - length ?pre) rest"
    using assms(4) take_append [of BUFSIZ ?pre rest] by simp
  have n: "blit 0 ?d x = ?pre @ (take (BUFSIZ - length ?pre) rest @ drop (length ?d) x)" for x unfolding d by (simp add: blit_def)
  have t: "takeWhile (\<lambda>c. c \<noteq> NUL) (a0 @ NUL # ys) = a0" "takeWhile (\<lambda>c. c \<noteq> NUL) (a1 @ NUL # ys) = a1" for ys
    using assms(2,3) by (auto simp: takeWhile_append takeWhile_eq_all_conv [THEN iffD2])
  have "length a0 < length ?d" "?d \<noteq> []" unfolding d by simp_all
  then show ?thesis
    using assms(1,5) n [of "replicate BUFSIZ NUL"] by (simp add: get_process_name_def c_text_def t Let_def del: take_append)
qed

section \<open>Collecting an answer\<close>

lemma callback_stores:
  assumes "realloc_ok realloc" and "ms_size mem \<le> length (ms_memory mem)" and "write_memory_callback realloc b mem = r"
  shows "(realloc (ms_size mem + length b + 1) (ms_memory mem) = None \<and> r = Inr (0, mem)) \<or>
    (\<exists>m. r = Inr (length b, m) \<and> ms_size m < length (ms_memory m) \<and> ms_memory m ! ms_size m = 0 \<and>
      take (ms_size m) (ms_memory m) = take (ms_size mem) (ms_memory mem) @ b)"
proof (cases "realloc (ms_size mem + length b + 1) (ms_memory mem)")
  case (Some p)
  let ?n = "ms_size mem + length b" and ?k = "ms_size mem"
  have p: "length p = ?n + 1" "take (length (ms_memory mem)) p = take (?n + 1) (ms_memory mem)"
    using assms(1) Some by (auto simp: realloc_ok_def)
  have "take ?k (take (length (ms_memory mem)) p) = take ?k (take (?n + 1) (ms_memory mem))" by (simp only: p(2))
  then have "take ?k p = take ?k (ms_memory mem)" using assms(2) by (simp add: min_absorb1)
  moreover have "take ?n (blit ?k b p) = take ?k p @ b" using take_blit_upto [of ?k b p] p(1) by simp
  ultimately have "take ?n ((blit ?k b p)[?n := 0]) = take ?k (ms_memory mem) @ b" by simp
  then show ?thesis using assms(3) Some p(1) by (auto simp: write_memory_callback_def Let_def)
qed (use assms(3) in \<open>simp add: write_memory_callback_def\<close>)

lemma transfer_collects:
  assumes "realloc_ok realloc" and "ms_size mem \<le> length (ms_memory mem)"
  shows "\<exists>ok m k. transfer realloc bs mem = Inr (ok, m) \<and> ms_size m \<le> length (ms_memory m) \<and>
    take (ms_size m) (ms_memory m) = take (ms_size mem) (ms_memory mem) @ concat (take k bs) \<and> (ok \<longrightarrow> concat (take k bs) = concat bs) \<and>
    ((\<forall>n old. realloc n old \<noteq> None) \<longrightarrow> ok)"
  using assms(2)
proof (induction bs arbitrary: mem)
  case Nil
  then show ?case by auto
next
  case (Cons b bs)
  consider "realloc (ms_size mem + length b + 1) (ms_memory mem) = None" "write_memory_callback realloc b mem = Inr (0, mem)"
    | m where "write_memory_callback realloc b mem = Inr (length b, m)" "ms_size m \<le> length (ms_memory m)"
        "take (ms_size m) (ms_memory m) = take (ms_size mem) (ms_memory mem) @ b"
    using callback_stores [OF assms(1) Cons.prems refl, of b] by force
  then show ?case
  proof cases
    case 1
    show ?thesis
    proof (cases "b = []")
      case True
      obtain ok m k where "transfer realloc bs mem = Inr (ok, m)" "ms_size m \<le> length (ms_memory m)"
        "take (ms_size m) (ms_memory m) = take (ms_size mem) (ms_memory mem) @ concat (take k bs)" "ok \<longrightarrow> concat (take k bs) = concat bs"
        "(\<forall>n old. realloc n old \<noteq> None) \<longrightarrow> ok" using Cons.IH [OF Cons.prems] by blast
      then show ?thesis using 1 True by (auto intro!: exI [of _ "Suc k"])
    next
      case False
      have "\<not> (\<forall>n old. realloc n old \<noteq> None)" using 1(1) by metis
      then show ?thesis using 1(2) False Cons.prems by (intro exI [of _ False] exI [of _ mem] exI [of _ 0]) simp
    qed
  next
    case (2 m)
    obtain ok m' k where "transfer realloc bs m = Inr (ok, m')" "ms_size m' \<le> length (ms_memory m')"
      "take (ms_size m') (ms_memory m') = take (ms_size m) (ms_memory m) @ concat (take k bs)" "ok \<longrightarrow> concat (take k bs) = concat bs"
      "(\<forall>n old. realloc n old \<noteq> None) \<longrightarrow> ok" using Cons.IH [OF 2(2)] by blast
    then show ?thesis using 2 by (auto intro!: exI [of _ "Suc k"])
  qed
qed

section \<open>The lists of devices\<close>

text \<open>The names of the devices of one host interface that satisfy a condition, in their order, and all these interfaces.\<close>

definition names_of :: "(pa_device \<Rightarrow> bool) \<Rightarrow> pa_device list \<Rightarrow> string \<Rightarrow> string list" where
  "names_of f devs api = map pa_name (filter (\<lambda>d. f d \<and> pa_api d = Some api) devs)"

definition apis_of :: "(pa_device \<Rightarrow> bool) \<Rightarrow> pa_device list \<Rightarrow> string list" where
  "apis_of f devs = sorted_list_of_set {api. names_of f devs api \<noteq> []}"

definition is_duplex :: "pa_device \<Rightarrow> bool" where "is_duplex d \<longleftrightarrow> pa_inputs d > 0 \<and> pa_outputs d > 0"
definition is_input :: "pa_device \<Rightarrow> bool" where "is_input d \<longleftrightarrow> pa_inputs d > 0 \<and> pa_outputs d = 0"
definition is_output :: "pa_device \<Rightarrow> bool" where "is_output d \<longleftrightarrow> pa_inputs d = 0 \<and> pa_outputs d > 0"

definition push_if :: "(pa_device \<Rightarrow> bool) \<Rightarrow> pa_device \<Rightarrow> device_names \<Rightarrow> device_names" where
  "push_if f d m = (case pa_api d of Some api \<Rightarrow> if f d then push_name api (pa_name d) m else m | None \<Rightarrow> m)"

lemma group_device_parts:
  "group_device d (a, b, c) = (push_if is_duplex d a, push_if is_input d b, push_if is_output d c)"
  by (auto simp: group_device_def push_if_def is_duplex_def is_input_def is_output_def split: option.split)

lemma fold_group: "fold group_device devs (a, b, c) = (fold (push_if is_duplex) devs a, fold (push_if is_input) devs b, fold (push_if is_output) devs c)"
  by (induction devs arbitrary: a b c) (simp_all add: group_device_parts)

definition named :: "string list \<Rightarrow> string list option" where
  "named xs = (if xs = [] then None else Some xs)"

lemma push_if_lookup:
  assumes "omap_wf m" and "map_of m = (\<lambda>api. named (ns api))"
  shows "omap_wf (push_if f d m) \<and> map_of (push_if f d m) = (\<lambda>api. named (ns api @ names_of f [d] api))"
  using assms
  by (auto simp: push_if_def push_name_def omap_index_value map_of_omap_put names_of_def named_def fun_eq_iff split: option.split)

lemma fold_push_lookup:
  "omap_wf m \<Longrightarrow> map_of m = (\<lambda>api. named (ns api)) \<Longrightarrow>
   omap_wf (fold (push_if f) devs m) \<and> map_of (fold (push_if f) devs m) = (\<lambda>api. named (ns api @ names_of f devs api))"
proof (induction devs arbitrary: m ns)
  case (Cons d devs)
  have "names_of f (d # devs) api = names_of f [d] api @ names_of f devs api" for api by (simp add: names_of_def)
  then show ?case using Cons.IH push_if_lookup [OF Cons.prems, of f d] by simp
qed (simp add: names_of_def)

lemma finite_apis: "finite {api. names_of f devs api \<noteq> []}"
proof (rule finite_subset)
  show "{api. names_of f devs api \<noteq> []} \<subseteq> the ` pa_api ` set devs" by (force simp: names_of_def filter_empty_conv)
qed simp

lemma grouped: "fold (push_if f) devs [] = map (\<lambda>api. (api, names_of f devs api)) (apis_of f devs)"
proof (rule omap.entries_unique)
  show "omap_wf (fold (push_if f) devs [])" using fold_push_lookup [of "[]" "\<lambda>_. []"] by (simp add: named_def)
  show "omap_wf (map (\<lambda>api. (api, names_of f devs api)) (apis_of f devs))"
    by (simp add: omap_wf_def apis_of_def comp_def strict_sorted_iff)
  have "map_of (map (\<lambda>api. (api, names_of f devs api)) (apis_of f devs)) = (\<lambda>api. named (names_of f devs api))"
    by (auto simp: map_of_map_restrict apis_of_def finite_apis restrict_map_def named_def fun_eq_iff)
  then show "map_of (fold (push_if f) devs []) = map_of (map (\<lambda>api. (api, names_of f devs api)) (apis_of f devs))"
    using fold_push_lookup [of "[]" "\<lambda>_. []" f devs] by (simp add: named_def fun_eq_iff)
qed

lemma grouped_lookup: "fst (omap_index [] api (map (\<lambda>api. (api, names_of f devs api)) (apis_of f devs))) = names_of f devs api"
  using fold_push_lookup [of "[]" "\<lambda>_. []" f devs] unfolding grouped
  by (simp add: omap_index_value named_def fun_eq_iff split: option.split)

lemma last_output_Some: "last_output i outputs = Some d \<Longrightarrow> d \<in> set outputs \<and> io_id d = i"
proof (induction outputs rule: rev_induct)
  case (snoc x xs)
  then show ?case by (auto simp: last_output_def split: if_splits)
qed (simp add: last_output_def)

text \<open>An entry of the list of macOS stands for an input and an output with the same identifier.\<close>

lemma cards_have_both_directions:
  assumes "c \<in> set (get_sound_devices n inputs outputs)"
  shows "\<exists>i\<in>set inputs. \<exists>out\<in>set outputs. io_id i = sc_id c \<and> io_id out = sc_id c \<and>
    num_input_channels c = io_channels i \<and> num_output_channels c = io_channels out"
proof -
  obtain k d out where "(k, d) \<in> set (enumerate 0 inputs)" "last_output (io_id d) outputs = Some out"
    "sc_id c = io_id d" "num_input_channels c = io_channels d" "num_output_channels c = io_channels out"
    using assms by (force simp: get_sound_devices_def split: option.splits)
  moreover from this have "d \<in> set inputs" by (metis in_set_enumerate_eq diff_zero fst_conv snd_conv nth_mem add.right_neutral)
  ultimately show ?thesis using last_output_Some by metis
qed

text \<open>The address of a Windows host is the one that the code for Linux finds among its unicast addresses.\<close>

definition as_ifaddrs :: "adapter list \<Rightarrow> ifaddr list" where
  "as_ifaddrs ps =
     concat (map (\<lambda>p. map (\<lambda>a. \<lparr>ifa_name = adp_name p, ifa_addr = Some a, ifa_loopback = (s_addr a = loopback_address)\<rparr>) (adp_unicast p))
       (filter adp_up ps))"

lemma getipaddr_unicast:
  "getipaddr (map (\<lambda>a. \<lparr>ifa_name = n, ifa_addr = Some a, ifa_loopback = (s_addr a = loopback_address)\<rparr>) as @ ts) =
     (case first_address as of Some a \<Rightarrow> a | None \<Rightarrow> getipaddr ts)"
  by (induction as) auto

lemma windows_address: "getipaddr_win ps = getipaddr (as_ifaddrs ps)"
proof (induction ps)
  case (Cons p ps)
  have "as_ifaddrs (p # ps) =
    (if adp_up p then map (\<lambda>a. \<lparr>ifa_name = adp_name p, ifa_addr = Some a, ifa_loopback = (s_addr a = loopback_address)\<rparr>) (adp_unicast p) else []) @
    as_ifaddrs ps" by (simp add: as_ifaddrs_def)
  then show ?case using Cons by (simp add: getipaddr_unicast split: option.split)
qed (simp add: as_ifaddrs_def)

section \<open>Properties\<close>

text \<open>C29. The recognition of the device: a parent of the process whose line in \<open>/proc\<close> has no blank in its name is followed to
  its own parent, and the answer is whether that one was called with the path of the autorun script; but a
  blank in the name of the first parent shifts the fields, a letter is taken for the number, and the
  answer is no, whatever was started by whom.\<close>

theorem ovbox_detection:
  assumes "stat p0 = Some (stat_head ([show_nat n0] @ name @ [state, show_nat n1]) @ rest0)" and "\<forall>f\<in>set (state # name). field_ok f"
    and "length (stat_head ([show_nat n0] @ name @ [state, show_nat n1])) \<le> BUFSIZ" and "n1 < 2 ^ 31"
    and "\<not> is_digit (hd state)" "\<not> is_space (hd state)" "hd state \<noteq> CHR ''-''" "hd state \<noteq> CHR ''+''"
    and "stat (int n1) = Some (stat_head [show_nat n1, name1, state1, show_nat n2] @ rest1)" and "field_ok name1" "field_ok state1"
    and "length (stat_head [show_nat n1, name1, state1, show_nat n2]) \<le> BUFSIZ" and "n2 < 2 ^ 31"
    and "cmdline (int n2) = Some (a0 @ NUL # a1 @ NUL # args)" and "NUL \<notin> set a0" "NUL \<notin> set a1" "length a0 + length a1 + 2 \<le> BUFSIZ"
    and "last (take BUFSIZ (a0 @ NUL # a1 @ NUL # args)) \<noteq> CHR 0x0A" and "stat 0 = None" "cmdline 0 = None"
  shows "(length name = 1 \<longrightarrow> is_ovbox stat cmdline junk p0 = Inr (a1 = ''/home/pi/autorun'')) \<and>
    (length name = 2 \<longrightarrow> is_ovbox stat cmdline junk p0 = Inr False)"
proof -
  let ?fs = "[show_nat n0] @ name @ [state, show_nat n1]"
  have num: "field_ok (show_nat n)" for n
  proof -
    have "c \<noteq> CHR '' ''" "c \<noteq> NUL" if "c \<in> set (show_nat n)" for c using digit_is_digit(5,6) [OF that] .
    then show ?thesis by (metis field_ok_def show_nat_not_Nil)
  qed
  then have ok: "\<forall>f\<in>set ?fs. field_ok f" using assms(2) by simp
  have p1: "get_process_parent_id stat junk p0 = Inr (sint (atoi (?fs ! 3)))" if "name \<noteq> []"
    using parent_id_fields [of stat p0 ?fs rest0 junk, OF assms(1) ok _ assms(3)] that by (cases name) simp_all
  have p2: "get_process_parent_id stat junk (int n1) = Inr (int n2)"
    using parent_id_fields [of stat "int n1" "[show_nat n1, name1, state1, show_nat n2]" rest1 junk, OF assms(9) _ _ assms(12)] num assms(10,11) atoi_show_nat [OF assms(13)] by simp
  have arg: "get_process_name cmdline (int n2) = Inr a1" using second_argument [of cmdline "int n2" a0 a1 args, OF assms(14-18)] .
  have one: "length name = 1 \<Longrightarrow> ?fs ! 3 = show_nat n1" and two: "length name = 2 \<Longrightarrow> ?fs ! 3 = state"
    by (auto simp: length_Suc_conv numeral_2_eq_2 numeral_3_eq_3)
  have "state \<noteq> []" using assms(2) by (simp add: field_ok_def)
  then have "atoi state = 0" using assms(5-8) by (cases state) (simp_all add: atoi_def read_digits_def)
  then have "length name = 2 \<Longrightarrow> get_process_parent_id stat junk p0 = Inr 0" using p1 two by fastforce
  moreover have "length name = 1 \<Longrightarrow> get_process_parent_id stat junk p0 = Inr (int n1)"
    using p1 one atoi_show_nat [OF assms(4)] by fastforce
  ultimately show ?thesis
    using p2 arg assms(19,20) by (simp add: is_ovbox_def get_process_parent_id_def [of stat junk 0] get_process_name_def [of cmdline 0])
qed

definition example_stat :: "string list \<Rightarrow> int \<Rightarrow> string option" where
  "example_stat name pid =
     (if pid = 30 then Some (stat_head ([show_nat 30] @ name @ [''S'', show_nat 20]) @ ''30 30 0'')
      else if pid = 20 then Some (stat_head [show_nat 20, ''(sh)'', ''S'', show_nat 10] @ ''20 20 0'')
      else None)"

definition example_cmdline :: "int \<Rightarrow> string option" where
  "example_cmdline pid = (if pid = 10 then Some (''/bin/bash'' @ NUL # ''/home/pi/autorun'' @ [NUL]) else None)"

theorem ovbox_detection_witness:
  "is_ovbox (example_stat [''(sh)'']) example_cmdline (replicate BUFSIZ NUL) 30 = Inr True \<and>
   is_ovbox (example_stat [''(tmux:'', ''server)'']) example_cmdline (replicate BUFSIZ NUL) 30 = Inr False"
proof -
  have b: "''S'' \<noteq> []" "\<not> is_digit (hd ''S'')" "\<not> is_space (hd ''S'')" "hd ''S'' \<noteq> CHR ''-''" "hd ''S'' \<noteq> CHR ''+''"
    by (simp_all add: is_digit_def is_space_def)
  have s: "length (show_nat 30) = 2" "length (show_nat 20) = 2" "length (show_nat 10) = 2" by (simp_all add: show_nat.simps)
  have f: "\<forall>f\<in>set [''S'', ''(sh)'']. field_ok f" "\<forall>f\<in>set [''S'', ''(tmux:'', ''server)'']. field_ok f" "field_ok ''(sh)''" "field_ok ''S''"
    by (simp_all add: field_ok_def NUL_def)
  have st: "example_stat name 30 = Some (stat_head ([show_nat 30] @ name @ [''S'', show_nat 20]) @ ''30 30 0'')"
    "example_stat name (int 20) = Some (stat_head [show_nat 20, ''(sh)'', ''S'', show_nat 10] @ ''20 20 0'')"
    "example_stat name 0 = None" "example_cmdline (int 10) = Some (''/bin/bash'' @ NUL # ''/home/pi/autorun'' @ NUL # [])"
    "example_cmdline 0 = None" for name
    by (simp_all add: example_stat_def example_cmdline_def)
  have l: "length (stat_head ([show_nat 30] @ [''(sh)''] @ [''S'', show_nat 20])) \<le> BUFSIZ"
    "length (stat_head ([show_nat 30] @ [''(tmux:'', ''server)''] @ [''S'', show_nat 20])) \<le> BUFSIZ"
    "length (stat_head [show_nat 20, ''(sh)'', ''S'', show_nat 10]) \<le> BUFSIZ" "(20 :: nat) < 2 ^ 31" "(10 :: nat) < 2 ^ 31"
    by (simp_all add: s stat_head_def BUFSIZ_def)
  have c: "NUL \<notin> set ''/bin/bash''" "NUL \<notin> set ''/home/pi/autorun''" "length ''/bin/bash'' + length ''/home/pi/autorun'' + 2 \<le> BUFSIZ"
    "last (take BUFSIZ (''/bin/bash'' @ NUL # ''/home/pi/autorun'' @ NUL # [])) \<noteq> CHR 0x0A"
    by (simp_all add: NUL_def BUFSIZ_def)
  show ?thesis
    using ovbox_detection [OF st(1) f(1) l(1) l(4) b(2-5) st(2) f(3,4) l(3) l(5) st(4) c st(3) st(5)]
      ovbox_detection [OF st(1) f(2) l(2) l(4) b(2-5) st(2) f(3,4) l(3) l(5) st(4) c st(3) st(5)] by simp
qed

text \<open>The answer of a request: whatever blocks arrive, the transfer never writes outside the buffer, and what the buffer then
  holds is the concatenation of the blocks that were taken, all of them when it succeeds, which it does
  unless memory runs out.\<close>

theorem request_answer:
  assumes "realloc_ok realloc"
  shows "\<exists>ok m k. transfer realloc blocks \<lparr>ms_memory = [x], ms_size = 0\<rparr> = Inr (ok, m) \<and>
    take (ms_size m) (ms_memory m) = concat (take k blocks) \<and> (ok \<longrightarrow> take (ms_size m) (ms_memory m) = concat blocks) \<and>
    ((\<forall>n old. realloc n old \<noteq> None) \<longrightarrow> ok)"
proof -
  let ?m0 = "\<lparr>ms_memory = [x], ms_size = 0\<rparr>"
  have "ms_size ?m0 \<le> length (ms_memory ?m0)" by simp
  from transfer_collects [OF assms this, of blocks] obtain ok m k where t: "transfer realloc blocks ?m0 = Inr (ok, m)"
    "take (ms_size m) (ms_memory m) = take (ms_size ?m0) (ms_memory ?m0) @ concat (take k blocks)"
    "ok \<longrightarrow> concat (take k blocks) = concat blocks" "(\<forall>n old. realloc n old \<noteq> None) \<longrightarrow> ok" by blast
  then show ?thesis by (intro exI [of _ ok] exI [of _ m] exI [of _ k]) simp
qed

theorem request_answer_witness:
  "\<exists>ok m. transfer (\<lambda>n old. Some (take n old @ replicate (n - length old) 0)) [[1, 2], [], [3]] \<lparr>ms_memory = [0], ms_size = 0\<rparr> = Inr (ok, m) \<and>
     ok \<and> take (ms_size m) (ms_memory m) = [1, 2, 3]"
proof -
  have "realloc_ok (\<lambda>n old. Some (take n old @ replicate (n - length old) 0))"
    by (auto simp: realloc_ok_def min_def)
  from request_answer [OF this, of "[[1, 2], [], [3]]" 0] show ?thesis by auto
qed

text \<open>The sound devices of a Windows host: the list is, by host interface in alphabetical order, each device
  with both directions, and then each device with inputs only combined with each one of the same interface with outputs
  only, in the order in which the devices are found; devices without a known interface are left out.\<close>

theorem windows_devices:
  "list_sound_devices_win (Some devs) =
     concat (map (\<lambda>api. map (duplex_entry api) (names_of is_duplex devs api)) (apis_of is_duplex devs)) @
     concat (map (\<lambda>api. concat (map (\<lambda>devi. map (pair_entry api devi) (names_of is_output devs api)) (names_of is_input devs api)))
       (apis_of is_input devs))"
  by (simp add: list_sound_devices_win_def fold_group grouped_lookup grouped comp_def)

end
