(* ===== verification/Config_Client.thy ===== *)
theory Config_Client
  imports Config_Json
begin

text \<open>
  The configuration client \<open>ov_client_orlandoviols_t\<close> (\<open>ov_client_orlandoviols.h\<close>,
  \<open>ov_client_orlandoviols.cc\<close>): it polls the configuration server, merges what it gets and calls the
  operations of the renderer. The renderer is part of the state of the client; its virtual
  methods are a parameter. Files that are written and HTTP requests are recorded in their order.
\<close>

section \<open>Environment and state\<close>

datatype effect =
    Write_file string string
  | Copy_file string string
  | Http_put string string
  | Http_get string bool

text \<open>
  libcurl (the body of an answer, or an error), the text of the hash in request numbers, files
  (their content, \<open>std::hash\<close> of addresses, channels of a sound file), and the system: host name,
  home, sound devices, addresses, version.
\<close>

record client_env =
  ce_perform :: "effect \<Rightarrow> string + string"
  ce_apreq :: "32 word \<Rightarrow> string"
  ce_file :: "string \<Rightarrow> string option"
  ce_hash :: "string \<Rightarrow> nat"
  ce_sndfile :: "string \<Rightarrow> err + nat"
  ce_hostname :: string
  ce_home :: "string option"
  ce_hints :: "(string option \<times> string option) list option"
  ce_cards :: "(int \<times> int \<times> string option) list"
  ce_ifaddrs :: "ifaddr list"
  ce_version :: string

text \<open>The methods of the renderer that the client calls; two of the queries change the renderer.\<close>

record 'b backend_api =
  ba_vtable :: "'b vtable"
  ba_inputs :: "'b \<Rightarrow> string list"
  ba_bitrate :: "real \<times> real \<Rightarrow> 'b \<Rightarrow> (real \<times> real) \<times> 'b"
  ba_load :: "'b \<Rightarrow> real"
  ba_temperature :: "'b \<Rightarrow> real list"
  ba_client_stats :: "'b \<Rightarrow> string \<times> 'b"
  ba_xruns :: "'b \<Rightarrow> nat"
  ba_encrypt_state :: "'b \<Rightarrow> nat"
  ba_level_stat :: "'b \<Rightarrow> string \<times> 'b"
  ba_osc_vars :: "'b \<Rightarrow> string"
  ba_plugincfg :: "'b \<Rightarrow> string"
  ba_objmix :: "'b \<Rightarrow> string"

record 'b config_client =
  ocl_backend :: 'b
  ocl_lobby :: string
  ocl_folder :: string
  ocl_quitrequest :: bool
  ocl_isovbox :: bool
  ocl_owner :: string
  ocl_refplugcfg :: string
  ocl_requestcnt :: "32 word"
  ocl_uname_sysname :: string
  ocl_uname_release :: string
  ocl_uname_machine :: string
  ocl_devcfg :: jval
  ocl_standalone_mixer :: bool
  ocl_lasterrmsg :: string
  ocl_nocancelwait :: bool
  ocl_log :: "effect list"

text \<open>\<open>uname\<close> yields the names of the system, or fails; the two libraries may not be usable.\<close>

definition config_client_ctor ::
  "bool \<Rightarrow> bool \<Rightarrow> (string \<times> string \<times> string) option \<Rightarrow> bool \<Rightarrow> 'b \<Rightarrow> string \<Rightarrow> err + 'b config_client" where
  "config_client_ctor sodium_ok curl_ok uname isovbox backend lobby =
     (if \<not> sodium_ok then Inl (ErrMsg ''Unable to initialize libsodium'')
      else if \<not> curl_ok then Inl (ErrMsg ''Unable to initialize curl'')
      else
        let (sysname, release, machine) = (case uname of Some u \<Rightarrow> u | None \<Rightarrow> ([], [], []))
        in Inr \<lparr>ocl_backend = backend, ocl_lobby = lobby, ocl_folder = [], ocl_quitrequest = False, ocl_isovbox = isovbox,
                ocl_owner = [], ocl_refplugcfg = [], ocl_requestcnt = 0, ocl_uname_sysname = sysname,
                ocl_uname_release = release, ocl_uname_machine = machine, ocl_devcfg = Jnull,
                ocl_standalone_mixer = False, ocl_lasterrmsg = ''xxx'', ocl_nocancelwait = True, ocl_log = []\<rparr>)"

definition set_client_folder :: "string \<Rightarrow> 'b config_client \<Rightarrow> 'b config_client" where
  "set_client_folder v c = c\<lparr>ocl_folder := v\<rparr>"

definition is_going_to_stop :: "'b config_client \<Rightarrow> bool" where "is_going_to_stop c = ocl_quitrequest c"

definition get_owner :: "'b config_client \<Rightarrow> string" where "get_owner c = ocl_owner c"

section \<open>Runs\<close>

text \<open>A run ends normally, with an exception, or in undefined behaviour, which is never caught.\<close>

type_synonym 's run = "'s \<times> stop option"

fun and_run :: "'s run \<Rightarrow> ('s \<Rightarrow> 's run) \<Rightarrow> 's run" where
  "and_run (s, None) f = f s"
| "and_run (s, Some e) f = (s, Some e)"

lemma and_run_None_iff: "and_run p f = (s', None) \<longleftrightarrow> (\<exists>s. p = (s, None) \<and> f s = (s', None))"
  by (cases "(p, f)" rule: and_run.cases) auto

lemma and_run_inv: "P (fst p) \<Longrightarrow> (\<And>s. P s \<Longrightarrow> P (fst (f s))) \<Longrightarrow> P (fst (and_run p f))"
  by (cases "(p, f)" rule: and_run.cases) auto

text \<open>A value that is read first, and an operation of the renderer.\<close>

definition with_value :: "stop + 'v \<Rightarrow> ('v \<Rightarrow> 's \<Rightarrow> 's run) \<Rightarrow> 's \<Rightarrow> 's run" where
  "with_value v f s = (case v of Inl e \<Rightarrow> (s, Some e) | Inr x \<Rightarrow> f x s)"

lemma with_value_inv: "P s \<Longrightarrow> (\<And>v. x = Inr v \<Longrightarrow> P (fst (f v s))) \<Longrightarrow> P (fst (with_value x f s))"
  by (simp add: with_value_def split: sum.split)

lemma with_value_Inr: "x = Inr v \<Longrightarrow> with_value (throwing x) f s = f v s"
  by (simp add: with_value_def)

definition backend_call :: "('b \<Rightarrow> 'b outcome) \<Rightarrow> 'b config_client \<Rightarrow> 'b config_client run" where
  "backend_call f c = (case f (ocl_backend c) of (b, ex) \<Rightarrow> (c\<lparr>ocl_backend := b\<rparr>, map_option Throws ex))"

definition note_effect :: "effect \<Rightarrow> 'b config_client \<Rightarrow> 'b config_client" where
  "note_effect x c = c\<lparr>ocl_log := ocl_log c @ [x]\<rparr>"

definition write_file :: "string \<Rightarrow> string \<Rightarrow> 'b config_client \<Rightarrow> 'b config_client" where
  "write_file name content = note_effect (Write_file name content)"

section \<open>Requests\<close>

definition url_requestcnt :: "client_env \<Rightarrow> 'b config_client \<Rightarrow> string \<times> 'b config_client" where
  "url_requestcnt e c =
     (let c1 = c\<lparr>ocl_requestcnt := ocl_requestcnt c + 1\<rparr> in (''&apreq='' @ ce_apreq e (ocl_requestcnt c1), c1))"

text \<open>The same message is not reported twice in a row; a report that fails is not remembered.\<close>

definition report_error :: "client_env \<Rightarrow> string \<Rightarrow> string \<Rightarrow> string \<Rightarrow> 'b config_client \<Rightarrow> bool \<times> 'b config_client" where
  "report_error e url device msg c =
     (if msg = ocl_lasterrmsg c then (True, c)
      else
        let (tag, c1) = url_requestcnt e c;
            req = Http_put (url @ ''?ovclientmsg='' @ device @ tag) msg;
            c2 = note_effect req c1
        in case ce_perform e req of
             Inl err \<Rightarrow> (False, c2)
           | Inr answer \<Rightarrow> (True, c2\<lparr>ocl_lasterrmsg := msg\<rparr>))"

text \<open>A file that is already there is used or copied, otherwise it is downloaded.\<close>

definition download_file :: "client_env \<Rightarrow> string \<Rightarrow> string \<Rightarrow> bool \<Rightarrow> 'b config_client \<Rightarrow> bool \<times> 'b config_client" where
  "download_file e url dest use_pw c =
     (let local = url2localfilename (ce_hash e) url
      in case filter (\<lambda>f. ce_file e f \<noteq> None) [''/usr/share/ovclient/sounds/'' @ local, local] of
           hashname # _ \<Rightarrow> (True, if dest = hashname then c else note_effect (Copy_file hashname dest) c)
         | [] \<Rightarrow>
             let c1 = note_effect (Http_get url use_pw) c
             in case ce_perform e (Http_get url use_pw) of
                  Inl err \<Rightarrow> (False, c1)
                | Inr body \<Rightarrow> (True, write_file dest body c1))"

section \<open>State of the device\<close>

text \<open>
  The memory size in the text of \<open>/proc/meminfo\<close>: the number behind the first word \<open>MemTotal:\<close>
  that begins a line.
\<close>

definition line_break :: char where "line_break = CHR 0x0A"

fun mem_total :: "nat \<Rightarrow> string \<Rightarrow> 64 word" where
  "mem_total 0 text = 0"
| "mem_total (Suc n) text =
     (let t = dropWhile is_space text; token = takeWhile (\<lambda>c. \<not> is_space c) t; rest = dropWhile (\<lambda>c. \<not> is_space c) t
      in if token = [] then 0
         else if token = ''MemTotal:'' then
           let digits = takeWhile is_digit (dropWhile is_space rest)
           in if digits \<noteq> [] \<and> read_digits digits < 2 ^ 64 then of_nat (read_digits digits) else 0
         else mem_total n (drop 1 (dropWhile (\<lambda>c. c \<noteq> line_break) rest)))"

definition get_mem_total :: "client_env \<Rightarrow> 64 word" where
  "get_mem_total e = (case ce_file e ''/proc/meminfo'' of None \<Rightarrow> 0 | Some t \<Rightarrow> mem_total (length t) t)"

text \<open>Objects and arrays that grow from null.\<close>

definition jobject :: "(string \<times> jval) list \<Rightarrow> jval" where
  "jobject kvs = (if kvs = [] then Jnull else Jobj (fold (\<lambda>(k, v). omap_put k v) kvs []))"

definition jarray :: "jval list \<Rightarrow> jval" where
  "jarray vs = (if vs = [] then Jnull else Jarr vs)"

definition jnat :: "nat \<Rightarrow> jval" where "jnat n = Jnum (real n)"

definition device_json ::
  "jval json_lib \<Rightarrow> 'a render_base_scheme backend_api \<Rightarrow> client_env \<Rightarrow> 'a render_base_scheme config_client \<Rightarrow>
     (err + jval) \<times> 'a render_base_scheme config_client" where
  "device_json J A e c =
     (let b0 = ocl_backend c;
          devs = list_sound_devices (ce_hints e) (ce_cards e);
          ((txrate, rxrate), b1) = ba_bitrate A (0, 0) b0;
          (stats, b2) = ba_client_stats A b1
      in case js_parse J stats of
           Inl err \<Rightarrow> (Inl err, c\<lparr>ocl_backend := b2\<rparr>)
         | Inr pingstats \<Rightarrow>
             let (levels, b3) = ba_level_stat A b2; c3 = c\<lparr>ocl_backend := b3\<rparr>
             in (bind_err (js_parse J levels) (\<lambda>levelstats.
                 bind_err (js_parse J (ba_osc_vars A b3)) (\<lambda>oscvarlist.
                   Inr (jobject
                     [(''alsadevs'', jobject (map (\<lambda>d. (snd_dev d, Jstr (snd_desc d))) devs)),
                      (''hwinputchannels'', jarray (map Jstr (ba_inputs A b0))),
                      (''cpuload'', Jnum (ba_load A b1)), (''thermal'', Jarr (map Jnum (ba_temperature A b1))),
                      (''totalmem'', jnat (unat (get_mem_total e))),
                      (''bandwidth'', jobject [(''tx'', Jnum txrate), (''rx'', Jnum rxrate)]),
                      (''localip'', Jstr (ep2ipstr (getipaddr (ce_ifaddrs e)))),
                      (''version'', Jstr (''ovclient-'' @ ce_version e)), (''isovbox'', Jbool (ocl_isovbox c)),
                      (''pingstats'', pingstats),
                      (''networkdevices'', Jarr (map Jstr (getnetworkdevices (ce_ifaddrs e)))),
                      (''backendperiodsize'', jnat (unat (ad_periodsize (ovr_audiodevice b2)))),
                      (''backendsrate'', Jnum (ad_srate (ovr_audiodevice b2))),
                      (''backendxruns'', jnat (ba_xruns A b2)), (''encryptstate'', jnat (ba_encrypt_state A b2)),
                      (''uname_sysname'', Jstr (ocl_uname_sysname c)), (''uname_release'', Jstr (ocl_uname_release c)),
                      (''uname_machine'', Jstr (ocl_uname_machine c)), (''levelstats'', levelstats),
                      (''oscvarlist'', oscvarlist)]))), c3))"

section \<open>Polling\<close>

text \<open>The lines of a text; a last line without an end counts when it is not empty.\<close>

fun getlines :: "string \<Rightarrow> string \<Rightarrow> string list" where
  "getlines cur [] = (if cur = [] then [] else [cur])"
| "getlines cur (c # cs) = (if c = line_break then cur # getlines [] cs else getlines (cur @ [c]) cs)"

text \<open>The first line of an answer is the hash of the configuration, the rest is the configuration.\<close>

definition split_answer :: "string \<Rightarrow> string \<Rightarrow> err + (string \<times> string)" where
  "split_answer hash answer =
     (case getlines [] answer of
        [] \<Rightarrow> Inr (hash, [])
      | first # ls \<Rightarrow>
          if first \<noteq> [] \<and> hd first = CHR ''<''
          then Inl (ErrMsg ''Invalid hash code, propably not a REST API response.'')
          else Inr (first, butlast (concat (map (\<lambda>l. l @ [line_break]) ls))))"

definition device_update ::
  "jval json_lib \<Rightarrow> 'a render_base_scheme backend_api \<Rightarrow> client_env \<Rightarrow> string \<Rightarrow> string \<Rightarrow> string \<Rightarrow>
     'a render_base_scheme config_client \<Rightarrow> (err + (string \<times> string)) \<times> 'a render_base_scheme config_client" where
  "device_update J A e url device hash c =
     (case device_json J A e c of
        (Inl err, c1) \<Rightarrow> (Inl err, c1)
      | (Inr js, c1) \<Rightarrow>
          let (tag, c2) = url_requestcnt e c1;
              req = Http_put (url @ ''?ovclient2='' @ device @ ''&hash='' @ hash @
                (if ce_hostname e \<noteq> [] then ''&host='' @ ce_hostname e else []) @ tag) (js_dump_tree J js)
          in (split_answer hash (case ce_perform e req of Inl err \<Rightarrow> [] | Inr answer \<Rightarrow> answer), note_effect req c2))"

section \<open>Uploads\<close>

text \<open>The plugin settings are taken over and sent when they differ from the last ones; exceptions are only printed.\<close>

fun update_plugins ::
  "jval json_lib \<Rightarrow> nat \<Rightarrow> jval list \<Rightarrow> 'a render_base_scheme config_client \<Rightarrow> 'a render_base_scheme config_client run" where
  "update_plugins J chcnt [] c = (c, None)"
| "update_plugins J chcnt (ch # chs) c =
     (case update_plugincfg J (js_dump J ch) chcnt (ocl_backend c) of
        Inl f \<Rightarrow> (c, Some (Undefined f))
      | Inr (b, Some e) \<Rightarrow> (c\<lparr>ocl_backend := b\<rparr>, Some (Throws e))
      | Inr (b, None) \<Rightarrow> update_plugins J (chcnt + 1) chs (c\<lparr>ocl_backend := b\<rparr>))"

definition catch_all :: "(err \<Rightarrow> 's \<Rightarrow> 's run) \<Rightarrow> 's run \<Rightarrow> 's run" where
  "catch_all h p = (case p of (s, Some (Throws e)) \<Rightarrow> h e s | _ \<Rightarrow> p)"

definition put_request :: "client_env \<Rightarrow> string \<Rightarrow> string \<Rightarrow> 'a render_base_scheme config_client \<Rightarrow> 'a render_base_scheme config_client" where
  "put_request e query body c =
     (let (tag, c1) = url_requestcnt e c
      in note_effect (Http_put (ocl_lobby c @ query @ get_deviceid (ocl_backend c) @ tag) body) c1)"

definition upload_plugin_settings ::
  "jval json_lib \<Rightarrow> 'a render_base_scheme backend_api \<Rightarrow> client_env \<Rightarrow>
     'a render_base_scheme config_client \<Rightarrow> 'a render_base_scheme config_client run" where
  "upload_plugin_settings J A e c =
     (if is_session_active (ocl_backend c) then
        let cur = ba_plugincfg A (ocl_backend c)
        in catch_all (\<lambda>err c'. (c', None))
             (if cur \<noteq> ocl_refplugcfg c then
                with_value (throwing (js_parse J cur)) (\<lambda>pluginscfg c.
                  and_run (update_plugins J 0 (js_elements J pluginscfg) c) (\<lambda>c1.
                    let c2 = c1\<lparr>ocl_refplugcfg := cur\<rparr>
                    in (if \<not> js_is_null J pluginscfg
                        then (put_request e ''?pluginscfg='' (js_dump J pluginscfg) c2)\<lparr>ocl_nocancelwait := False\<rparr>
                        else c2, None))) c
              else (c\<lparr>ocl_refplugcfg := cur\<rparr>, None))
      else (c, None))"

definition upload_objmix ::
  "'a render_base_scheme backend_api \<Rightarrow> client_env \<Rightarrow> 'a render_base_scheme config_client \<Rightarrow> 'a render_base_scheme config_client" where
  "upload_objmix A e c =
     (if is_session_active (ocl_backend c) then
        let cfg = ba_objmix A (ocl_backend c);
            c1 = (if cfg \<noteq> ''{}'' then put_request e ''?objmixcfg='' cfg c else c)
        in c1\<lparr>ocl_nocancelwait := False\<rparr>
      else c)"

section \<open>Requests of the configuration to leave\<close>

text \<open>A file beside the program and the wish to quit; the configuration is null or an object.\<close>

definition quit_with :: "string \<Rightarrow> string \<Rightarrow> 'b config_client \<Rightarrow> 'b config_client" where
  "quit_with name content c = (write_file (ocl_folder c @ name) content c)\<lparr>ocl_quitrequest := True\<rparr>"

definition flag_request :: "jval json_lib \<Rightarrow> string \<Rightarrow> string \<Rightarrow> 'b config_client \<Rightarrow> 'b config_client run" where
  "flag_request J key name c =
     with_value (throwing (my_js_value J (get_bool J) (ocl_devcfg c) key False))
       (\<lambda>b c. (if b then quit_with name [] c else c, None)) c"

fun run_all :: "('s \<Rightarrow> 's run) list \<Rightarrow> 's \<Rightarrow> 's run" where
  "run_all [] s = (s, None)"
| "run_all (f # fs) s = and_run (f s) (run_all fs)"

lemma run_all_inv: "(\<And>f s. f \<in> set fs \<Longrightarrow> P s \<Longrightarrow> P (fst (f s))) \<Longrightarrow> P s \<Longrightarrow> P (fst (run_all fs s))"
  by (induction fs arbitrary: s) (auto intro: and_run_inv)

definition mixer_step :: "jval json_lib \<Rightarrow> 'b config_client \<Rightarrow> 'b config_client run" where
  "mixer_step J c =
     with_value (throwing (my_js_value J (get_bool J) (ocl_devcfg c) ''standalonemixer'' False))
       (\<lambda>b c. (if b \<noteq> ocl_standalone_mixer c then c\<lparr>ocl_standalone_mixer := b, ocl_quitrequest := True\<rparr> else c, None)) c"

definition owner_step :: "jval json_lib \<Rightarrow> 'b config_client \<Rightarrow> 'b config_client run" where
  "owner_step J c =
     with_value (throwing (my_js_value J (get_string J) (ocl_devcfg c) ''owner'' (ocl_owner c)))
       (\<lambda>v c. (c\<lparr>ocl_owner := v\<rparr>, None)) c"

definition frontend_step :: "jval json_lib \<Rightarrow> 'b config_client \<Rightarrow> 'b config_client run" where
  "frontend_step J c =
     with_value (throwing (js_index J (ocl_devcfg c) ''frontendconfig''))
       (\<lambda>v c. (if \<not> js_is_null J v
               then quit_with ''ovboxcfg.json'' ''{}'' (write_file (ocl_folder c @ ''ov-client.cfg'') (js_dump J v) c) else c, None)) c"

definition hifiberry_step :: "jval json_lib \<Rightarrow> 'b config_client \<Rightarrow> 'b config_client run" where
  "hifiberry_step J c =
     with_value (throwing (my_js_value J (get_string J) (ocl_devcfg c) ''usehifiberry'' []))
       (\<lambda>v c. (if v \<noteq> [] then quit_with ''ov-client.hifiberry'' (v @ [line_break]) c else c, None)) c"

text \<open>The file is opened, and so emptied, before the values are read.\<close>

definition wifi_step :: "jval json_lib \<Rightarrow> 'b config_client \<Rightarrow> 'b config_client run" where
  "wifi_step J c =
     with_value (throwing (js_index J (ocl_devcfg c) ''wifisettings''))
       (\<lambda>v c. if js_is_object J v then
          with_value (bind_stop (throwing (my_js_value J (get_string J) v ''ssid'' [])) (\<lambda>ssid.
              bind_stop (throwing (my_js_value J (get_string J) v ''passwd'' [])) (\<lambda>passwd. Inr (ssid, passwd))))
            (\<lambda>(ssid, passwd) c. (quit_with ''ov-client.wificfg'' (ssid @ [line_break] @ passwd @ [line_break]) c, None))
            (write_file (ocl_folder c @ ''ov-client.wificfg'') [] c)
        else (c, None)) c"

definition leave_steps :: "jval json_lib \<Rightarrow> ('b config_client \<Rightarrow> 'b config_client run) list" where
  "leave_steps J =
     [mixer_step J, owner_step J, frontend_step J, flag_request J ''firmwareupdate'' ''ov-client.firmwareupdate'',
      flag_request J ''firmwareupdategit'' ''ov-client.firmwareupdategit'', flag_request J ''usedevversion'' ''ov-client.usedevversion'',
      flag_request J ''installopenmha'' ''ov-client.installopenmha'', hifiberry_step J, wifi_step J]"

section \<open>The configuration of the renderer\<close>

definition audio_step ::
  "jval json_lib \<Rightarrow> 'a render_base_scheme backend_api \<Rightarrow> 'a render_base_scheme config_client \<Rightarrow> 'a render_base_scheme config_client run" where
  "audio_step J A c =
     with_value (throwing (js_index J (ocl_devcfg c) ''audiocfg'')) (\<lambda>js c.
       if js_is_null J js then (c, None)
       else
         with_value (throwing (read_audio J js)) (\<lambda>audio c.
         and_run (backend_call (configure_audio_backend (ba_vtable A) audio) c) (
         with_value (throwing (my_js_value J (get_bool J) js ''restart'' False)) (\<lambda>restart c.
           if restart then
             let was_active = is_session_active (ocl_backend c) in
             and_run (if was_active then backend_call (vt_end_session (ba_vtable A)) c else (c, None)) (\<lambda>c.
             and_run (backend_call (vt_stop_audiobackend (ba_vtable A)) c) (\<lambda>c.
             and_run (backend_call (vt_start_audiobackend (ba_vtable A)) c) (\<lambda>c.
               (if was_active then c\<lparr>ocl_backend := require_session_restart (ocl_backend c)\<rparr> else c, None))))
           else (c, None)))) c) c"

definition device_step :: "jval json_lib \<Rightarrow> jval \<Rightarrow> 'a render_base_scheme config_client \<Rightarrow> 'a render_base_scheme config_client run" where
  "device_step J js c =
     (if js_is_null J js then (c, None)
      else with_value (get_stage_dev J js) (\<lambda>d c. (c\<lparr>ocl_backend := set_thisdev d (ocl_backend c)\<rparr>, None)) c)"

text \<open>The ambient sound is fetched, and has to be a sound file of four channels.\<close>

definition ambient_step :: "client_env \<Rightarrow> render_settings \<Rightarrow> 'a render_base_scheme config_client \<Rightarrow> 'a render_base_scheme config_client run" where
  "ambient_step e s c =
     (let url = rs_ambientsound s; hashname = ocl_folder c @ url2localfilename (ce_hash e) url;
          fail = (\<lambda>text. Throws (ErrMsg (''Unable to open ambient sound file from '' @ url @ '': '' @ text)))
      in if url = [] then (c, None)
         else
           let (ok, c1) = download_file e url hashname False c;
               c2 = (if ok then c1
                     else snd (report_error e (ocl_lobby c1) (get_deviceid (ocl_backend c1))
                       (''Unable to download ambient sound file from '' @ url) c1))
           in (c2, case ce_sndfile e hashname of
                     Inl err \<Rightarrow> Some (fail (what err))
                   | Inr channels \<Rightarrow>
                       if channels \<noteq> 4 then Some (fail (''Not in B-Format ('' @ show_nat channels @ '' channels)'')) else None))"

definition extra_step ::
  "jval json_lib \<Rightarrow> 'a render_base_scheme backend_api \<Rightarrow> jval \<Rightarrow> 'a render_base_scheme config_client \<Rightarrow> 'a render_base_scheme config_client run" where
  "extra_step J A js =
     with_value (throwing (js_index J js ''extracfg'')) (\<lambda>x c.
       if js_is_null J x then (c, None) else backend_call (vt_set_extra_config (ba_vtable A) (js_dump J x)) c)"

definition stage_step ::
  "jval json_lib \<Rightarrow> 'a render_base_scheme backend_api \<Rightarrow> 'a render_base_scheme config_client \<Rightarrow> 'a render_base_scheme config_client run" where
  "stage_step J A c =
     with_value (throwing (js_index J (ocl_devcfg c) ''roomdev'')) (\<lambda>js c.
       if js_is_array J js
       then with_value (read_stage J (js_elements J js) []) (\<lambda>m. backend_call (vt_set_stage (ba_vtable A) m)) c
       else (c, None)) c"

definition room_step ::
  "jval json_lib \<Rightarrow> 'a render_base_scheme backend_api \<Rightarrow> client_env \<Rightarrow> jval \<Rightarrow>
     'a render_base_scheme config_client \<Rightarrow> 'a render_base_scheme config_client run" where
  "room_step J A e js c =
     with_value (throwing (js_index J (ocl_devcfg c) ''room'')) (\<lambda>room c.
       if js_is_object J room then
         with_value (throwing (read_relay J room)) (\<lambda>(host, port, pin) c.
         and_run (backend_call (set_relay_server (ba_vtable A) host port pin) c) (
         with_value (throwing (read_settings J js room)) (\<lambda>s c.
         and_run (ambient_step e s c) (
         with_value (throwing (read_ports J js s)) (\<lambda>s c.
         with_value (throwing (my_js_value J (get_i32 J) js ''stagedevid'' 0)) (\<lambda>i c.
         and_run (backend_call (vt_set_render_settings (ba_vtable A) s (ucast i)) c) (\<lambda>c.
         and_run (extra_step J A js c) (stage_step J A))) c))))) c
       else (c, None)) c"

definition start_step ::
  "'a render_base_scheme backend_api \<Rightarrow> client_env \<Rightarrow> 'a render_base_scheme config_client \<Rightarrow> 'a render_base_scheme config_client run" where
  "start_step A e c =
     and_run (if \<not> is_audio_active (ocl_backend c) then backend_call (vt_start_audiobackend (ba_vtable A)) c else (c, None)) (\<lambda>c.
     and_run (backend_call (restart_session_if_needed (ba_vtable A)) c) (\<lambda>c.
       let c1 = c\<lparr>ocl_refplugcfg := ba_plugincfg A (ocl_backend c)\<rparr>
       in (if is_session_active (ocl_backend c1)
           then snd (report_error e (ocl_lobby c1) (get_deviceid (ocl_backend c1)) [] c1) else c1, None)))"

definition apply_config ::
  "jval json_lib \<Rightarrow> 'a render_base_scheme backend_api \<Rightarrow> client_env \<Rightarrow>
     'a render_base_scheme config_client \<Rightarrow> 'a render_base_scheme config_client run" where
  "apply_config J A e c =
     and_run (audio_step J A c) (\<lambda>c.
     with_value (throwing (js_index J (ocl_devcfg c) ''rendersettings'')) (\<lambda>js c.
     and_run (device_step J js c) (\<lambda>c.
     and_run (room_step J A e js c) (start_step A e))) c)"

definition parse_config ::
  "jval json_lib \<Rightarrow> 'a render_base_scheme backend_api \<Rightarrow> client_env \<Rightarrow>
     'a render_base_scheme config_client \<Rightarrow> 'a render_base_scheme config_client run" where
  "parse_config J A e c =
     and_run (run_all (leave_steps J) c) (\<lambda>c. if ocl_quitrequest c then (c, None) else apply_config J A e c)"

end
