(* ===== verification/Config_Service.thy ===== *)
theory Config_Service
  imports Config_Client
begin

text \<open>
  The thread \<open>service\<close> of the configuration client (\<open>ov_client_orlandoviols.cc\<close>), and the operations
  of the renderer that it calls. The thread is a function of what its turns meet; it ends when
  \<open>runservice\<close> is reset, which is the end of the list.
\<close>

section \<open>Reading configurations\<close>

text \<open>A local file that cannot be read as JSON, or not be merged, is only reported on the console.\<close>

definition config_files :: "client_env \<Rightarrow> string \<Rightarrow> string list" where
  "config_files e folder =
     [''/boot/ovboxcfg.json'', (case ce_home e of Some h \<Rightarrow> h | None \<Rightarrow> ''.'') @ ''/.ovboxcfg.json'', folder @ ''ovboxcfg.json'']"

definition merge_file :: "jval json_lib \<Rightarrow> client_env \<Rightarrow> string \<Rightarrow> jval \<Rightarrow> jval" where
  "merge_file J e name cfg =
     (let text = get_file_contents (ce_file e) name
      in if text = [] then cfg
         else case bind_err (js_parse J text) (json_merge cfg) of Inl err \<Rightarrow> cfg | Inr m \<Rightarrow> m)"

definition read_local :: "jval json_lib \<Rightarrow> client_env \<Rightarrow> 'b config_client \<Rightarrow> 'b config_client" where
  "read_local J e c = c\<lparr>ocl_devcfg := fold (merge_file J e) (config_files e (ocl_folder c)) (ocl_devcfg c)\<rparr>"

definition merge_answer :: "jval json_lib \<Rightarrow> string \<Rightarrow> 'b config_client \<Rightarrow> 'b config_client run" where
  "merge_answer J text c =
     (if text = [] then (c, None)
      else with_value (throwing (bind_err (js_parse J text) (json_merge (ocl_devcfg c)))) (\<lambda>m c. (c\<lparr>ocl_devcfg := m\<rparr>, None)) c)"

section \<open>The thread\<close>

text \<open>The state of the thread is the hash of the last configuration and the client.\<close>

definition first_update ::
  "jval json_lib \<Rightarrow> 'a render_base_scheme backend_api \<Rightarrow> client_env \<Rightarrow>
     'a render_base_scheme config_client \<Rightarrow> (string \<times> 'a render_base_scheme config_client) run" where
  "first_update J A e c =
     (case device_update J A e (ocl_lobby c) (get_deviceid (ocl_backend c)) [] c of
        (Inl err, c1) \<Rightarrow> (([], c1), Some (Throws err))
      | (Inr (hash, text), c1) \<Rightarrow>
          case and_run (merge_answer J text c1) (\<lambda>c2.
            let c3 = (if text = [] then c2 else write_file (ocl_folder c2 @ ''ovboxcfg.json'') (js_dump J (ocl_devcfg c2)) c2)
            in with_value (throwing (my_js_value J (get_bool J) (ocl_devcfg c3) ''standalonemixer'' False))
                 (\<lambda>b c. (c\<lparr>ocl_standalone_mixer := b\<rparr>, None)) c3) of
            (c4, ex) \<Rightarrow> ((hash, c4), ex))"

text \<open>The error message of the server is reset and the announcement is fetched.\<close>

definition announce :: "client_env \<Rightarrow> 'a render_base_scheme config_client \<Rightarrow> bool \<times> 'a render_base_scheme config_client" where
  "announce e c =
     (let (ok, c1) = report_error e (ocl_lobby c) (get_deviceid (ocl_backend c)) [] c
      in if \<not> ok then (False, c1)
         else download_file e (ocl_lobby c1 @ ''/announce.flac'') (ocl_folder c1 @ ''announce.flac'') True c1)"

text \<open>A turn: an exception of the update ends it, one of the configuration is sent to the server.\<close>

definition service_turn ::
  "jval json_lib \<Rightarrow> 'a render_base_scheme backend_api \<times> client_env \<Rightarrow>
     string \<times> 'a render_base_scheme config_client \<Rightarrow> (string \<times> 'a render_base_scheme config_client) run" where
  "service_turn J x s =
     (let (A, e) = x; (hash, c) = s
      in case device_update J A e (ocl_lobby c) (get_deviceid (ocl_backend c)) hash c of
           (Inl err, c1) \<Rightarrow> ((hash, c1), None)
         | (Inr (hash', text), c1) \<Rightarrow>
             case catch_all (\<lambda>err c. (snd (report_error e (ocl_lobby c) (get_deviceid (ocl_backend c)) (what err) c), None))
                    (and_run (merge_answer J text c1) (parse_config J A e)) of
               (c2, None) \<Rightarrow> ((hash', c2\<lparr>ocl_nocancelwait := True\<rparr>), None)
             | (c2, Some x) \<Rightarrow> ((hash', c2), Some x))"

definition service_end :: "'a render_base_scheme backend_api \<Rightarrow> 'a render_base_scheme config_client \<Rightarrow> 'a render_base_scheme config_client run" where
  "service_end A c =
     and_run (if is_session_active (ocl_backend c) then backend_call (vt_end_session (ba_vtable A)) c else (c, None))
       (backend_call (vt_stop_audiobackend (ba_vtable A)))"

text \<open>
  An exception that leaves the thread terminates the program. What the calls of the renderer meet in
  the system differs from turn to turn, and so does its table of methods.
\<close>

definition service ::
  "jval json_lib \<Rightarrow> 'a render_base_scheme backend_api \<Rightarrow> client_env \<Rightarrow> ('a render_base_scheme backend_api \<times> client_env) list \<Rightarrow>
     'a render_base_scheme config_client \<Rightarrow> 'a render_base_scheme config_client run" where
  "service J A e turns c =
     (case first_update J A e (read_local J e c) of
        ((hash, c1), Some x) \<Rightarrow> (c1, Some x)
      | ((hash, c1), None) \<Rightarrow>
          let (ok, c2) = announce e c1
          in if \<not> ok \<and> \<not> ocl_standalone_mixer c2 then (c2\<lparr>ocl_quitrequest := True\<rparr>, None)
             else case run_all (map (service_turn J) turns) (hash, c2) of
                    ((hash', c3), Some x) \<Rightarrow> (c3, Some x)
                  | ((hash', c3), None) \<Rightarrow> service_end A c3)"

section \<open>Runs along a relation\<close>

text \<open>What each part of a run does to the state, when it is a reflexive and transitive relation.\<close>

locale run_order =
  fixes R :: "'s \<Rightarrow> 's \<Rightarrow> bool"
  assumes refl: "R s s"
    and trans: "R s s1 \<Longrightarrow> R s1 s2 \<Longrightarrow> R s s2"
begin

definition along :: "('s \<Rightarrow> 's run) \<Rightarrow> bool" where
  "along f \<longleftrightarrow> (\<forall>s. R s (fst (f s)))"

lemma along_run: "along f \<Longrightarrow> f s = (s', ex) \<Longrightarrow> R s s'"
  unfolding along_def by (metis fst_conv)

lemma done_step: "(\<And>s. R s (g s)) \<Longrightarrow> along (\<lambda>s. (g s, x s))"
  by (simp add: along_def)

lemma and_step:
  assumes "along f" and "\<And>s. along (g s)"
  shows "along (\<lambda>s. and_run (f s) (g s))"
  unfolding along_def
proof
  fix s
  show "R s (fst (and_run (f s) (g s)))"
    using assms along_run [OF assms(1), of s] along_run [OF assms(2)] trans
    by (cases "(f s, g s)" rule: and_run.cases) (auto, metis fst_conv surj_pair)
qed

lemma value_step: "(\<And>s v. x s = Inr v \<Longrightarrow> along (f s v)) \<Longrightarrow> along (\<lambda>s. with_value (x s) (f s) s)"
  by (auto simp: along_def with_value_def refl split: sum.split)

lemma value_after: "(\<And>s. R s (g s)) \<Longrightarrow> (\<And>s v. along (f s v)) \<Longrightarrow> along (\<lambda>s. with_value (x s) (f s) (g s))"
  using trans by (fastforce simp: along_def with_value_def split: sum.split)

lemma if_step: "along f \<Longrightarrow> along g \<Longrightarrow> along (\<lambda>s. if b s then f s else g s)"
  by (simp add: along_def)

lemma all_step: "(\<And>f. f \<in> set fs \<Longrightarrow> along f) \<Longrightarrow> along (run_all fs)"
proof (induction fs)
  case (Cons f fs)
  then have "along (\<lambda>s. and_run (f s) (run_all fs))" by (intro and_step) auto
  then show ?case by (simp add: along_def)
qed (simp add: along_def refl)

lemma catch_step:
  assumes "along f" and "\<And>err. along (h err)"
  shows "along (\<lambda>s. catch_all h (f s))"
  unfolding along_def
proof
  fix s
  obtain s1 x where f: "f s = (s1, x)" by fastforce
  have "R s s1" using along_run [OF assms(1) f] .
  moreover have "R s1 (fst (h err s1))" for err using assms(2) by (simp add: along_def)
  ultimately show "R s (fst (catch_all h (f s)))"
    using f by (auto simp: catch_all_def intro: trans split: option.split stop.split)
qed

end

section \<open>The calls of the renderer\<close>

text \<open>
  What the client may call: the setters, the restart when it is needed, the wish to restart, the end of a
  session, the start and the stop of the audio backend, and the queries.
\<close>

fun client_op :: "render_op \<Rightarrow> bool" where
  "client_op Start_session = False"
| "client_op (Set_stage m) = omap_wf m"
| "client_op op = True"

inductive calls :: "'a render_base_scheme backend_api \<Rightarrow> 'a render_base_scheme \<Rightarrow> 'a render_base_scheme \<Rightarrow> bool"
  for A :: "'a render_base_scheme backend_api" where
  calls_refl: "calls A r r"
| calls_op: "calls A r r1 \<Longrightarrow> client_op op \<Longrightarrow> apply_op (ba_vtable A) op r1 = (r2, ex) \<Longrightarrow> calls A r r2"
| calls_start: "calls A r r1 \<Longrightarrow> vt_start_audiobackend (ba_vtable A) r1 = (r2, ex) \<Longrightarrow> calls A r r2"
| calls_stop: "calls A r r1 \<Longrightarrow> vt_stop_audiobackend (ba_vtable A) r1 = (r2, ex) \<Longrightarrow> calls A r r2"
| calls_bitrate: "calls A r r1 \<Longrightarrow> ba_bitrate A rates r1 = (rates', r2) \<Longrightarrow> calls A r r2"
| calls_stats: "calls A r r1 \<Longrightarrow> ba_client_stats A r1 = (text, r2) \<Longrightarrow> calls A r r2"
| calls_levels: "calls A r r1 \<Longrightarrow> ba_level_stat A r1 = (text, r2) \<Longrightarrow> calls A r r2"

lemma calls_trans: "calls A r1 r2 \<Longrightarrow> calls A r r1 \<Longrightarrow> calls A r r2"
  by (induction rule: calls.induct) (blast intro: calls.intros)+

definition called :: "'a render_base_scheme backend_api \<Rightarrow> 'a render_base_scheme config_client \<Rightarrow> 'a render_base_scheme config_client \<Rightarrow> bool" where
  "called A c c' \<longleftrightarrow> calls A (ocl_backend c) (ocl_backend c')"

lemma called_same: "ocl_backend c' = ocl_backend c \<Longrightarrow> called A c c'"
  by (simp add: called_def calls_refl)

lemma called_trans: "called A c c1 \<Longrightarrow> called A c1 c2 \<Longrightarrow> called A c c2"
  unfolding called_def by (rule calls_trans)

interpretation called: run_order "called A" for A :: "'a render_base_scheme backend_api"
  by unfold_locales (auto intro: called_same called_trans)

abbreviation calling :: "'a render_base_scheme backend_api \<Rightarrow> ('a render_base_scheme config_client \<Rightarrow> 'a render_base_scheme config_client run) \<Rightarrow> bool" where
  "calling A \<equiv> called.along A"

lemma calling_same: "(\<And>c. ocl_backend (fst (f c)) = ocl_backend c) \<Longrightarrow> calling A f"
  by (simp add: called.along_def called_same)

lemma calling_done: "(\<And>c. calls A (ocl_backend c) (ocl_backend (g c))) \<Longrightarrow> calling A (\<lambda>c. (g c, x c))"
  by (simp add: called.along_def called_def)

lemma calling_backend: "(\<And>r r' ex. F r = (r', ex) \<Longrightarrow> calls A r r') \<Longrightarrow> calling A (backend_call F)"
  by (auto simp: called.along_def called_def backend_call_def split: prod.split)

lemmas called_intros = calling_done calling_backend called.and_step called.value_step called.if_step

lemma calls_one:
  "client_op op \<Longrightarrow> apply_op (ba_vtable A) op r = (r', ex) \<Longrightarrow> calls A r r'"
  "vt_start_audiobackend (ba_vtable A) r = (r', ex) \<Longrightarrow> calls A r r'"
  "vt_stop_audiobackend (ba_vtable A) r = (r', ex) \<Longrightarrow> calls A r r'"
  "ba_bitrate A rates r = (rates', r') \<Longrightarrow> calls A r r'" "ba_client_stats A r = (text, r') \<Longrightarrow> calls A r r'"
  "ba_level_stat A r = (text, r') \<Longrightarrow> calls A r r'"
  by (rule calls.intros(2-) [OF calls_refl]; assumption)+

lemmas call_methods = calls_one(1) [of "Configure_audio ad" for ad, simplified] calls_one(1) [of End_session, simplified]
  calls_one(1) [of "Set_relay h p n" for h p n, simplified] calls_one(1) [of "Set_stage m" for m, simplified]
  calls_one(1) [of "Set_settings s i" for s i, simplified] calls_one(1) [of "Set_extra js" for js, simplified]
  calls_one(1) [of Restart_if_needed, simplified] calls_one(2,3)

lemma backend_kept [simp]:
  "ocl_backend (note_effect x c) = ocl_backend c" "ocl_backend (write_file n t c) = ocl_backend c"
  "ocl_backend (quit_with n t c) = ocl_backend c" "ocl_backend (snd (url_requestcnt e c)) = ocl_backend c"
  by (simp_all add: note_effect_def write_file_def quit_with_def url_requestcnt_def Let_def)

lemma report_error_backend [simp]: "ocl_backend (snd (report_error e url d m c)) = ocl_backend c"
  by (simp add: report_error_def url_requestcnt_def note_effect_def Let_def split: sum.split)

lemma download_file_backend [simp]: "ocl_backend (snd (download_file e url dest pw c)) = ocl_backend c"
  by (simp add: download_file_def Let_def split: sum.split list.split)

lemma with_value_backend: "(\<And>v. ocl_backend (fst (f v c)) = b) \<Longrightarrow> ocl_backend c = b \<Longrightarrow> ocl_backend (fst (with_value x f c)) = b"
  by (simp add: with_value_def split: sum.split)

lemmas leave_defs = mixer_step_def owner_step_def frontend_step_def flag_request_def hifiberry_step_def wifi_step_def

lemma leave_backend: "f \<in> set (leave_steps J) \<Longrightarrow> ocl_backend (fst (f c)) = ocl_backend c"
  by (auto simp: leave_steps_def leave_defs intro!: with_value_backend split: if_splits prod.split)

lemma ambient_backend: "ocl_backend (fst (ambient_step e s c)) = ocl_backend c"
  by (cases "download_file e (rs_ambientsound s) (ocl_folder c @ url2localfilename (ce_hash e) (rs_ambientsound s)) False c")
    (use download_file_backend [of e "rs_ambientsound s" "ocl_folder c @ url2localfilename (ce_hash e) (rs_ambientsound s)" False c]
      in \<open>simp add: ambient_step_def Let_def split: sum.split\<close>)

lemma calling_audio: "calling A (audio_step J A)"
  unfolding audio_step_def Let_def
  by (intro called_intros; (erule call_methods)?) (simp_all add: calls_refl calls_one(1) [of Require_restart, simplified])

lemma calling_device: "calling A (device_step J js)"
  unfolding device_step_def
  by (intro called_intros) (simp_all add: calls_refl calls_one(1) [of "Set_thisdev d" for d, simplified])

lemma calling_ambient: "calling A (ambient_step e s)"
  by (rule calling_same) (rule ambient_backend)

lemma calling_extra: "calling A (extra_step J A js)"
  unfolding extra_step_def
  by (intro called_intros; (erule call_methods)?) (simp_all add: calls_refl)

lemma calling_stage: "calling A (stage_step J A)"
  unfolding stage_step_def
  by (intro called_intros) (auto intro: calls_refl call_methods(4) dest: read_stage_wf [of J _ "[]", simplified])

lemma calling_room: "calling A (room_step J A e js)"
  unfolding room_step_def split_beta
  by (intro called_intros calling_ambient calling_extra calling_stage; (erule call_methods)?) (simp_all add: calls_refl)

lemma calling_start: "calling A (start_step A e)"
  unfolding start_step_def Let_def
  by (intro called_intros; (erule call_methods)?) (simp_all add: calls_refl)

lemma calling_parse: "calling A (parse_config J A e)"
  unfolding parse_config_def apply_config_def
  by (intro called_intros calling_audio calling_device calling_room calling_start called.all_step calling_same)
    (simp_all add: leave_backend calls_refl)

lemma device_json_called: "device_json J A e c = (x, c') \<Longrightarrow> called A c c'"
proof -
  assume json: "device_json J A e c = (x, c')"
  obtain rates b1 where b1: "ba_bitrate A (0, 0) (ocl_backend c) = (rates, b1)" by fastforce
  obtain stats b2 where b2: "ba_client_stats A b1 = (stats, b2)" by fastforce
  obtain levels b3 where b3: "ba_level_stat A b2 = (levels, b3)" by fastforce
  have c2: "calls A (ocl_backend c) b2" by (rule calls_stats [OF calls_bitrate [OF calls_refl b1] b2])
  have "c' = c\<lparr>ocl_backend := b2\<rparr> \<or> c' = c\<lparr>ocl_backend := b3\<rparr>"
    using json b1 b2 b3 by (cases rates; cases "js_parse J stats") (simp_all add: device_json_def Let_def)
  then show ?thesis using c2 calls_levels [OF c2 b3] by (auto simp: called_def)
qed

lemma device_update_called: "device_update J A e url d h c = (x, c') \<Longrightarrow> called A c c'"
  by (auto simp: device_update_def called_def Let_def note_effect_def url_requestcnt_def dest: device_json_called [unfolded called_def]
      split: prod.splits sum.splits)

lemma merge_answer_backend: "ocl_backend (fst (merge_answer J text c)) = ocl_backend c"
  by (auto simp: merge_answer_def intro!: with_value_backend)

text \<open>Every change of the renderer in a turn of the thread is such a call, and it is what \<open>parse_config\<close> does.\<close>

lemma service_turn_called:
  assumes "service_turn J (A, e) (h, c) = ((h', c'), ex)"
  shows "called A c c'"
proof (cases "device_update J A e (ocl_lobby c) (get_deviceid (ocl_backend c)) h c")
  case (Pair x c1)
  have c1: "called A c c1" using device_update_called [OF Pair] .
  show ?thesis
  proof (cases x)
    case (Inr a)
    obtain h2 answer where a: "a = (h2, answer)" by fastforce
    let ?run = "catch_all (\<lambda>err c. (snd (report_error e (ocl_lobby c) (get_deviceid (ocl_backend c)) (what err) c), None))
                    (and_run (merge_answer J answer c1) (parse_config J A e))"
    have "calling A (\<lambda>c. catch_all (\<lambda>err c. (snd (report_error e (ocl_lobby c) (get_deviceid (ocl_backend c)) (what err) c), None))
                    (and_run (merge_answer J answer c) (parse_config J A e)))"
      by (intro called.catch_step called.and_step calling_parse calling_done) (simp_all add: calls_refl calling_same merge_answer_backend)
    then have "called A c1 (fst ?run)" by (auto simp: called.along_def)
    moreover have "ocl_backend c' = ocl_backend (fst ?run)"
      using assms Pair Inr a by (auto simp: service_turn_def split: prod.splits option.splits)
    ultimately show ?thesis using called_trans [OF c1] by (simp add: called_def)
  qed (use assms Pair c1 in \<open>simp add: service_turn_def\<close>)
qed

section \<open>What the calls keep\<close>

lemma queries_keep:
  assumes "device_update J A e url d h c = (x, c')" and "P (ocl_backend c)"
    and "\<And>rates r. P r \<Longrightarrow> P (snd (ba_bitrate A rates r))" "\<And>r. P r \<Longrightarrow> P (snd (ba_client_stats A r))" "\<And>r. P r \<Longrightarrow> P (snd (ba_level_stat A r))"
  shows "P (ocl_backend c')"
proof -
  obtain rates b1 where b1: "ba_bitrate A (0, 0) (ocl_backend c) = (rates, b1)" by fastforce
  obtain stats b2 where b2: "ba_client_stats A b1 = (stats, b2)" by fastforce
  obtain levels b3 where b3: "ba_level_stat A b2 = (levels, b3)" by fastforce
  have "P b2" "P b3" using assms(2-5) b1 b2 b3 by (metis snd_conv)+
  moreover obtain y c1 where c1: "device_json J A e c = (y, c1)" by fastforce
  then have "ocl_backend c1 = b2 \<or> ocl_backend c1 = b3"
    using b1 b2 b3 by (cases rates; cases "js_parse J stats") (auto simp: device_json_def Let_def)
  moreover have "ocl_backend c' = ocl_backend c1"
    using assms(1) c1 by (auto simp: device_update_def note_effect_def url_requestcnt_def Let_def split: sum.splits)
  ultimately show ?thesis by auto
qed

lemma first_update_backend:
  assumes "first_update J A e c = ((h, c'), ex)"
  obtains x c1 where "device_update J A e (ocl_lobby c) (get_deviceid (ocl_backend c)) [] c = (x, c1)" and "ocl_backend c' = ocl_backend c1"
proof -
  obtain x c1 where u: "device_update J A e (ocl_lobby c) (get_deviceid (ocl_backend c)) [] c = (x, c1)" by fastforce
  have w: "ocl_backend (fst (with_value v (\<lambda>b c. (c\<lparr>ocl_standalone_mixer := b\<rparr>, None)) c)) = ocl_backend c"
    for v and c :: "'a render_base_scheme config_client"
    by (rule with_value_backend) simp_all
  have "ocl_backend (snd (fst (first_update J A e c))) = ocl_backend c1"
    using u by (cases x) (simp_all add: first_update_def Let_def split_beta and_run_inv [of "\<lambda>c. ocl_backend c = ocl_backend c1"] merge_answer_backend w)
  with assms u that show thesis by simp
qed

lemma announce_backend: "ocl_backend (snd (announce e c)) = ocl_backend c"
  by (auto simp: announce_def split_beta Let_def)

lemma turns_keep:
  assumes "run_all (map (service_turn J) turns) (h, c) = ((h', c'), ex)" and "P (ocl_backend c)"
    and "\<And>A e r r'. (A, e) \<in> set turns \<Longrightarrow> calls A r r' \<Longrightarrow> P r \<Longrightarrow> P r'"
  shows "P (ocl_backend c')"
  using assms
proof (induction turns arbitrary: h c)
  case (Cons t turns)
  obtain A e where t: "t = (A, e)" by fastforce
  obtain h1 c1 x where s: "service_turn J (A, e) (h, c) = ((h1, c1), x)" by (metis surj_pair)
  have c1: "P (ocl_backend c1)" using service_turn_called [OF s] Cons.prems(2,3) t by (auto simp: called_def)
  show ?case
  proof (cases x)
    case None
    then have "run_all (map (service_turn J) turns) (h1, c1) = ((h', c'), ex)" using Cons.prems(1) s t by simp
    then show ?thesis by (rule Cons.IH) (use c1 Cons.prems(3) in auto)
  qed (use Cons.prems(1) s t c1 in auto)
qed simp

text \<open>
  How the thread can end: an exception, the wish to quit before the first turn, or the end of the session
  and the stop of the audio backend. A property that the calls keep holds until there.
\<close>

lemma service_keeps:
  assumes "service J A e turns c = (c', ex)" and "P (ocl_backend c)"
    and "\<And>rates r. P r \<Longrightarrow> P (snd (ba_bitrate A rates r))" "\<And>r. P r \<Longrightarrow> P (snd (ba_client_stats A r))" "\<And>r. P r \<Longrightarrow> P (snd (ba_level_stat A r))"
    and "\<And>r. P r \<Longrightarrow> Q r" and "\<And>A' e' r r'. (A', e') \<in> set turns \<Longrightarrow> calls A' r r' \<Longrightarrow> Q r \<Longrightarrow> Q r'"
  shows "P (ocl_backend c') \<or> Q (ocl_backend c') \<and> ex \<noteq> None \<or> (\<exists>c1. Q (ocl_backend c1) \<and> service_end A c1 = (c', ex))"
proof -
  obtain h c1 x where f: "first_update J A e (read_local J e c) = ((h, c1), x)" by (metis surj_pair)
  have c0: "ocl_backend (read_local J e c) = ocl_backend c" by (simp add: read_local_def)
  obtain y c0' where u: "device_update J A e (ocl_lobby (read_local J e c)) (get_deviceid (ocl_backend (read_local J e c))) [] (read_local J e c) = (y, c0')"
    and b: "ocl_backend c1 = ocl_backend c0'" by (rule first_update_backend [OF f])
  have P: "P (ocl_backend c1)" unfolding b by (rule queries_keep [OF u, of P]) (use assms(2-5) c0 in auto)
  show ?thesis
  proof (cases x)
    case None
    obtain ok c2 where a: "announce e c1 = (ok, c2)" by fastforce
    have c2: "P (ocl_backend c2)" using P announce_backend [of e c1] a by simp
    show ?thesis
    proof (cases "\<not> ok \<and> \<not> ocl_standalone_mixer c2")
      case False
      obtain h3 c3 z where r: "run_all (map (service_turn J) turns) (h, c2) = ((h3, c3), z)" by (metis surj_pair)
      have "Q (ocl_backend c3)" by (rule turns_keep [OF r, of Q]) (use c2 assms(6,7) in auto)
      with assms(1) f None a False r show ?thesis by (cases z) (auto simp: service_def)
    qed (use assms(1) f None a c2 in \<open>auto simp: service_def\<close>)
  qed (use assms(1) f P in \<open>auto simp: service_def\<close>)
qed

section \<open>The parts of a successful turn\<close>

lemma with_value_None_iff: "with_value x f s = (s', None) \<longleftrightarrow> (\<exists>v. x = Inr v \<and> f v s = (s', None))"
  by (auto simp: with_value_def split: sum.split)

lemma parse_config_parts:
  assumes "parse_config J A e c = (c', None)" and "\<not> ocl_quitrequest c'"
  obtains c1 c2 c3 c4 js where "run_all (leave_steps J) c = (c1, None)" and "audio_step J A c1 = (c2, None)"
    and "js_index J (ocl_devcfg c2) ''rendersettings'' = Inr js" and "device_step J js c2 = (c3, None)"
    and "room_step J A e js c3 = (c4, None)" and "start_step A e c4 = (c', None)"
proof -
  obtain c1 where c1: "run_all (leave_steps J) c = (c1, None)" "(if ocl_quitrequest c1 then (c1, None) else apply_config J A e c1) = (c', None)"
    using assms(1) by (auto simp: parse_config_def and_run_None_iff)
  then have "apply_config J A e c1 = (c', None)" using assms(2) by (auto split: if_splits)
  with c1(1) that show thesis by (auto simp: apply_config_def and_run_None_iff with_value_None_iff)
qed

section \<open>Answers that are not configurations\<close>

lemma getlines_first: "cur \<noteq> [] \<Longrightarrow> \<exists>first ls. getlines cur cs = first # ls \<and> first \<noteq> [] \<and> hd first = hd cur"
proof (induction cur cs rule: getlines.induct)
  case (2 cur c cs)
  then show ?case by (cases "c = line_break") (auto simp: hd_append)
qed simp

lemma split_page: "split_answer hash (CHR ''<'' # page) = Inl (ErrMsg ''Invalid hash code, propably not a REST API response.'')"
proof -
  obtain first ls where "getlines ''<'' page = first # ls" "first \<noteq> []" "hd first = CHR ''<''" using getlines_first [of "''<''" page] by auto
  then show ?thesis by (simp add: split_answer_def line_break_def)
qed

lemma update_page:
  assumes "\<And>req. ce_perform e req = Inr (CHR ''<'' # page)" and "device_json J A e c = (Inr js, c1)"
  shows "\<exists>c'. device_update J A e url d h c = (Inl (ErrMsg ''Invalid hash code, propably not a REST API response.''), c')"
  using assms by (simp add: device_update_def split_page split_beta Let_def)

lemma device_json_devcfg: "ocl_devcfg (snd (device_json J A e c)) = ocl_devcfg c"
  by (auto simp: device_json_def Let_def split: prod.split sum.split)

lemma device_update_devcfg: "device_update J A e url d h c = (x, c') \<Longrightarrow> ocl_devcfg c' = ocl_devcfg c"
  using device_json_devcfg [of J A e c]
  by (auto simp: device_update_def note_effect_def url_requestcnt_def Let_def split: prod.splits sum.splits)

end
