(* ===== verification/Tascar_Queries.thy ===== *)
theory Tascar_Queries
  imports Tascar_Types
begin

text \<open>
  The queries of the renderer (\<open>ov_render_tascar.cc\<close>): effect plugins, object mixer, level
  statistics, client statistics, and the messages of its callbacks. What the running session
  answers is a parameter.
\<close>

section \<open>Effect plugins\<close>

text \<open>The loop over the plugins of a channel, with the counter \<open>pcnt\<close>.\<close>

fun plugin_cfgs :: "(string \<Rightarrow> string) \<Rightarrow> string \<Rightarrow> nat \<Rightarrow> channel_plugin list \<Rightarrow> string \<Rightarrow> string" where
  "plugin_cfgs vars cid pcnt [] acc = acc"
| "plugin_cfgs vars cid pcnt (plug # plugs) acc =
     plugin_cfgs vars cid (pcnt + 1) plugs
       (acc @ dquote @ plug_name plug @ dquote @ '':'' @
        vars (''/bus.'' @ cid @ ''/ap'' @ show_nat pcnt @ ''/'' @ plug_name plug) @ '','')"

definition erase_comma :: "string \<Rightarrow> string" where
  "erase_comma s = (if s \<noteq> [] \<and> last s = CHR '','' then butlast s else s)"

definition get_current_plugincfg_as_json :: "(string \<Rightarrow> string) \<Rightarrow> 'a tascar_scheme \<Rightarrow> nat \<Rightarrow> string" where
  "get_current_plugincfg_as_json vars r channel =
     (let chs = sd_channels (stg_thisdevice (ovr_stage r))
      in if ts_tascar r = None \<or> length chs \<le> channel then ''{}''
         else erase_comma (plugin_cfgs vars (ch_id (chs ! channel)) 0 (ch_plugins (chs ! channel)) ''{'') @ ''}'')"

fun all_plugincfgs :: "(string \<Rightarrow> string) \<Rightarrow> 'a tascar_scheme \<Rightarrow> nat list \<Rightarrow> string \<Rightarrow> string" where
  "all_plugincfgs vars r [] acc = acc"
| "all_plugincfgs vars r (ch # chs) acc = all_plugincfgs vars r chs (acc @ get_current_plugincfg_as_json vars r ch @ '','')"

definition get_all_current_plugincfg_as_json :: "(string \<Rightarrow> string) \<Rightarrow> 'a tascar_scheme \<Rightarrow> string" where
  "get_all_current_plugincfg_as_json vars r =
     erase_comma (all_plugincfgs vars r [0..<get_num_inputs r] ''['') @ '']''"

section \<open>The object mixer\<close>

text \<open>
  The session finds a sound by its identifier (position and gain) or throws; \<open>find_audio_ports\<close>
  yields the gains of the ports of a pattern, or throws.
\<close>

record mixer =
  mx_sound :: "string \<Rightarrow> err + pos \<times> real"
  mx_ports :: "string \<Rightarrow> err + real list"

fun objmix_channels ::
  "tascar_lib \<Rightarrow> mixer \<Rightarrow> real \<Rightarrow> nat \<Rightarrow> device_channel list \<Rightarrow> string \<Rightarrow> string" where
  "objmix_channels T X egogain k [] cfg = cfg"
| "objmix_channels T X egogain k (ch # chs) cfg =
     (case mx_sound X (ch_id ch) of
        Inl e \<Rightarrow> objmix_channels T X egogain k chs cfg
      | Inr (p, gain) \<Rightarrow>
          objmix_channels T X egogain (k + 1) chs
            (cfg @ (if k \<noteq> 0 then '','' else []) @ ''{'' @ dquote @ ''name'' @ dquote @ '':'' @ dquote @ ch_name ch @
             dquote @ '','' @ dquote @ ''x'' @ dquote @ '':'' @ tl_num T (Num (pos_x p)) @
             '','' @ dquote @ ''y'' @ dquote @ '':'' @ tl_num T (Num (pos_y p)) @
             '','' @ dquote @ ''z'' @ dquote @ '':'' @ tl_num T (Num (pos_z p)) @
             '','' @ dquote @ ''gain'' @ dquote @ '':'' @ tl_num T (flt_div gain egogain) @ ''}''))"

text \<open>One of the two gains behind the channels; both are divided by the gain of the reverberation.\<close>

definition objmix_gain :: "tascar_lib \<Rightarrow> mixer \<Rightarrow> 'a tascar_scheme \<Rightarrow> string \<Rightarrow> string \<Rightarrow> string" where
  "objmix_gain T X r pattern key =
     (case mx_ports X pattern of
        Inr (g # gs) \<Rightarrow>
          '','' @ dquote @ key @ dquote @ '':'' @
          tl_num T (if in_room r then flt_div g (rs_reverbgainroom (stg_rendersettings (ovr_stage r))) else Num g)
      | _ \<Rightarrow> [])"

definition get_objmixcfg_as_json :: "tascar_lib \<Rightarrow> mixer \<Rightarrow> 'a tascar_scheme \<Rightarrow> string" where
  "get_objmixcfg_as_json T X r =
     (if ts_tascar r = None then ''{}''
      else
        objmix_channels T X (rs_egogain (stg_rendersettings (ovr_stage r))) 0 (sd_channels (stg_thisdevice (ovr_stage r)))
          (''{'' @ dquote @ ''channels'' @ dquote @ '':['') @ '']'' @
        objmix_gain T X r ''/main/reverb'' ''reverbgain'' @ objmix_gain T X r ''/main/main'' ''main'' @ ''}'')"

section \<open>Level statistics\<close>

definition update_level_stat :: "int \<Rightarrow> real list \<Rightarrow> real list \<Rightarrow> 'a tascar_scheme \<Rightarrow> 'a tascar_scheme" where
  "update_level_stat channel peak ms r =
     r\<lparr>ts_level_peak := omap_put channel (map (\<lambda>v. max v (- 200)) peak) (ts_level_peak r),
       ts_level_ms := omap_put channel (map (\<lambda>v. max v (- 200)) ms) (ts_level_ms r)\<rparr>"

text \<open>\<open>osc_update_level_stat\<close>: the message has the channel and ten numbers; \<open>user_data\<close> is set.\<close>

fun osc_update_level_stat :: "int \<times> real list \<Rightarrow> 'a tascar_scheme \<Rightarrow> 'a tascar_scheme" where
  "osc_update_level_stat (channel, argv) r = update_level_stat channel (take 5 argv) (take 5 (drop 5 argv)) r"

text \<open>The entries for the channels; \<open>operator[]\<close> inserts the missing ones.\<close>

fun level_entries :: "nat \<Rightarrow> nat \<Rightarrow> 'a tascar_scheme \<Rightarrow> jval list \<times> 'a tascar_scheme" where
  "level_entries ch 0 r = ([], r)"
| "level_entries ch (Suc n) r =
     (let (peak, m1) = omap_index [] (int ch) (ts_level_peak r);
          (rms, m2) = omap_index [] (int ch) (ts_level_ms r);
          (js, r2) = level_entries (ch + 1) n (r\<lparr>ts_level_peak := m1, ts_level_ms := m2\<rparr>)
      in (Jobj [(''peak'', Jarr (map Jnum peak)), (''rms'', Jarr (map Jnum rms))] # js, r2))"

text \<open>
  The messages \<open>replies\<close> are those that arrive between the trigger and the end of the pause.
  Without a channel the value stays null.
\<close>

definition level_stat :: "(int \<times> real list) list \<Rightarrow> 'a tascar_scheme \<Rightarrow> jval \<times> 'a tascar_scheme" where
  "level_stat replies r =
     (let r1 = r\<lparr>ts_level_peak := [], ts_level_ms := []\<rparr>;
          r2 = (if ts_tascar r1 \<noteq> None then fold osc_update_level_stat replies r1 else r1);
          (js, r3) = level_entries 0 (get_num_inputs r2) r2
      in (if js = [] then Jnull else Jarr js, r3))"

definition get_level_stat_as_json ::
  "'j json_lib \<Rightarrow> (int \<times> real list) list \<Rightarrow> 'a tascar_scheme \<Rightarrow> string \<times> 'a tascar_scheme" where
  "get_level_stat_as_json J replies r = (let (js, r') = level_stat replies r in (js_dump_tree J js, r'))"

section \<open>Lists of variables\<close>

text \<open>The modules of the session with their names and states; the last one of a name counts.\<close>

fun module_lists :: "(string \<times> string) list \<Rightarrow> string \<Rightarrow> string \<Rightarrow> string \<times> string" where
  "module_lists [] osc lsl = (osc, lsl)"
| "module_lists ((name, state) # mods) osc lsl =
     module_lists mods (if name = ''osclist'' then state else osc) (if name = ''lsllist'' then state else lsl)"

definition get_osc_var_list_as_json :: "(string \<times> string) list \<Rightarrow> 'a tascar_scheme \<Rightarrow> string" where
  "get_osc_var_list_as_json mods r =
     (if ts_tascar r \<noteq> None then
        let (osc, lsl) = module_lists mods ''{}'' ''{}''
        in ''{'' @ dquote @ ''osc'' @ dquote @ '':'' @ osc @ '','' @ dquote @ ''lsl'' @ dquote @ '':'' @ lsl @ ''}''
      else ''{}'')"

section \<open>Client statistics\<close>

definition json_of_ping_stat :: "ping_stat \<Rightarrow> jval" where
  "json_of_ping_stat ps =
     Jobj [(''min'', Jnum (t_min ps)), (''median'', Jnum (t_med ps)), (''p99'', Jnum (t_p99 ps)), (''mean'', Jnum (t_mean ps)),
       (''received'', Jnum (real (unat (ps_received ps)))), (''lost'', Jnum (real (unat (ps_lost ps))))]"

definition json_of_message_stat :: "message_stat \<Rightarrow> jval" where
  "json_of_message_stat ms =
     Jobj [(''received'', Jnum (real (unat (ms_received ms)))), (''lost'', Jnum (real (unat (ms_lost ms)))),
       (''seqerr'', Jnum (real (unat (ms_seqerr_in ms)))),
       (''seqrecovered'', Jnum (real (unat (ms_seqerr_in ms - ms_seqerr_out ms))))]"

definition json_of_client_stats :: "client_stats \<Rightarrow> jval" where
  "json_of_client_stats ms =
     Jobj [(''p2p'', json_of_ping_stat (cs_ping_p2p ms)), (''srv'', json_of_ping_stat (cs_ping_srv ms)),
       (''loc'', json_of_ping_stat (cs_ping_loc ms)), (''packages'', json_of_message_stat (cs_packages ms))]"

fun update_all_stats ::
  "fpu \<Rightarrow> ovboxclient \<Rightarrow> stage_map \<Rightarrow> (stage_device_id_t, client_stats) omap \<Rightarrow> (stage_device_id_t, client_stats) omap" where
  "update_all_stats F c [] m = m"
| "update_all_stats F c ((i, d) # devs) m =
     update_all_stats F c devs (omap_put i (update_client_stats F i c (fst (omap_index client_stats_ctor i m))) m)"

text \<open>An array that grows with the index that is written.\<close>

definition arr_set :: "nat \<Rightarrow> jval \<Rightarrow> jval list \<Rightarrow> jval list" where
  "arr_set i v js = (js @ replicate (Suc i - length js) Jnull)[i := v]"

definition client_stats_array :: "stage_device_id_t \<Rightarrow> (stage_device_id_t, client_stats) omap \<Rightarrow> jval list" where
  "client_stats_array own m =
     fold (\<lambda>(i, st) js. if i \<noteq> own then arr_set (unat i) (json_of_client_stats st) js else js) m []"

definition get_client_stats :: "fpu \<Rightarrow> 'j json_lib \<Rightarrow> 'a tascar_scheme \<Rightarrow> string \<times> 'a tascar_scheme" where
  "get_client_stats F J r =
     (let m = (case ts_ovboxclient r of
                 Some c \<Rightarrow> update_all_stats F c (stg_stage (ovr_stage r)) (ts_client_stats r)
               | None \<Rightarrow> []);
          js = client_stats_array (stg_thisstagedeviceid (ovr_stage r)) m
      in (js_dump_tree J (if js = [] then Jnull else Jarr js), r\<lparr>ts_client_stats := m\<rparr>))"

section \<open>Load and state\<close>

definition get_load :: "real \<Rightarrow> 'a tascar_scheme \<Rightarrow> real" where
  "get_load cpu_load r = (if ts_tascar r \<noteq> None then cpu_load / 100 else 0)"

definition get_xruns :: "nat \<Rightarrow> 'a tascar_scheme \<Rightarrow> nat" where
  "get_xruns xruns r = (if ts_tascar r \<noteq> None then xruns else 0)"

definition tascar_get_encrypt_state :: "'a tascar_scheme \<Rightarrow> nat" where
  "tascar_get_encrypt_state r = (case ts_ovboxclient r of Some c \<Rightarrow> get_encrypt_state c | None \<Rightarrow> 0)"

text \<open>Without a client the two rates of the caller stay what they are.\<close>

definition tascar_getbitrate :: "fpu \<Rightarrow> int \<Rightarrow> real \<times> real \<Rightarrow> 'a tascar_scheme \<Rightarrow> (real \<times> real) \<times> 'a tascar_scheme" where
  "tascar_getbitrate F now rates r =
     (case ts_ovboxclient r of
        Some c \<Rightarrow> let (rates', c') = getbitrate F now c in (rates', r\<lparr>ts_ovboxclient := Some c'\<rparr>)
      | None \<Rightarrow> (rates, r))"

text \<open>
  The temperatures of the thermal zones: \<open>read\<close> is what \<open>operator>>\<close> leaves in the variable when the
  file of a zone exists: its number, 0 for other text, the initial -300 for an empty file.
\<close>

definition get_temperature :: "(nat \<Rightarrow> real option) \<Rightarrow> real list" where
  "get_temperature read =
     concat (map (\<lambda>c. case read c of
        Some t \<Rightarrow> if t / 1000 > - 27315 / 100 then [t / 1000] else []
      | None \<Rightarrow> []) [0..<16])"

section \<open>Reports to the ping log\<close>

text \<open>The messages that \<open>sendpinglog\<close> and \<open>sendlatreport\<close> send when an address is given.\<close>

definition sendpinglog :: "stage_device_id_t \<Rightarrow> port_t \<Rightarrow> real \<Rightarrow> (string \<times> stage_device_id_t \<times> real) list" where
  "sendpinglog cid portno tms =
     (''/ping'', cid, tms) #
     (case special_of_port portno of
        Some PORT_PONG \<Rightarrow> [(''/ovboxping/p2p'', cid, tms)]
      | Some PORT_PONG_SRV \<Rightarrow> [(''/ovboxping/srv'', cid, tms)]
      | Some PORT_PONG_LOCAL \<Rightarrow> [(''/ovboxping/loc'', cid, tms)]
      | _ \<Rightarrow> [])"

definition sendlatreport :: "stage_device_id_t \<Rightarrow> string \<Rightarrow> ping_stat \<Rightarrow> string \<times> stage_device_id_t \<times> real list \<times> 32 word list" where
  "sendlatreport cid prefix ps =
     (''/ovboxlatency/'' @ prefix, cid, [t_min ps, t_med ps, t_p99 ps, t_mean ps],
      [ucast (ps_received ps), ucast (ps_lost ps)])"

section \<open>What the level statistics contain\<close>

definition level_value :: "(int, real list) omap \<Rightarrow> int \<Rightarrow> real list" where
  "level_value m ch = (case map_of m ch of Some v \<Rightarrow> v | None \<Rightarrow> [])"

definition level_entry :: "real list \<Rightarrow> real list \<Rightarrow> jval" where
  "level_entry peak rms = Jobj [(''peak'', Jarr (map Jnum peak)), (''rms'', Jarr (map Jnum rms))]"

lemma level_value_index:
  "omap_wf m \<Longrightarrow> level_value (snd (omap_index [] k m)) ch = level_value m ch"
  by (simp add: level_value_def omap_index_lookup omap_index_value split: option.split)

lemma level_entries_values:
  assumes "omap_wf (ts_level_peak r)" and "omap_wf (ts_level_ms r)"
  shows "fst (level_entries ch n r) =
    map (\<lambda>k. level_entry (level_value (ts_level_peak r) (int k)) (level_value (ts_level_ms r) (int k))) [ch..<ch + n]"
  using assms
proof (induction n arbitrary: ch r)
  case (Suc n)
  let ?p = "omap_index [] (int ch) (ts_level_peak r)"
  let ?m = "omap_index [] (int ch) (ts_level_ms r)"
  let ?r = "r\<lparr>ts_level_peak := snd ?p, ts_level_ms := snd ?m\<rparr>"
  have "fst (level_entries ch (Suc n) r) = level_entry (fst ?p) (fst ?m) # fst (level_entries (ch + 1) n ?r)"
    by (simp add: Let_def level_entry_def split: prod.split)
  moreover have "fst ?p = level_value (ts_level_peak r) (int ch)" "fst ?m = level_value (ts_level_ms r) (int ch)"
    by (simp_all add: omap_index_value level_value_def)
  ultimately show ?case
    using Suc.IH [of ?r "ch + 1"] Suc.prems by (simp add: level_value_index upt_conv_Cons del: upt_Suc)
qed simp

text \<open>A channel has the numbers of its last message, each cut off below.\<close>

definition clip :: "real list \<Rightarrow> real list" where
  "clip = map (\<lambda>v. max v (- 200))"

definition last_reply :: "(int \<times> real list) list \<Rightarrow> int \<Rightarrow> real list" where
  "last_reply replies ch = (case map_of (rev replies) ch of Some argv \<Rightarrow> argv | None \<Rightarrow> [])"

lemma clip_bound: "x \<in> set (clip v) \<Longrightarrow> - 200 \<le> x"
  by (auto simp: clip_def)

lemma level_updates:
  assumes "r' = fold osc_update_level_stat replies (r\<lparr>ts_level_peak := [], ts_level_ms := []\<rparr>)"
  shows "omap_wf (ts_level_peak r') \<and> omap_wf (ts_level_ms r') \<and>
    level_value (ts_level_peak r') ch = clip (take 5 (last_reply replies ch)) \<and>
    level_value (ts_level_ms r') ch = clip (take 5 (drop 5 (last_reply replies ch))) \<and> ovr_stage r' = ovr_stage r"
  using assms
proof (induction replies arbitrary: r' rule: rev_induct)
  case Nil
  then show ?case by (simp add: level_value_def last_reply_def clip_def)
next
  case (snoc x replies)
  obtain k argv where x: "x = (k, argv)" by fastforce
  let ?r1 = "fold osc_update_level_stat replies (r\<lparr>ts_level_peak := [], ts_level_ms := []\<rparr>)"
  have "r' = update_level_stat k (take 5 argv) (take 5 (drop 5 argv)) ?r1" using snoc.prems by (simp add: x)
  then show ?case using snoc.IH [OF refl]
    by (auto simp: update_level_stat_def omap.lookup_put level_value_def last_reply_def clip_def x)
qed

lemma take_drop_5: "x \<in> set (take 5 v) \<Longrightarrow> x \<in> set v" "x \<in> set (take 5 (drop 5 v)) \<Longrightarrow> x \<in> set v"
  by (meson in_set_takeD in_set_dropD)+

section \<open>Properties\<close>

text \<open>C36. The level statistics sent to the server: while a session runs there is one entry for each
  input channel, with the five peak and five mean-square values of the last message of
  that channel that arrived after the trigger, none of them below -200 dB; a channel that did not
  answer has empty lists, never values of an earlier query.\<close>

theorem level_stat_bounds:
  assumes "ts_tascar r \<noteq> None" and "get_num_inputs r \<noteq> 0"
  shows "\<exists>js. fst (level_stat replies r) = Jarr js \<and> length js = get_num_inputs r \<and>
    (\<forall>ch < length js. \<exists>peak rms. js ! ch = level_entry peak rms \<and>
       peak = clip (take 5 (last_reply replies (int ch))) \<and>
       rms = clip (take 5 (drop 5 (last_reply replies (int ch)))) \<and>
       (\<forall>x \<in> set (peak @ rms). - 200 \<le> x))"
proof -
  define r2 where "r2 = fold osc_update_level_stat replies (r\<lparr>ts_level_peak := [], ts_level_ms := []\<rparr>)"
  note u = level_updates [OF r2_def]
  have n: "get_num_inputs r2 = get_num_inputs r" using u by (simp add: get_num_inputs_def)
  have js: "fst (level_entries 0 (get_num_inputs r2) r2) =
      map (\<lambda>k. level_entry (level_value (ts_level_peak r2) (int k)) (level_value (ts_level_ms r2) (int k))) [0..<get_num_inputs r]"
    using u level_entries_values [of r2 0 "get_num_inputs r2"] n by simp
  then have "fst (level_stat replies r) = Jarr (fst (level_entries 0 (get_num_inputs r2) r2))"
    using assms by (auto simp: level_stat_def r2_def Let_def split: prod.splits)
  with js u show ?thesis by (auto dest: clip_bound)
qed

definition example_tascar :: tascar where
  "example_tascar = (tascar_ctor [] zero_endpoint ''dev'' 0 False)
     \<lparr>ovr_stage := default_stage\<lparr>stg_thisdevice := default_device\<lparr>sd_channels := [device_channel_ctor ''1'' [] 1 default_pos []]\<rparr>\<rparr>,
      ts_tascar := Some (Xtext [])\<rparr>"

theorem level_stat_bounds_witness:
  "\<exists>js. fst (level_stat [(0, [1, -300]), (0, [- 250, 3])] example_tascar) = Jarr js \<and>
     js ! 0 = level_entry [- 200, 3] []"
proof -
  have "get_num_inputs example_tascar = 1"
    by (simp add: example_tascar_def get_num_inputs_def)
  with level_stat_bounds [of example_tascar "[(0, [1, -300]), (0, [- 250, 3])]"] show ?thesis
    by (auto simp: example_tascar_def last_reply_def clip_def)
qed

end
