(* ===== verification/Config_Apply.thy ===== *)
theory Config_Apply
  imports Config_Service Tascar_Processes Tascar_Queries
begin

text \<open>
  The configuration client with the TASCAR renderer: what a configuration does to the renderer, when
  it restarts the session, and what is left when the thread ends.
\<close>

section \<open>The two renderers as seen by the client\<close>

text \<open>The defaults of the queries in \<open>ov_types.h\<close>.\<close>

definition base_backend :: "'a render_base_scheme backend_api" where
  "base_backend =
     \<lparr>ba_vtable = base_vtable, ba_inputs = (\<lambda>_. [''system:capture_1'', ''system:capture_2'']), ba_bitrate = Pair, ba_load = (\<lambda>_. 0), ba_temperature = (\<lambda>_. []),
      ba_client_stats = Pair [], ba_xruns = (\<lambda>_. 0), ba_encrypt_state = (\<lambda>_. 0), ba_level_stat = Pair ''{}'',
      ba_osc_vars = (\<lambda>_. ''{}''), ba_plugincfg = (\<lambda>_. ''[]''), ba_objmix = (\<lambda>_. ''{}'')\<rparr>"

text \<open>What the queries of the TASCAR renderer meet in the running session and the system.\<close>

record query_env =
  qe_now :: int
  qe_cpu_load :: real
  qe_thermal :: "nat \<Rightarrow> real option"
  qe_xruns :: nat
  qe_replies :: "(int \<times> real list) list"
  qe_modules :: "(string \<times> string) list"
  qe_vars :: "string \<Rightarrow> string"
  qe_mixer :: mixer

definition tascar_backend :: "jval json_lib \<Rightarrow> session_env \<Rightarrow> query_env \<Rightarrow> 'a tascar_scheme backend_api" where
  "tascar_backend J E q =
     \<lparr>ba_vtable = tascar_vtable J E, ba_inputs = get_input_channel_ids, ba_bitrate = tascar_getbitrate (en_fpu E) (qe_now q),
      ba_load = get_load (qe_cpu_load q), ba_temperature = (\<lambda>_. get_temperature (qe_thermal q)),
      ba_client_stats = get_client_stats (en_fpu E) J, ba_xruns = get_xruns (qe_xruns q),
      ba_encrypt_state = tascar_get_encrypt_state, ba_level_stat = get_level_stat_as_json J (qe_replies q),
      ba_osc_vars = get_osc_var_list_as_json (qe_modules q), ba_plugincfg = get_all_current_plugincfg_as_json (qe_vars q),
      ba_objmix = get_objmixcfg_as_json (en_tsc E) (qe_mixer q)\<rparr>"

section \<open>What the queries keep\<close>

lemma bitrate_frame: "\<exists>c. snd (tascar_getbitrate F now rates r) = r\<lparr>ts_ovboxclient := c\<rparr> \<and> (ts_ovboxclient r = None \<longrightarrow> c = None)"
proof (cases "ts_ovboxclient r")
  case None
  then have "snd (tascar_getbitrate F now rates r) = r\<lparr>ts_ovboxclient := None\<rparr>" by (cases r) (simp add: tascar_getbitrate_def)
  with None show ?thesis by blast
qed (auto simp: tascar_getbitrate_def split: prod.split)

lemma stats_frame: "\<exists>m. snd (get_client_stats F J r) = r\<lparr>ts_client_stats := m\<rparr>"
  by (auto simp: get_client_stats_def Let_def)

lemma level_entries_frame: "\<exists>p m. snd (level_entries ch n r) = r\<lparr>ts_level_peak := p, ts_level_ms := m\<rparr>"
proof (induction n arbitrary: ch r)
  case 0
  have "r = r\<lparr>ts_level_peak := ts_level_peak r, ts_level_ms := ts_level_ms r\<rparr>" by simp
  then show ?case by (metis level_entries.simps(1) snd_conv)
next
  case (Suc n)
  from Suc [of "ch + 1" "r\<lparr>ts_level_peak := snd (omap_index [] (int ch) (ts_level_peak r)),
    ts_level_ms := snd (omap_index [] (int ch) (ts_level_ms r))\<rparr>"]
  show ?case by (simp add: split_beta Let_def)
qed

lemma replies_frame: "\<exists>p m. fold osc_update_level_stat replies r = r\<lparr>ts_level_peak := p, ts_level_ms := m\<rparr>"
proof (induction replies arbitrary: r)
  case Nil
  have "r = r\<lparr>ts_level_peak := ts_level_peak r, ts_level_ms := ts_level_ms r\<rparr>" by simp
  then show ?case by (metis fold_simps(1))
next
  case (Cons x replies)
  then show ?case using Cons [of "osc_update_level_stat x r"] by (cases x) (auto simp: update_level_stat_def)
qed

lemma level_frame: "\<exists>p m. snd (get_level_stat_as_json J replies r) = r\<lparr>ts_level_peak := p, ts_level_ms := m\<rparr>"
proof -
  let ?r = "r\<lparr>ts_level_peak := [], ts_level_ms := []\<rparr>"
  obtain p m where r2: "(if ts_tascar r \<noteq> None then fold osc_update_level_stat replies ?r else ?r) = r\<lparr>ts_level_peak := p, ts_level_ms := m\<rparr>"
    using replies_frame [of replies ?r] by (cases "ts_tascar r = None") auto
  obtain p' m' where "snd (level_entries 0 (get_num_inputs (r\<lparr>ts_level_peak := p, ts_level_ms := m\<rparr>)) (r\<lparr>ts_level_peak := p, ts_level_ms := m\<rparr>)) =
      r\<lparr>ts_level_peak := p', ts_level_ms := m'\<rparr>" using level_entries_frame [of 0 _ "r\<lparr>ts_level_peak := p, ts_level_ms := m\<rparr>"] by fastforce
  then show ?thesis using r2 by (auto simp: get_level_stat_as_json_def level_stat_def split_beta Let_def)
qed

text \<open>Together: the queries change the statistics and the counters of the session client.\<close>

definition query_change :: "'a tascar_scheme \<Rightarrow> 'a tascar_scheme \<Rightarrow> bool" where
  "query_change r r' \<longleftrightarrow> (\<exists>c st p m. r' = r\<lparr>ts_ovboxclient := c, ts_client_stats := st, ts_level_peak := p, ts_level_ms := m\<rparr> \<and>
     (ts_ovboxclient r = None \<longrightarrow> c = None))"

lemma query_change_cases:
  "(ts_ovboxclient r = None \<longrightarrow> c = None) \<Longrightarrow> query_change r (r\<lparr>ts_ovboxclient := c\<rparr>)"
  "query_change r (r\<lparr>ts_client_stats := st\<rparr>)" "query_change r (r\<lparr>ts_level_peak := p, ts_level_ms := m\<rparr>)"
  unfolding query_change_def
    apply (rule exI [of _ c], rule exI [of _ "ts_client_stats r"], rule exI [of _ "ts_level_peak r"], rule exI [of _ "ts_level_ms r"], cases r, simp)
   apply (rule exI [of _ "ts_ovboxclient r"], rule exI [of _ st], rule exI [of _ "ts_level_peak r"], rule exI [of _ "ts_level_ms r"], cases r, simp)
  apply (rule exI [of _ "ts_ovboxclient r"], rule exI [of _ "ts_client_stats r"], rule exI [of _ p], rule exI [of _ m], cases r, simp)
  done

lemma query_changes:
  "query_change r (snd (ba_bitrate (tascar_backend J E q) rates r))" "query_change r (snd (ba_client_stats (tascar_backend J E q) r))"
  "query_change r (snd (ba_level_stat (tascar_backend J E q) r))"
proof -
  show "query_change r (snd (ba_bitrate (tascar_backend J E q) rates r))"
    using bitrate_frame [of "en_fpu E" "qe_now q" rates r] query_change_cases(1) [of r] by (fastforce simp: tascar_backend_def)
  show "query_change r (snd (ba_client_stats (tascar_backend J E q) r))"
    using stats_frame [of "en_fpu E" J r] query_change_cases(2) [of r] by (fastforce simp: tascar_backend_def)
  show "query_change r (snd (ba_level_stat (tascar_backend J E q) r))"
    using level_frame [of J "qe_replies q" r] query_change_cases(3) [of r] by (fastforce simp: tascar_backend_def)
qed

section \<open>Resources\<close>

lemma tascar_methods [simp]:
  "ba_vtable (tascar_backend J E q) = tascar_vtable J E"
  "vt_start_audiobackend (tascar_vtable J E) = start_audiobackend E" "vt_stop_audiobackend (tascar_vtable J E) = stop_audiobackend"
  "vt_end_session (tascar_vtable J E) = end_session" "vt_set_stage (tascar_vtable J E) m r = (tascar_set_stage m r, None)"
  "vt_set_render_settings (tascar_vtable J E) s i r = (tascar_set_render_settings s i r, None)"
  "vt_set_extra_config (tascar_vtable J E) = set_extra_config (en_fpu E) J"
  "vt_start_session (tascar_vtable J E) = start_session E"
  by (simp_all add: tascar_backend_def tascar_vtable_def)

lemma query_resources: "query_change r r' \<Longrightarrow> resources_ok r \<Longrightarrow> resources_ok r'"
  by (auto simp: query_change_def resources_ok_def)

lemma calls_resources: "calls (tascar_backend J E q) r r' \<Longrightarrow> resources_ok r \<Longrightarrow> resources_ok r'"
proof (induction rule: calls.induct)
  case (calls_op r r1 op r2 ex)
  then have "op \<noteq> Start_session" by auto
  then show ?case using op_resources calls_op by fastforce
next
  case (calls_start r r1 r2 ex)
  then show ?case using audio_resources by fastforce
next
  case (calls_stop r r1 r2 ex)
  then show ?case using stop_audio_resources [of r1] by auto
next
  case (calls_bitrate r r1 rates rates' r2)
  then show ?case using query_resources [OF query_changes(1) [of r1 J E q rates]] by simp
next
  case (calls_stats r r1 t r2)
  then show ?case using query_resources [OF query_changes(2) [of r1 J E q]] by simp
next
  case (calls_levels r r1 t r2)
  then show ?case using query_resources [OF query_changes(3) [of r1 J E q]] by simp
qed

text \<open>No session object, session client, web mixer or audio server.\<close>

definition released :: "'a tascar_scheme \<Rightarrow> bool" where
  "released r \<longleftrightarrow> ts_tascar r = None \<and> ts_ovboxclient r = None \<and> ts_h_webmixer r = None \<and> ts_h_jack r = None"

lemma service_end_released:
  assumes "service_end (tascar_backend J E q) c = (c', ex)" and "resources_ok (ocl_backend c)"
  shows "ex = None \<and> resources_ok (ocl_backend c') \<and> released (ocl_backend c')"
  using assms by (auto simp: service_end_def backend_call_def end_session_eq stop_audiobackend_def base_stop_audiobackend_def
      resources_ok_def released_def is_session_active_def split: if_splits)

lemma query_released: "query_change r r' \<Longrightarrow> released r \<Longrightarrow> released r'"
  by (auto simp: query_change_def released_def)

section \<open>What the parts of a turn change\<close>

text \<open>The stage and the members of the additional configuration stay.\<close>

definition static :: "'a tascar_scheme \<Rightarrow> 'a tascar_scheme \<Rightarrow> bool" where
  "static r r' \<longleftrightarrow> ovr_stage r' = ovr_stage r \<and> ts_cfg r' = ts_cfg r \<and> ts_mc r' = ts_mc r \<and> ts_localip r' = ts_localip r"

lemma start_audio_static: "start_audiobackend E r = (r', ex) \<Longrightarrow> static r r'"
  by (auto simp: start_audiobackend_def base_start_audiobackend_def query_jack_def static_def Let_def split: if_splits option.splits)

lemma end_static: "end_session r = (r', ex) \<Longrightarrow> static r r'"
  by (auto simp: end_session_eq static_def)

lemma stop_audio_static: "stop_audiobackend r = (r', ex) \<Longrightarrow> static r r'"
  by (auto simp: stop_audiobackend_def base_stop_audiobackend_def static_def)

lemma static_trans: "static r r1 \<Longrightarrow> static r1 r2 \<Longrightarrow> static r r2"
  by (simp add: static_def)

lemma static_fields [simp]:
  "static r (r\<lparr>ovr_audiodevice := ad\<rparr>)" "static r (r\<lparr>audio_active := b\<rparr>)" "static r (require_session_restart r)" "static r r"
  by (simp_all add: static_def require_session_restart_def)

lemma configure_static:
  assumes "configure_audio_backend (tascar_vtable J E) ad r = (r', ex)"
  shows "static r r'"
proof -
  let ?r1 = "r\<lparr>ovr_audiodevice := ad\<rparr>"
  define r2 where "r2 = (if session_active r then fst (end_session (require_session_restart ?r1)) else ?r1)"
  define r3 where "r3 = (if audio_active r then fst (stop_audiobackend r2) else ?r1)"
  obtain r4 x where a: "start_audiobackend E r3 = (r4, x)" by fastforce
  have "static r r2"
    by (auto simp: r2_def static_def end_session_eq require_session_restart_def)
  then have "static r r3" by (auto simp: r3_def stop_audiobackend_def base_stop_audiobackend_def static_def)
  then have s: "static r r4" using start_audio_static [OF a] by (rule static_trans)
  have "r' = r \<or> r' = r4 \<or> r' = r4\<lparr>audio_active := True\<rparr> \<or> r' = ?r1\<lparr>audio_active := True\<rparr>"
    using assms a
    by (cases x) (auto simp: configure_audio_backend_def tascar_vtable_def r3_def r2_def end_session_eq stop_audiobackend_def
        base_stop_audiobackend_def require_session_restart_def Let_def split: if_splits)
  with s show ?thesis by (auto simp: static_def)
qed

definition same_static :: "'a tascar_scheme config_client \<Rightarrow> 'a tascar_scheme config_client \<Rightarrow> bool" where
  "same_static c c' \<longleftrightarrow> ocl_devcfg c' = ocl_devcfg c \<and> static (ocl_backend c) (ocl_backend c')"

interpretation unchanged: run_order same_static
  by unfold_locales (auto simp: same_static_def intro: static_trans)

lemma unchanged_backend: "(\<And>r r' ex. F r = (r', ex) \<Longrightarrow> static r r') \<Longrightarrow> unchanged.along (backend_call F)"
  by (auto simp: unchanged.along_def same_static_def backend_call_def split: prod.split)

lemmas unchanged_intros = unchanged.done_step unchanged_backend unchanged.and_step unchanged.value_step unchanged.if_step

lemma unchanged_audio: "unchanged.along (audio_step J (tascar_backend J E q))"
  unfolding audio_step_def Let_def tascar_methods
  by (intro unchanged_intros; (erule configure_static start_audio_static stop_audio_static end_static)?) (simp_all add: same_static_def)

section \<open>The stage at the start of a session\<close>

text \<open>The start of a session reads entries of the stage, which inserts the missing ones.\<close>

inductive touched :: "stage_device_id_t set \<Rightarrow> stage_map \<Rightarrow> stage_map \<Rightarrow> bool" for I where
  touched_refl [simp]: "touched I m m"
| touched_step: "touched I m m1 \<Longrightarrow> i \<in> I \<Longrightarrow> touched I m (snd (omap_index zero_device i m1))"

lemma touched_trans: "touched I m1 m2 \<Longrightarrow> touched I m m1 \<Longrightarrow> touched I m m2"
  by (induction rule: touched.induct) (auto intro: touched_step)

lemma touched_senders: "touched I m m' \<Longrightarrow> senders m' = senders m"
  by (induction rule: touched.induct) simp_all

lemma touched_wf: "touched I m m' \<Longrightarrow> omap_wf m \<Longrightarrow> omap_wf m' \<and> (\<forall>k d. map_of m k = Some d \<longrightarrow> map_of m' k = Some d)"
  by (induction rule: touched.induct) (auto simp: omap_wf_index omap_index_lookup omap_index_value)

lemma touched_present: "touched I m m' \<Longrightarrow> (\<And>i. i \<in> I \<Longrightarrow> map_of m i \<noteq> None) \<Longrightarrow> m' = m"
proof (induction rule: touched.induct)
  case (touched_step m m1 i)
  then have "m1 = m" "map_of m i \<noteq> None" by blast+
  then show ?case by (auto simp: omap_index_def)
qed simp

abbreviation stage_of :: "'a render_base_scheme \<Rightarrow> stage_map" where
  "stage_of r \<equiv> stg_stage (ovr_stage r)"

text \<open>The entries that a session reads: the own one and the one of the number in the settings.\<close>

definition read_ids :: "'a tascar_scheme \<Rightarrow> stage_device_id_t set" where
  "read_ids r = {own_id r, rs_id (settings r)}"

lemma touch_touched: "i \<in> I \<Longrightarrow> touched I (stage_of r) (stage_of (touch_stage i r))"
  using touched_step [OF touched_refl] by (simp add: touch_stage_def upd_stage_def)

lemma acoustics_touched:
  assumes "create_virtual_acoustics E r = (a, b, c, r')"
  shows "touched (read_ids r) (stage_of r) (stage_of r')"
proof -
  let ?r1 = "touch_stage (own_id r) r"
  have 1: "touched (read_ids r) (stage_of r) (stage_of ?r1)" by (rule touch_touched) (simp add: read_ids_def)
  have "touched (read_ids r) (stage_of ?r1) (stage_of (touch_stage (rs_id (settings ?r1)) ?r1))"
    by (rule touch_touched) (simp add: read_ids_def)
  then have "touched (read_ids r) (stage_of r) (stage_of (if P then touch_stage (rs_id (settings ?r1)) ?r1 else ?r1))" for P
    using touched_trans [OF _ 1] 1 by simp
  with acoustics_state [OF assms] show ?thesis by fastforce
qed

lemma begin_touched:
  assumes "begin_document E x r = (scene, d, r')"
  shows "touched (read_ids r) (stage_of r) (stage_of r')"
  using assms
  by (auto simp: begin_document_def scene_part_def create_raw_dev_def Let_def read_ids_def [of r] dest!: acoustics_touched
      intro: touch_touched split: prod.splits if_splits)

lemma open_touched:
  assumes "open_client E r = (r', ex)"
  shows "touched (read_ids r) (stage_of r) (stage_of r')"
  using assms touch_touched [of "own_id r" "read_ids r" r]
  by (auto simp: open_client_def read_ids_def Let_def split: sum.splits prod.splits if_splits)

text \<open>Everything else of the stage, and the members of the additional configuration, stay.\<close>

definition regrown :: "'a tascar_scheme \<Rightarrow> 'a tascar_scheme \<Rightarrow> bool" where
  "regrown r r' \<longleftrightarrow> ovr_stage r' = (ovr_stage r)\<lparr>stg_stage := stage_of r'\<rparr> \<and> touched (read_ids r) (stage_of r) (stage_of r') \<and>
     ts_cfg r' = ts_cfg r \<and> ts_mc r' = ts_mc r \<and> ts_localip r' = ts_localip r"

lemma read_ids_cong: "own_id r' = own_id r \<Longrightarrow> settings r' = settings r \<Longrightarrow> read_ids r' = read_ids r"
  by (simp add: read_ids_def)

lemma res_frame_static:
  assumes "res_frame r r'"
  shows "static r r'"
proof -
  have "ovr_stage r' = ovr_stage r" using assms unfolding res_frame_def by (rule arg_cong [of _ _ ovr_stage, THEN trans]) simp
  moreover have "ts_cfg r' = ts_cfg r" using assms unfolding res_frame_def by (rule arg_cong [of _ _ ts_cfg, THEN trans]) simp
  moreover have "ts_mc r' = ts_mc r" using assms unfolding res_frame_def by (rule arg_cong [of _ _ ts_mc, THEN trans]) simp
  moreover have "ts_localip r' = ts_localip r" using assms unfolding res_frame_def by (rule arg_cong [of _ _ ts_localip, THEN trans]) simp
  ultimately show ?thesis by (simp add: static_def)
qed

lemma doc_frame_static:
  assumes "doc_frame r r'"
  shows "ovr_stage r' = (ovr_stage r)\<lparr>stg_stage := stage_of r'\<rparr>" "ts_cfg r' = ts_cfg r" "ts_mc r' = ts_mc r" "ts_localip r' = ts_localip r"
proof -
  obtain m n where "r' = r\<lparr>ovr_stage := (ovr_stage r)\<lparr>stg_stage := m\<rparr>, ts_ego_source_names := n\<rparr>"
    using assms unfolding doc_frame_def by blast
  then show "ovr_stage r' = (ovr_stage r)\<lparr>stg_stage := stage_of r'\<rparr>" "ts_cfg r' = ts_cfg r" "ts_mc r' = ts_mc r" "ts_localip r' = ts_localip r"
    by simp_all
qed

lemma start_regrown:
  assumes "start_session E r = (r', ex)"
  shows "regrown r r'"
proof -
  let ?r = "r\<lparr>session_active := True, restart_needed := False\<rparr>"
  obtain scene d r1 where b: "begin_document (scene_env.truncate E) (en_xports E (rs_xports (settings ?r))) ?r = (scene, d, r1)"
    by (metis surj_pair)
  obtain r2 ex2 where o2: "open_client E r1 = (r2, ex2)" by fastforce
  have s: "(r', ex) = and_then (r2, ex2) (launch_session E scene d)"
    using assms b o2 by (simp add: start_session_def base_start_session_def)
  have f1: "doc_frame ?r r1" using begin_frame [OF b] .
  obtain r3 where f2: "doc_frame r1 r3" "res_frame r3 r2" using open_frame [OF o2] by blast
  have "res_frame r2 r' \<or> r' = r2" using s launch_frame [of E scene d r2 r' ex] by (cases ex2) auto
  then have st: "static r2 r'" using res_frame_static by auto
  have "read_ids r1 = read_ids r" "read_ids ?r = read_ids r"
    using doc_frame_fields(4,5) [OF f1] by (simp_all add: read_ids_def own_id_def settings_def)
  then have "touched (read_ids r) (stage_of r) (stage_of r2)"
    using begin_touched [OF b] open_touched [OF o2] touched_trans by simp
  moreover have "ovr_stage r3 = (ovr_stage r)\<lparr>stg_stage := stage_of r3\<rparr>"
    by (subst doc_frame_static(1) [OF f2(1)], subst doc_frame_static(1) [OF f1]) simp
  ultimately show ?thesis
    using st doc_frame_static(2-) [OF f1] doc_frame_static(2-) [OF f2(1)] res_frame_static [OF f2(2)]
    by (simp add: regrown_def static_def)
qed

lemma restart_regrown:
  assumes "restart_session_if_needed (tascar_vtable J E) r = (r', ex)"
  shows "regrown r r'"
proof -
  let ?r = "if session_active r then fst (end_session r) else r"
  obtain r1 x where s: "start_session E ?r = (r1, x)" by fastforce
  have "static r ?r" by (simp add: static_def end_session_eq)
  then have "regrown r r1" using start_regrown [OF s] by (simp add: regrown_def static_def read_ids_def own_id_def settings_def)
  moreover have "regrown r r" by (simp add: regrown_def)
  moreover have "r' = r1 \<or> r' = r"
    using assms s by (auto simp: restart_session_if_needed_def tascar_vtable_def end_session_eq split: if_splits)
  ultimately show ?thesis by auto
qed

section \<open>The configuration that is applied\<close>

text \<open>The values of a configuration, as they are read from its parts \<open>rendersettings\<close>, \<open>room\<close> and \<open>roomdev\<close>.\<close>

record stage_config =
  sc_device :: stage_device
  sc_relay :: "string \<times> port_t \<times> secret_t"
  sc_settings :: render_settings
  sc_number :: stage_device_id_t
  sc_stage :: stage_map

definition stage_config_of :: "'j json_lib \<Rightarrow> 'j \<Rightarrow> stage_config \<Rightarrow> bool" where
  "stage_config_of J cfg k \<longleftrightarrow> (\<exists>js room devs s i. js_index J cfg ''rendersettings'' = Inr js \<and> \<not> js_is_null J js \<and>
     js_index J cfg ''room'' = Inr room \<and> js_is_object J room \<and> js_index J cfg ''roomdev'' = Inr devs \<and> js_is_array J devs \<and>
     get_stage_dev J js = Inr (sc_device k) \<and> read_relay J room = Inr (sc_relay k) \<and>
     read_settings J js room = Inr s \<and> read_ports J js s = Inr (sc_settings k) \<and>
     my_js_value J (get_i32 J) js ''stagedevid'' 0 = Inr i \<and> sc_number k = ucast i \<and>
     read_stage J (js_elements J devs) [] = Inr (sc_stage k))"

text \<open>The renderer has these values; its stage may have entries in addition that it has read.\<close>

definition has_config :: "stage_config \<Rightarrow> 'a tascar_scheme \<Rightarrow> bool" where
  "has_config k r \<longleftrightarrow> stg_thisdevice (ovr_stage r) = sc_device k \<and>
     (stg_host (ovr_stage r), stg_port (ovr_stage r), stg_pin (ovr_stage r)) = sc_relay k \<and>
     settings r = sc_settings k \<and> own_id r = sc_number k \<and>
     touched {sc_number k, rs_id (sc_settings k)} (sc_stage k) (stage_of r)"

lemma relay_stage:
  assumes "set_relay_server (tascar_vtable J E) host port pin r = (r', ex)"
  shows "ovr_stage r' = (ovr_stage r)\<lparr>stg_host := host, stg_port := port, stg_pin := pin\<rparr> \<and> ts_cfg r' = ts_cfg r \<and> ts_mc r' = ts_mc r \<and> ts_localip r' = ts_localip r"
  using assms
  by (auto simp: set_relay_server_def tascar_vtable_def end_session_eq require_session_restart_def upd_stage_def Let_def split: if_splits)

lemma settings_stage:
  "ovr_stage (tascar_set_render_settings s i r) = (ovr_stage r)\<lparr>stg_rendersettings := s, stg_thisstagedeviceid := i\<rparr>"
  by (auto simp: tascar_set_render_settings_def require_session_restart_def set_render_settings_def settings_def own_id_def)

lemma set_stage_stage:
  "ovr_stage (tascar_set_stage m r) = (ovr_stage r)\<lparr>stg_stage := m\<rparr>" "ts_cfg (tascar_set_stage m r) = ts_cfg r"
  "ts_mc (tascar_set_stage m r) = ts_mc r" "ts_localip (tascar_set_stage m r) = ts_localip r"
  by (simp_all add: tascar_set_stage_def restart_if_changed_def require_session_restart_def set_stage_def upd_stage_def)

lemma extra_stage: "set_extra_config F J js r = (r', ex) \<Longrightarrow> ovr_stage r' = ovr_stage r \<and> ts_localip r' = ts_localip r"
  by (drule extra_config_frame) (auto simp: only_config_def require_session_restart_def)

lemma backend_call_None: "backend_call F c = (c', None) \<longleftrightarrow> (\<exists>r. F (ocl_backend c) = (r, None) \<and> c' = c\<lparr>ocl_backend := r\<rparr>)"
  by (auto simp: backend_call_def split: prod.splits)

lemma ambient_devcfg: "ocl_devcfg (fst (ambient_step e s c)) = ocl_devcfg c"
  by (auto simp: ambient_step_def Let_def download_file_def report_error_def note_effect_def write_file_def url_requestcnt_def
      split: sum.splits list.splits prod.splits if_splits)

lemma device_applied:
  assumes "device_step J js c = (c', None)" and "\<not> js_is_null J js"
  shows "ocl_devcfg c' = ocl_devcfg c \<and> (\<exists>d. get_stage_dev J js = Inr d \<and> ocl_backend c' = set_thisdev d (ocl_backend c))"
  using assms by (auto simp: device_step_def with_value_None_iff)

definition extra_applied :: "jval json_lib \<Rightarrow> session_env \<Rightarrow> jval \<Rightarrow> 'a tascar_scheme \<Rightarrow> 'a tascar_scheme \<Rightarrow> bool" where
  "extra_applied J E js r r' \<longleftrightarrow> (\<exists>x. js_index J js ''extracfg'' = Inr x \<and>
     (if js_is_null J x then r' = r else set_extra_config (en_fpu E) J (js_dump J x) r = (r', None)))"

lemma room_applied:
  assumes "room_step J (tascar_backend J E q) e js c = (c', None)"
    and "js_index J (ocl_devcfg c) ''room'' = Inr room" and "js_is_object J room"
    and "js_index J (ocl_devcfg c) ''roomdev'' = Inr devs" and "js_is_array J devs"
  obtains host port pin s0 s i m r1 r3 where "read_relay J room = Inr (host, port, pin)" and "read_settings J js room = Inr s0"
    and "read_ports J js s0 = Inr s" and "my_js_value J (get_i32 J) js ''stagedevid'' 0 = Inr i"
    and "read_stage J (js_elements J devs) [] = Inr m" and "set_relay_server (tascar_vtable J E) host port pin (ocl_backend c) = (r1, None)"
    and "extra_applied J E js (tascar_set_render_settings s (ucast i) r1) r3" and "ocl_backend c' = tascar_set_stage m r3"
    and "ocl_devcfg c' = ocl_devcfg c"
proof -
  obtain host port pin where relay: "read_relay J room = Inr (host, port, pin)"
    and c1: "and_run (backend_call (set_relay_server (tascar_vtable J E) host port pin) c)
      (with_value (throwing (read_settings J js room)) (\<lambda>s c.
         and_run (ambient_step e s c) (
         with_value (throwing (read_ports J js s)) (\<lambda>s c.
         with_value (throwing (my_js_value J (get_i32 J) js ''stagedevid'' 0)) (\<lambda>i c.
         and_run (backend_call (vt_set_render_settings (tascar_vtable J E) s (ucast i)) c) (\<lambda>c.
         and_run (extra_step J (tascar_backend J E q) js c) (stage_step J (tascar_backend J E q)))) c)))) = (c', None)"
    using assms(1-3) by (auto simp: room_step_def with_value_None_iff)
  obtain r1 s0 c2 s i where r1: "set_relay_server (tascar_vtable J E) host port pin (ocl_backend c) = (r1, None)"
    and s0: "read_settings J js room = Inr s0" and c2: "ambient_step e s0 (c\<lparr>ocl_backend := r1\<rparr>) = (c2, None)"
    and s: "read_ports J js s0 = Inr s" "my_js_value J (get_i32 J) js ''stagedevid'' 0 = Inr i"
    and c3: "and_run (backend_call (vt_set_render_settings (tascar_vtable J E) s (ucast i)) c2) (\<lambda>c.
         and_run (extra_step J (tascar_backend J E q) js c) (stage_step J (tascar_backend J E q))) = (c', None)"
    using c1 by (auto simp: and_run_None_iff with_value_None_iff backend_call_None)
  have k: "ocl_backend c2 = r1" "ocl_devcfg c2 = ocl_devcfg c"
    using ambient_backend [of e s0 "c\<lparr>ocl_backend := r1\<rparr>"] ambient_devcfg [of e s0 "c\<lparr>ocl_backend := r1\<rparr>"] c2 by simp_all
  let ?c3 = "c2\<lparr>ocl_backend := tascar_set_render_settings s (ucast i) r1\<rparr>"
  obtain c4 where c4: "extra_step J (tascar_backend J E q) js ?c3 = (c4, None)" "stage_step J (tascar_backend J E q) c4 = (c', None)"
    using c3 k by (auto simp: and_run_None_iff backend_call_None)
  have "extra_applied J E js (tascar_set_render_settings s (ucast i) r1) (ocl_backend c4) \<and> ocl_devcfg c4 = ocl_devcfg c"
  proof -
    obtain x where "js_index J js ''extracfg'' = Inr x"
      and "(if js_is_null J x then (?c3, None) else backend_call (set_extra_config (en_fpu E) J (js_dump J x)) ?c3) = (c4, None)"
      using c4(1) by (auto simp: extra_step_def with_value_None_iff cong: if_cong)
    then show ?thesis using k by (cases "js_is_null J x") (auto simp: extra_applied_def backend_call_None)
  qed
  moreover from this c4(2) assms(4,5) obtain m where "read_stage J (js_elements J devs) [] = Inr m"
    and "ocl_backend c' = tascar_set_stage m (ocl_backend c4) \<and> ocl_devcfg c' = ocl_devcfg c"
    by (auto simp: stage_step_def with_value_None_iff backend_call_None)
  ultimately show thesis using that relay s0 s r1 by blast
qed

lemma report_error_devcfg: "ocl_devcfg (snd (report_error e url d m c)) = ocl_devcfg c"
  by (simp add: report_error_def url_requestcnt_def note_effect_def Let_def split: sum.split)

lemma restart_audio:
  assumes "restart_session_if_needed (tascar_vtable J E) r = (r', ex)"
  shows "audio_active r' = audio_active r"
proof -
  let ?r = "if session_active r then fst (end_session r) else r"
  obtain r1 x where s: "start_session E ?r = (r1, x)" by fastforce
  have "r' = r1 \<or> r' = r"
    using assms s by (auto simp: restart_session_if_needed_def tascar_vtable_def end_session_eq split: if_splits)
  moreover have "audio_active ?r = audio_active r" by (simp add: end_session_eq)
  ultimately show ?thesis using start_session_law [OF s] by auto
qed

lemma start_applied:
  assumes "start_step (tascar_backend J E q) e c = (c', None)"
  shows "ocl_devcfg c' = ocl_devcfg c \<and> regrown (ocl_backend c) (ocl_backend c') \<and> session_active (ocl_backend c') \<and>
    \<not> restart_needed (ocl_backend c') \<and> audio_active (ocl_backend c')"
proof -
  obtain c1 where c1: "(if \<not> is_audio_active (ocl_backend c) then backend_call (start_audiobackend E) c else (c, None)) = (c1, None)"
    "and_run (backend_call (restart_session_if_needed (tascar_vtable J E)) c1) (\<lambda>c.
       let c1 = c\<lparr>ocl_refplugcfg := ba_plugincfg (tascar_backend J E q) (ocl_backend c)\<rparr>
       in (if is_session_active (ocl_backend c1)
           then snd (report_error e (ocl_lobby c1) (get_deviceid (ocl_backend c1)) [] c1) else c1, None)) = (c', None)"
    using assms by (auto simp: start_step_def and_run_None_iff cong: if_cong)
  have r1: "static (ocl_backend c) (ocl_backend c1) \<and> audio_active (ocl_backend c1) \<and> ocl_devcfg c1 = ocl_devcfg c"
  proof (cases "audio_active (ocl_backend c)")
    case False
    then obtain r where "start_audiobackend E (ocl_backend c) = (r, None)" "c1 = c\<lparr>ocl_backend := r\<rparr>"
      using c1(1) by (auto simp: is_audio_active_def backend_call_None)
    then show ?thesis using start_audio_static [of E "ocl_backend c" r None] start_audio_frame [of E "ocl_backend c" r None] by auto
  qed (use c1(1) in \<open>auto simp: is_audio_active_def\<close>)
  obtain r2 where r2: "restart_session_if_needed (tascar_vtable J E) (ocl_backend c1) = (r2, None)" and c': "ocl_backend c' = r2"
    and "ocl_devcfg c' = ocl_devcfg c1"
    using c1(2) by (auto simp: and_run_None_iff backend_call_None report_error_devcfg Let_def)
  then show ?thesis
    using r1 restart_regrown [OF r2] restart_active [OF r2] restart_audio [OF r2]
    by (auto simp: regrown_def static_def read_ids_def own_id_def settings_def)
qed

lemma leave_unchanged: "list_all unchanged.along (leave_steps J)"
  unfolding leave_steps_def list.pred_inject leave_defs split_beta
  by (intro conjI TrueI unchanged.value_after unchanged.if_step unchanged.done_step)
    (simp_all add: same_static_def quit_with_def write_file_def note_effect_def)

lemma leave_static: "run_all (leave_steps J) c = (c', ex) \<Longrightarrow> same_static c c'"
  by (rule unchanged.along_run [OF unchanged.all_step]) (use leave_unchanged in \<open>auto simp: list_all_iff\<close>)

lemma thisdev_stage: "ovr_stage (set_thisdev d r) = (ovr_stage r)\<lparr>stg_thisdevice := d\<rparr>"
  by (simp add: set_thisdev_def require_session_restart_def Let_def)

lemma applied_parts:
  fixes c c' :: "'a tascar_scheme config_client"
  assumes "parse_config J (tascar_backend J E q) e c = (c', None)" and "\<not> ocl_quitrequest c'"
    and "js_index J (ocl_devcfg c) ''rendersettings'' = Inr js" and "\<not> js_is_null J js"
    and "js_index J (ocl_devcfg c) ''room'' = Inr room" and "js_is_object J room"
    and "js_index J (ocl_devcfg c) ''roomdev'' = Inr devs" and "js_is_array J devs"
  obtains k and r r3 :: "'a tascar_scheme" where "stage_config_of J (ocl_devcfg c) k" and "has_config k (ocl_backend c')"
    and "session_active (ocl_backend c') \<and> \<not> restart_needed (ocl_backend c') \<and> audio_active (ocl_backend c')"
    and "extra_applied J E js r r3" and "ts_cfg (ocl_backend c') = ts_cfg r3" and "ts_mc (ocl_backend c') = ts_mc r3"
    and "ts_localip (ocl_backend c') = ts_localip r"
proof -
  obtain c1 c2 c3 c4 js' where parts: "run_all (leave_steps J) c = (c1, None)" "audio_step J (tascar_backend J E q) c1 = (c2, None)"
    "js_index J (ocl_devcfg c2) ''rendersettings'' = Inr js'" "device_step J js' c2 = (c3, None)"
    "room_step J (tascar_backend J E q) e js' c3 = (c4, None)" "start_step (tascar_backend J E q) e c4 = (c', None)"
    using parse_config_parts [OF assms(1,2)] .
  have "same_static c c1" using leave_static [OF parts(1)] .
  moreover have "same_static c1 c2" using unchanged.along_run [OF unchanged_audio parts(2)] .
  ultimately have c2: "ocl_devcfg c2 = ocl_devcfg c" by (simp add: same_static_def)
  then have js: "js' = js" using parts(3) assms(3) by simp
  obtain d where d: "get_stage_dev J js = Inr d" and c3: "ocl_backend c3 = set_thisdev d (ocl_backend c2)" "ocl_devcfg c3 = ocl_devcfg c"
    using device_applied [OF parts(4)] assms(4) c2 js by auto
  obtain host port pin s0 s i m r1 r3 where read: "read_relay J room = Inr (host, port, pin)" "read_settings J js room = Inr s0"
    "read_ports J js s0 = Inr s" "my_js_value J (get_i32 J) js ''stagedevid'' 0 = Inr i" "read_stage J (js_elements J devs) [] = Inr m"
    and r1: "set_relay_server (tascar_vtable J E) host port pin (ocl_backend c3) = (r1, None)"
    and r3: "extra_applied J E js (tascar_set_render_settings s (ucast i) r1) r3" and c4: "ocl_backend c4 = tascar_set_stage m r3"
    using room_applied [OF parts(5)] assms(5-8) c3(2) js by metis
  define k where "k = \<lparr>sc_device = d, sc_relay = (host, port, pin), sc_settings = s, sc_number = ucast i, sc_stage = m\<rparr>"
  have "stage_config_of J (ocl_devcfg c) k" using assms(3-8) d read by (auto simp: stage_config_of_def k_def)
  moreover have "ovr_stage r3 = ovr_stage (tascar_set_render_settings s (ucast i) r1)"
    using r3 extra_stage by (fastforce simp: extra_applied_def split: if_splits)
  then have c4': "ovr_stage (ocl_backend c4) = (ovr_stage (ocl_backend c2))\<lparr>stg_thisdevice := d, stg_host := host, stg_port := port,
      stg_pin := pin, stg_rendersettings := s, stg_thisstagedeviceid := ucast i, stg_stage := m\<rparr>"
    using relay_stage [OF r1] by (simp add: c4 set_stage_stage settings_stage c3(1) thisdev_stage)
  define m' where "m' = stage_of (ocl_backend c')"
  have "ovr_stage (ocl_backend c') = (ovr_stage (ocl_backend c4))\<lparr>stg_stage := m'\<rparr> \<and> touched {ucast i, rs_id s} m m'"
    using start_applied [OF parts(6)] c4' by (auto simp: regrown_def read_ids_def settings_def own_id_def m'_def)
  then have "has_config k (ocl_backend c')" by (simp add: has_config_def k_def c4' settings_def own_id_def)
  moreover have "ts_cfg (ocl_backend c') = ts_cfg r3" "ts_mc (ocl_backend c') = ts_mc r3" "ts_localip (ocl_backend c') = ts_localip r3"
    using start_applied [OF parts(6)] by (simp_all add: regrown_def c4 set_stage_stage)
  moreover have "ts_localip r3 = ts_localip (tascar_set_render_settings s (ucast i) r1)"
    using r3 extra_stage by (fastforce simp: extra_applied_def split: if_splits)
  ultimately show thesis using start_applied [OF parts(6)] by (intro that [OF _ _ _ r3]) simp_all
qed

section \<open>When a turn restarts the session\<close>

definition keyed :: "'a tascar_scheme config_client \<Rightarrow> 'a tascar_scheme config_client \<Rightarrow> bool" where
  "keyed c c' \<longleftrightarrow> tascar_renderer.tracked (ocl_backend c) (ocl_backend c')"

interpretation keyed: run_order keyed
  by unfold_locales (auto simp: keyed_def intro: tascar_renderer.tracked_refl tascar_renderer.tracked_trans)

lemma keyed_same: "ocl_backend c' = ocl_backend c \<Longrightarrow> keyed c c'"
  by (simp add: keyed_def tascar_renderer.tracked_refl)

lemma keyed_backend: "(\<And>r r' ex. F r = (r', ex) \<Longrightarrow> tascar_renderer.tracked r r') \<Longrightarrow> keyed.along (backend_call F)"
  by (auto simp: keyed.along_def keyed_def backend_call_def split: prod.split)

lemma keyed_along_same: "(\<And>c. ocl_backend (fst (f c)) = ocl_backend c) \<Longrightarrow> keyed.along f"
  by (simp add: keyed.along_def keyed_same)

lemma tracked_methods:
  "configure_audio_backend (tascar_vtable J E) ad r = (r', ex) \<Longrightarrow> tascar_renderer.tracked r r'"
  "set_relay_server (tascar_vtable J E) h p n r = (r', ex) \<Longrightarrow> tascar_renderer.tracked r r'"
  "vt_set_render_settings (tascar_vtable J E) s i r = (r', ex) \<Longrightarrow> tascar_renderer.tracked r r'"
  "vt_set_extra_config (tascar_vtable J E) js r = (r', ex) \<Longrightarrow> tascar_renderer.tracked r r'"
  using tascar_renderer.setter_tracked [of "Configure_audio ad" J E r r' ex] tascar_renderer.setter_tracked [of "Set_relay h p n" J E r r' ex]
    tascar_renderer.setter_tracked [of "Set_settings s i" J E r r' ex] tascar_renderer.setter_tracked [of "Set_extra js" J E r r' ex]
  by (simp_all add: setter_def)

lemma tracked_set_stage: "omap_wf m \<Longrightarrow> tascar_renderer.tracked r (tascar_set_stage m r)"
  using tascar_renderer.setter_tracked [of "Set_stage m" undefined undefined r "tascar_set_stage m r" None]
  by (simp add: setter_def tascar_vtable_def)

lemma tracked_thisdev: "tascar_renderer.tracked r (set_thisdev d r)"
  using tascar_renderer.setter_tracked [of "Set_thisdev d" undefined undefined r "set_thisdev d r" None] by (simp add: setter_def)

lemma restart_audio_keyed:
  "keyed.along (\<lambda>c. and_run (if is_session_active (ocl_backend c) then backend_call end_session c else (c, None)) (\<lambda>c'.
     and_run (backend_call stop_audiobackend c') (\<lambda>c'. and_run (backend_call (start_audiobackend E) c') (\<lambda>c'.
       (if is_session_active (ocl_backend c) then c'\<lparr>ocl_backend := require_session_restart (ocl_backend c')\<rparr> else c', None)))))"
  unfolding keyed.along_def
proof
  fix c :: "'a tascar_scheme config_client"
  let ?run = "and_run (if is_session_active (ocl_backend c) then backend_call end_session c else (c, None)) (\<lambda>c'.
     and_run (backend_call stop_audiobackend c') (\<lambda>c'. and_run (backend_call (start_audiobackend E) c') (\<lambda>c'.
       (if is_session_active (ocl_backend c) then c'\<lparr>ocl_backend := require_session_restart (ocl_backend c')\<rparr> else c', None))))"
  define r1 where "r1 = (if session_active (ocl_backend c) then fst (end_session (ocl_backend c)) else ocl_backend c)"
  define r2 where "r2 = fst (stop_audiobackend r1)"
  obtain r3 x where r3: "start_audiobackend E r2 = (r3, x)" by fastforce
  have off: "\<not> session_active r1" "\<not> session_active r2"
    by (simp_all add: r1_def r2_def end_session_eq stop_audiobackend_def base_stop_audiobackend_def)
  have "tascar_renderer.tracked (ocl_backend c) r1"
    using tascar_renderer.end_tracked [of undefined undefined "ocl_backend c"] tascar_renderer.tracked_refl
    by (auto simp: r1_def end_session_eq tascar_vtable_def)
  moreover have "tascar_renderer.tracked r1 r2"
    using tascar_renderer.audio_tracked(2) [of undefined undefined r1 r2] off(1) by (simp add: r2_def stop_audiobackend_def base_stop_audiobackend_def tascar_vtable_def)
  moreover have "tascar_renderer.tracked r2 r3"
    using tascar_renderer.audio_tracked(1) [of undefined E r2 r3 x] off(2) r3 by (simp add: tascar_vtable_def)
  ultimately have "tascar_renderer.tracked (ocl_backend c) r3" "tascar_renderer.tracked (ocl_backend c) (require_session_restart r3)"
    using tascar_renderer.tracked_trans tascar_renderer.restart_tracked by blast+
  moreover have "ocl_backend (fst ?run) = r3 \<or> ocl_backend (fst ?run) = require_session_restart r3"
    using r3 by (cases x) (auto simp: r2_def r1_def is_session_active_def backend_call_def end_session_eq stop_audiobackend_def
        base_stop_audiobackend_def split: if_splits)
  ultimately show "keyed c (fst ?run)" by (auto simp: keyed_def)
qed

lemmas keyed_intros = keyed_backend keyed.and_step keyed.value_step keyed.if_step

lemma keyed_audio: "keyed.along (audio_step J (tascar_backend J E q))"
  unfolding audio_step_def tascar_methods Let_def
  by (intro keyed_intros restart_audio_keyed keyed_along_same; (erule tracked_methods)?) simp_all

lemma keyed_device: "keyed.along (device_step J js)"
  unfolding device_step_def
  by (intro keyed.value_step keyed.if_step keyed.done_step) (simp_all add: keyed_def tracked_thisdev tascar_renderer.tracked_refl)

lemma keyed_room: "keyed.along (room_step J (tascar_backend J E q) e js)"
  unfolding room_step_def extra_step_def stage_step_def tascar_methods(1) split_beta
  by (intro keyed_intros keyed_along_same; (erule tracked_methods)?)
    (auto simp: ambient_backend intro: tracked_set_stage dest: read_stage_wf [of J _ "[]", simplified])

lemma start_restarts:
  assumes "start_step (tascar_backend J E q) e c = (c', None)" and "stage_ok (ocl_backend c)"
    and "session_active (ocl_backend c) \<longrightarrow> audio_active (ocl_backend c)"
  shows "stage_ok (ocl_backend c') \<and> ((\<exists>r. stage_ok r \<and> start_session E r = (ocl_backend c', None)) \<or> ocl_backend c' = ocl_backend c \<and>
    session_active (ocl_backend c) \<and> \<not> restart_needed (ocl_backend c))"
proof -
  obtain c1 r2 where c1: "(if \<not> is_audio_active (ocl_backend c) then backend_call (start_audiobackend E) c else (c, None)) = (c1, None)"
    and r2: "restart_session_if_needed (tascar_vtable J E) (ocl_backend c1) = (r2, None)" and c': "ocl_backend c' = r2"
    using assms(1) by (auto simp: start_step_def and_run_None_iff backend_call_None Let_def cong: if_cong)
  have r1: "ocl_backend c1 = ocl_backend c \<or> \<not> session_active (ocl_backend c1) \<and> static (ocl_backend c) (ocl_backend c1)"
  proof (cases "audio_active (ocl_backend c)")
    case False
    then obtain r where "start_audiobackend E (ocl_backend c) = (r, None)" "c1 = c\<lparr>ocl_backend := r\<rparr>"
      using c1 by (auto simp: is_audio_active_def backend_call_None)
    then show ?thesis
      using False assms(3) start_audio_static [of E "ocl_backend c" r None] start_audio_frame [of E "ocl_backend c" r None] by auto
  qed (use c1 in \<open>auto simp: is_audio_active_def\<close>)
  have ok: "stage_ok (ocl_backend c1)" using r1 assms(2) by (auto simp: static_def stage_ok_def)
  then have "stage_ok r2" using tascar_renderer.restart_law [OF r2] by blast
  moreover have "(\<exists>r. stage_ok r \<and> start_session E r = (r2, None)) \<or> r2 = ocl_backend c1 \<and> session_active (ocl_backend c1) \<and> \<not> restart_needed (ocl_backend c1)"
  proof -
    have "stage_ok (fst (end_session (ocl_backend c1)))" using ok by (simp add: end_session_eq stage_ok_def)
    moreover have "(\<exists>r\<in>{fst (end_session (ocl_backend c1)), ocl_backend c1}. start_session E r = (r2, None)) \<or>
        r2 = ocl_backend c1 \<and> session_active (ocl_backend c1) \<and> \<not> restart_needed (ocl_backend c1)"
      using r2 by (auto simp: restart_session_if_needed_def and_then_None_iff end_session_eq split: if_splits)
    ultimately show ?thesis using ok by blast
  qed
  ultimately show ?thesis using r1 by (auto simp: c')
qed

text \<open>What the last step of a turn does with the session, exactly: it leaves the renderer alone, or starts a session
  on the stage, the configuration and the address that the settings of the turn have left.\<close>

lemma start_exact:
  assumes "start_step (tascar_backend J E q) e c = (c', None)"
    and "session_active (ocl_backend c) \<longrightarrow> audio_active (ocl_backend c)"
  shows "if session_active (ocl_backend c) \<and> \<not> restart_needed (ocl_backend c) then ocl_backend c' = ocl_backend c
    else \<exists>r. static (ocl_backend c) r \<and> \<not> session_active r \<and> start_session E r = (ocl_backend c', None)"
proof -
  obtain c1 r2 where c1: "(if \<not> is_audio_active (ocl_backend c) then backend_call (start_audiobackend E) c else (c, None)) = (c1, None)"
    and r2: "restart_session_if_needed (tascar_vtable J E) (ocl_backend c1) = (r2, None)" and c': "ocl_backend c' = r2"
    using assms(1) by (auto simp: start_step_def and_run_None_iff backend_call_None Let_def cong: if_cong)
  have s1: "static (ocl_backend c) (ocl_backend c1)" and f1: "session_active (ocl_backend c1) = session_active (ocl_backend c)"
    and k1: "session_active (ocl_backend c) \<Longrightarrow> c1 = c"
  proof (atomize (full), cases "audio_active (ocl_backend c)")
    case False
    then obtain r where "start_audiobackend E (ocl_backend c) = (r, None)" "c1 = c\<lparr>ocl_backend := r\<rparr>"
      using c1 by (auto simp: is_audio_active_def backend_call_None)
    then show "static (ocl_backend c) (ocl_backend c1) \<and> session_active (ocl_backend c1) = session_active (ocl_backend c) \<and>
        (session_active (ocl_backend c) \<longrightarrow> c1 = c)"
      using False assms(2) start_audio_static [of E "ocl_backend c" r None] start_audio_frame [of E "ocl_backend c" r None] by auto
  qed (use c1 in \<open>auto simp: is_audio_active_def static_def\<close>)
  show ?thesis
  proof (cases "session_active (ocl_backend c) \<and> \<not> restart_needed (ocl_backend c)")
    case True
    then show ?thesis using r2 k1 by (auto simp: c' restart_session_if_needed_def)
  next
    case False
    have "static (ocl_backend c1) (fst (end_session (ocl_backend c1)))" "\<not> session_active (fst (end_session (ocl_backend c1)))"
      using end_static [of "ocl_backend c1"] by (simp_all add: end_session_eq)
    moreover have "\<exists>r\<in>{ocl_backend c1, fst (end_session (ocl_backend c1))}. \<not> session_active r \<and> start_session E r = (r2, None)"
      using r2 False f1 k1 by (auto simp: restart_session_if_needed_def and_then_None_iff end_session_eq split: if_splits)
    ultimately show ?thesis using False s1 static_trans by (auto simp: c')
  qed
qed

section \<open>A configuration that is applied again\<close>

text \<open>Every step leaves the renderer alone when it has the values of the configuration.\<close>

definition unmoved :: "'a tascar_scheme \<Rightarrow> jval \<Rightarrow> 'a tascar_scheme config_client \<Rightarrow> bool" where
  "unmoved r cfg c \<longleftrightarrow> ocl_backend c = r \<and> ocl_devcfg c = cfg"

lemma thisdev_again: "stg_thisdevice (ovr_stage r) = d \<Longrightarrow> set_thisdev d r = r"
  by (cases r) (auto simp: set_thisdev_def device_neq_iff upd_stage_def)

lemma relay_again:
  "(stg_host (ovr_stage r), stg_port (ovr_stage r), stg_pin (ovr_stage r)) = (host, port, pin) \<Longrightarrow> set_relay_server V host port pin r = (r, None)"
  by (cases r) (auto simp: set_relay_server_def upd_stage_def)

lemma settings_again: "settings r = s \<Longrightarrow> own_id r = i \<Longrightarrow> tascar_set_render_settings s i r = r"
  by (simp add: tascar_set_render_settings_def)

lemma stage_again: "stage_of r = m \<Longrightarrow> tascar_set_stage m r = r"
  by (cases r) (auto simp: tascar_set_stage_def restart_if_changed_def set_stage_def upd_stage_def stage_neq_iff)

lemma held_backend: "unmoved r cfg c \<Longrightarrow> F r = (r, x) \<Longrightarrow> unmoved r cfg (fst (backend_call F c))"
  by (simp add: unmoved_def backend_call_def)

lemma held_audio:
  assumes "unmoved r cfg c" and "js_index J cfg ''audiocfg'' = Inr ac" and "audio_active r"
    and "js_is_null J ac \<or> read_audio J ac = Inr (ovr_audiodevice r) \<and> my_js_value J (get_bool J) ac ''restart'' False = Inr False"
  shows "unmoved r cfg (fst (audio_step J (tascar_backend J E q) c))"
proof -
  have "configure_audio_backend (tascar_vtable J E) (ovr_audiodevice r) r = (r, None)"
    using assms(3) by (simp add: configure_audio_backend_def)
  then show ?thesis using assms by (auto simp: audio_step_def with_value_def unmoved_def backend_call_def)
qed

lemma held_device: "unmoved r cfg c \<Longrightarrow> (js_is_null J js \<or> get_stage_dev J js = Inr (stg_thisdevice (ovr_stage r))) \<Longrightarrow> unmoved r cfg (fst (device_step J js c))"
  by (auto simp: device_step_def with_value_def unmoved_def thisdev_again split: sum.split)

lemma held_ambient: "unmoved r cfg c \<Longrightarrow> unmoved r cfg (fst (ambient_step e s c))"
  by (simp add: unmoved_def ambient_backend ambient_devcfg)

lemma held_start:
  assumes "unmoved r cfg c" and "session_active r" and "\<not> restart_needed r" and "audio_active r"
  shows "unmoved r cfg (fst (start_step (tascar_backend J E q) e c))"
  using assms
  by (auto simp: start_step_def is_audio_active_def backend_call_def restart_session_if_needed_def unmoved_def report_error_devcfg Let_def)

lemma held_leave:
  assumes "unmoved r cfg c"
  shows "unmoved r cfg (fst (run_all (leave_steps J) c))"
proof (rule run_all_inv [of _ "unmoved r cfg", OF _ assms])
  fix f :: "'a tascar_scheme config_client \<Rightarrow> 'a tascar_scheme config_client run" and c
  assume f: "f \<in> set (leave_steps J)" and h: "unmoved r cfg c"
  have "unchanged.along f" using f leave_unchanged by (auto simp: list_all_iff)
  then show "unmoved r cfg (fst (f c))" using leave_backend [OF f] h by (simp add: unchanged.along_def same_static_def unmoved_def)
qed

lemma held_extra:
  assumes "unmoved r cfg c" and "js_index J js ''extracfg'' = Inr x"
    and "js_is_null J x \<or> set_extra_config (en_fpu E) J (js_dump J x) r = (r, None)"
  shows "unmoved r cfg (fst (extra_step J (tascar_backend J E q) js c))"
  using assms by (auto simp: extra_step_def with_value_def backend_call_def unmoved_def)

lemma held_stage:
  assumes "unmoved r cfg c" and "js_index J cfg ''roomdev'' = Inr devs" and "read_stage J (js_elements J devs) [] = Inr (stage_of r)"
  shows "unmoved r cfg (fst (stage_step J (tascar_backend J E q) c))"
  using assms by (auto simp: stage_step_def with_value_def backend_call_def unmoved_def stage_again)

lemma held_room:
  assumes "unmoved r cfg c" and "js_index J cfg ''room'' = Inr room"
    and "read_relay J room = Inr (stg_host (ovr_stage r), stg_port (ovr_stage r), stg_pin (ovr_stage r))"
    and "read_settings J js room = Inr s" and "read_ports J js s = Inr (settings r)"
    and "my_js_value J (get_i32 J) js ''stagedevid'' 0 = Inr i" and "own_id r = ucast i"
    and "js_index J js ''extracfg'' = Inr x" and "js_is_null J x \<or> set_extra_config (en_fpu E) J (js_dump J x) r = (r, None)"
    and "js_index J cfg ''roomdev'' = Inr devs" and "read_stage J (js_elements J devs) [] = Inr (stage_of r)"
  shows "unmoved r cfg (fst (room_step J (tascar_backend J E q) e js c))"
proof -
  let ?unmoved = "\<lambda>p. unmoved r cfg (fst p)"
  have room: "js_index J (ocl_devcfg c) ''room'' = Inr room" using assms(1,2) by (simp add: unmoved_def)
  have tail: "?unmoved (and_run (extra_step J (tascar_backend J E q) js c) (stage_step J (tascar_backend J E q)))" if "unmoved r cfg c" for c
    by (intro and_run_inv [of "unmoved r cfg"] held_extra [OF that assms(8,9)] held_stage [OF _ assms(10,11)])
  have "?unmoved (and_run (backend_call (vt_set_render_settings (tascar_vtable J E) (settings r) (ucast i)) c) (\<lambda>c.
      and_run (extra_step J (tascar_backend J E q) js c) (stage_step J (tascar_backend J E q))))" if "unmoved r cfg c" for c
    by (intro and_run_inv [of "unmoved r cfg"] held_backend [OF that, of _ None] tail) (simp add: settings_again assms(7))
  then have mid: "?unmoved (with_value (throwing (read_ports J js s)) (\<lambda>s.
      with_value (throwing (my_js_value J (get_i32 J) js ''stagedevid'' 0)) (\<lambda>i c.
      and_run (backend_call (vt_set_render_settings (tascar_vtable J E) s (ucast i)) c) (\<lambda>c.
      and_run (extra_step J (tascar_backend J E q) js c) (stage_step J (tascar_backend J E q))))) c)" if "unmoved r cfg c" for c
    using that assms(5,6) by (simp add: with_value_def)
  have "?unmoved (and_run (ambient_step e s c) (with_value (throwing (read_ports J js s)) (\<lambda>s.
      with_value (throwing (my_js_value J (get_i32 J) js ''stagedevid'' 0)) (\<lambda>i c.
      and_run (backend_call (vt_set_render_settings (tascar_vtable J E) s (ucast i)) c) (\<lambda>c.
      and_run (extra_step J (tascar_backend J E q) js c) (stage_step J (tascar_backend J E q)))))))" if "unmoved r cfg c" for c
    by (intro and_run_inv [of "unmoved r cfg"] held_ambient [OF that] mid)
  then have "?unmoved (with_value (throwing (read_settings J js room)) (\<lambda>s c.
      and_run (ambient_step e s c) (with_value (throwing (read_ports J js s)) (\<lambda>s.
      with_value (throwing (my_js_value J (get_i32 J) js ''stagedevid'' 0)) (\<lambda>i c.
      and_run (backend_call (vt_set_render_settings (tascar_vtable J E) s (ucast i)) c) (\<lambda>c.
      and_run (extra_step J (tascar_backend J E q) js c) (stage_step J (tascar_backend J E q))))))) c)" if "unmoved r cfg c" for c
    using that by (simp only: with_value_Inr [OF assms(4)])
  moreover have "?unmoved (backend_call (set_relay_server (tascar_vtable J E) (stg_host (ovr_stage r)) (stg_port (ovr_stage r)) (stg_pin (ovr_stage r))) c)"
    by (intro held_backend [OF assms(1), of _ None] relay_again) simp
  ultimately show ?thesis using assms(1)
    unfolding room_step_def with_value_Inr [OF room] with_value_Inr [OF assms(3)] split_beta fst_conv snd_conv tascar_methods(1)
    by (auto intro: and_run_inv [of "unmoved r cfg"])
qed

lemma held_parse:
  assumes "unmoved r cfg c" and "js_index J cfg ''audiocfg'' = Inr ac" and "session_active r" "\<not> restart_needed r" "audio_active r"
    and "js_is_null J ac \<or> read_audio J ac = Inr (ovr_audiodevice r) \<and> my_js_value J (get_bool J) ac ''restart'' False = Inr False"
    and "js_index J cfg ''rendersettings'' = Inr js" and "get_stage_dev J js = Inr (stg_thisdevice (ovr_stage r))"
    and "\<And>c. unmoved r cfg c \<Longrightarrow> unmoved r cfg (fst (room_step J (tascar_backend J E q) e js c))"
  shows "unmoved r cfg (fst (parse_config J (tascar_backend J E q) e c))"
proof -
  have "unmoved r cfg (fst (and_run (device_step J js c) (\<lambda>c. and_run (room_step J (tascar_backend J E q) e js c) (start_step (tascar_backend J E q) e))))"
    if "unmoved r cfg c" for c
    by (intro and_run_inv [of "unmoved r cfg"] held_device [OF that] assms(9) held_start [OF _ assms(3-5)]) (use assms(8) in simp)
  then have "unmoved r cfg (fst (with_value (throwing (js_index J (ocl_devcfg c) ''rendersettings'')) (\<lambda>js c.
      and_run (device_step J js c) (\<lambda>c. and_run (room_step J (tascar_backend J E q) e js c) (start_step (tascar_backend J E q) e))) c))"
    if "unmoved r cfg c" for c
    using that assms(7) by (simp add: unmoved_def with_value_def)
  then have "unmoved r cfg (fst (apply_config J (tascar_backend J E q) e c))" if "unmoved r cfg c" for c
    unfolding apply_config_def using held_audio [OF that assms(2,5,6)] by (auto intro: and_run_inv [of "unmoved r cfg"])
  then show ?thesis unfolding parse_config_def using held_leave [OF assms(1)] by (auto intro: and_run_inv [of "unmoved r cfg"])
qed

lemma query_static:
  assumes "query_change r r'"
  shows "static r r' \<and> session_active r' = session_active r \<and> restart_needed r' = restart_needed r \<and> audio_active r' = audio_active r \<and>
    ovr_audiodevice r' = ovr_audiodevice r"
  using assms by (auto simp: query_change_def static_def)

section \<open>A stage that lacks this device\<close>

lemma regrown_fields: "regrown r r' \<Longrightarrow> own_id r' = own_id r \<and> settings r' = settings r \<and> in_room r' = in_room r"
proof -
  assume "regrown r r'"
  then have s: "ovr_stage r' = (ovr_stage r)\<lparr>stg_stage := stage_of r'\<rparr>" by (simp add: regrown_def)
  show ?thesis unfolding own_id_def settings_def in_room_def by (subst s, simp)+
qed

lemma start_inserts:
  assumes "start_session E r = (r', None)" and "stage_ok r" and "in_room r"
  shows "map_of (stage_of r') (own_id r') \<noteq> None"
proof -
  obtain scene d r1 where f: "doc_frame (r\<lparr>session_active := True, restart_needed := False\<rparr>) r1"
    and s: "start_session E r = and_then (open_client E r1) (launch_session E scene d)" by (rule start_session_eq)
  have "stage_ok r1" "in_room r1" "own_id r1 = own_id r"
    using f doc_frame_fields(3,4) [OF f] assms(2,3) by (simp_all add: doc_frame_def stage_ok_def in_room_def own_id_def)
  then have p: "present (own_id r) (touch_stage (own_id r) r1)" by (simp add: present_touch)
  obtain r2 where r2: "open_client E r1 = (r2, None)" "launch_session E scene d r2 = (r', None)"
    using s assms(1) by (metis and_then_None_iff)
  have "ovr_stage r2 = ovr_stage (touch_stage (own_id r) r1)"
    using r2(1) \<open>in_room r1\<close> \<open>own_id r1 = own_id r\<close> by (auto simp: open_client_def Let_def split: sum.splits prod.splits)
  moreover have "ovr_stage r' = ovr_stage r2" using res_frame_static [OF launch_frame [OF r2(2)]] by (simp add: static_def)
  moreover have "own_id r' = own_id r" using regrown_fields [OF start_regrown [OF assms(1)]] by simp
  ultimately show ?thesis using p by (simp add: present_def)
qed

end
