(* ===== verification/Config_Properties.thy ===== *)
theory Config_Properties
  imports Config_Apply
begin

text \<open>
  The properties of the configuration client together with the TASCAR renderer, with an example of
  a configuration that is applied.
\<close>

section \<open>An example\<close>

text \<open>A configuration of a device with the number 3 that is, or is not, on the stage.\<close>

abbreviation example_settings :: jval where
  "example_settings \<equiv> Jobj [(''id'', Jnum 3), (''stagedevid'', Jnum 3)]"

abbreviation example_room :: jval where
  "example_room \<equiv> Jobj [(''host'', Jstr ''relay'')]"

definition example_devs :: "bool \<Rightarrow> jval list" where
  "example_devs listed = (if listed then [Jobj [(''id'', Jnum 3)]] else [])"

definition example_doc :: "bool \<Rightarrow> jval" where
  "example_doc listed = Jobj [(''rendersettings'', example_settings), (''room'', example_room), (''roomdev'', Jarr (example_devs listed))]"

definition example_cenv :: client_env where
  "example_cenv =
     \<lparr>ce_perform = (\<lambda>_. Inr ''hash''), ce_apreq = (\<lambda>_. ''0''), ce_file = (\<lambda>_. None), ce_hash = length,
      ce_sndfile = (\<lambda>_. Inl (ErrMsg [])), ce_hostname = [], ce_home = None, ce_hints = None, ce_cards = [],
      ce_ifaddrs = [], ce_version = ''0''\<rparr>"

definition example_queries :: query_env where
  "example_queries = \<lparr>qe_now = 0, qe_cpu_load = 0, qe_thermal = (\<lambda>_. None), qe_xruns = 0, qe_replies = [], qe_modules = [],
     qe_vars = (\<lambda>_. []), qe_mixer = \<lparr>mx_sound = (\<lambda>_. Inl (ErrMsg [])), mx_ports = (\<lambda>_. Inl (ErrMsg []))\<rparr>\<rparr>"

abbreviation example_backend :: "tascar backend_api" where
  "example_backend \<equiv> tascar_backend example_json (example_senv None) example_queries"

definition example_poller :: "bool \<Rightarrow> stage_map \<Rightarrow> tascar config_client" where
  "example_poller listed m =
     \<lparr>ocl_backend = (tascar_ctor [] zero_endpoint ''dev'' 0 False)\<lparr>audio_active := True,
        ovr_stage := default_stage\<lparr>stg_stage := m, stg_thisstagedeviceid := 3\<rparr>\<rparr>,
      ocl_lobby = ''srv'', ocl_folder = [], ocl_quitrequest = False, ocl_isovbox = False, ocl_owner = [], ocl_refplugcfg = [],
      ocl_requestcnt = 0, ocl_uname_sysname = [], ocl_uname_release = [], ocl_uname_machine = [], ocl_devcfg = example_doc listed,
      ocl_standalone_mixer = False, ocl_lasterrmsg = ''xxx'', ocl_nocancelwait = True, ocl_log = []\<rparr>"

lemmas example_json_simps = example_json_def jval_lib_def my_js_value_def

lemma example_parts [simp]:
  "js_index example_json (example_doc listed) ''rendersettings'' = Inr example_settings"
  "js_index example_json (example_doc listed) ''room'' = Inr example_room"
  "js_index example_json (example_doc listed) ''roomdev'' = Inr (Jarr (example_devs listed))"
  "js_index example_json (example_doc listed) ''audiocfg'' = Inr Jnull"
  "js_index example_json example_settings ''extracfg'' = Inr Jnull"
  "read_relay example_json example_room = Inr (''relay'', 0, 0)"
  "my_js_value example_json (get_i32 example_json) example_settings ''stagedevid'' 0 = Inr 3"
  "js_is_object example_json (Jobj kvs)" "js_is_null example_json Jnull" "\<not> js_is_null example_json (Jobj kvs)"
  "js_is_array example_json (Jarr vs)" "js_elements example_json (Jarr vs) = vs"
  by (simp_all add: example_json_simps example_doc_def read_relay_def cut_def)

lemma unescape_Nil: "unescape [] = []"
  by (simp add: unescape_def ovstrrep_def ovstrrep_loop.simps [of _ _ "[]"])

lemmas example_reads = stage_dev_body_def read_pos_def read_rot_def read_settings_def room_steps_def render_fields_def
  ambient_fields_def read_ports_def headtracking_steps_def getjs_def setjs_def example_json_simps cut_def unescape_Nil

lemma example_device: "\<exists>d. get_stage_dev example_json example_settings = Inr d"
  by (simp add: get_stage_dev_def example_reads)

lemma example_values:
  "\<exists>s s'. read_settings example_json example_settings example_room = Inr s \<and> read_ports example_json example_settings s = Inr s' \<and>
     rs_ambientsound s = [] \<and> rs_id s' = 3"
  by (simp add: example_reads)

lemma example_stage:
  "\<exists>m. read_stage example_json (example_devs listed) [] = Inr m \<and> (if listed then map_of m 3 \<noteq> None else m = [])"
  by (simp add: get_stage_dev_def example_reads example_devs_def)

lemma example_leave:
  "ocl_devcfg c = example_doc listed \<Longrightarrow> ocl_standalone_mixer c = False \<Longrightarrow> run_all (leave_steps example_json) c = (c, None)"
  by (simp add: leave_steps_def leave_defs example_json_simps example_doc_def with_value_def)

lemma example_room_step:
  assumes "ocl_devcfg c = example_doc listed" and "\<not> session_active (ocl_backend c)"
    and "read_settings example_json example_settings example_room = Inr s" and "read_ports example_json example_settings s = Inr s'"
    and "rs_ambientsound s = []" and "read_stage example_json (example_devs listed) [] = Inr m"
  shows "room_step example_json example_backend example_cenv example_settings c =
    (c\<lparr>ocl_backend := tascar_set_stage m (tascar_set_render_settings s' 3
       (upd_stage (\<lambda>t. t\<lparr>stg_host := ''relay'', stg_port := 0, stg_pin := 0\<rparr>) (ocl_backend c)))\<rparr>, None)"
  using assms
  by (simp add: room_step_def with_value_def backend_call_def set_relay_server_def ambient_step_def extra_step_def stage_step_def Let_def)

lemma example_start:
  assumes "\<not> session_active (ocl_backend c)" and "audio_active (ocl_backend c)"
    and "tc_tscinclude (ts_cfg (ocl_backend c)) = []" and "tc_proxyclients (ts_cfg (ocl_backend c)) = []"
  shows "\<exists>c'. start_step example_backend example_cenv c = (c', None) \<and> ocl_quitrequest c' = ocl_quitrequest c \<and>
    ocl_devcfg c' = ocl_devcfg c \<and> start_session (example_senv None) (ocl_backend c) = (ocl_backend c', None)"
proof -
  obtain r where r: "start_session (example_senv None) (ocl_backend c) = (r, None)" using example_starts assms(3,4) by blast
  have "\<exists>c'. start_step example_backend example_cenv c = (c', None) \<and> ocl_quitrequest c' = ocl_quitrequest c \<and>
      ocl_devcfg c' = ocl_devcfg c \<and> ocl_backend c' = r"
    using r assms(1,2)
    by (simp add: start_step_def is_audio_active_def restart_session_if_needed_def backend_call_def and_then_None_iff Let_def
       report_error_def url_requestcnt_def note_effect_def split: sum.split)
  with r show ?thesis by auto
qed

lemma example_poller_fields:
  "ocl_devcfg (example_poller listed m) = example_doc listed" "\<not> ocl_standalone_mixer (example_poller listed m)"
  "\<not> ocl_quitrequest (example_poller listed m)" "\<not> session_active (ocl_backend (example_poller listed m))"
  "audio_active (ocl_backend (example_poller listed m))" "ts_cfg (ocl_backend (example_poller listed m)) = tascar_config_ctor"
  by (simp_all add: example_poller_def tascar_ctor_def render_base.defs render_base_ctor_def)

lemma setter_fields:
  "session_active (set_thisdev d r) = session_active r" "audio_active (set_thisdev d r) = audio_active r" "ts_cfg (set_thisdev d r') = ts_cfg r'"
  "session_active (tascar_set_stage m r') = session_active r'" "audio_active (tascar_set_stage m r') = audio_active r'"
  "ts_cfg (tascar_set_stage m r') = ts_cfg r'" "session_active (tascar_set_render_settings s i r') = session_active r'"
  "audio_active (tascar_set_render_settings s i r') = audio_active r'" "ts_cfg (tascar_set_render_settings s i r') = ts_cfg r'"
  "ts_cfg (upd_stage f r') = ts_cfg r'" "tc_tscinclude tascar_config_ctor = []" "tc_proxyclients tascar_config_ctor = []"
  by (simp_all add: set_thisdev_def tascar_set_stage_def tascar_set_render_settings_def restart_if_changed_def tascar_config_ctor_def
      require_session_restart_def set_stage_def set_render_settings_def upd_stage_def Let_def)

lemma example_turn:
  "\<exists>c' m. parse_config example_json example_backend example_cenv (example_poller listed m0) = (c', None) \<and> \<not> ocl_quitrequest c' \<and>
     ocl_devcfg c' = example_doc listed \<and> read_stage example_json (example_devs listed) [] = Inr m \<and>
     (if listed then map_of m 3 \<noteq> None else m = []) \<and> own_id (ocl_backend c') = 3 \<and> rs_id (settings (ocl_backend c')) = 3"
proof -
  let ?c = "example_poller listed m0"
  obtain d where d: "get_stage_dev example_json example_settings = Inr d" using example_device by blast
  obtain s s' where s: "read_settings example_json example_settings example_room = Inr s"
    "read_ports example_json example_settings s = Inr s'" "rs_ambientsound s = []" "rs_id s' = 3" using example_values by blast
  obtain m where m: "read_stage example_json (example_devs listed) [] = Inr m" "if listed then map_of m 3 \<noteq> None else m = []"
    using example_stage by blast
  define c1 where "c1 = ?c\<lparr>ocl_backend := set_thisdev d (ocl_backend ?c)\<rparr>"
  define c2 where "c2 = c1\<lparr>ocl_backend := tascar_set_stage m (tascar_set_render_settings s' 3
       (upd_stage (\<lambda>t. t\<lparr>stg_host := ''relay'', stg_port := 0, stg_pin := 0\<rparr>) (ocl_backend c1)))\<rparr>"
  note defs = c2_def c1_def setter_fields settings_stage set_stage_stage(1)
  have c: "ocl_devcfg ?c = example_doc listed" "ocl_standalone_mixer ?c = False" "ocl_quitrequest c2 = False" "ocl_devcfg c2 = example_doc listed"
    "\<not> session_active (ocl_backend c1)" "\<not> session_active (ocl_backend c2)" "audio_active (ocl_backend c2)" "ocl_devcfg c1 = example_doc listed"
    "tc_tscinclude (ts_cfg (ocl_backend c2)) = []" "tc_proxyclients (ts_cfg (ocl_backend c2)) = []"
    "own_id (ocl_backend c2) = 3" "settings (ocl_backend c2) = s'"
    by (simp_all add: defs own_id_def settings_def example_poller_fields)
  obtain c' where c': "start_step example_backend example_cenv c2 = (c', None)" "ocl_quitrequest c' = False" "ocl_devcfg c' = example_doc listed"
    "start_session (example_senv None) (ocl_backend c2) = (ocl_backend c', None)"
    using example_start [OF c(6,7,9,10)] c(3,4) by auto
  have "device_step example_json example_settings ?c = (c1, None)" by (simp add: device_step_def with_value_def d c1_def)
  moreover have "room_step example_json example_backend example_cenv example_settings c1 = (c2, None)"
    using example_room_step [OF c(8,5) s(1-3) m(1)] by (simp add: c2_def)
  moreover have "\<not> ocl_quitrequest ?c" by (simp add: example_poller_def)
  ultimately have "parse_config example_json example_backend example_cenv ?c = (c', None)"
    using c' c(1) by (simp add: parse_config_def apply_config_def example_leave [OF c(1,2)] audio_step_def with_value_def)
  then show ?thesis using c' m regrown_fields [OF start_regrown [OF c'(4)]] c(11,12) s(4) by auto
qed

lemma example_poller_state:
  "stage_ok (ocl_backend (example_poller listed m)) = omap_wf m" "\<not> session_active (ocl_backend (example_poller listed m))"
  "own_id (ocl_backend (example_poller listed m)) = 3" "stage_of (ocl_backend (example_poller listed m)) = m"
  "ocl_devcfg (example_poller listed m) = example_doc listed"
  by (simp_all add: example_poller_def stage_ok_def own_id_def tascar_ctor_def render_base.defs render_base_ctor_def)

section \<open>Properties\<close>

text \<open>C9. The thread of the configuration client leaves nothing behind: from the construction of the TASCAR
  renderer, whatever the server answers and whatever fails in any turn, a session object exists exactly
  when the session is ready, and none exists beside an inactive session; when the thread ends
  normally, be it because the server is not reachable at the start or because it was stopped,
  no session, session client, web mixer or audio server is left.\<close>

theorem service_releases_resources:
  assumes "service J (tascar_backend J E q) e turns c = (c', ex)"
    and "ocl_backend c = tascar_ctor zitapath ip dev pinglogport secondary"
    and "\<And>A e'. (A, e') \<in> set turns \<Longrightarrow> \<exists>E' q'. A = tascar_backend J E' q'"
  shows "(ts_tascar (ocl_backend c') \<noteq> None \<longleftrightarrow> session_ready (ocl_backend c')) \<and>
    (\<not> session_active (ocl_backend c') \<longrightarrow> ts_tascar (ocl_backend c') = None \<and> ts_ovboxclient (ocl_backend c') = None) \<and>
    (ex = None \<longrightarrow> ts_tascar (ocl_backend c') = None \<and> ts_ovboxclient (ocl_backend c') = None \<and>
       ts_h_webmixer (ocl_backend c') = None \<and> ts_h_jack (ocl_backend c') = None)"
proof -
  let ?A = "tascar_backend J E q"
  have init: "resources_ok (ocl_backend c) \<and> released (ocl_backend c)"
    using assms(2) by (simp add: resources_ok_def released_def tascar_ctor_def render_base.defs render_base_ctor_def)
  have "resources_ok (ocl_backend c') \<and> released (ocl_backend c') \<or> resources_ok (ocl_backend c') \<and> ex \<noteq> None \<or>
      (\<exists>c1. resources_ok (ocl_backend c1) \<and> service_end ?A c1 = (c', ex))"
  proof (rule service_keeps [OF assms(1), of "\<lambda>r. resources_ok r \<and> released r" resources_ok])
    fix A' e' and r r' :: tascar assume "(A', e') \<in> set turns" "calls A' r r'" "resources_ok r"
    then show "resources_ok r'" using assms(3) calls_resources by blast
  qed (use init in \<open>auto intro: query_resources query_released query_changes\<close>)
  then have "resources_ok (ocl_backend c') \<and> (ex = None \<longrightarrow> released (ocl_backend c'))"
    using service_end_released by blast
  then show ?thesis by (auto simp: resources_ok_def released_def)
qed

theorem service_releases_resources_witness:
  "\<exists>c c' ex. config_client_ctor True True None False (tascar_ctor [] zero_endpoint ''dev'' 0 False) ''srv'' = Inr c \<and>
     service example_json example_backend example_cenv [(example_backend, example_cenv)] c = (c', ex) \<and>
     (ts_tascar (ocl_backend c') \<noteq> None \<longleftrightarrow> session_ready (ocl_backend c')) \<and> (ex = None \<longrightarrow> ts_h_jack (ocl_backend c') = None)"
proof -
  obtain c where c: "config_client_ctor True True None False (tascar_ctor [] zero_endpoint ''dev'' 0 False) ''srv'' = Inr c"
    and b: "ocl_backend c = tascar_ctor [] zero_endpoint ''dev'' 0 False" by (simp add: config_client_ctor_def)
  obtain c' ex where run: "service example_json example_backend example_cenv [(example_backend, example_cenv)] c = (c', ex)" by fastforce
  from service_releases_resources [OF run b] c run show ?thesis by auto
qed

text \<open>C7. A configuration takes effect: when a turn applies it without an exception and without a request to
  leave, the audio is active, a session is active that needs no restart, and this device, the relay
  server, the rendering settings, the number of this device and the stage of the renderer are
  those read from the configuration; the stage has at most entries in addition that the start
  of the session inserts for numbers that it looks up.\<close>

theorem configuration_applied:
  assumes "parse_config J (tascar_backend J E q) e c = (c', None)" and "\<not> ocl_quitrequest c'"
    and "js_index J (ocl_devcfg c) ''rendersettings'' = Inr js" and "\<not> js_is_null J js"
    and "js_index J (ocl_devcfg c) ''room'' = Inr room" and "js_is_object J room"
    and "js_index J (ocl_devcfg c) ''roomdev'' = Inr devs" and "js_is_array J devs"
  shows "session_active (ocl_backend c') \<and> \<not> restart_needed (ocl_backend c') \<and> audio_active (ocl_backend c') \<and>
    (\<exists>k. stage_config_of J (ocl_devcfg c) k \<and> has_config k (ocl_backend c'))"
  using applied_parts [OF assms] by metis

theorem configuration_applied_witness:
  "\<exists>c' k. parse_config example_json example_backend example_cenv (example_poller True []) = (c', None) \<and>
     session_active (ocl_backend c') \<and> stage_config_of example_json (example_doc True) k \<and> has_config k (ocl_backend c')"
proof -
  obtain c' where c': "parse_config example_json example_backend example_cenv (example_poller True []) = (c', None)" "\<not> ocl_quitrequest c'"
    using example_turn [of True "[]"] by auto
  from configuration_applied [OF c', of example_settings example_room "Jarr (example_devs True)"] c'(1) show ?thesis
    by (auto simp: example_poller_state)
qed



text \<open>C12. An unchanged configuration does nothing: when a turn has applied it, a later turn that finds the same
  configuration, and the renderer as the queries in between have left it, does not touch the renderer, whatever
  else fails in that turn; in particular the session goes on. This holds when the configuration does
  not order a restart of the audio, when the audio server runs with the configured rate
  and period, and when the stage has this device and the device of the settings.\<close>

theorem repeated_configuration:
  fixes c c2 :: "'a tascar_scheme config_client"
  assumes "parse_config J (tascar_backend J E q) e c = (c1, None)" and "\<not> ocl_quitrequest c1"
    and "js_index J (ocl_devcfg c) ''rendersettings'' = Inr js" and "\<not> js_is_null J js"
    and "js_index J (ocl_devcfg c) ''room'' = Inr room" and "js_is_object J room"
    and "js_index J (ocl_devcfg c) ''roomdev'' = Inr devs" and "js_is_array J devs"
    and "js_index J (ocl_devcfg c) ''audiocfg'' = Inr ac"
    and "js_is_null J ac \<or> read_audio J ac = Inr (ovr_audiodevice (ocl_backend c1)) \<and>
       my_js_value J (get_bool J) ac ''restart'' False = Inr False"
    and "read_stage J (js_elements J devs) [] = Inr m" and "map_of m (own_id (ocl_backend c1)) \<noteq> None"
    and "map_of m (rs_id (settings (ocl_backend c1))) \<noteq> None"
    and "query_change (ocl_backend c1) (ocl_backend c2)" and "ocl_devcfg c2 = ocl_devcfg c" and "en_fpu E' = en_fpu E"
    and "parse_config J (tascar_backend J E' q') e' c2 = (c3, ex)"
  shows "ocl_backend c3 = ocl_backend c2"
proof -
  obtain k and r r3 :: "'a tascar_scheme" where k: "stage_config_of J (ocl_devcfg c) k" and has: "has_config k (ocl_backend c1)"
    and act: "session_active (ocl_backend c1) \<and> \<not> restart_needed (ocl_backend c1) \<and> audio_active (ocl_backend c1)"
    and extra: "extra_applied J E js r r3" and cfg: "ts_cfg (ocl_backend c1) = ts_cfg r3" "ts_mc (ocl_backend c1) = ts_mc r3"
      "ts_localip (ocl_backend c1) = ts_localip r"
    using applied_parts [OF assms(1-8)] .
  let ?r = "ocl_backend c2"
  have st: "static (ocl_backend c1) ?r" "session_active ?r" "\<not> restart_needed ?r" "audio_active ?r"
    "ovr_audiodevice ?r = ovr_audiodevice (ocl_backend c1)"
    using query_static [OF assms(14)] act by auto
  obtain s i where read: "get_stage_dev J js = Inr (sc_device k)" "read_relay J room = Inr (sc_relay k)" "read_settings J js room = Inr s"
    "read_ports J js s = Inr (sc_settings k)" "my_js_value J (get_i32 J) js ''stagedevid'' 0 = Inr i" "sc_number k = ucast i" "sc_stage k = m"
    using k assms(3,5,7,11) by (auto simp: stage_config_of_def)
  have "stage_of (ocl_backend c1) = m"
    using has assms(12,13) read(7) touched_present [of "{sc_number k, rs_id (sc_settings k)}" m] by (auto simp: has_config_def)
  then have r: "stg_thisdevice (ovr_stage ?r) = sc_device k" "stage_of ?r = m" "settings ?r = sc_settings k" "own_id ?r = ucast i"
    "(stg_host (ovr_stage ?r), stg_port (ovr_stage ?r), stg_pin (ovr_stage ?r)) = sc_relay k"
    using has st(1) read(6) by (simp_all add: has_config_def static_def settings_def own_id_def)
  obtain x where x: "js_index J js ''extracfg'' = Inr x" "js_is_null J x \<or> set_extra_config (en_fpu E) J (js_dump J x) r = (r3, None)"
    using extra by (auto simp: extra_applied_def split: if_splits)
  then have "js_is_null J x \<or> set_extra_config (en_fpu E') J (js_dump J x) ?r = (?r, None)"
    using extra_config_again [of "en_fpu E" J "js_dump J x" r r3 ?r] cfg st(1) assms(16) by (auto simp: static_def)
  note room = held_room [OF _ assms(5) _ read(3) _ read(5) r(4) x(1) this assms(7)]
  have "unmoved ?r (ocl_devcfg c) (fst (parse_config J (tascar_backend J E' q') e' c2))"
  proof (rule held_parse [OF _ assms(9) st(2-4) _ assms(3)])
    show "unmoved ?r (ocl_devcfg c) (fst (room_step J (tascar_backend J E' q') e' js c'))" if "unmoved ?r (ocl_devcfg c) c'" for c'
      by (rule room [OF that]) (use read r assms(11) in simp_all)
  qed (use assms(10,15) read(1) r(1) st(5) in \<open>simp_all add: unmoved_def\<close>)
  then show ?thesis using assms(17) by (simp add: unmoved_def)
qed

theorem repeated_configuration_witness:
  "\<exists>c1 c3 ex. parse_config example_json example_backend example_cenv (example_poller True []) = (c1, None) \<and>
     parse_config example_json example_backend example_cenv c1 = (c3, ex) \<and> ocl_backend c3 = ocl_backend c1"
proof -
  obtain c1 m where c1: "parse_config example_json example_backend example_cenv (example_poller True []) = (c1, None)" "\<not> ocl_quitrequest c1"
    "ocl_devcfg c1 = example_doc True" "read_stage example_json (example_devs True) [] = Inr m" "map_of m 3 \<noteq> None"
    "own_id (ocl_backend c1) = 3" "rs_id (settings (ocl_backend c1)) = 3"
    using example_turn [of True "[]"] by auto
  obtain c3 ex where c3: "parse_config example_json example_backend example_cenv c1 = (c3, ex)" by fastforce
  have "query_change (ocl_backend c1) (ocl_backend c1)"
    using query_change_cases(2) [of "ocl_backend c1" "ts_client_stats (ocl_backend c1)"] by simp
  then have "ocl_backend c3 = ocl_backend c1"
    by (intro repeated_configuration [OF c1(1,2) _ _ _ _ _ _ _ _ _ _ _ _ _ refl c3, of example_settings example_room "Jarr (example_devs True)" Jnull m])
      (use c1(3-7) in \<open>simp_all add: example_poller_state\<close>)
  with c1(1) c3 show ?thesis by blast
qed

text \<open>C37. A stage without this device restarts the session in every turn: the start of a session with a relay server
  inserts an entry for this device, and the next turn that applies a \<open>roomdev\<close> without it finds a
  changed stage and starts a new session, after which the entry is there again.\<close>

theorem absent_device_restarts:
  fixes c :: "'a tascar_scheme config_client"
  assumes "parse_config J (tascar_backend J E q) e c = (c', None)" and "\<not> ocl_quitrequest c'"
    and "js_index J (ocl_devcfg c) ''rendersettings'' = Inr js" and "\<not> js_is_null J js"
    and "js_index J (ocl_devcfg c) ''room'' = Inr room" and "js_is_object J room"
    and "js_index J (ocl_devcfg c) ''roomdev'' = Inr devs" and "js_is_array J devs"
    and "stage_ok (ocl_backend c)" and "session_active (ocl_backend c) \<longrightarrow> audio_active (ocl_backend c)"
    and "read_stage J (js_elements J devs) [] = Inr m" and "map_of m (own_id (ocl_backend c)) = None"
    and "map_of (stage_of (ocl_backend c)) (own_id (ocl_backend c)) \<noteq> None"
    and "my_js_value J (get_i32 J) js ''stagedevid'' 0 = Inr i" and "ucast i = own_id (ocl_backend c)"
  shows "(\<exists>r. start_session E r = (ocl_backend c', None)) \<and> own_id (ocl_backend c') = own_id (ocl_backend c) \<and>
    (in_room (ocl_backend c') \<longrightarrow> map_of (stage_of (ocl_backend c')) (own_id (ocl_backend c')) \<noteq> None)"
proof -
  obtain c1 c2 c3 c4 js' where parts: "run_all (leave_steps J) c = (c1, None)" "audio_step J (tascar_backend J E q) c1 = (c2, None)"
    "js_index J (ocl_devcfg c2) ''rendersettings'' = Inr js'" "device_step J js' c2 = (c3, None)"
    "room_step J (tascar_backend J E q) e js' c3 = (c4, None)" "start_step (tascar_backend J E q) e c4 = (c', None)"
    using parse_config_parts [OF assms(1,2)] .
  have c2: "ocl_devcfg c2 = ocl_devcfg c" "ovr_stage (ocl_backend c2) = ovr_stage (ocl_backend c)"
    using leave_static [OF parts(1)] unchanged.along_run [OF unchanged_audio parts(2)] by (simp_all add: same_static_def static_def)
  then have js: "js' = js" using parts(3) assms(3) by simp
  obtain dv where c3: "ocl_backend c3 = set_thisdev dv (ocl_backend c2)" "ocl_devcfg c3 = ocl_devcfg c"
    using device_applied [OF parts(4)] assms(4) c2 js by auto
  obtain host port pin s and r1 r3 :: "'a tascar_scheme" where
    r1: "set_relay_server (tascar_vtable J E) host port pin (ocl_backend c3) = (r1, None)"
    and r3: "extra_applied J E js (tascar_set_render_settings s (ucast i) r1) r3" and c4: "ocl_backend c4 = tascar_set_stage m r3"
    using room_applied [OF parts(5)] assms(5-8,11,14) c3(2) js by (metis sum.inject(2))
  have "ovr_stage r3 = ovr_stage (tascar_set_render_settings s (ucast i) r1)"
    using r3 extra_stage by (fastforce simp: extra_applied_def split: if_splits)
  then have stage3: "stage_of r3 = stage_of (ocl_backend c)" "own_id r3 = own_id (ocl_backend c)"
    using relay_stage [OF r1] assms(15) by (simp_all add: settings_stage c3(1) thisdev_stage c2(2) own_id_def)
  have "map (apsnd anonymous) (stage_of r3) \<noteq> map (apsnd anonymous) m"
  proof
    assume "map (apsnd anonymous) (stage_of r3) = map (apsnd anonymous) m"
    from arg_cong [OF this, of "\<lambda>xs. fst ` set xs"] have "fst ` set (stage_of r3) = fst ` set m" by (simp add: image_image)
    with assms(12,13) stage3(1) show False by (simp add: map_of_eq_None_iff)
  qed
  then have r4: "session_active (ocl_backend c4) \<longrightarrow> restart_needed (ocl_backend c4)" "own_id (ocl_backend c4) = own_id (ocl_backend c)"
    using stage3(2) by (auto simp: c4 tascar_set_stage_def restart_if_changed_def set_stage_def require_session_restart_def stage_neq_iff own_id_def)
  have "keyed.along (run_all (leave_steps J))" by (intro keyed.all_step keyed_along_same) (simp add: leave_backend)
  then have "keyed c c1" using parts(1) keyed.along_run by blast
  then have "keyed c c4"
    using keyed.along_run [OF keyed_audio parts(2)] keyed.along_run [OF keyed_device parts(4)] keyed.along_run [OF keyed_room parts(5)]
      keyed.trans by blast
  then have k: "stage_ok (ocl_backend c4)" "session_active (ocl_backend c4) \<longrightarrow> audio_active (ocl_backend c4)"
    using assms(9,10) by (auto simp: keyed_def tascar_renderer.tracked_def)
  obtain r where r: "stage_ok r" "start_session E r = (ocl_backend c', None)" using start_restarts [OF parts(6) k] r4(1) by blast
  have "regrown (ocl_backend c4) (ocl_backend c')" using start_applied [OF parts(6)] by blast
  then show ?thesis using r r4(2) start_inserts [OF r(2,1)] regrown_fields [OF start_regrown [OF r(2)]] regrown_fields by metis
qed

theorem absent_device_restarts_witness:
  "\<exists>c' r. parse_config example_json example_backend example_cenv (example_poller False [(3, default_device)]) = (c', None) \<and>
     start_session (example_senv None) r = (ocl_backend c', None)"
proof -
  let ?c = "example_poller False [(3, default_device)]"
  obtain c' where c': "parse_config example_json example_backend example_cenv ?c = (c', None)" "\<not> ocl_quitrequest c'"
    "read_stage example_json (example_devs False) [] = Inr []"
    using example_turn [of False "[(3, default_device)]"] by auto
  have "\<exists>r. start_session (example_senv None) r = (ocl_backend c', None)"
    using absent_device_restarts [OF c'(1,2), of example_settings example_room "Jarr (example_devs False)" "[]" 3] c'(3)
    by (auto simp: example_poller_state omap_wf_def)
  with c'(1) show ?thesis by blast
qed

text \<open>C39. What is read of a configuration has its types: the stage holds, under each number, the last device that
  names it, and no others; the additional ports are exactly the given numbers that are ports, unchanged by the
  smaller width and never 0; the additional connections are a proper map without an
  empty name.\<close>

theorem parsed_values_well_typed:
  assumes "read_stage J devs [] = Inr m" and "read_settings J js room = Inr s0" and "read_ports J js s0 = Inr s"
  shows "omap_wf m \<and> (\<exists>ds. list_all2 (\<lambda>dev d. get_stage_dev J dev = Inr d) devs ds \<and>
      (\<forall>i. map_of m i = map_of (rev (map (\<lambda>d. (sd_id d, d)) ds)) i)) \<and>
    (\<exists>x vs. js_index J js ''xrecport'' = Inr x \<and>
      list_all2 (\<lambda>x v. port_value J x = Inr v) (if js_is_array J x then js_elements J x else []) vs \<and>
      map uint (rs_xrecport s) = filter (\<lambda>p. 0 < p \<and> p < 2 ^ 16) (map sint vs)) \<and>
    omap_wf (rs_xports s) \<and> [] \<notin> fst ` set (rs_xports s)"
proof -
  obtain ds where ds: "list_all2 (\<lambda>dev d. get_stage_dev J dev = Inr d) devs ds"
    "\<forall>i. map_of m i = map_of (rev (map (\<lambda>d. (sd_id d, d)) ds)) i"
    using read_stage_last [OF assms(1)] by (auto simp: option.case_eq_if)
  obtain xp xr ps where x: "js_index J js ''xport'' = Inr xp" "js_index J js ''xrecport'' = Inr xr"
    "(if js_is_array J xr then read_xrecports J (js_elements J xr) else Inr []) = Inr ps"
    and s: "read_all (headtracking_steps J js)
         (s0\<lparr>rs_xports := (if js_is_array J xp then read_xports J (js_elements J xp) [] else []), rs_xrecport := ps\<rparr>) = Inr s"
    using assms(3) by (auto simp: read_ports_def bind_err_Inr_iff)
  have r: "rs_xports s = (if js_is_array J xp then read_xports J (js_elements J xp) [] else [])" "rs_xrecport s = ps"
    using s by (auto simp: headtracking_steps_def setjs_def bind_err_Inr_iff)
  obtain vs where vs: "list_all2 (\<lambda>x v. port_value J x = Inr v) (if js_is_array J xr then js_elements J xr else []) vs"
    "ps = map ucast (filter (\<lambda>v. 0 < sint v \<and> sint v < 2 ^ 16) vs)"
    using x(3) read_xrecports_values [of J "js_elements J xr" ps] by (cases "js_is_array J xr") auto
  have "map uint ps = filter (\<lambda>p. 0 < p \<and> p < 2 ^ 16) (map sint vs)"
    unfolding vs(2) by (induction vs) (simp_all add: port_width)
  with vs(1) x(2) r ds show ?thesis
    using read_stage_wf [OF assms(1)] read_xports_wf [of "[]" J "js_elements J xp"] by auto
qed

lemma example_ports:
  "port_value example_json (Jnum 4464) = Inr 4464" "port_value example_json (Jnum 70000) = Inr 70000"
  "port_value example_json (Jstr ''22'') = Inr 22"
  by (simp_all add: port_value_def example_json_def jval_lib_def cut_def atoi_def is_space_def is_digit_def read_digits_def)

theorem parsed_values_well_typed_witness:
  "\<exists>m s0 s. read_stage example_json (example_devs True) [] = Inr m \<and>
     read_settings example_json (Jobj [(''xrecport'', Jarr [Jnum 4464, Jnum 70000, Jstr ''22''])]) example_room = Inr s0 \<and>
     read_ports example_json (Jobj [(''xrecport'', Jarr [Jnum 4464, Jnum 70000, Jstr ''22''])]) s0 = Inr s \<and>
     omap_wf m \<and> map uint (rs_xrecport s) = [4464, 22]"
proof -
  let ?js = "Jobj [(''xrecport'', Jarr [Jnum 4464, Jnum 70000, Jstr ''22''])]"
  obtain m where m: "read_stage example_json (example_devs True) [] = Inr m" using example_stage [of True] by blast
  obtain s0 where s0: "read_settings example_json ?js example_room = Inr s0" by (simp add: example_reads)
  obtain ps where "read_xrecports example_json [Jnum 4464, Jnum 70000, Jstr ''22''] = Inr ps"
    unfolding read_xrecports.simps port_value_def [symmetric] example_ports by simp
  then obtain s where s: "read_ports example_json ?js s0 = Inr s" by (simp add: read_ports_def headtracking_steps_def setjs_def example_json_simps)
  have "js_index example_json ?js ''xrecport'' = Inr (Jarr [Jnum 4464, Jnum 70000, Jstr ''22''])" by (simp add: example_json_def jval_lib_def)
  then obtain vs where "list_all2 (\<lambda>x v. port_value example_json x = Inr v) [Jnum 4464, Jnum 70000, Jstr ''22''] vs"
    and "map uint (rs_xrecport s) = filter (\<lambda>p. 0 < p \<and> p < 2 ^ 16) (map sint vs)" and "omap_wf m"
    using parsed_values_well_typed [OF m s0 s] by auto
  with m s0 s show ?thesis by (auto simp: list_all2_Cons1 example_ports)
qed

text \<open>C40. The first update of the thread is not protected: when the server (or a portal in front of it) answers with a page instead of
  a configuration, the exception leaves the thread, which terminates the program; the same
  answer to any later update ends only that turn, which keeps the hash and the configuration.\<close>

theorem first_update_unprotected:
  assumes "\<And>req. ce_perform e req = Inr (CHR ''<'' # page)" and "\<And>c. \<exists>js c'. device_json J A e c = (Inr js, c')"
  shows "(\<exists>c'. service J A e turns c = (c', Some (Throws (ErrMsg ''Invalid hash code, propably not a REST API response.'')))) \<and>
    (\<exists>c'. service_turn J (A, e) (h, c) = ((h, c'), None) \<and> ocl_devcfg c' = ocl_devcfg c)"
proof -
  obtain js c1 where j: "device_json J A e (read_local J e c) = (Inr js, c1)" using assms(2) by blast
  obtain js' c2 where k: "device_json J A e c = (Inr js', c2)" using assms(2) by blast
  obtain c3 where "device_update J A e (ocl_lobby (read_local J e c)) (get_deviceid (ocl_backend (read_local J e c))) [] (read_local J e c) =
      (Inl (ErrMsg ''Invalid hash code, propably not a REST API response.''), c3)" using update_page [OF assms(1) j] by blast
  then have "service J A e turns c = (c3, Some (Throws (ErrMsg ''Invalid hash code, propably not a REST API response.'')))"
    by (simp add: service_def first_update_def)
  moreover obtain c4 where u: "device_update J A e (ocl_lobby c) (get_deviceid (ocl_backend c)) h c =
      (Inl (ErrMsg ''Invalid hash code, propably not a REST API response.''), c4)" using update_page [OF assms(1) k] by blast
  then have "service_turn J (A, e) (h, c) = ((h, c4), None)" by (simp add: service_turn_def)
  ultimately show ?thesis using device_update_devcfg [OF u] by blast
qed

theorem first_update_unprotected_witness:
  "\<exists>c'. service example_json (example_backend) (example_cenv\<lparr>ce_perform := (\<lambda>_. Inr ''<html>'')\<rparr>) [] (example_poller True []) =
     (c', Some (Throws (ErrMsg ''Invalid hash code, propably not a REST API response.'')))"
proof -
  have "\<exists>js c'. device_json example_json example_backend (example_cenv\<lparr>ce_perform := (\<lambda>_. Inr ''<html>'')\<rparr>) c = (Inr js, c')" for c
    by (simp add: device_json_def Let_def example_json_def jval_lib_def split_beta)
  with first_update_unprotected [of "example_cenv\<lparr>ce_perform := (\<lambda>_. Inr ''<html>'')\<rparr>" "''html>''" example_json example_backend] show ?thesis
    by simp
qed

end
