(* ===== verification/Spec2Isabelle.thy ===== *)
theory Spec2Isabelle
  imports Session_Ports Tcp_Server Socket_Options Host_Tools Config_Properties
begin

text \<open>
  libov is the communication library of the ovbox system: devices of a session exchange audio
  over UDP, directly (peer to peer) or through a relay server.  This development models the parts
  of \<open>src/src\<close> that carry the logic and states what makes them correct.

  How the parts interact.  A local audio tool sends datagrams to the client's receiver port; the
  thread \<open>recsrv\<close> packs each one behind a session header and fans it out to the peers and the
  server.  Datagrams from outside are received by \<open>sendsrv\<close>, checked against the session secret,
  put in order by \<open>message_sorter_t\<close> and handed to \<open>process_msg\<close>, which answers pings, measures
  their answers, updates the table of peers and forwards data to the local tools and to proxy
  clients.  \<open>pingservice\<close> sends registrations and pings; \<open>checkstatus\<close> watches the table.
  The configuration client \<open>ov_client_orlandoviols_t\<close> polls a server, merges what it gets and calls the
  setters of the renderer; the renderer \<open>ov_render_tascar_t\<close> generates a session document from them,
  starts the audio server and owns the session and the session client \<open>ovboxclient_t\<close>.

  Theories, in the order of their imports:
    \<^item> \<open>Prelude\<close>: machine types, faults as values, memory blocks, little-endian codecs (locale
      \<open>fixed_codec\<close>), decimal text, and the locale \<open>event_machine\<close> of machines that consume events.
    \<^item> \<open>Std_Map\<close>: \<open>std::map\<close> as an ordered association list, with the locale \<open>ordered_dict\<close>.
    \<^item> \<open>Wire\<close>: \<open>common.h\<close>, \<open>common.cc\<close>: the session header, \<open>packmsg\<close>, \<open>encryptmsg\<close>, \<open>decryptmsg\<close>.
    \<^item> \<open>Udp\<close>: \<open>errmsg.*\<close> and the class \<open>udpsocket_t\<close> of \<open>udpsocket.*\<close>.
    \<^item> \<open>Ovbox_Socket\<close>: \<open>msgbuf_t\<close>, \<open>sequence_map_t\<close> and \<open>ovbox_udpsocket_t\<close> of \<open>udpsocket.*\<close>.
    \<^item> \<open>Sorter\<close>: \<open>message_sorter_t\<close> of \<open>ovboxclient.*\<close>, with an abstract specification of
      re-ordering that the code refines.
    \<^item> \<open>Ping_Stats\<close>: \<open>ping_stat_collector_t\<close> of \<open>ovboxclient.*\<close>.
    \<^item> \<open>Endpoints\<close>: \<open>callerlist.*\<close>: the table of peers and its periodic check.
    \<^item> \<open>Client\<close>: the class \<open>ovboxclient_t\<close>, one definition per method or loop body.
    \<^item> \<open>Client_Routing\<close>, \<open>Client_Receive\<close>: its properties for the two directions.
    \<^item> \<open>Client_Threads\<close>: the threads of the client and the calls of its owner as turns that interleave in
      any order; the locale \<open>safe_machine\<close> of steps that can fault but do not on good input, and
      the client as its instance.
    \<^item> \<open>Client_Streams\<close>: sequences of datagrams: what \<open>sendsrv\<close> does with them is the abstract
      re-ordering of \<open>Sorter\<close> and forwarding; a stream of one client arrives at another as it was sent.
    \<^item> \<open>Tcp_Tunnel\<close>: \<open>ovtcpsocket.*\<close>: datagrams as frames over a TCP connection.
    \<^item> \<open>Tcp_Server\<close>: its acceptor and the threads of its connections, as a step relation: the acceptor accepts, joins the
      thread that used the same descriptor before and stores the new one in separate steps, and a thread closes its
      descriptor before it ends, so the descriptor can be in use again meanwhile.
    \<^item> \<open>Socket_Options\<close>: the options of the UDP and TCP sockets and the timeouts that the client asks for.
    \<^item> \<open>Ov_Types\<close>: the configuration data of \<open>ov_types.*\<close> and its comparison operators.
    \<^item> \<open>Json\<close>: access to JSON values (\<open>ov_tools.h\<close>) over the library \<open>json_lib\<close>, and trees as an instance.
    \<^item> \<open>Render_Base\<close>: \<open>ov_render_base_t\<close> of \<open>ov_types.*\<close>: the life of a session and when it is
      restarted; the contract of the virtual methods is the locale \<open>renderer\<close>.
    \<^item> \<open>Tools\<close>: text and file helpers of \<open>ov_tools.cc\<close>, \<open>soundcardtools.cc\<close> (ALSA branch) and the
      address functions of \<open>udpsocket.cc\<close> and \<open>MACAddressUtility.cc\<close> (Linux branches).
    \<^item> \<open>Tascar_Types\<close>: the members of \<open>ov_render_tascar_t\<close>, the metronome, ports and names.
    \<^item> \<open>Tascar_Queries\<close>: what the renderer reports: plugins, mixer, levels, client statistics, load.
    \<^item> \<open>Tascar_Network\<close>, \<open>Tascar_Scene\<close>, \<open>Tascar_Document\<close>: the session document (XML) that is
      generated from the stage: network receivers and senders, virtual acoustics, modules.
    \<^item> \<open>Tascar_Config\<close>: \<open>set_extra_config\<close>, as a list of steps on the members.
    \<^item> \<open>Tascar_Session\<close>: start and end of a session and of the audio server, the setters, and the
      renderer as an interpretation of the locale \<open>renderer\<close>; what a session depends on and which
      resources it holds.
    \<^item> \<open>Tascar_Processes\<close>: the processes of a session, those of the document and the web mixer, as a
      specification that \<open>start_session\<close> implements.
    \<^item> \<open>Session_Client\<close>: the client that \<open>start_session\<close> makes: its threads never fault for a device number
      that fits the table of peers, and read outside the table for any other.
    \<^item> \<open>Session_Ports\<close>: the ports to which the client of a session forwards the packets of another device, against
      those at which the receivers of the document listen.
    \<^item> \<open>Config_Json\<close>: \<open>json_merge\<close> of \<open>ov_tools.cc\<close>, and what \<open>ov_client_orlandoviols.cc\<close> reads from the
      configuration: devices, audio, relay server, rendering settings, ports, stage.
    \<^item> \<open>Config_Client\<close>: the class \<open>ov_client_orlandoviols_t\<close>: requests, the report of the device, uploads,
      and \<open>parse_config\<close> as the sequence of its sections over any renderer.
    \<^item> \<open>Config_Service\<close>: the thread \<open>service\<close>; the locale \<open>run_order\<close> of relations that runs respect, and as
      its instance the sequence of calls of the renderer that any turn consists of.
    \<^item> \<open>Config_Apply\<close>: the TASCAR renderer as the renderer of the client, and what each section of
      \<open>parse_config\<close> does to it: what it stores, what it keeps, when it requires a restart.
    \<^item> \<open>Config_Properties\<close>: the properties of client and renderer together.
    \<^item> \<open>Host_Tools\<close>: the search for the autorun script in \<open>/proc\<close> (\<open>ov_tools.cc\<close>), the buffer of a request
      (\<open>WriteMemoryCallback\<close>), the lists of sound devices of Windows and macOS, the addresses of a Windows host.

  Conventions.  Integers have their C width; \<open>size_t\<close> lengths are natural numbers where no
  subtraction can pass below zero and are wrapped explicitly (\<open>size_sub\<close>) where one can.  A read or
  write outside a buffer is the value \<open>Inl Out_of_bounds\<close>; an exception is an \<open>err\<close>.  A thread is
  its loop body as a function of the object, the buffers and what the calls into the operating
  system return; the datagrams, callbacks and log lines that it causes are returned in order.
  The client as a whole is the record \<open>client_run\<close>: its object and the buffers of its threads; an
  execution is any list of turns (\<open>run_turns\<close>).  The loop of \<open>sendsrv\<close> around the sorter is the function \<open>drain\<close> and the loop of the tunnel is
  \<open>tcp_loop\<close>; their termination is proved.  The loop of \<open>ovstrrep\<close> may run forever; it is a partial
  function whose value is then \<open>None\<close>.

  Parameters.  libsodium is the record \<open>sodium\<close>, with the documented length of a sealed box and
  the documented inversion under a key pair as hypotheses; the operating system's send result is
  \<open>kernel\<close>; floating-point operations are the record \<open>fpu\<close>; name resolution is \<open>resolver\<close>; the
  JSON library is the record \<open>json_lib\<close>; a TCP connection is the list of what \<open>read\<close> and \<open>write\<close>
  return.  The TASCAR library is the record \<open>tascar_lib\<close> (text of numbers) and, with the file
  system, the process of the audio server and the clock, the record \<open>session_env\<close>: what each of
  the calls of \<open>start_session\<close> and \<open>start_audiobackend\<close> returns or throws.  The answers of the
  configuration server, files, and host data are the record \<open>client_env\<close>; the methods of a renderer that the
  configuration client calls are \<open>backend_api\<close>, with what the queries of the TASCAR renderer
  find in the system in \<open>query_env\<close>.  Which values of a socket option are accepted is \<open>option_kernel\<close>, with the
  documented range of a receive timeout as hypothesis; what \<open>realloc\<close>, \<open>/proc\<close> and the audio libraries
  return are arguments.  A running TASCAR
  session is represented by the document it was created from, a child process by its command.

  Not modelled: the example program; the methods that only start and join
  threads; the helpers that only call the operating system or print (thread priorities, \<open>log\<close>), the
  hardware address on Windows and macOS and the audio server's branches for these platforms; the
  registration of the OSC methods; methods whose body is empty or commented out.  A turn of a thread is
  atomic: scheduling inside a loop body and data races are not modelled.  The outcome of system calls is constant within
  one turn of the configuration client; each turn has its own.
\<close>

end
